(* ===== verification/Prelude.thy ===== *)
theory Prelude
  imports Complex_Main "HOL-Library.AList" "HOL-Library.Sublist"
begin

text \<open>
  What every component of the model shares: JavaScript strings as lists of code units, the string
  operations of the standard library the sources call, insertion-ordered maps, JSON values, fetch
  headers, numbers that may be NaN or infinite, and thrown values.

  Conventions.
  \<^item> A string is a \<open>char list\<close>; one \<open>char\<close> stands for one UTF-16 code unit. The code units of
    the model are the first 256; the source's literals outside them (the ellipsis, arrows and
    emoji in messages meant for a reader) are written with the one-unit stand-in \<open>ellipsis\<close> or
    left out, as the comment at each place says.
  \<^item> A JavaScript \<open>Map\<close> and the own properties of a plain object are association lists in
    insertion order; \<open>AList.update\<close> is \<open>set\<close>: it overwrites in place or appends.
  \<^item> A value that may be \<open>undefined\<close> is an option; \<open>null\<close> inside JSON is \<open>JNull\<close>.
  \<^item> A thrown value is \<open>Inl\<close> of an \<open>exn\<close>; a returned value is \<open>Inr\<close>.
\<close>

named_theorems js_simps "evaluation rules of the string and object operations"

text \<open>The first entry with a given name: there is none exactly when the name does not occur.\<close>

lemma find_key_None: "find (\<lambda>x. f x = n) xs = None \<longleftrightarrow> n \<notin> f ` set xs"
  by (induction xs) auto

lemma find_SomeD: "find P xs = Some x \<Longrightarrow> x \<in> set xs \<and> P x"
  by (induction xs) (auto split: if_splits)

lemma find_NoneD: "find P xs = None \<Longrightarrow> x \<in> set xs \<Longrightarrow> \<not> P x"
  by (induction xs) (auto split: if_splits)

text \<open>\<open>Map.set\<close> adds at most the new pair.\<close>

lemma update_new: "k \<notin> fst ` set al \<Longrightarrow> AList.update k v al = al @ [(k, v)]"
  by (induction al) auto

lemma set_update_subset: "set (AList.update k v al) \<subseteq> insert (k, v) (set al)"
  by (induction al) auto

lemma in_set_update: "x \<in> set (AList.update k v al) \<Longrightarrow> x = (k, v) \<or> x \<in> set al"
  using set_update_subset by fastforce

subsection \<open>Strings\<close>

definition starts_with :: "string \<Rightarrow> string \<Rightarrow> bool" where
  "starts_with s p = prefix p s"

definition ends_with :: "string \<Rightarrow> string \<Rightarrow> bool" where
  "ends_with s p = suffix p s"

definition includes_str :: "string \<Rightarrow> string \<Rightarrow> bool" where
  "includes_str s p = sublist p s"

text \<open>\<open>String.prototype.split\<close> by a non-empty literal; \<open>k\<close> counts the characters of a match that
  are still to be skipped.\<close>

fun split_go :: "string \<Rightarrow> nat \<Rightarrow> string \<Rightarrow> string \<Rightarrow> string list" where
  "split_go p k acc [] = [rev acc]"
| "split_go p (Suc k) acc (c # cs) = split_go p k acc cs"
| "split_go p 0 acc (c # cs) =
     (if prefix p (c # cs) then rev acc # split_go p (length p - 1) [] cs
      else split_go p 0 (c # acc) cs)"

definition split_str :: "string \<Rightarrow> string \<Rightarrow> string list" where
  "split_str p s = split_go p 0 [] s"

fun join_str :: "string \<Rightarrow> string list \<Rightarrow> string" where
  "join_str sep [] = []"
| "join_str sep [x] = x"
| "join_str sep (x # y # ys) = x @ sep @ join_str sep (y # ys)"

definition replace_str :: "string \<Rightarrow> string \<Rightarrow> string \<Rightarrow> string" where
  "replace_str p r s = join_str r (split_str p s)"

definition is_ws :: "char \<Rightarrow> bool" where
  "is_ws c = (c \<in> {CHR 0x09, CHR 0x0A, CHR 0x0B, CHR 0x0C, CHR 0x0D, CHR '' '', CHR 0xA0})"

definition trim :: "string \<Rightarrow> string" where
  "trim s = rev (dropWhile is_ws (rev (dropWhile is_ws s)))"

definition lower_char :: "char \<Rightarrow> char" where
  "lower_char c =
     (let n = (of_char c :: nat) in
      if 65 \<le> n \<and> n \<le> 90 \<or> 192 \<le> n \<and> n \<le> 222 \<and> n \<noteq> 215 then char_of (n + 32) else c)"

definition to_lower :: "string \<Rightarrow> string" where
  "to_lower = map lower_char"

text \<open>\<open>s.slice(-n)\<close>, \<open>s.slice(0, n)\<close> and \<open>s.slice(n)\<close> for a non-negative \<open>n\<close>.\<close>

definition slice_last :: "nat \<Rightarrow> string \<Rightarrow> string" where
  "slice_last n s = (if n = 0 then s else drop (length s - n) s)"

definition ellipsis :: string where
  "ellipsis = [CHR 0x85]"

fun nat_str :: "nat \<Rightarrow> string" where
  "nat_str n = (if n < 10 then [char_of (48 + n)] else nat_str (n div 10) @ [char_of (48 + n mod 10)])"

declare nat_str.simps [simp del]

definition int_str :: "int \<Rightarrow> string" where
  "int_str i = (if i < 0 then CHR ''-'' # nat_str (nat (- i)) else nat_str (nat i))"

lemma starts_with_Nil [simp, js_simps]: "starts_with s []"
  by (simp add: starts_with_def)

lemma starts_with_Cons [simp, js_simps]:
  "starts_with [] (p # ps) = False"
  "starts_with (c # cs) (p # ps) = (c = p \<and> starts_with cs ps)"
  by (auto simp: starts_with_def)

lemma starts_with_append: "starts_with (p @ s) p"
  by (simp add: starts_with_def)

lemma starts_with_iff: "starts_with s p = (\<exists>t. s = p @ t)"
  by (auto simp: starts_with_def prefix_def)

lemma split_go_nonempty [simp]: "split_go p k acc s \<noteq> []"
  by (induction p k acc s rule: split_go.induct) auto

lemma split_str_nonempty [simp]: "split_str p s \<noteq> []"
  by (simp add: split_str_def)

lemma join_Cons: "xs \<noteq> [] \<Longrightarrow> join_str sep (x # xs) = x @ sep @ join_str sep xs"
  by (cases xs) auto

text \<open>Joining what was split with the same separator gives the string back.\<close>

lemma join_split_go:
  "p \<noteq> [] \<Longrightarrow> k \<le> length s \<Longrightarrow> join_str p (split_go p k acc s) = rev acc @ drop k s"
proof (induction p k acc s rule: split_go.induct)
  case (1 p k acc)
  then show ?case by simp
next
  case (2 p k acc c cs)
  then show ?case by simp
next
  case (3 p acc c cs)
  show ?case
  proof (cases "prefix p (c # cs)")
    case True
    then obtain t where t: "c # cs = p @ t" by (auto simp: prefix_def)
    with "3.prems" obtain p' where p: "p = c # p'" by (cases p) auto
    with t have cs: "cs = p' @ t" by simp
    have "join_str p (split_go p (length p - 1) [] cs) = drop (length p - 1) cs"
      using "3.IH"(1) [OF True "3.prems"(1)] cs p by simp
    with True p cs show ?thesis by (simp add: join_Cons)
  next
    case False
    with "3.IH"(2) [OF False "3.prems"(1)] show ?thesis by simp
  qed
qed

lemma join_split: "p \<noteq> [] \<Longrightarrow> join_str p (split_str p s) = s"
  by (simp add: split_str_def join_split_go)

text \<open>A string that does not contain the separator is one piece.\<close>

lemma split_go_absent:
  "\<not> sublist p s \<Longrightarrow> split_go p 0 acc s = [rev acc @ s]"
proof (induction s arbitrary: acc)
  case Nil
  then show ?case by simp
next
  case (Cons c cs)
  then have "\<not> prefix p (c # cs)" "\<not> sublist p cs"
    by (auto simp: sublist_Cons_right)
  with Cons.IH show ?case by simp
qed

lemma split_str_absent: "\<not> sublist p s \<Longrightarrow> split_str p s = [s]"
  by (simp add: split_str_def split_go_absent)

text \<open>Splitting at a character gives back pieces without it that were joined by it.\<close>

lemma split_go_char:
  "c \<notin> set l \<Longrightarrow> split_go [c] 0 acc (l @ c # t) = (rev acc @ l) # split_go [c] 0 [] t"
  by (induction l arbitrary: acc) auto

lemma split_join:
  "xs \<noteq> [] \<Longrightarrow> \<forall>x \<in> set xs. c \<notin> set x \<Longrightarrow> split_str [c] (join_str [c] xs) = xs"
proof (induction xs)
  case (Cons x xs)
  show ?case
  proof (cases "xs = []")
    case True
    with Cons.prems have "\<not> sublist [c] x" by (auto simp: sublist_def)
    with True show ?thesis by (simp add: split_str_absent)
  next
    case False
    with Cons show ?thesis by (simp add: join_Cons split_str_def split_go_char)
  qed
qed simp

lemma replace_str_absent: "\<not> sublist p s \<Longrightarrow> replace_str p r s = s"
  by (simp add: replace_str_def split_str_absent)

text \<open>Replacing a separator without newlines goes line by line.\<close>

lemma join_split_go_acc: "join_str r (split_go p k acc s) = rev acc @ join_str r (split_go p k [] s)"
proof (induction s arbitrary: k acc)
  case (Cons c cs)
  show ?case
  proof (cases k)
    case 0
    show ?thesis
    proof (cases "prefix p (c # cs)")
      case True
      with 0 show ?thesis by (simp add: join_Cons)
    next
      case False
      with 0 Cons [of 0 "c # acc"] Cons [of 0 "[c]"] show ?thesis by simp
    qed
  next
    case (Suc j)
    with Cons [of j acc] show ?thesis by simp
  qed
qed simp

lemma split_go_newline:
  assumes p: "p \<noteq> []" "CHR 0x0A \<notin> set p"
  shows "k \<le> length x \<Longrightarrow>
    join_str r (split_go p k acc (x @ CHR 0x0A # y)) =
      join_str r (split_go p k acc x) @ CHR 0x0A # join_str r (split_go p 0 [] y)"
proof (induction x arbitrary: k acc)
  case Nil
  then have "\<not> prefix p (CHR 0x0A # y)" using p by (cases p) auto
  with Nil join_split_go_acc [of r p 0 "CHR 0x0A # acc" y] show ?case by simp
next
  case (Cons c x)
  show ?case
  proof (cases k)
    case (Suc j)
    with Cons.IH [of j acc] Cons.prems show ?thesis by simp
  next
    case 0
    have same: "prefix p (c # x @ CHR 0x0A # y) \<longleftrightarrow> prefix p (c # x)"
    proof
      assume pf: "prefix p (c # x @ CHR 0x0A # y)"
      then obtain z where z: "(c # x) @ CHR 0x0A # y = p @ z" by (auto simp: prefix_def)
      then consider us where "c # x = p @ us" | us where "p = (c # x) @ us" "us @ z = CHR 0x0A # y"
        by (metis append_eq_append_conv2)
      then show "prefix p (c # x)"
      proof cases
        case 2
        with p(2) show ?thesis by (cases us) auto
      qed auto
    qed (metis append_Cons prefix_prefix)
    show ?thesis
    proof (cases "prefix p (c # x)")
      case True
      then have "length p - 1 \<le> length x" using prefix_length_le by fastforce
      with 0 True same Cons.IH [of "length p - 1" "[]"] show ?thesis by (simp add: join_Cons)
    next
      case False
      with 0 same Cons.IH [of 0 "c # acc"] show ?thesis by simp
    qed
  qed
qed

lemma replace_newline:
  "p \<noteq> [] \<Longrightarrow> CHR 0x0A \<notin> set p \<Longrightarrow>
     replace_str p r (x @ CHR 0x0A # y) = replace_str p r x @ CHR 0x0A # replace_str p r y"
  by (simp add: replace_str_def split_str_def split_go_newline)

lemma replace_str_Nil [simp]: "replace_str p r [] = []"
  by (simp add: replace_str_def split_str_def)

lemma replace_self: "p \<noteq> [] \<Longrightarrow> replace_str p r p = r"
proof -
  assume p: "p \<noteq> []"
  then obtain c cs where c: "p = c # cs" by (cases p) auto
  have "split_go p k acc s = [rev acc]" if "length s \<le> k" for k acc s
    using that by (induction p k acc s rule: split_go.induct) auto
  with c show ?thesis by (simp add: replace_str_def split_str_def)
qed

lemma replace_str_same: "p \<noteq> [] \<Longrightarrow> replace_str p p s = s"
  by (simp add: replace_str_def join_split)

text \<open>Trimming.\<close>

lemma dropWhile_rev_dropWhile: "dropWhile P (rev (dropWhile P (rev (dropWhile P s)))) = rev (dropWhile P (rev (dropWhile P s)))"
proof (cases "dropWhile P s")
  case (Cons c cs)
  have "\<not> P c" using Cons by (metis hd_dropWhile list.distinct(1) list.sel(1))
  with Cons show ?thesis
    by (cases "dropWhile P (rev (c # cs))" rule: rev_cases)
       (auto simp: dropWhile_append dropWhile_eq_Nil_conv split: if_splits)
next
  case Nil
  then show ?thesis by (simp only: dropWhile.simps rev.simps)
qed

lemma trim_trim [simp]: "trim (trim s) = trim s"
  by (simp add: trim_def dropWhile_rev_dropWhile)

lemma trim_fix: "trim s = s \<longleftrightarrow> s = [] \<or> \<not> is_ws (hd s) \<and> \<not> is_ws (last s)"
proof
  assume t: "trim s = s"
  show "s = [] \<or> \<not> is_ws (hd s) \<and> \<not> is_ws (last s)"
  proof (cases "s = []")
    case False
    let ?d = "dropWhile is_ws (rev (dropWhile is_ws s))"
    have r: "?d = rev s" using t by (metis rev_rev_ident trim_def)
    have "\<not> is_ws (last s)"
      using False r by (metis hd_dropWhile hd_rev rev_is_Nil_conv)
    moreover have "length s \<le> length (dropWhile is_ws s)"
      using r length_dropWhile_le [of is_ws "rev (dropWhile is_ws s)"] by simp
    then have "dropWhile is_ws s = s"
      by (metis append_Nil append_eq_append_conv length_append nle_le suffixE suffix_dropWhile suffix_length_le)
    then have "\<not> is_ws (hd s)" using False by (metis hd_dropWhile)
    ultimately show ?thesis by simp
  qed simp
next
  assume "s = [] \<or> \<not> is_ws (hd s) \<and> \<not> is_ws (last s)"
  then show "trim s = s"
  proof
    assume a: "\<not> is_ws (hd s) \<and> \<not> is_ws (last s)"
    show ?thesis
    proof (cases "s = []")
      case False
      then have "dropWhile is_ws s = s" using a by (cases s) auto
      moreover have "dropWhile is_ws (rev s) = rev s" using a False by (cases s rule: rev_cases) auto
      ultimately show ?thesis by (simp add: trim_def)
    qed (simp add: trim_def)
  qed (simp add: trim_def)
qed

lemma length_slice_last: "length (slice_last n s) \<le> length s"
  by (simp add: slice_last_def)

lemma nat_str_small: "n < 10 \<Longrightarrow> nat_str n = [char_of (48 + n)]"
  by (simp add: nat_str.simps)

lemma nat_str_big: "\<not> n < 10 \<Longrightarrow> nat_str n = nat_str (n div 10) @ [char_of (48 + n mod 10)]"
  by (subst nat_str.simps) simp

lemma nat_str_nonempty [simp]: "nat_str n \<noteq> []"
  by (subst nat_str.simps) simp

text \<open>Decimal numerals are digits only and determine the number.\<close>

definition is_digit :: "char \<Rightarrow> bool" where
  "is_digit c = (let n = (of_char c :: nat) in 48 \<le> n \<and> n \<le> 57)"

definition digit_val :: "char \<Rightarrow> nat" where
  "digit_val c = of_char c - 48"

definition digits_val :: "string \<Rightarrow> nat" where
  "digits_val s = foldl (\<lambda>a c. 10 * a + digit_val c) 0 s"

lemma of_char_char_of_digit: "n < 10 \<Longrightarrow> (of_char (char_of (48 + n) :: char) :: nat) = 48 + n"
  by (simp add: of_char_of)

lemma nat_str_digits: "c \<in> set (nat_str n) \<Longrightarrow> is_digit c"
proof (induction n rule: nat_str.induct)
  case (1 n)
  show ?case
  proof (cases "n < 10")
    case True
    with 1 show ?thesis
      by (auto simp: nat_str_small is_digit_def of_char_char_of_digit)
  next
    case False
    with 1 show ?thesis
      by (auto simp: nat_str_big is_digit_def of_char_char_of_digit)
  qed
qed

lemma digits_val_nat_str: "digits_val (nat_str n) = n"
proof (induction n rule: nat_str.induct)
  case (1 n)
  show ?case
  proof (cases "n < 10")
    case True
    then show ?thesis
      by (simp add: nat_str_small digits_val_def digit_val_def of_char_char_of_digit)
  next
    case False
    with 1 show ?thesis
      by (simp add: nat_str_big digits_val_def digit_val_def of_char_char_of_digit)
  qed
qed

lemma nat_str_inject [simp]: "(nat_str m = nat_str n) = (m = n)"
  by (metis digits_val_nat_str)

subsection \<open>Sets, windows of time\<close>

text \<open>\<open>new Set(xs)\<close>: the values in the order of their first occurrence.\<close>

definition set_add :: "'a \<Rightarrow> 'a list \<Rightarrow> 'a list" where
  "set_add x s = (if x \<in> set s then s else s @ [x])"

definition js_set :: "'a list \<Rightarrow> 'a list" where
  "js_set xs = fold set_add xs []"

lemma set_fold_add [simp]: "set (fold set_add xs s) = set s \<union> set xs"
  by (induction xs arbitrary: s) (auto simp: set_add_def)

lemma set_js_set [simp]: "set (js_set xs) = set xs"
  by (simp add: js_set_def)

lemma distinct_fold_add: "distinct s \<Longrightarrow> distinct (fold set_add xs s)"
  by (induction xs arbitrary: s) (auto simp: set_add_def)

lemma distinct_js_set [simp]: "distinct (js_set xs)"
  by (simp add: js_set_def distinct_fold_add)

text \<open>Moments that are at least \<open>gap\<close> apart, each from the one before.\<close>

fun spaced :: "rat \<Rightarrow> rat list \<Rightarrow> bool" where
  "spaced gap (a # b # rs) = (a + gap \<le> b \<and> spaced gap (b # rs))"
| "spaced gap _ = True"

lemma spaced_tl: "spaced gap (a # rs) \<Longrightarrow> spaced gap rs"
  by (cases rs) auto

text \<open>So there are at most one more of them than gaps fit between the first and the last.\<close>

lemma spaced_count:
  "spaced gap (a # rs) \<Longrightarrow> a + of_nat (length rs) * gap \<le> last (a # rs)"
proof (induction rs arbitrary: a)
  case (Cons b rs)
  from Cons.prems have "a + gap \<le> b" "spaced gap (b # rs)" by simp_all
  moreover from this(2) have "b + of_nat (length rs) * gap \<le> last (b # rs)" by (rule Cons.IH)
  ultimately show ?case by (simp add: algebra_simps)
qed simp

end
