(* ===== verification/Values.thy ===== *)
theory Values
  imports Prelude
begin

text \<open>
  JavaScript values the program computes with: numbers that may be \<open>NaN\<close> or infinite (\<open>jsnum\<close>,
  with \<open>Number(string)\<close>), JSON values, insertion-ordered objects, fetch \<open>Headers\<close>.
  A finite number is a rational: the rounding of doubles is not modelled.
\<close>

subsection \<open>Numbers\<close>

datatype jsnum = NaN | PInf | NInf | Num rat

fun js_lt :: "jsnum \<Rightarrow> jsnum \<Rightarrow> bool" where
  "js_lt NaN _ = False"
| "js_lt _ NaN = False"
| "js_lt PInf _ = False"
| "js_lt _ NInf = False"
| "js_lt NInf _ = True"
| "js_lt _ PInf = True"
| "js_lt (Num a) (Num b) = (a < b)"

fun js_le :: "jsnum \<Rightarrow> jsnum \<Rightarrow> bool" where
  "js_le NaN _ = False"
| "js_le _ NaN = False"
| "js_le NInf _ = True"
| "js_le _ PInf = True"
| "js_le PInf _ = False"
| "js_le _ NInf = False"
| "js_le (Num a) (Num b) = (a \<le> b)"

definition js_gt :: "jsnum \<Rightarrow> jsnum \<Rightarrow> bool" where
  "js_gt a b = js_lt b a"

definition js_ge :: "jsnum \<Rightarrow> jsnum \<Rightarrow> bool" where
  "js_ge a b = js_le b a"

definition is_finite :: "jsnum \<Rightarrow> bool" where
  "is_finite n = (case n of Num _ \<Rightarrow> True | _ \<Rightarrow> False)"

lemma js_le_Num_iff [simp]:
  "js_le n (Num b) = (n = NInf \<or> (\<exists>a. n = Num a \<and> a \<le> b))"
  by (cases n) auto

lemma js_lt_Num_iff [simp]:
  "js_lt n (Num b) = (n = NInf \<or> (\<exists>a. n = Num a \<and> a < b))"
  by (cases n) auto

lemma js_le_Num_left [simp]:
  "js_le (Num a) n = (n = PInf \<or> (\<exists>b. n = Num b \<and> a \<le> b))"
  by (cases n) auto

text \<open>The decimal form of \<open>StringNumericLiteral\<close>: sign, digits, fraction, exponent. A radix form
  (\<open>0x\<close>, \<open>0o\<close>, \<open>0b\<close>) takes no sign. The empty (or blank) string is 0.\<close>

definition radix_digit :: "nat \<Rightarrow> char \<Rightarrow> nat option" where
  "radix_digit r c =
     (let n = (of_char c :: nat);
          d = (if 48 \<le> n \<and> n \<le> 57 then Some (n - 48)
               else if 97 \<le> n \<and> n \<le> 102 then Some (n - 87)
               else if 65 \<le> n \<and> n \<le> 70 then Some (n - 55) else None)
      in case d of None \<Rightarrow> None | Some v \<Rightarrow> if v < r then Some v else None)"

fun radix_go :: "nat \<Rightarrow> nat \<Rightarrow> string \<Rightarrow> nat option" where
  "radix_go r a [] = Some a"
| "radix_go r a (c # cs) =
     (case radix_digit r c of None \<Rightarrow> None | Some v \<Rightarrow> radix_go r (r * a + v) cs)"

definition parse_radix :: "nat \<Rightarrow> string \<Rightarrow> jsnum" where
  "parse_radix r s =
     (if s = [] then NaN
      else case radix_go r 0 s of None \<Rightarrow> NaN | Some n \<Rightarrow> Num (of_nat n))"

definition max_double :: rat where
  "max_double = 2 ^ 1024 - 2 ^ 970"

definition js_fin :: "rat \<Rightarrow> jsnum" where
  "js_fin q = (if q \<ge> max_double then PInf else if q \<le> - max_double then NInf else Num q)"

definition parse_exponent :: "string \<Rightarrow> int option" where
  "parse_exponent s =
     (case s of
        [] \<Rightarrow> None
      | c # cs \<Rightarrow>
         (let neg = (c = CHR ''-''); ds = (if c = CHR ''-'' \<or> c = CHR ''+'' then cs else s) in
          if ds \<noteq> [] \<and> list_all is_digit ds
          then Some (if neg then - int (digits_val ds) else int (digits_val ds)) else None))"

definition scale10 :: "rat \<Rightarrow> int \<Rightarrow> rat" where
  "scale10 q e = (if e < 0 then q / 10 ^ nat (- e) else q * 10 ^ nat e)"

definition parse_unsigned :: "string \<Rightarrow> rat option" where
  "parse_unsigned s =
     (let ip = takeWhile is_digit s; r1 = dropWhile is_digit s;
          (fp, dot, r2) = (case r1 of
             c # cs \<Rightarrow> if c = CHR ''.'' then (takeWhile is_digit cs, True, dropWhile is_digit cs)
                       else ([], False, r1)
           | [] \<Rightarrow> ([], False, r1));
          m = of_nat (digits_val (ip @ fp)) / 10 ^ length fp
      in if ip = [] \<and> fp = [] then None
         else case r2 of
           [] \<Rightarrow> Some m
         | c # cs \<Rightarrow> if c = CHR ''e'' \<or> c = CHR ''E''
                     then map_option (scale10 m) (parse_exponent cs) else None)"

definition js_Number :: "string \<Rightarrow> jsnum" where
  "js_Number raw =
     (let s = trim raw in
      if s = [] then Num 0
      else if starts_with s ''0x'' \<or> starts_with s ''0X'' then parse_radix 16 (drop 2 s)
      else if starts_with s ''0o'' \<or> starts_with s ''0O'' then parse_radix 8 (drop 2 s)
      else if starts_with s ''0b'' \<or> starts_with s ''0B'' then parse_radix 2 (drop 2 s)
      else let neg = (hd s = CHR ''-'');
               u = (if hd s = CHR ''-'' \<or> hd s = CHR ''+'' then tl s else s)
           in if u = ''Infinity'' then (if neg then NInf else PInf)
              else case parse_unsigned u of
                None \<Rightarrow> NaN
              | Some q \<Rightarrow> js_fin (if neg then - q else q))"

subsection \<open>JSON values and objects\<close>

datatype json =
    JNull
  | JBool bool
  | JNum rat
  | JStr string
  | JArr "json list"
  | JObj "(string \<times> json) list"

type_synonym obj = "(string \<times> json) list"

text \<open>Property read \<open>o.k\<close>: \<open>None\<close> is \<open>undefined\<close>. Property write in a spread
  \<open>{...o, k: v}\<close> keeps the position of an existing key.\<close>

definition get :: "obj \<Rightarrow> string \<Rightarrow> json option" where
  "get o' k = map_of o' k"

definition put :: "string \<Rightarrow> json \<Rightarrow> obj \<Rightarrow> obj" where
  "put k v o' = AList.update k v o'"

definition obj_keys :: "obj \<Rightarrow> string list" where
  "obj_keys o' = map fst o'"

text \<open>\<open>typeof v === 'object'\<close> and not \<open>null\<close>; the own enumerable properties of such a value
  (an array's are its indices).\<close>

definition is_object :: "json \<Rightarrow> bool" where
  "is_object v = (case v of JArr _ \<Rightarrow> True | JObj _ \<Rightarrow> True | _ \<Rightarrow> False)"

definition spread :: "json \<Rightarrow> obj" where
  "spread v = (case v of
       JObj kvs \<Rightarrow> kvs
     | JArr xs \<Rightarrow> zip (map nat_str [0..<length xs]) xs
     | _ \<Rightarrow> [])"

definition js_typeof :: "json option \<Rightarrow> string" where
  "js_typeof v = (case v of
       None \<Rightarrow> ''undefined''
     | Some JNull \<Rightarrow> ''object''
     | Some (JBool _) \<Rightarrow> ''boolean''
     | Some (JNum _) \<Rightarrow> ''number''
     | Some (JStr _) \<Rightarrow> ''string''
     | Some (JArr _) \<Rightarrow> ''object''
     | Some (JObj _) \<Rightarrow> ''object'')"

definition truthy :: "json option \<Rightarrow> bool" where
  "truthy v = (case v of
       None \<Rightarrow> False
     | Some JNull \<Rightarrow> False
     | Some (JBool b) \<Rightarrow> b
     | Some (JNum q) \<Rightarrow> q \<noteq> 0
     | Some (JStr s) \<Rightarrow> s \<noteq> []
     | Some (JArr _) \<Rightarrow> True
     | Some (JObj _) \<Rightarrow> True)"

definition as_str :: "json option \<Rightarrow> string option" where
  "as_str v = (case v of Some (JStr s) \<Rightarrow> Some s | _ \<Rightarrow> None)"

definition as_num :: "json option \<Rightarrow> rat option" where
  "as_num v = (case v of Some (JNum q) \<Rightarrow> Some q | _ \<Rightarrow> None)"

text \<open>Property read on any value, as \<open>(v as Record).k\<close> or \<open>v?.k\<close> on a non-nullish value: a
  primitive or an array has none of the keys the sources read.\<close>

definition jprop :: "json option \<Rightarrow> string \<Rightarrow> json option" where
  "jprop v k = (case v of Some (JObj kvs) \<Rightarrow> get kvs k | _ \<Rightarrow> None)"

text \<open>\<open>a ?? b\<close>.\<close>

definition nullish :: "json option \<Rightarrow> bool" where
  "nullish v = (v = None \<or> v = Some JNull)"

definition coalesce :: "json option \<Rightarrow> json option \<Rightarrow> json option" where
  "coalesce a b = (if nullish a then b else a)"

lemma get_put [simp, js_simps]: "get (put k v o') k' = (if k' = k then Some v else get o' k')"
  by (simp add: get_def put_def update_conv')

lemma get_Nil [simp, js_simps]: "get [] k = None"
  by (simp add: get_def)

lemma get_Cons [simp, js_simps]: "get ((k', v) # o') k = (if k = k' then Some v else get o' k)"
  by (simp add: get_def)

lemma put_Nil [simp, js_simps]: "put k v [] = [(k, v)]"
  by (simp add: put_def)

lemma put_Cons [simp, js_simps]:
  "put k v ((k', v') # o') = (if k' = k then (k, v) # o' else (k', v') # put k v o')"
  by (simp add: put_def)

lemma keys_put:
  "obj_keys (put k v o') = (if k \<in> set (obj_keys o') then obj_keys o' else obj_keys o' @ [k])"
  by (simp add: obj_keys_def put_def update_keys)

lemma distinct_keys_put: "distinct (obj_keys o') \<Longrightarrow> distinct (obj_keys (put k v o'))"
  by (simp add: keys_put)

lemma set_keys_put [simp]: "set (obj_keys (put k v o')) = insert k (set (obj_keys o'))"
  by (auto simp: keys_put)

lemma get_None_iff: "get o' k = None \<longleftrightarrow> k \<notin> set (obj_keys o')"
  by (simp add: get_def obj_keys_def map_of_eq_None_iff)

lemma put_same: "get o' k = Some v \<Longrightarrow> put k v o' = o'"
  by (induction o') (auto split: if_splits)

lemma put_put [simp]: "put k v (put k w o') = put k v o'"
  by (induction o') auto

lemma spread_JObj [simp, js_simps]: "spread (JObj kvs) = kvs"
  by (simp add: spread_def)

lemma is_object_simps [simp, js_simps]:
  "is_object (JObj kvs)" "is_object (JArr xs)" "\<not> is_object JNull" "\<not> is_object (JBool b)"
  "\<not> is_object (JNum q)" "\<not> is_object (JStr s)"
  by (simp_all add: is_object_def)

lemma jprop_simps [simp, js_simps]:
  "jprop (Some (JObj kvs)) k = get kvs k" "jprop None k = None" "jprop (Some JNull) k = None"
  "jprop (Some (JArr xs)) k = None" "jprop (Some (JStr s)) k = None"
  "jprop (Some (JNum q)) k = None" "jprop (Some (JBool b)) k = None"
  by (simp_all add: jprop_def)

lemma as_str_Some_iff [simp]: "as_str v = Some s \<longleftrightarrow> v = Some (JStr s)"
  by (auto simp: as_str_def split: option.splits json.splits)

lemma as_str_simps [simp]:
  "as_str None = None" "as_str (Some (JStr s)) = Some s" "as_str (Some JNull) = None"
  "as_str (Some (JBool b)) = None" "as_str (Some (JNum q)) = None" "as_str (Some (JArr xs)) = None"
  "as_str (Some (JObj kvs)) = None"
  by (simp_all add: as_str_def)

lemma as_num_Some_iff [simp]: "as_num v = Some q \<longleftrightarrow> v = Some (JNum q)"
  by (auto simp: as_num_def split: option.splits json.splits)

text \<open>Keys of an array spread are decimal numerals, so they never are a word.\<close>

lemma spread_array_key:
  "k \<in> set (obj_keys (spread (JArr xs))) \<Longrightarrow> c \<in> set k \<Longrightarrow> is_digit c"
  by (auto simp: spread_def obj_keys_def set_zip dest: nat_str_digits)

subsection \<open>Headers\<close>

text \<open>A fetch \<open>Headers\<close> object: lower-case names, each once, iterated in the order of the list
  (the runtime sorts them by name).\<close>

type_synonym headers = "(string \<times> string) list"

definition hget :: "headers \<Rightarrow> string \<Rightarrow> string option" where
  "hget h name = map_of h (to_lower name)"

definition hset :: "string \<Rightarrow> string \<Rightarrow> headers \<Rightarrow> headers" where
  "hset name v h = AList.update (to_lower name) v h"

definition wf_headers :: "headers \<Rightarrow> bool" where
  "wf_headers h = (distinct (map fst h) \<and> list_all (\<lambda>(n, _). to_lower n = n) h)"

lemma lower_char_idem [simp]: "lower_char (lower_char c) = lower_char c"
proof -
  have b: "(of_char c :: nat) < 256" by simp
  show ?thesis
    using b by (auto simp: lower_char_def Let_def of_char_of)
qed

lemma to_lower_idem [simp]: "to_lower (to_lower s) = to_lower s"
  by (simp add: to_lower_def)

lemma hget_hset: "hget (hset n v h) m = (if to_lower m = to_lower n then Some v else hget h m)"
  by (simp add: hget_def hset_def update_conv')

lemma map_of_update [simp]:
  "map_of (AList.update k v al) k' = (if k' = k then Some v else map_of al k')"
  by (simp add: update_conv')

lemma map_of_adelete [simp]:
  "map_of (AList.delete k al) k' = (if k' = k then None else map_of al k')"
  by (simp add: delete_conv')

end
