(* ===== verification/Errors.thy ===== *)
theory Errors
  imports Values
begin

text \<open>
  \<open>src/src/lib/errors.ts\<close>: the error class every deliberate failure is an instance of, its
  factories with their status and code, and the header names \<open>onError\<close> refuses to forward.
  A thrown value is \<open>Domain\<close> of such an error or \<open>Other\<close> of the message of any other exception.
\<close>

record domain_error =
  de_message :: string
  de_status :: nat
  de_code :: string
  de_headers :: "(string \<times> string) list option"

datatype exn = Domain domain_error | Other string

type_synonym 'a result = "exn + 'a"

definition FORBIDDEN_ERROR_HEADERS :: "string list" where
  "FORBIDDEN_ERROR_HEADERS =
     [''connection'', ''keep-alive'', ''proxy-authenticate'', ''proxy-authorization'', ''te'',
      ''trailers'', ''transfer-encoding'', ''upgrade'', ''content-length'', ''content-encoding'',
      ''set-cookie'', ''authorization'']"

definition DomainError :: "string \<Rightarrow> nat \<Rightarrow> string \<Rightarrow> (string \<times> string) list option \<Rightarrow> exn" where
  "DomainError msg status code hs =
     Domain \<lparr>de_message = msg, de_status = status, de_code = code, de_headers = hs\<rparr>"

definition Unauthorized :: "string \<Rightarrow> exn" where
  "Unauthorized msg = DomainError msg 401 ''unauthorized'' None"

definition Forbidden :: "string \<Rightarrow> string \<Rightarrow> exn" where
  "Forbidden msg code = DomainError msg 403 code None"

definition QuotaExceeded :: "string \<Rightarrow> exn" where
  "QuotaExceeded msg = DomainError msg 429 ''quota_exceeded'' None"

definition UpstreamFailed :: "string \<Rightarrow> nat \<Rightarrow> string \<Rightarrow> exn" where
  "UpstreamFailed msg status code = DomainError msg status code None"

definition UpstreamFailed502 :: "string \<Rightarrow> exn" where
  "UpstreamFailed502 msg = UpstreamFailed msg 502 ''upstream_failed''"

definition ConfigError :: "string \<Rightarrow> exn" where
  "ConfigError msg = DomainError msg 500 ''config_error'' None"

definition InvalidRequest :: "string \<Rightarrow> string \<Rightarrow> exn" where
  "InvalidRequest msg code = DomainError msg 400 code None"

definition InvalidRequest0 :: "string \<Rightarrow> exn" where
  "InvalidRequest0 msg = InvalidRequest msg ''invalid_request''"

definition NotFound :: "string \<Rightarrow> string \<Rightarrow> exn" where
  "NotFound msg code = DomainError msg 404 code None"

definition Conflict :: "string \<Rightarrow> string \<Rightarrow> exn" where
  "Conflict msg code = DomainError msg 409 code None"

definition TooManyRequests :: "string \<Rightarrow> (string \<times> string) list option \<Rightarrow> exn" where
  "TooManyRequests msg hs = DomainError msg 429 ''too_many_requests'' hs"

definition PayloadTooLarge :: "string \<Rightarrow> string \<Rightarrow> exn" where
  "PayloadTooLarge msg code = DomainError msg 413 code None"

definition CsrfFailed :: "string \<Rightarrow> exn" where
  "CsrfFailed msg = DomainError msg 403 ''csrf_failed'' None"

lemmas error_defs =
  Unauthorized_def Forbidden_def QuotaExceeded_def UpstreamFailed_def UpstreamFailed502_def
  ConfigError_def InvalidRequest_def InvalidRequest0_def NotFound_def Conflict_def
  TooManyRequests_def PayloadTooLarge_def CsrfFailed_def DomainError_def

text \<open>The text of a caught value: \<open>err instanceof Error ? err.message : String(err)\<close>.\<close>

definition exn_message :: "exn \<Rightarrow> string" where
  "exn_message e = (case e of Domain d \<Rightarrow> de_message d | Other m \<Rightarrow> m)"

definition exn_status :: "exn \<Rightarrow> nat option" where
  "exn_status e = (case e of Domain d \<Rightarrow> Some (de_status d) | Other _ \<Rightarrow> None)"

definition exn_code :: "exn \<Rightarrow> string option" where
  "exn_code e = (case e of Domain d \<Rightarrow> Some (de_code d) | Other _ \<Rightarrow> None)"

lemma status_simps [simp]:
  "exn_status (Unauthorized m) = Some 401" "exn_status (Forbidden m c) = Some 403"
  "exn_status (QuotaExceeded m) = Some 429" "exn_status (UpstreamFailed m s c) = Some s"
  "exn_status (UpstreamFailed502 m) = Some 502"
  "exn_status (ConfigError m) = Some 500" "exn_status (InvalidRequest m c) = Some 400"
  "exn_status (InvalidRequest0 m) = Some 400"
  "exn_status (NotFound m c) = Some 404" "exn_status (Conflict m c) = Some 409"
  "exn_status (TooManyRequests m hs) = Some 429" "exn_status (CsrfFailed m) = Some 403"
  "exn_status (PayloadTooLarge m c) = Some 413" "exn_status (Other m) = None"
  by (simp_all add: exn_status_def error_defs)

lemma code_simps [simp]:
  "exn_code (Unauthorized m) = Some ''unauthorized''" "exn_code (Forbidden m c) = Some c"
  "exn_code (QuotaExceeded m) = Some ''quota_exceeded''"
  "exn_code (UpstreamFailed m s c) = Some c"
  "exn_code (UpstreamFailed502 m) = Some ''upstream_failed''"
  "exn_code (ConfigError m) = Some ''config_error''" "exn_code (InvalidRequest m c) = Some c"
  "exn_code (InvalidRequest0 m) = Some ''invalid_request''"
  "exn_code (NotFound m c) = Some c" "exn_code (Conflict m c) = Some c"
  "exn_code (TooManyRequests m hs) = Some ''too_many_requests''"
  "exn_code (PayloadTooLarge m c) = Some c"
  "exn_code (CsrfFailed m) = Some ''csrf_failed''" "exn_code (Other m) = None"
  by (simp_all add: exn_code_def error_defs)

end
