(* ===== verification/Redact.thy ===== *)
theory Redact
  imports Errors
begin

text \<open>
  \<open>src/src/lib/redact.ts\<close>: the token patterns and their replacement, and \<open>src/src/lib/degrade.ts\<close>,
  which redacts the reason of a failed read. The regular expressions are matchers: a matcher takes the
  text at a position and returns what follows the match. None of them needs to backtrack, because in
  each pattern the character after a greedy run cannot belong to the run; the two bounded runs of the
  URL pattern must end where their class ends, since the next literal is outside the class.
\<close>

subsection \<open>Matchers\<close>

type_synonym matcher = "string \<Rightarrow> string option"

text \<open>A literal, as written and ignoring case; a run of \<open>lo\<close> or more characters of a class, at most
  \<open>hi\<close>; sequence, alternative, option.\<close>

definition m_lit :: "string \<Rightarrow> matcher" where
  "m_lit p s = (if prefix p s then Some (drop (length p) s) else None)"

definition m_lit_ci :: "string \<Rightarrow> matcher" where
  "m_lit_ci p s = (if to_lower (take (length p) s) = p then Some (drop (length p) s) else None)"

definition m_run :: "(char \<Rightarrow> bool) \<Rightarrow> nat \<Rightarrow> matcher" where
  "m_run P lo s = (if lo \<le> length (takeWhile P s) then Some (dropWhile P s) else None)"

definition m_upto :: "(char \<Rightarrow> bool) \<Rightarrow> nat \<Rightarrow> nat \<Rightarrow> matcher" where
  "m_upto P lo hi s =
     (if lo \<le> length (takeWhile P s) \<and> length (takeWhile P s) \<le> hi then Some (dropWhile P s) else None)"

definition m_seq :: "matcher \<Rightarrow> matcher \<Rightarrow> matcher" where
  "m_seq a b s = (case a s of None \<Rightarrow> None | Some t \<Rightarrow> b t)"

definition m_alt :: "matcher \<Rightarrow> matcher \<Rightarrow> matcher" where
  "m_alt a b s = (case a s of None \<Rightarrow> b s | Some t \<Rightarrow> Some t)"

definition m_opt :: "matcher \<Rightarrow> matcher" where
  "m_opt a s = (case a s of None \<Rightarrow> Some s | Some t \<Rightarrow> Some t)"

definition alnum :: "char \<Rightarrow> bool" where
  "alnum c = (let n = (of_char c :: nat) in
     48 \<le> n \<and> n \<le> 57 \<or> 65 \<le> n \<and> n \<le> 90 \<or> 97 \<le> n \<and> n \<le> 122)"

definition bearer_char :: "char \<Rightarrow> bool" where
  "bearer_char c = (alnum c \<or> c \<in> set ''._-'')"

definition opaque_char :: "char \<Rightarrow> bool" where
  "opaque_char c = (alnum c \<or> c \<in> set ''._~-'')"

definition key_char :: "char \<Rightarrow> bool" where
  "key_char c = (alnum c \<or> c \<in> set ''_-'')"

definition param_char :: "char \<Rightarrow> bool" where
  "param_char c = (c \<noteq> CHR ''&'' \<and> \<not> is_ws c)"

definition TOKEN_PATTERNS :: "matcher list" where
  "TOKEN_PATTERNS =
    [m_seq (m_lit_ci ''bearer'') (m_seq (m_run is_ws 1) (m_run bearer_char 1)),
     m_seq (m_alt (m_lit_ci ''access_token'') (m_alt (m_lit_ci ''refresh_token'') (m_lit_ci ''id_token'')))
       (m_seq (m_lit ''='') (m_run param_char 1)),
     m_seq (m_alt (m_lit_ci ''access'') (m_alt (m_lit_ci ''refresh'') (m_lit_ci ''id'')))
       (m_seq (m_opt (m_alt (m_lit '' '') (m_alt (m_lit ''_'') (m_lit ''-''))))
       (m_seq (m_lit_ci ''token'')
       (m_seq (m_opt (m_seq (m_run is_ws 1) (m_lit_ci ''was'')))
       (m_seq (m_alt (m_lit '':'') (m_lit ''=''))
       (m_seq (m_run is_ws 0) (m_run opaque_char 20)))))),
     m_seq (m_lit ''eyJ'') (m_seq (m_run key_char 1) (m_seq (m_lit ''.'')
       (m_seq (m_run key_char 1) (m_seq (m_lit ''.'') (m_run key_char 1))))),
     m_seq (m_lit ''sk-ant-'') (m_run key_char 20),
     m_seq (m_lit ''sk-'') (m_run key_char 20)]"

text \<open>The URL pattern, in its captured scheme and the credentials after it.\<close>

definition scheme_char :: "char \<Rightarrow> bool" where
  "scheme_char c = (alnum c \<or> c \<in> set ''+.-'')"

definition letter :: "char \<Rightarrow> bool" where
  "letter c = (alnum c \<and> \<not> is_digit c)"

definition m_scheme :: matcher where
  "m_scheme s =
     (case s of [] \<Rightarrow> None
      | c # cs \<Rightarrow> if letter c then m_seq (m_upto scheme_char 0 31) (m_lit ''://'') cs else None)"

definition URL_USERINFO_PATTERN :: matcher where
  "URL_USERINFO_PATTERN =
     m_seq m_scheme
       (m_seq (m_upto (\<lambda>c. \<not> is_ws c \<and> c \<notin> set '':@/'') 1 256)
       (m_seq (m_lit '':'') (m_seq (m_upto (\<lambda>c. \<not> is_ws c \<and> c \<notin> set ''@/'') 1 256) (m_lit ''@''))))"

subsection \<open>Replacement\<close>

text \<open>\<open>replace\<close> with the global flag: at each position the match, if any, is replaced and skipped;
  \<open>k\<close> counts the characters of a match still to skip.\<close>

fun replace_all :: "matcher \<Rightarrow> (string \<Rightarrow> string) \<Rightarrow> nat \<Rightarrow> string \<Rightarrow> string" where
  "replace_all m r k [] = []"
| "replace_all m r (Suc k) (c # cs) = replace_all m r k cs"
| "replace_all m r 0 (c # cs) =
     (case m (c # cs) of
        None \<Rightarrow> c # replace_all m r 0 cs
      | Some rest \<Rightarrow>
          (let n = length (c # cs) - length rest
           in r (take n (c # cs)) @ replace_all m r (n - 1) cs))"

definition REDACTED :: string where "REDACTED = ''[REDACTED]''"

definition redact_pattern :: "matcher \<Rightarrow> string \<Rightarrow> string" where
  "redact_pattern m s = replace_all m (\<lambda>_. REDACTED) 0 s"

definition keep_scheme :: "string \<Rightarrow> string" where
  "keep_scheme matched =
     (case m_scheme matched of
        Some rest \<Rightarrow> take (length matched - length rest) matched @ REDACTED @ ''@''
      | None \<Rightarrow> matched)"

definition redact :: "string \<Rightarrow> string" where
  "redact input =
     replace_all URL_USERINFO_PATTERN keep_scheme 0 (foldl (\<lambda>acc m. redact_pattern m acc) input TOKEN_PATTERNS)"

subsection \<open>Degraded reads\<close>

definition REASON_MAX_LENGTH :: nat where "REASON_MAX_LENGTH = 200"

fun collapse_ws :: "bool \<Rightarrow> string \<Rightarrow> string" where
  "collapse_ws w [] = []"
| "collapse_ws w (c # cs) =
     (if is_ws c then (if w then [] else '' '') @ collapse_ws True cs else c # collapse_ws False cs)"

datatype 'a degradable = Ok 'a | Failed string

definition attempt :: "'a result \<Rightarrow> 'a degradable" where
  "attempt r =
     (case r of Inr v \<Rightarrow> Ok v
      | Inl e \<Rightarrow> Failed (take REASON_MAX_LENGTH (trim (collapse_ws False (redact (exn_message e))))))"

subsection \<open>What a replacement keeps and removes\<close>

definition plain :: "string \<Rightarrow> bool" where
  "plain w = (CHR ''['' \<notin> set w \<and> CHR '']'' \<notin> set w)"

lemma sublist_around:
  assumes "sublist w (a @ x # c)" and "x \<notin> set w"
  shows "sublist w a \<or> sublist w c"
proof -
  from assms(1) obtain ps ss where d: "a @ x # c = ps @ w @ ss" by (auto simp: sublist_def)
  then consider us where "a = ps @ us" "us @ x # c = w @ ss" | us where "a @ us = ps" "x # c = us @ w @ ss"
    by (auto simp: append_eq_append_conv2)
  then show ?thesis
  proof cases
    case 1
    then consider vs where "us = w @ vs" | vs where "us @ vs = w" "x # c = vs @ ss"
      by (auto simp: append_eq_append_conv2)
    then show ?thesis
    proof cases
      case 1
      with \<open>a = ps @ us\<close> show ?thesis by auto
    next
      case 2
      with assms(2) have "vs = []" by (cases vs) auto
      with 2 \<open>a = ps @ us\<close> show ?thesis by auto
    qed
  next
    case 2
    with assms(2) show ?thesis by (cases us; cases w) (auto simp: sublist_append)
  qed
qed

lemma sublist_redacted:
  assumes "sublist w (a @ REDACTED @ b)" and "plain w"
  shows "sublist w a \<or> sublist w ''REDACTED'' \<or> sublist w b"
proof -
  have "a @ REDACTED @ b = a @ CHR ''['' # (''REDACTED'' @ CHR '']'' # b)" by (simp add: REDACTED_def)
  with assms have "sublist w a \<or> sublist w (''REDACTED'' @ CHR '']'' # b)"
    using sublist_around [of w a "CHR ''[''"] by (simp add: plain_def)
  with assms(2) show ?thesis using sublist_around [of w "''REDACTED''" "CHR '']''"] by (auto simp: plain_def)
qed

text \<open>A matcher consumes: what is left is a proper suffix.\<close>

definition consumes :: "matcher \<Rightarrow> bool" where
  "consumes m = (\<forall>s t. m s = Some t \<longrightarrow> suffix t s)"

definition eats :: "matcher \<Rightarrow> bool" where
  "eats m = (\<forall>s t. m s = Some t \<longrightarrow> strict_suffix t s)"

lemma consumes_basic:
  "consumes (m_lit p)" "consumes (m_lit_ci p)" "consumes (m_run P lo)" "consumes (m_upto P lo hi)"
  by (auto simp: consumes_def m_lit_def m_lit_ci_def m_run_def m_upto_def suffix_drop suffix_dropWhile
      split: if_splits)

lemma eats_lit: "p \<noteq> [] \<Longrightarrow> eats (m_lit p)" "p \<noteq> [] \<Longrightarrow> eats (m_lit_ci p)"
  by (auto simp: eats_def m_lit_def m_lit_ci_def to_lower_def strict_suffix_def suffix_drop prefix_def
      split: if_splits)
     (metis drop_eq_Nil2 append_take_drop_id length_0_conv length_map list.size(3) nat_le_linear
       self_append_conv2 take_all_iff take_eq_Nil2)+

lemma consumes_seq: "consumes a \<Longrightarrow> consumes b \<Longrightarrow> consumes (m_seq a b)"
  unfolding consumes_def m_seq_def by (fastforce split: option.splits intro: suffix_order.trans)

lemma consumes_alt: "consumes a \<Longrightarrow> consumes b \<Longrightarrow> consumes (m_alt a b)"
  unfolding consumes_def m_alt_def by (fastforce split: option.splits)

lemma consumes_opt: "consumes a \<Longrightarrow> consumes (m_opt a)"
  unfolding consumes_def m_opt_def by (fastforce split: option.splits)

lemma eats_seq: "eats a \<Longrightarrow> consumes b \<Longrightarrow> eats (m_seq a b)"
  unfolding eats_def consumes_def m_seq_def
  by (fastforce split: option.splits intro: suffix_order.le_less_trans)

lemma eats_alt: "eats a \<Longrightarrow> eats b \<Longrightarrow> eats (m_alt a b)"
  unfolding eats_def m_alt_def by (fastforce split: option.splits)

lemma replace_skip: "replace_all m r k s = replace_all m r 0 (drop k s)"
  by (induction m r k s rule: replace_all.induct) auto

lemma replace_None: "m (c # cs) = None \<Longrightarrow> replace_all m r 0 (c # cs) = c # replace_all m r 0 cs"
  by simp

lemma replace_Some:
  assumes "m (c # cs) = Some rest" "eats m"
  shows "\<exists>x. c # cs = x @ rest \<and> x \<noteq> [] \<and> replace_all m r 0 (c # cs) = r x @ replace_all m r 0 rest"
proof -
  from assms have "strict_suffix rest (c # cs)" by (simp add: eats_def)
  then obtain x where x: "c # cs = x @ rest" "x \<noteq> []"
    by (auto simp: strict_suffix_def suffix_def)
  then obtain x' where x': "x = c # x'" "cs = x' @ rest" by (cases x) auto
  then have "replace_all m r 0 (c # cs) = r x @ replace_all m r (length x') cs"
    using assms(1) by simp
  also have "replace_all m r (length x') cs = replace_all m r 0 rest"
    by (subst replace_skip) (simp add: x')
  finally show ?thesis using x by blast
qed

declare replace_all.simps(3) [simp del]

lemma sublist_prefix_ext: "sublist w (u @ p) \<Longrightarrow> prefix p x \<Longrightarrow> sublist w (u @ x @ t)"
  by (metis append.assoc prefixE sublist_appendI sublist_order.dual_order.trans append_Nil)

lemma sublist_suffix_ext: "sublist w (q @ t) \<Longrightarrow> suffix q x \<Longrightarrow> sublist w (u @ x @ t)"
  by (metis append.assoc suffixE sublist_appendI sublist_order.dual_order.trans append_Nil2)

text \<open>A word without brackets that occurs in the result was in the text already, when a match is
  replaced by the marker between two pieces of itself.\<close>

lemma replace_keeps:
  assumes "eats m" "plain w" "\<not> sublist w ''REDACTED''"
    and r: "\<And>x t s. m (x @ t) = Some t \<Longrightarrow> \<exists>p q. r x = p @ REDACTED @ q \<and> prefix p x \<and> suffix q x"
  shows "sublist w (u @ replace_all m r 0 s) \<Longrightarrow> sublist w (u @ s)"
proof (induction s arbitrary: u rule: length_induct)
  case (1 s)
  show ?case
  proof (cases s)
    case Nil
    with 1 show ?thesis by simp
  next
    case (Cons c cs)
    show ?thesis
    proof (cases "m s")
      case None
      then have "sublist w ((u @ [c]) @ replace_all m r 0 cs)" using "1.prems" Cons by (simp add: replace_None)
      with "1.IH" Cons have "sublist w ((u @ [c]) @ cs)" by (metis length_Cons lessI)
      with Cons show ?thesis by simp
    next
      case (Some rest)
      obtain x where x: "s = x @ rest" "x \<noteq> []" "replace_all m r 0 s = r x @ replace_all m r 0 rest"
        using replace_Some [OF _ assms(1)] Some Cons by blast
      then obtain p q where pq: "r x = p @ REDACTED @ q" "prefix p x" "suffix q x"
        using r Some by blast
      then have "sublist w (u @ p) \<or> sublist w (q @ replace_all m r 0 rest)"
        using "1.prems" x sublist_redacted [of w "u @ p" "q @ replace_all m r 0 rest"] assms(2,3) by auto
      then show ?thesis
      proof
        assume "sublist w (u @ p)"
        with pq x show ?thesis using sublist_prefix_ext by metis
      next
        assume "sublist w (q @ replace_all m r 0 rest)"
        with "1.IH" x have "sublist w (q @ rest)" by (metis add_less_cancel_right append_Nil
            length_append length_greater_0_conv list.size(3))
        with pq x show ?thesis using sublist_suffix_ext by metis
      qed
    qed
  qed
qed

text \<open>A word every continuation of which matches does not survive its own pattern.\<close>

lemma redact_pattern_removes:
  assumes "eats m" "plain w" "w \<noteq> []" "\<not> sublist w ''REDACTED''" and hit: "\<And>t. m (w @ t) \<noteq> None"
  shows "\<forall>u'. suffix u' u \<and> u' \<noteq> [] \<longrightarrow> m (u' @ s) = None \<Longrightarrow> \<not> sublist w (u @ redact_pattern m s)"
  unfolding redact_pattern_def
proof (induction s arbitrary: u rule: length_induct)
  case (1 s)
  have seg: "\<not> sublist w u"
  proof
    assume "sublist w u"
    then obtain a b where u: "u = a @ w @ b" by (auto simp: sublist_def)
    then have "suffix (w @ b) u" "w @ b \<noteq> []" using assms(3) by (auto simp: suffix_def)
    with "1.prems" hit [of "b @ s"] show False by fastforce
  qed
  show ?case
  proof (cases s)
    case Nil
    with seg show ?thesis by simp
  next
    case (Cons c cs)
    show ?thesis
    proof (cases "m s")
      case None
      have "m (u' @ cs) = None" if "suffix u' (u @ [c])" "u' \<noteq> []" for u'
      proof -
        from that obtain v where v: "u' = v @ [c]" "suffix v u"
          by (auto simp: suffix_snoc)
        with "1.prems" None Cons show ?thesis by (cases v) auto
      qed
      with "1.IH" Cons have "\<not> sublist w ((u @ [c]) @ replace_all m (\<lambda>_. REDACTED) 0 cs)"
        by (metis length_Cons lessI)
      with None Cons show ?thesis by (simp add: replace_None)
    next
      case (Some rest)
      obtain x where x: "s = x @ rest" "x \<noteq> []"
        "replace_all m (\<lambda>_. REDACTED) 0 s = REDACTED @ replace_all m (\<lambda>_. REDACTED) 0 rest"
        using replace_Some [OF _ assms(1)] Some Cons by blast
      have "\<not> sublist w ([] @ replace_all m (\<lambda>_. REDACTED) 0 rest)"
        using "1.IH" x by (metis add_less_cancel_right append_Nil length_append length_greater_0_conv
            list.size(3) suffix_bot.bot_least suffix_order.antisym)
      with seg x assms(2,4) show ?thesis using sublist_redacted by (metis append_Nil)
    qed
  qed
qed

subsection \<open>The patterns\<close>

lemmas consumes_rules = consumes_basic consumes_seq consumes_alt consumes_opt
lemmas matcher_defs = m_seq_def m_alt_def m_opt_def m_lit_def m_lit_ci_def m_run_def m_upto_def

lemma token_patterns_eat: "m \<in> set TOKEN_PATTERNS \<Longrightarrow> eats m"
  unfolding TOKEN_PATTERNS_def
  by (auto intro!: eats_seq eats_alt eats_lit consumes_rules)

lemma upto_Some: "m_upto P lo hi s = Some t \<Longrightarrow> s = takeWhile P s @ t \<and> length (takeWhile P s) \<le> hi"
  by (auto simp: m_upto_def split: if_splits)

lemma lit_Some: "m_lit p s = Some t \<Longrightarrow> s = p @ t"
  by (auto simp: m_lit_def prefix_def split: if_splits)

lemma scheme_Some:
  assumes "m_scheme s = Some t"
  obtains c a where "s = c # a @ ''://'' @ t" "letter c" "\<forall>x \<in> set a. scheme_char x" "length a \<le> 31"
proof -
  from assms obtain c cs where s: "s = c # cs" "letter c"
    and m: "m_seq (m_upto scheme_char 0 31) (m_lit ''://'') cs = Some t"
    by (auto simp: m_scheme_def split: list.splits if_splits)
  from m obtain r where r: "m_upto scheme_char 0 31 cs = Some r" "m_lit ''://'' r = Some t"
    by (auto simp: m_seq_def split: option.splits)
  from upto_Some [OF r(1)] lit_Some [OF r(2)] s that [of c "takeWhile scheme_char cs"]
  show thesis by (metis append.assoc set_takeWhileD)
qed

lemma scheme_of:
  assumes "letter c" "\<forall>x \<in> set a. scheme_char x" "length a \<le> 31"
  shows "m_scheme (c # a @ ''://'' @ t) = Some t"
proof -
  have colon: "\<not> scheme_char (CHR '':'')" by (simp add: scheme_char_def alnum_def)
  have "takeWhile scheme_char (a @ CHR '':'' # ''//'' @ t) = a"
    "dropWhile scheme_char (a @ CHR '':'' # ''//'' @ t) = CHR '':'' # ''//'' @ t"
    using assms(2) colon by (simp_all add: takeWhile_append2 dropWhile_append2)
  with assms show ?thesis by (simp add: m_scheme_def m_seq_def m_upto_def m_lit_def)
qed

lemma url_Some:
  assumes "URL_USERINFO_PATTERN (x @ t) = Some t"
  shows "\<exists>p. keep_scheme x = p @ REDACTED @ ''@'' \<and> prefix p x \<and> suffix ''@'' x"
proof -
  let ?u = "\<lambda>c. \<not> is_ws c \<and> c \<notin> set '':@/''" and ?p = "\<lambda>c. \<not> is_ws c \<and> c \<notin> set ''@/''"
  from assms obtain r1 r2 r3 r4 where m: "m_scheme (x @ t) = Some r1" "m_upto ?u 1 256 r1 = Some r2"
    "m_lit '':'' r2 = Some r3" "m_upto ?p 1 256 r3 = Some r4" "m_lit ''@'' r4 = Some t"
    unfolding URL_USERINFO_PATTERN_def m_seq_def by (auto split: option.splits)
  from scheme_Some [OF m(1)] obtain c a where s: "x @ t = c # a @ ''://'' @ r1" "letter c"
    "\<forall>x \<in> set a. scheme_char x" "length a \<le> 31" .
  obtain b d where "r1 = b @ '':'' @ d @ ''@'' @ t"
    using upto_Some [OF m(2)] lit_Some [OF m(3)] upto_Some [OF m(4)] lit_Some [OF m(5)] by metis
  with s have x: "x = c # a @ ''://'' @ (b @ '':'' @ d @ ''@'')" by simp
  then have sc: "m_scheme x = Some (b @ '':'' @ d @ ''@'')" using scheme_of [OF s(2-4)] by simp
  define p where "p = c # a @ ''://''"
  have xp: "x = p @ (b @ '':'' @ d @ ''@'')" using x by (simp add: p_def)
  have "keep_scheme x = p @ REDACTED @ ''@''"
    using sc by (simp add: keep_scheme_def) (simp add: xp)
  moreover have "suffix ''@'' x" unfolding xp by (metis append.assoc suffixI)
  moreover have "prefix p x" by (simp add: xp)
  ultimately show ?thesis by blast
qed

lemma eats_scheme: "eats m_scheme"
  unfolding eats_def
proof (intro allI impI)
  fix s t
  assume "m_scheme s = Some t"
  then show "strict_suffix t s" by (rule scheme_Some) (simp add: strict_suffix_def suffix_def)
qed

lemma eats_url: "eats URL_USERINFO_PATTERN"
  unfolding URL_USERINFO_PATTERN_def by (intro eats_seq eats_scheme consumes_rules)

lemma redact_pattern_keeps:
  assumes "eats m" "plain w" "\<not> sublist w ''REDACTED''" "sublist w (redact_pattern m s)"
  shows "sublist w s"
proof -
  have r: "\<exists>p q. REDACTED = p @ REDACTED @ q \<and> prefix p x \<and> suffix q x" for x
    by (intro exI [of _ "[]"]) simp
  have "sublist w ([] @ replace_all m (\<lambda>_. REDACTED) 0 s)"
    using assms(4) by (simp add: redact_pattern_def)
  from replace_keeps [OF assms(1-3) r this] show ?thesis by simp
qed

lemma url_pass_keeps:
  assumes "plain w" "\<not> sublist w ''REDACTED''" "sublist w (replace_all URL_USERINFO_PATTERN keep_scheme 0 s)"
  shows "sublist w s"
  using replace_keeps [OF eats_url assms(1,2), of keep_scheme "[]" s] url_Some assms(3) by fastforce

text \<open>A word all of whose continuations match one of the patterns is in no redacted text.\<close>

lemma redact_removes:
  assumes m: "m \<in> set TOKEN_PATTERNS" and w: "plain w" "w \<noteq> []" "\<not> sublist w ''REDACTED''"
    and hit: "\<And>t. m (w @ t) \<noteq> None"
  shows "\<not> sublist w (redact s)"
proof -
  have later: "\<not> sublist w (foldl (\<lambda>acc m. redact_pattern m acc) x ms)"
    if "\<not> sublist w x" "set ms \<subseteq> set TOKEN_PATTERNS" for ms x
    using that
  proof (induction ms arbitrary: x)
    case (Cons a ms)
    then have "\<not> sublist w (redact_pattern a x)"
      using redact_pattern_keeps [OF token_patterns_eat w(1,3)] by auto
    with Cons show ?case by simp
  qed simp
  from m obtain as bs where ms: "TOKEN_PATTERNS = as @ m # bs" by (auto simp: in_set_conv_decomp)
  have "\<not> sublist w ([] @ redact_pattern m (foldl (\<lambda>acc m. redact_pattern m acc) s as))"
    by (rule redact_pattern_removes [OF token_patterns_eat [OF m] w hit]) simp
  then have "\<not> sublist w (redact_pattern m (foldl (\<lambda>acc m. redact_pattern m acc) s as))" by simp
  from later [OF this, of bs] have "\<not> sublist w (foldl (\<lambda>acc m. redact_pattern m acc) s TOKEN_PATTERNS)"
    by (auto simp: ms)
  then show ?thesis using url_pass_keeps [OF w(1,3)] unfolding redact_def by blast
qed

subsection \<open>Secrets\<close>

text \<open>The shapes of a credential: a bearer header, an API key, a JWT, a token in a query string.\<close>

definition bearer_secret :: "string \<Rightarrow> bool" where
  "bearer_secret w = (\<exists>b ws c. w = b @ ws @ [c] \<and> to_lower b = ''bearer'' \<and> ws \<noteq> [] \<and>
     list_all is_ws ws \<and> bearer_char c)"

definition key_secret :: "string \<Rightarrow> bool" where
  "key_secret w = (\<exists>k. w = ''sk-'' @ k \<and> 20 \<le> length k \<and> list_all key_char k)"

definition jwt_secret :: "string \<Rightarrow> bool" where
  "jwt_secret w = (\<exists>a b c. w = ''eyJ'' @ a @ ''.'' @ b @ ''.'' @ [c] \<and> a \<noteq> [] \<and> b \<noteq> [] \<and>
     list_all key_char (a @ b @ [c]))"

definition param_secret :: "string \<Rightarrow> bool" where
  "param_secret w = (\<exists>n c. w = n @ ''='' @ [c] \<and> to_lower n \<in> {''access_token'', ''refresh_token'', ''id_token''} \<and>
     param_char c \<and> plain [c])"

definition secret :: "string \<Rightarrow> bool" where
  "secret w = (bearer_secret w \<or> key_secret w \<or> jwt_secret w \<or> param_secret w)"

lemma foreign_char: "c \<in> set w \<Longrightarrow> c \<notin> set ''REDACTED'' \<Longrightarrow> \<not> sublist w ''REDACTED''"
  using set_mono_sublist by blast

lemma class_chars:
  "alnum c \<Longrightarrow> \<not> is_ws c \<and> c \<noteq> CHR ''['' \<and> c \<noteq> CHR '']'' \<and> c \<noteq> CHR ''.''"
  "bearer_char c \<Longrightarrow> \<not> is_ws c \<and> c \<noteq> CHR ''['' \<and> c \<noteq> CHR '']''"
  "key_char c \<Longrightarrow> c \<noteq> CHR ''['' \<and> c \<noteq> CHR '']'' \<and> c \<noteq> CHR ''.''"
  "is_ws c \<Longrightarrow> c \<noteq> CHR ''['' \<and> c \<noteq> CHR '']'' \<and> c \<notin> set ''REDACTED''"
  by (auto simp: alnum_def bearer_char_def key_char_def is_ws_def Let_def)

lemma lower_plain: "to_lower n = l \<Longrightarrow> plain l \<Longrightarrow> plain n \<and> length n = length l"
proof -
  assume n: "to_lower n = l" "plain l"
  have "lower_char (CHR ''['') = CHR ''[''" "lower_char (CHR '']'') = CHR '']''" by code_simp+
  with n have "CHR ''['' \<notin> set n" "CHR '']'' \<notin> set n"
    by (auto simp: plain_def to_lower_def image_iff) (metis)+
  with n show ?thesis by (auto simp: plain_def to_lower_def)
qed

lemma plain_append [simp]: "plain (a @ b) = (plain a \<and> plain b)" "plain []"
  by (auto simp: plain_def)

lemma run_hit: "list_all P a \<Longrightarrow> lo \<le> length a \<Longrightarrow> m_run P lo (a @ t) \<noteq> None"
  by (auto simp: m_run_def list_all_iff takeWhile_append)

lemma run_stop: "list_all P a \<Longrightarrow> \<not> P c \<Longrightarrow> lo \<le> length a \<Longrightarrow> m_run P lo (a @ c # t) = Some (c # t)"
  by (simp add: m_run_def list_all_iff takeWhile_append2 dropWhile_append2)

lemma lit_hit: "m_lit p (p @ t) = Some t"
  by (simp add: m_lit_def)

lemma lit_ci_hit: "to_lower n = p \<Longrightarrow> m_lit_ci p (n @ t) = Some t"
  by (auto simp: m_lit_ci_def to_lower_def)

lemma lit_ci_miss: "to_lower n = a # l \<Longrightarrow> a \<noteq> b \<Longrightarrow> m_lit_ci (b # p) (n @ t) = None"
  by (cases n) (auto simp: m_lit_ci_def to_lower_def)

lemma bearer_removed: "bearer_secret w \<Longrightarrow> \<not> sublist w (redact s)"
proof -
  assume "bearer_secret w"
  then obtain b ws c where w: "w = b @ ws @ [c]" "to_lower b = ''bearer''" "ws \<noteq> []" "list_all is_ws ws" "bearer_char c"
    by (auto simp: bearer_secret_def)
  obtain d ds where ws: "ws = d # ds" "is_ws d" using w(3,4) by (cases ws) auto
  have c: "\<not> is_ws c" "plain [c]" using class_chars(2) [OF w(5)] by (auto simp: plain_def)
  have "plain ws" using w(4) class_chars(4) by (auto simp: plain_def list_all_iff)
  then have p: "plain w" using lower_plain [OF w(2)] c w(1) by (simp add: plain_def)
  let ?m = "m_seq (m_lit_ci ''bearer'') (m_seq (m_run is_ws 1) (m_run bearer_char 1))"
  have hit: "?m (w @ t) \<noteq> None" for t
    using run_stop [OF w(4) c(1), of 1 t] run_hit [of bearer_char "[c]" 1 t] w(3,5)
    by (simp add: w(1) m_seq_def lit_ci_hit [OF w(2)] Suc_le_eq)
  have m: "?m \<in> set TOKEN_PATTERNS" by (simp add: TOKEN_PATTERNS_def)
  have d: "d \<in> set w" "d \<notin> set ''REDACTED''" using class_chars(4) [OF ws(2)] w(1) ws(1) by auto
  have ne: "w \<noteq> []" using w(1) by simp
  show ?thesis by (rule redact_removes [OF m p ne foreign_char [OF d] hit])
qed

lemma key_removed: "key_secret w \<Longrightarrow> \<not> sublist w (redact s)"
proof -
  assume "key_secret w"
  then obtain k where w: "w = ''sk-'' @ k" "20 \<le> length k" "list_all key_char k"
    by (auto simp: key_secret_def)
  let ?m = "m_seq (m_lit ''sk-'') (m_run key_char 20)"
  have hit: "?m (w @ t) \<noteq> None" for t
    using lit_hit [of "''sk-''" "k @ t"] run_hit [OF w(3,2), of t] by (simp add: w(1) m_seq_def)
  have p: "plain w" using w(3) class_chars(3) by (auto simp: w(1) plain_def list_all_iff)
  have d: "CHR ''-'' \<in> set w" "CHR ''-'' \<notin> set ''REDACTED''" by (simp_all add: w(1))
  have ne: "w \<noteq> []" using w(1) by simp
  have m: "?m \<in> set TOKEN_PATTERNS" by (simp add: TOKEN_PATTERNS_def)
  show ?thesis by (rule redact_removes [OF m p ne foreign_char [OF d] hit])
qed

lemma jwt_removed: "jwt_secret w \<Longrightarrow> \<not> sublist w (redact s)"
proof -
  assume "jwt_secret w"
  then obtain a b c where w: "w = ''eyJ'' @ a @ ''.'' @ b @ ''.'' @ [c]" "a \<noteq> []" "b \<noteq> []"
    "list_all key_char a" "list_all key_char b" "key_char c"
    by (auto simp: jwt_secret_def)
  let ?m = "m_seq (m_lit ''eyJ'') (m_seq (m_run key_char 1) (m_seq (m_lit ''.'')
       (m_seq (m_run key_char 1) (m_seq (m_lit ''.'') (m_run key_char 1)))))"
  have dot: "\<not> key_char (CHR ''.'')" using class_chars(3) by blast
  have hit: "?m (w @ t) \<noteq> None" for t
    using lit_hit [of "''eyJ''" "a @ ''.'' @ b @ ''.'' @ c # t"] run_stop [OF w(4) dot, of 1 "b @ ''.'' @ c # t"]
      lit_hit [of "''.''"] run_stop [OF w(5) dot, of 1 "c # t"] run_hit [of key_char "[c]" 1 t] w(2,3,6)
    by (simp add: w(1) m_seq_def Suc_le_eq)
  have p: "plain w" using w(4-6) class_chars(3) by (auto simp: w(1) plain_def list_all_iff)
  have d: "CHR ''.'' \<in> set w" "CHR ''.'' \<notin> set ''REDACTED''" by (simp_all add: w(1))
  have ne: "w \<noteq> []" using w(1) by simp
  have m: "?m \<in> set TOKEN_PATTERNS" by (simp add: TOKEN_PATTERNS_def)
  show ?thesis by (rule redact_removes [OF m p ne foreign_char [OF d] hit])
qed

lemma param_removed: "param_secret w \<Longrightarrow> \<not> sublist w (redact s)"
proof -
  assume "param_secret w"
  then obtain n c where w: "w = n @ ''='' @ [c]" "param_char c" "plain [c]"
    and n: "to_lower n \<in> {''access_token'', ''refresh_token'', ''id_token''}"
    unfolding param_secret_def by blast
  let ?names = "m_alt (m_lit_ci ''access_token'') (m_alt (m_lit_ci ''refresh_token'') (m_lit_ci ''id_token''))"
  let ?m = "m_seq ?names (m_seq (m_lit ''='') (m_run param_char 1))"
  have names: "?names (n @ t) = Some t" for t
    using n
  proof (elim insertE)
    assume n: "to_lower n = ''refresh_token''"
    with lit_ci_miss [OF n, of "CHR ''a''"] show ?thesis by (simp add: m_alt_def lit_ci_hit)
  next
    assume n: "to_lower n = ''id_token''"
    with lit_ci_miss [OF n, of "CHR ''a''"] lit_ci_miss [OF n, of "CHR ''r''"]
    show ?thesis by (simp add: m_alt_def lit_ci_hit)
  qed (simp_all add: m_alt_def lit_ci_hit)
  have hit: "?m (w @ t) \<noteq> None" for t
    using names [of "''='' @ c # t"] lit_hit [of "''=''" "c # t"] run_hit [of param_char "[c]" 1 t] w(2)
    by (simp add: w(1) m_seq_def)
  have "plain ''access_token''" "plain ''refresh_token''" "plain ''id_token''" by (simp_all add: plain_def)
  then have "plain (to_lower n)" using n by (elim insertE) simp_all
  then have p: "plain w" using lower_plain [OF refl, of n] w by (simp add: plain_def)
  have d: "CHR ''='' \<in> set w" "CHR ''='' \<notin> set ''REDACTED''" by (simp_all add: w(1))
  have ne: "w \<noteq> []" using w(1) by simp
  have m: "?m \<in> set TOKEN_PATTERNS" by (simp add: TOKEN_PATTERNS_def)
  show ?thesis by (rule redact_removes [OF m p ne foreign_char [OF d] hit])
qed

lemma secret_removed: "secret w \<Longrightarrow> \<not> sublist w (redact s)"
  using bearer_removed key_removed jwt_removed param_removed by (auto simp: secret_def)

text \<open>C21: redaction is complete. No text that went through \<open>redact\<close> contains a bearer credential, an
  \<open>sk-\<close> key, a JWT or a token query parameter anywhere, whatever the passes put together of the
  pieces they leave.\<close>

theorem redacted_text_has_no_secret:
  assumes "secret w"
  shows "\<not> sublist w (redact s)"
  using assms by (rule secret_removed)

theorem redacted_text_has_no_secret_witness:
  "\<not> sublist ''Bearer x'' (redact ''Bearer xyz'')"
proof (rule redacted_text_has_no_secret)
  have "bearer_secret ''Bearer x''"
    unfolding bearer_secret_def
    by (intro exI [of _ "''Bearer''"] exI [of _ "'' ''"] exI [of _ "CHR ''x''"]) code_simp
  then show "secret ''Bearer x''" by (simp add: secret_def)
qed

end
