(* ===== verification/OAuth.thy ===== *)
theory OAuth
  imports Redact
begin

text \<open>
  \<open>src/src/auth/oauth.ts\<close>: one account's OAuth manager. Its closure holds the current token
  state and the refresh in flight; \<open>ensureFresh\<close> answers the current access token or joins the
  one refresh. The model interleaves calls, the token endpoint's answer, the store file's writes
  and the operator's \<open>replace\<close> at the source's awaits. A time is in milliseconds; the endpoint's
  answer, the clock and the outcome of a write are arguments of the steps. \<open>oa_sent\<close> (refresh
  tokens submitted) and \<open>oa_alarms\<close> (the calls of \<open>onRefreshFail\<close>) are history variables.
\<close>

definition REFRESH_BEFORE_EXPIRY_MS :: rat where
  "REFRESH_BEFORE_EXPIRY_MS = 5 * 60 * 1000"

record token_state =
  ts_access :: string
  ts_refresh :: string
  ts_expires :: rat

text \<open>\<open>loadFromFile\<close>: the parsed text of the store file; an unreadable or unparsable file and one
  whose fields have other types read as absent.\<close>

definition loadFromFile :: "json option \<Rightarrow> token_state option" where
  "loadFromFile parsed =
     (case (jprop parsed ''accessToken'', jprop parsed ''refreshToken'', jprop parsed ''expiresAt'') of
        (Some (JStr a), Some (JStr r), Some (JNum e)) \<Rightarrow>
          Some \<lparr>ts_access = a, ts_refresh = r, ts_expires = e\<rparr>
      | _ \<Rightarrow> None)"

definition selectInitial :: "token_state \<Rightarrow> token_state option \<Rightarrow> token_state" where
  "selectInitial envState fileState =
     (case fileState of
        None \<Rightarrow> envState
      | Some f \<Rightarrow> if ts_expires f > ts_expires envState then f else envState)"

text \<open>What the token endpoint's call gave: the fetch (or reading the JSON) threw, a status that is
  not ok, or the fields of the answer; an absent field reads as the empty string or 0.\<close>

datatype refresh_reply =
    FetchThrew string
  | HttpError nat string
  | Reply string string rat

text \<open>Which part of \<open>doRefresh\<close> is pending: the fetch, or the write of the new state.\<close>

datatype refresh_phase = Fetching | Writing token_state

record oauth =
  oa_current :: token_state
  oa_disk :: "token_state option"
  oa_inflight :: "refresh_phase option"
  oa_waiters :: "nat list"
  oa_replacing :: "token_state list"
  oa_answers :: "(nat \<times> string result) list"
  oa_sent :: "string list"
  oa_alarms :: "string list"

definition createOAuthManager :: "token_state \<Rightarrow> json option \<Rightarrow> oauth result" where
  "createOAuthManager envState stored =
     (if length (ts_refresh envState) = 0
      then Inl (ConfigError ''ANTHROPIC_OAUTH_REFRESH_TOKEN must be set'')
      else Inr \<lparr>oa_current = selectInitial envState (loadFromFile stored), oa_disk = loadFromFile stored,
                oa_inflight = None, oa_waiters = [], oa_replacing = [], oa_answers = [], oa_sent = [], oa_alarms = []\<rparr>)"

definition isNearExpiry :: "rat \<Rightarrow> oauth \<Rightarrow> bool" where
  "isNearExpiry now m = (now + REFRESH_BEFORE_EXPIRY_MS \<ge> ts_expires (oa_current m))"

text \<open>The synchronous part of \<open>ensureFresh\<close> for the call with ticket \<open>c\<close>.\<close>

definition ensureFresh :: "nat \<Rightarrow> bool \<Rightarrow> rat \<Rightarrow> oauth \<Rightarrow> oauth" where
  "ensureFresh c force now m =
     (if \<not> force \<and> \<not> isNearExpiry now m \<and> length (ts_access (oa_current m)) > 0
      then m\<lparr>oa_answers := oa_answers m @ [(c, Inr (ts_access (oa_current m)))]\<rparr>
      else
        let m' = (case oa_inflight m of
                    None \<Rightarrow> m\<lparr>oa_inflight := Some Fetching,
                              oa_sent := oa_sent m @ [ts_refresh (oa_current m)]\<rparr>
                  | Some _ \<Rightarrow> m)
        in m'\<lparr>oa_waiters := oa_waiters m' @ [c]\<rparr>)"

text \<open>The refresh promise settles: every waiter gets its outcome and the slot is freed.\<close>

definition settle :: "string result \<Rightarrow> oauth \<Rightarrow> oauth" where
  "settle r m = m\<lparr>oa_inflight := None, oa_waiters := [],
                  oa_answers := oa_answers m @ map (\<lambda>c. (c, r)) (oa_waiters m)\<rparr>"

definition doRefresh_reply :: "rat \<Rightarrow> refresh_reply \<Rightarrow> oauth \<Rightarrow> oauth" where
  "doRefresh_reply now reply m =
     (if oa_inflight m \<noteq> Some Fetching then m
      else case reply of
        FetchThrew e \<Rightarrow> settle (Inl (Other e)) m
      | HttpError status text \<Rightarrow>
          let reason = redact (nat_str status @ '' '' @ text)
          in settle (Inl (UpstreamFailed502 (''oauth refresh failed: '' @ reason))) (m\<lparr>oa_alarms := oa_alarms m @ [reason]\<rparr>)
      | Reply a r e \<Rightarrow>
          if a = [] \<or> r = [] \<or> e = 0
          then settle (Inl (UpstreamFailed502 ''oauth refresh response malformed'')) m
          else let next = \<lparr>ts_access = a, ts_refresh = r, ts_expires = now + e * 1000\<rparr>
               in m\<lparr>oa_current := next, oa_inflight := Some (Writing next)\<rparr>)"

definition doRefresh_written :: "string option \<Rightarrow> oauth \<Rightarrow> oauth" where
  "doRefresh_written io m =
     (case oa_inflight m of
        Some (Writing next) \<Rightarrow>
          (case io of
             Some e \<Rightarrow> settle (Inl (Other e)) m
           | None \<Rightarrow> settle (Inr (ts_access next)) (m\<lparr>oa_disk := Some next\<rparr>))
      | _ \<Rightarrow> m)"

text \<open>\<open>replace\<close> up to its write, and the write of one pending replacement.\<close>

definition replace_state :: "token_state \<Rightarrow> oauth \<Rightarrow> exn option \<times> oauth" where
  "replace_state state m =
     (if length (ts_refresh state) = 0
      then (Some (ConfigError ''refreshToken must be non-empty''), m)
      else (None, m\<lparr>oa_current := state, oa_replacing := oa_replacing m @ [state]\<rparr>))"

definition replace_written :: "nat \<Rightarrow> string option \<Rightarrow> oauth \<Rightarrow> oauth" where
  "replace_written i io m =
     (if i < length (oa_replacing m)
      then let m' = m\<lparr>oa_replacing := take i (oa_replacing m) @ drop (Suc i) (oa_replacing m)\<rparr>
           in case io of Some _ \<Rightarrow> m' | None \<Rightarrow> m'\<lparr>oa_disk := Some (oa_replacing m ! i)\<rparr>
      else m)"

inductive oauth_step :: "oauth \<Rightarrow> oauth \<Rightarrow> bool" where
  call: "c \<notin> set (oa_waiters m) \<union> fst ` set (oa_answers m) \<Longrightarrow> oauth_step m (ensureFresh c force now m)"
| reply: "oauth_step m (doRefresh_reply now r m)"
| written: "oauth_step m (doRefresh_written io m)"
| replaced: "oauth_step m (snd (replace_state s m))"
| replace_written: "oauth_step m (replace_written i io m)"

inductive oauth_reach :: "oauth \<Rightarrow> oauth \<Rightarrow> bool" for m0 where
  init: "oauth_reach m0 m0"
| step: "oauth_reach m0 m \<Longrightarrow> oauth_step m m' \<Longrightarrow> oauth_reach m0 m'"

inductive_cases oauth_stepE: "oauth_step m m'"

text \<open>One call run without interleaving: the answer and the manager left behind.\<close>

definition run_token ::
  "bool \<Rightarrow> rat \<Rightarrow> rat \<Rightarrow> refresh_reply \<Rightarrow> string option \<Rightarrow> oauth \<Rightarrow> string result \<times> oauth" where
  "run_token force now now' reply io m =
     (let c = Suc (Max (insert 0 (set (oa_waiters m) \<union> fst ` set (oa_answers m))));
          m' = doRefresh_written io (doRefresh_reply now' reply (ensureFresh c force now m))
      in (case map_of (oa_answers m') c of Some r \<Rightarrow> r | None \<Rightarrow> Inl (Other []), m'))"

definition manager_snapshot :: "oauth \<Rightarrow> token_state" where
  "manager_snapshot m = oa_current m"

subsection \<open>Invariant\<close>

definition manager_ok :: "oauth \<Rightarrow> bool" where
  "manager_ok m \<longleftrightarrow>
     (oa_inflight m = None \<longrightarrow> oa_waiters m = []) \<and>
     distinct (oa_waiters m @ map fst (oa_answers m)) \<and>
     (\<forall>c a. (c, Inr a) \<in> set (oa_answers m) \<longrightarrow> a \<noteq> []) \<and>
     (\<forall>s. oa_inflight m = Some (Writing s) \<longrightarrow> ts_access s \<noteq> []) \<and>
     ts_refresh (oa_current m) \<noteq> [] \<and> [] \<notin> set (oa_sent m)"

lemma settle_ok:
  "manager_ok m \<Longrightarrow> (\<And>a. r = Inr a \<Longrightarrow> a \<noteq> []) \<Longrightarrow> manager_ok (settle r m)"
  by (auto simp: manager_ok_def settle_def comp_def)

lemma ensureFresh_ok:
  "manager_ok m \<Longrightarrow> c \<notin> set (oa_waiters m) \<union> fst ` set (oa_answers m) \<Longrightarrow>
     manager_ok (ensureFresh c force now m)"
  by (auto simp: manager_ok_def ensureFresh_def Let_def image_iff split: option.splits)

lemma doRefresh_reply_ok: "manager_ok m \<Longrightarrow> manager_ok (doRefresh_reply now r m)"
  unfolding doRefresh_reply_def Let_def
  by (split if_splits, cases r) (auto intro!: settle_ok, auto simp: manager_ok_def)

lemma doRefresh_written_ok: "manager_ok m \<Longrightarrow> manager_ok (doRefresh_written io m)"
  unfolding doRefresh_written_def
  by (auto split: option.splits refresh_phase.splits intro!: settle_ok) (auto simp: manager_ok_def)

lemma replace_state_ok: "manager_ok m \<Longrightarrow> manager_ok (snd (replace_state s m))"
  by (auto simp: replace_state_def manager_ok_def)

lemma replace_written_ok: "manager_ok m \<Longrightarrow> manager_ok (replace_written i io m)"
  by (auto simp: replace_written_def manager_ok_def Let_def split: option.splits)

lemma oauth_reach_ok: "oauth_reach m0 m \<Longrightarrow> manager_ok m0 \<Longrightarrow> manager_ok m"
  by (induction rule: oauth_reach.induct)
     (auto elim!: oauth_stepE intro: ensureFresh_ok doRefresh_reply_ok doRefresh_written_ok
        replace_state_ok replace_written_ok)

lemma created_ok: "createOAuthManager env stored = Inr m \<Longrightarrow> ts_refresh (oa_current m) \<noteq> [] \<Longrightarrow> manager_ok m"
  by (auto simp: createOAuthManager_def manager_ok_def split: if_splits)

subsection \<open>Properties\<close>

text \<open>C15: one refresh at a time. Under every interleaving of calls, endpoint answers, writes and
  replacements there is no caller waiting without a refresh in flight, every call is answered at
  most once, no call is answered with an empty access token, and no empty refresh token is ever
  submitted; a caller that arrives while a refresh is in flight submits nothing.\<close>

theorem one_refresh_in_flight:
  assumes "oauth_reach m0 m" and "manager_ok m0"
  shows "(oa_inflight m = None \<longrightarrow> oa_waiters m = []) \<and>
         distinct (oa_waiters m @ map fst (oa_answers m)) \<and>
         (\<forall>c. (c, Inr []) \<notin> set (oa_answers m)) \<and> [] \<notin> set (oa_sent m) \<and>
         (oa_inflight m \<noteq> None \<longrightarrow> oa_sent (ensureFresh c force now m) = oa_sent m)"
proof -
  have "manager_ok m" using assms by (rule oauth_reach_ok)
  then show ?thesis
    by (auto simp: manager_ok_def ensureFresh_def Let_def)
qed

definition demo_manager :: oauth where
  "demo_manager = \<lparr>oa_current = \<lparr>ts_access = [], ts_refresh = ''r0'', ts_expires = 0\<rparr>, oa_disk = None,
                   oa_inflight = None, oa_waiters = [], oa_replacing = [], oa_answers = [], oa_sent = [], oa_alarms = []\<rparr>"

lemma demo_manager_ok: "manager_ok demo_manager"
  by (simp add: demo_manager_def manager_ok_def)

text \<open>Two callers, one refresh.\<close>

definition demo_refresh :: oauth where
  "demo_refresh = doRefresh_written None (doRefresh_reply 0 (Reply ''a1'' ''r1'' 3600)
     (ensureFresh 1 False 0 (ensureFresh 0 False 0 demo_manager)))"

lemma demo_refresh_reach: "oauth_reach demo_manager demo_refresh"
  unfolding demo_refresh_def
  by (intro oauth_reach.step [OF _ oauth_step.written] oauth_reach.step [OF _ oauth_step.reply]
      oauth_reach.step [OF _ oauth_step.call] oauth_reach.init)
     (simp_all add: demo_manager_def ensureFresh_def isNearExpiry_def REFRESH_BEFORE_EXPIRY_MS_def Let_def)

theorem one_refresh_in_flight_witness:
  "oa_sent demo_refresh = [''r0''] \<and>
   oa_answers demo_refresh = [(0, Inr ''a1''), (1, Inr ''a1'')] \<and> oa_waiters demo_refresh = []"
proof -
  have "oa_sent demo_refresh = [''r0'']" "oa_inflight demo_refresh = None"
    "oa_answers demo_refresh = [(0, Inr ''a1''), (1, Inr ''a1'')]"
    by code_simp+
  with one_refresh_in_flight [OF demo_refresh_reach demo_manager_ok, of 0 False 0] show ?thesis
    by simp
qed

text \<open>what a call is answered without waiting. It is the current access token, and that token is
  non-empty and has more than five minutes left; a forced call never takes this path.\<close>

theorem immediate_token_is_fresh:
  "oa_answers (ensureFresh c force now m) =
     oa_answers m @ (if \<not> force \<and> ts_access (oa_current m) \<noteq> [] \<and>
                        now + 5 * 60 * 1000 < ts_expires (oa_current m)
                     then [(c, Inr (ts_access (oa_current m)))] else [])"
  by (auto simp: ensureFresh_def isNearExpiry_def REFRESH_BEFORE_EXPIRY_MS_def Let_def
      split: option.splits)

text \<open>An operator's replacement does not survive a refresh in flight. When the refresh that was
  submitted with the old refresh token is answered after \<open>replace\<close>, the manager's current state
  becomes the old account's: the pasted state is lost in memory, and on disk as well when the
  refresh's write comes last.\<close>

theorem refresh_overwrites_replacement:
  assumes "oa_inflight m = Some Fetching" and "ts_refresh s \<noteq> []" and "a \<noteq> []" "r \<noteq> []" "e \<noteq> 0"
    and "oa_replacing m = []"
  shows "let m1 = replace_written 0 None (snd (replace_state s m));
             m2 = doRefresh_written None (doRefresh_reply now (Reply a r e) m1)
         in oa_current m1 = s \<and> oa_disk m1 = Some s \<and>
            oa_current m2 = \<lparr>ts_access = a, ts_refresh = r, ts_expires = now + e * 1000\<rparr> \<and>
            oa_disk m2 = Some (oa_current m2)"
  using assms
  by (simp add: replace_state_def replace_written_def doRefresh_reply_def doRefresh_written_def
      settle_def Let_def)

theorem refresh_overwrites_replacement_witness:
  "oa_current (doRefresh_written None (doRefresh_reply 0 (Reply ''a1'' ''r1'' 3600)
     (replace_written 0 None (snd (replace_state \<lparr>ts_access = [], ts_refresh = ''new'', ts_expires = 0\<rparr>
        (ensureFresh 0 False 0 demo_manager)))))) =
   \<lparr>ts_access = ''a1'', ts_refresh = ''r1'', ts_expires = 3600 * 1000\<rparr>"
proof -
  have "oa_inflight (ensureFresh 0 False 0 demo_manager) = Some Fetching"
    "oa_replacing (ensureFresh 0 False 0 demo_manager) = []" by code_simp+
  from refresh_overwrites_replacement [OF this(1) _ _ _ _ this(2),
      of "\<lparr>ts_access = [], ts_refresh = ''new'', ts_expires = 0\<rparr>" "''a1''" "''r1''" 3600 0]
  show ?thesis by (simp add: Let_def)
qed

end
