(* ===== verification/AccountPool.thy ===== *)
theory AccountPool
  imports OAuth
begin

text \<open>
  \<open>src/src/auth/account-pool.ts\<close>: the pool of OAuth managers. A member is its name, its manager
  and the headroom last observed; the pool also keeps which member each session was given. The
  operations are generic in the manager: they take the call that yields a token (\<open>get_token\<close>) as
  an argument, and the locale \<open>token_source\<close> is what they rely on; it is interpreted on
  \<open>OAuth.run_token\<close>. \<open>localeCompare\<close> is the parameter \<open>lc\<close> (its sign is the order). A member
  object is its index in the list; a headroom of \<open>null\<close> is \<open>None\<close> and compares as infinity.
\<close>

record 'm pool_member =
  pm_name :: string
  pm_oauth :: 'm
  pm_remaining :: "rat option"
  pm_observedAt :: "rat option"

record 'm pool =
  pl_members :: "'m pool_member list"
  pl_sessions :: "(string \<times> string) list"

subsection \<open>Choosing a member\<close>

text \<open>The comparator: negative when \<open>a\<close> comes first.\<close>

definition member_cmp :: "(string \<Rightarrow> string \<Rightarrow> int) \<Rightarrow> 'm pool_member \<Rightarrow> 'm pool_member \<Rightarrow> int" where
  "member_cmp lc a b =
     (case (pm_remaining a, pm_remaining b) of
        (None, None) \<Rightarrow> lc (pm_name a) (pm_name b)
      | (None, Some _) \<Rightarrow> - 1
      | (Some _, None) \<Rightarrow> 1
      | (Some ar, Some br) \<Rightarrow>
          if br \<noteq> ar then (if br > ar then 1 else - 1) else lc (pm_name a) (pm_name b))"

text \<open>\<open>Array.prototype.sort\<close> is stable.\<close>

fun insert_by :: "('a \<Rightarrow> 'a \<Rightarrow> int) \<Rightarrow> 'a \<Rightarrow> 'a list \<Rightarrow> 'a list" where
  "insert_by cmp x [] = [x]"
| "insert_by cmp x (y # ys) = (if cmp x y \<le> 0 then x # y # ys else y # insert_by cmp x ys)"

fun sort_by_cmp :: "('a \<Rightarrow> 'a \<Rightarrow> int) \<Rightarrow> 'a list \<Rightarrow> 'a list" where
  "sort_by_cmp cmp [] = []"
| "sort_by_cmp cmp (x # xs) = insert_by cmp x (sort_by_cmp cmp xs)"

definition eligible :: "'m pool_member list \<Rightarrow> string option \<Rightarrow> nat list" where
  "eligible ms exclude =
     (case exclude of
        Some (c # cs) \<Rightarrow> filter (\<lambda>i. pm_name (ms ! i) \<noteq> c # cs) [0..<length ms]
      | _ \<Rightarrow> [0..<length ms])"

definition pickByHeadroom ::
  "(string \<Rightarrow> string \<Rightarrow> int) \<Rightarrow> 'm pool_member list \<Rightarrow> string option \<Rightarrow> nat option" where
  "pickByHeadroom lc ms exclude =
     (case sort_by_cmp (\<lambda>i j. member_cmp lc (ms ! i) (ms ! j)) (eligible ms exclude) of
        [] \<Rightarrow> None | i # _ \<Rightarrow> Some i)"

text \<open>\<open>memberByName\<close>: a \<open>Map\<close> built from the members, where a later one of the same name wins.\<close>

definition member_by_name :: "'m pool_member list \<Rightarrow> string \<Rightarrow> nat option" where
  "member_by_name ms name = find (\<lambda>i. pm_name (ms ! i) = name) (rev [0..<length ms])"

definition sticky_member :: "string option \<Rightarrow> string option \<Rightarrow> 'm pool \<Rightarrow> nat option" where
  "sticky_member sid exclude P =
     (case sid of
        None \<Rightarrow> None
      | Some s \<Rightarrow> (case map_of (pl_sessions P) s of
           None \<Rightarrow> None
         | Some n \<Rightarrow> if n \<noteq> [] \<and> Some n \<noteq> exclude then member_by_name (pl_members P) n else None))"

definition pick ::
  "(string \<Rightarrow> string \<Rightarrow> int) \<Rightarrow> string option \<Rightarrow> string option \<Rightarrow> 'm pool \<Rightarrow> nat option \<times> 'm pool" where
  "pick lc sid exclude P =
     (case sticky_member sid exclude P of
        Some i \<Rightarrow> (Some i, P)
      | None \<Rightarrow>
          (let ms = pl_members P in
           case (pickByHeadroom lc ms exclude, sid) of
             (Some i, Some s) \<Rightarrow>
               (Some i, P\<lparr>pl_sessions := AList.update s (pm_name (ms ! i)) (pl_sessions P)\<rparr>)
           | (r, _) \<Rightarrow> (r, P)))"

subsection \<open>Operations\<close>

definition createAccountPool :: "'m pool_member list \<Rightarrow> 'm pool result" where
  "createAccountPool ms =
     (if ms = [] then Inl (ConfigError ''account pool requires at least 1 member'')
      else Inr \<lparr>pl_members = ms, pl_sessions = []\<rparr>)"

definition set_member :: "nat \<Rightarrow> 'm pool_member \<Rightarrow> 'm pool \<Rightarrow> 'm pool" where
  "set_member i m P = P\<lparr>pl_members := (pl_members P)[i := m]\<rparr>"

text \<open>Member \<open>i\<close>'s manager is asked for a token.\<close>

definition member_token ::
  "('m \<Rightarrow> string result \<times> 'm) \<Rightarrow> nat \<Rightarrow> 'm pool \<Rightarrow> (string \<times> string) result \<times> 'm pool" where
  "member_token get_token i P =
     (let m = pl_members P ! i; (r, o') = get_token (pm_oauth m);
          P' = set_member i (m\<lparr>pm_oauth := o'\<rparr>) P
      in (case r of Inl e \<Rightarrow> Inl e | Inr t \<Rightarrow> Inr (pm_name m, t), P'))"

definition pool_getAccessToken ::
  "(string \<Rightarrow> string \<Rightarrow> int) \<Rightarrow> ('m \<Rightarrow> string result \<times> 'm) \<Rightarrow> string option \<Rightarrow> 'm pool
     \<Rightarrow> (string \<times> string) result \<times> 'm pool" where
  "pool_getAccessToken lc get_token sid P =
     (case pick lc sid None P of
        (None, P') \<Rightarrow> (Inl (ConfigError ''account pool exhausted (no eligible member)''), P')
      | (Some i, P') \<Rightarrow> member_token get_token i P')"

definition pool_getAccessTokenExcluding ::
  "(string \<Rightarrow> string \<Rightarrow> int) \<Rightarrow> ('m \<Rightarrow> string result \<times> 'm) \<Rightarrow> string option \<Rightarrow> string \<Rightarrow> 'm pool
     \<Rightarrow> (string \<times> string) option result \<times> 'm pool" where
  "pool_getAccessTokenExcluding lc get_token sid excludeName P =
     (case pick lc sid (Some excludeName) P of
        (None, P') \<Rightarrow> (Inr None, P')
      | (Some i, P') \<Rightarrow>
          let P'' = (case sid of
                       None \<Rightarrow> P'
                     | Some s \<Rightarrow> P'\<lparr>pl_sessions :=
                         AList.update s (pm_name (pl_members P' ! i)) (pl_sessions P')\<rparr>)
          in case member_token get_token i P'' of
               (Inl e, Q) \<Rightarrow> (Inl e, Q)
             | (Inr t, Q) \<Rightarrow> (Inr (Some t), Q))"

definition pool_forceRefresh ::
  "('m \<Rightarrow> string result \<times> 'm) \<Rightarrow> string \<Rightarrow> 'm pool \<Rightarrow> string result \<times> 'm pool" where
  "pool_forceRefresh force name P =
     (case member_by_name (pl_members P) name of
        None \<Rightarrow> (Inl (ConfigError (''pool member not found: '' @ name)), P)
      | Some i \<Rightarrow>
          let m = pl_members P ! i; (r, o') = force (pm_oauth m)
          in (r, set_member i (m\<lparr>pm_oauth := o'\<rparr>) P))"

definition pool_replaceOAuth ::
  "('m \<Rightarrow> exn option \<times> 'm) \<Rightarrow> string \<Rightarrow> 'm pool \<Rightarrow> exn option \<times> 'm pool" where
  "pool_replaceOAuth replace name P =
     (case member_by_name (pl_members P) name of
        None \<Rightarrow> (Some (ConfigError (''pool member not found: '' @ name)), P)
      | Some i \<Rightarrow>
          (let m = pl_members P ! i in
           case replace (pm_oauth m) of
             (Some e, o') \<Rightarrow> (Some e, set_member i (m\<lparr>pm_oauth := o'\<rparr>) P)
           | (None, o') \<Rightarrow>
               (None, set_member i (m\<lparr>pm_oauth := o', pm_remaining := None, pm_observedAt := None\<rparr>) P)))"

definition headroom_header :: "headers \<Rightarrow> string option" where
  "headroom_header h =
     (case hget h ''anthropic-ratelimit-unified-remaining'' of
        Some v \<Rightarrow> Some v | None \<Rightarrow> hget h ''anthropic-ratelimit-tokens-remaining'')"

definition pool_observeResponse :: "rat \<Rightarrow> string \<Rightarrow> headers \<Rightarrow> 'm pool \<Rightarrow> 'm pool" where
  "pool_observeResponse now name h P =
     (case member_by_name (pl_members P) name of
        None \<Rightarrow> P
      | Some i \<Rightarrow> (case headroom_header h of
           None \<Rightarrow> P
         | Some raw \<Rightarrow> (case js_Number raw of
              Num n \<Rightarrow> set_member i ((pl_members P ! i)\<lparr>pm_remaining := Some n, pm_observedAt := Some now\<rparr>) P
            | _ \<Rightarrow> P)))"

text \<open>The snapshot shows at most the last four characters of a token.\<close>

record token_meta =
  tm_refreshSuffix :: string
  tm_accessSuffix :: "string option"
  tm_expiresAt :: rat

definition token_suffix :: "string \<Rightarrow> string" where
  "token_suffix s = (if length s \<ge> 4 then slice_last 4 s else s)"

definition token_meta_of :: "token_state \<Rightarrow> token_meta" where
  "token_meta_of t =
     \<lparr>tm_refreshSuffix = token_suffix (ts_refresh t),
      tm_accessSuffix = (if length (ts_access t) > 0 then Some (token_suffix (ts_access t)) else None),
      tm_expiresAt = ts_expires t\<rparr>"

definition pool_snapshot ::
  "('m \<Rightarrow> token_state) \<Rightarrow> 'm pool \<Rightarrow> (string \<times> rat option \<times> rat option \<times> token_meta) list \<times> (string \<times> string) list" where
  "pool_snapshot snap P =
     (map (\<lambda>m. (pm_name m, pm_remaining m, pm_observedAt m, token_meta_of (snap (pm_oauth m)))) (pl_members P),
      pl_sessions P)"

subsection \<open>Loading\<close>

definition acc_field :: "json \<Rightarrow> string \<Rightarrow> string option" where
  "acc_field v k = as_str (jprop (Some v) k)"

text \<open>\<open>stored n\<close> is the parsed token file of account \<open>n\<close>.\<close>

definition load_account :: "(string \<Rightarrow> json option) \<Rightarrow> string list \<Rightarrow> json \<Rightarrow> oauth pool_member result" where
  "load_account stored seen acc =
     (case acc_field acc ''name'' of
        None \<Rightarrow> Inl (ConfigError ''accounts entry missing \"name\"'')
      | Some [] \<Rightarrow> Inl (ConfigError ''accounts entry missing \"name\"'')
      | Some name \<Rightarrow>
          if name \<in> set seen then Inl (ConfigError (''duplicate account name: '' @ name))
          else case acc_field acc ''refreshToken'' of
            None \<Rightarrow> Inl (ConfigError (''account \"'' @ name @ ''\" missing refreshToken''))
          | Some [] \<Rightarrow> Inl (ConfigError (''account \"'' @ name @ ''\" missing refreshToken''))
          | Some rt \<Rightarrow>
              (case createOAuthManager
                      \<lparr>ts_access = (case acc_field acc ''accessToken'' of Some a \<Rightarrow> a | None \<Rightarrow> []),
                       ts_refresh = rt,
                       ts_expires = (case as_num (jprop (Some acc) ''expiresAt'') of Some e \<Rightarrow> e | None \<Rightarrow> 0)\<rparr>
                      (stored name) of
                 Inl e \<Rightarrow> Inl e
               | Inr m \<Rightarrow> Inr \<lparr>pm_name = name, pm_oauth = m, pm_remaining = None, pm_observedAt = None\<rparr>))"

fun load_accounts ::
  "(string \<Rightarrow> json option) \<Rightarrow> string list \<Rightarrow> json list \<Rightarrow> oauth pool_member list result" where
  "load_accounts stored seen [] = Inr []"
| "load_accounts stored seen (a # as) =
     (case load_account stored seen a of
        Inl e \<Rightarrow> Inl e
      | Inr m \<Rightarrow> (case load_accounts stored (pm_name m # seen) as of
           Inl e \<Rightarrow> Inl e | Inr ms \<Rightarrow> Inr (m # ms)))"

datatype accounts_read = NoAccounts | AccountsReadError string | AccountsBadJson string | AccountsJson json

definition tryLoadAccountPool ::
  "string \<Rightarrow> (string \<Rightarrow> json option) \<Rightarrow> accounts_read \<Rightarrow> oauth pool option result" where
  "tryLoadAccountPool path stored rd =
     (case rd of
        NoAccounts \<Rightarrow> Inr None
      | AccountsReadError m \<Rightarrow> Inl (ConfigError (redact (''failed to read '' @ path @ '': '' @ m)))
      | AccountsBadJson m \<Rightarrow> Inl (ConfigError (redact (path @ '' malformed: '' @ m)))
      | AccountsJson v \<Rightarrow>
          (case jprop (Some v) ''accounts'' of
             Some (JArr (a # as)) \<Rightarrow>
               (case load_accounts stored [] (a # as) of
                  Inl e \<Rightarrow> Inl e
                | Inr ms \<Rightarrow> (case createAccountPool ms of Inl e \<Rightarrow> Inl e | Inr P \<Rightarrow> Inr (Some P)))
           | _ \<Rightarrow> Inl (ConfigError (path @ '' must contain a non-empty \"accounts\" array''))))"

definition singleAccountPool :: "'m \<Rightarrow> 'm pool result" where
  "singleAccountPool m =
     createAccountPool [\<lparr>pm_name = ''default'', pm_oauth = m, pm_remaining = None, pm_observedAt = None\<rparr>]"

subsection \<open>Lemmas\<close>

definition headroom_ge :: "rat option \<Rightarrow> rat option \<Rightarrow> bool" where
  "headroom_ge a b = (case (a, b) of (None, _) \<Rightarrow> True | (Some _, None) \<Rightarrow> False | (Some x, Some y) \<Rightarrow> y \<le> x)"

lemma headroom_trans: "headroom_ge a b \<Longrightarrow> headroom_ge b c \<Longrightarrow> headroom_ge a c"
  by (auto simp: headroom_ge_def split: option.splits)

lemma headroom_refl [simp]: "headroom_ge a a"
  by (simp add: headroom_ge_def split: option.splits)

lemma member_cmp_headroom:
  "member_cmp lc a b \<le> 0 \<Longrightarrow> headroom_ge (pm_remaining a) (pm_remaining b)"
  "\<not> member_cmp lc a b \<le> 0 \<Longrightarrow> headroom_ge (pm_remaining b) (pm_remaining a)"
  by (auto simp: member_cmp_def headroom_ge_def split: option.splits if_splits)

lemma set_insert_by [simp]: "set (insert_by cmp x xs) = insert x (set xs)"
  by (induction xs) auto

lemma set_sort_by_cmp [simp]: "set (sort_by_cmp cmp xs) = set xs"
  by (induction xs) auto

lemma sort_head_best:
  assumes "\<And>x y. cmp x y \<le> 0 \<Longrightarrow> headroom_ge (hr x) (hr y)"
    and "\<And>x y. \<not> cmp x y \<le> 0 \<Longrightarrow> headroom_ge (hr y) (hr x)"
  shows "sort_by_cmp cmp xs = h # t \<Longrightarrow> x \<in> set xs \<Longrightarrow> headroom_ge (hr h) (hr x)"
proof (induction xs arbitrary: h t x)
  case Nil
  then show ?case by simp
next
  case (Cons a xs)
  show ?case
  proof (cases "sort_by_cmp cmp xs")
    case Nil
    then have "set xs = {}" by (metis set_sort_by_cmp set_empty)
    with Cons.prems Nil show ?thesis by auto
  next
    case (Cons h' t')
    note IH = Cons.IH [OF Cons]
    show ?thesis
    proof (cases "cmp a h' \<le> 0")
      case True
      with Cons Cons.prems have "h = a" by simp
      with Cons.prems(2) True assms(1) [of a h'] show ?thesis
        by (auto intro: headroom_trans IH)
    next
      case False
      with Cons Cons.prems have "h = h'" by simp
      with Cons.prems(2) False assms(2) [of a h'] show ?thesis
        by (auto intro: IH)
    qed
  qed
qed

lemma eligible_iff: "i \<in> set (eligible ms x) \<longleftrightarrow>
    i < length ms \<and> (case x of Some (c # cs) \<Rightarrow> pm_name (ms ! i) \<noteq> c # cs | _ \<Rightarrow> True)"
  by (auto simp: eligible_def split: option.splits list.splits)

lemma pickByHeadroom_Some:
  assumes "pickByHeadroom lc ms x = Some i"
  shows "i \<in> set (eligible ms x)"
    and "j \<in> set (eligible ms x) \<Longrightarrow> headroom_ge (pm_remaining (ms ! i)) (pm_remaining (ms ! j))"
proof -
  let ?cmp = "\<lambda>i j. member_cmp lc (ms ! i) (ms ! j)"
  obtain t where t: "sort_by_cmp ?cmp (eligible ms x) = i # t"
    using assms by (auto simp: pickByHeadroom_def split: list.splits)
  then show "i \<in> set (eligible ms x)" by (metis set_sort_by_cmp list.set_intros(1))
  show "headroom_ge (pm_remaining (ms ! i)) (pm_remaining (ms ! j))" if "j \<in> set (eligible ms x)"
    by (rule sort_head_best [where hr = "\<lambda>i. pm_remaining (ms ! i)", OF _ _ t that])
       (auto intro: member_cmp_headroom)
qed

lemma pickByHeadroom_None: "pickByHeadroom lc ms x = None \<longleftrightarrow> eligible ms x = []"
  by (auto simp: pickByHeadroom_def split: list.splits)
     (metis set_sort_by_cmp set_empty2)

text \<open>What the loader guarantees of a pool and every operation keeps.\<close>

definition pool_ok :: "'m pool \<Rightarrow> bool" where
  "pool_ok P \<longleftrightarrow> pl_members P \<noteq> [] \<and> distinct (map pm_name (pl_members P)) \<and>
     (\<forall>n \<in> set (map pm_name (pl_members P)). n \<noteq> []) \<and> snd ` set (pl_sessions P) \<subseteq> pm_name ` set (pl_members P)"

lemma member_by_name_Some:
  "member_by_name ms n = Some i \<Longrightarrow> i < length ms \<and> pm_name (ms ! i) = n"
  by (auto simp: member_by_name_def dest!: find_SomeD)

lemma member_by_name_None: "member_by_name ms n = None \<longleftrightarrow> n \<notin> pm_name ` set ms"
proof
  show "n \<notin> pm_name ` set ms" if "member_by_name ms n = None"
    using find_NoneD [OF that [unfolded member_by_name_def]] by (auto simp: in_set_conv_nth) blast
  show "member_by_name ms n = None" if "n \<notin> pm_name ` set ms"
    using that member_by_name_Some [of ms n] by (cases "member_by_name ms n") force+
qed

lemma set_member_names:
  "i < length (pl_members P) \<Longrightarrow> pm_name m = pm_name (pl_members P ! i) \<Longrightarrow>
     map pm_name (pl_members (set_member i m P)) = map pm_name (pl_members P)"
  by (simp add: set_member_def map_update list_update_same_conv)

lemma set_member_sessions [simp]: "pl_sessions (set_member i m P) = pl_sessions P"
  by (simp add: set_member_def)

lemma names_set: "pm_name ` set (pl_members P) = set (map pm_name (pl_members P))"
  by simp

lemma set_member_ok:
  assumes "pool_ok P" "i < length (pl_members P)" "pm_name m = pm_name (pl_members P ! i)"
  shows "pool_ok (set_member i m P)"
proof -
  have "map pm_name (pl_members (set_member i m P)) = map pm_name (pl_members P)"
    by (rule set_member_names [OF assms(2,3)])
  with assms(1) show ?thesis
    by (simp only: pool_ok_def names_set set_member_sessions) (auto simp: set_member_def)
qed

lemma sessions_update_ok:
  "pool_ok P \<Longrightarrow> n \<in> pm_name ` set (pl_members P) \<Longrightarrow>
     pool_ok (P\<lparr>pl_sessions := AList.update s n (pl_sessions P)\<rparr>)"
  by (auto simp: pool_ok_def dest!: in_set_update)

lemma pick_Some:
  assumes ok: "pool_ok P" and pk: "pick lc sid x P = (Some i, P')"
  shows "i < length (pl_members P)" and "pl_members P' = pl_members P" and "pool_ok P'"
    and "x \<noteq> Some (pm_name (pl_members P ! i))"
    and "sid = Some s \<Longrightarrow> map_of (pl_sessions P') s = Some (pm_name (pl_members P ! i))"
    and "sid \<noteq> Some s \<Longrightarrow> map_of (pl_sessions P') s = map_of (pl_sessions P) s"
proof -
  let ?ms = "pl_members P"
  have nonempty: "pm_name (?ms ! i) \<noteq> []" if "i < length ?ms"
    using ok that nth_mem [OF that] unfolding pool_ok_def by fastforce
  have mem: "i < length ?ms \<Longrightarrow> pm_name (?ms ! i) \<in> pm_name ` set ?ms" by simp
  have elig: "i < length ?ms \<and> x \<noteq> Some (pm_name (?ms ! i))" if "pickByHeadroom lc ?ms x = Some i"
    using pickByHeadroom_Some(1) [OF that] nonempty
    by (auto simp: eligible_iff split: option.splits list.splits)
  consider (sticky) s' n where "sid = Some s'" "map_of (pl_sessions P) s' = Some n" "Some n \<noteq> x"
      "member_by_name ?ms n = Some i" "P' = P"
    | (new) "pickByHeadroom lc ?ms x = Some i"
      "P' = (case sid of None \<Rightarrow> P
             | Some s' \<Rightarrow> P\<lparr>pl_sessions := AList.update s' (pm_name (?ms ! i)) (pl_sessions P)\<rparr>)"
  proof (cases "sticky_member sid x P")
    case None
    with pk show thesis
      by (intro new) (auto simp: pick_def Let_def split: option.splits)
  next
    case (Some j)
    with pk have "j = i" "P' = P" by (auto simp: pick_def)
    with Some show thesis
      by (auto simp: sticky_member_def split: option.splits if_splits intro: sticky)
  qed
  then have "i < length ?ms \<and> pl_members P' = ?ms \<and> pool_ok P' \<and> x \<noteq> Some (pm_name (?ms ! i)) \<and>
      (sid = Some s \<longrightarrow> map_of (pl_sessions P') s = Some (pm_name (?ms ! i))) \<and>
      (sid \<noteq> Some s \<longrightarrow> map_of (pl_sessions P') s = map_of (pl_sessions P) s)"
  proof cases
    case sticky
    then show ?thesis using ok member_by_name_Some [OF sticky(4)] by auto
  next
    case new
    then show ?thesis using ok elig mem by (auto simp: sessions_update_ok split: option.splits)
  qed
  then show "i < length ?ms" "pl_members P' = ?ms" "pool_ok P'" "x \<noteq> Some (pm_name (?ms ! i))"
      "sid = Some s \<Longrightarrow> map_of (pl_sessions P') s = Some (pm_name (?ms ! i))"
      "sid \<noteq> Some s \<Longrightarrow> map_of (pl_sessions P') s = map_of (pl_sessions P) s"
    by simp_all
qed

lemma pick_None:
  "pick lc sid x P = (None, P') \<Longrightarrow> P' = P \<and> eligible (pl_members P) x = []"
  by (auto simp: pick_def Let_def pickByHeadroom_None split: option.splits)

lemma pick_sticky:
  assumes "pool_ok P" "map_of (pl_sessions P) s = Some n" "x \<noteq> Some n"
  obtains i where "pick lc (Some s) x P = (Some i, P)" "pm_name (pl_members P ! i) = n"
      "i < length (pl_members P)"
proof -
  have n: "n \<in> pm_name ` set (pl_members P)"
    using assms(1) map_of_SomeD [OF assms(2)] by (force simp: pool_ok_def)
  moreover have "n \<noteq> []" using n assms(1) by (auto simp: pool_ok_def)
  moreover obtain i where "member_by_name (pl_members P) n = Some i"
    using n member_by_name_None [of "pl_members P" n] by auto
  ultimately show thesis
    using assms(2,3) member_by_name_Some [of "pl_members P" n i]
    by (intro that [of i]) (auto simp: pick_def sticky_member_def)
qed

lemma member_token_sessions [simp]: "pl_sessions (snd (member_token g i P)) = pl_sessions P"
  by (simp add: member_token_def Let_def split_beta)

lemma member_token_ok:
  "pool_ok P \<Longrightarrow> i < length (pl_members P) \<Longrightarrow> pool_ok (snd (member_token g i P))"
  by (simp add: member_token_def Let_def split_beta set_member_ok)

lemma member_token_Inr:
  "fst (member_token g i P) = Inr (n, t) \<longleftrightarrow>
     n = pm_name (pl_members P ! i) \<and> fst (g (pm_oauth (pl_members P ! i))) = Inr t"
  by (auto simp: member_token_def Let_def split_beta split: sum.splits)

subsection \<open>Runs\<close>

text \<open>A call on the pool, with the manager calls it makes.\<close>

datatype 'm pool_op =
    GetToken "'m \<Rightarrow> string result \<times> 'm" "string option"
  | GetExcluding "'m \<Rightarrow> string result \<times> 'm" "string option" string
  | ForceRefresh "'m \<Rightarrow> string result \<times> 'm" string
  | ReplaceOAuth "'m \<Rightarrow> exn option \<times> 'm" string
  | Observe rat string headers

fun pool_run1 :: "(string \<Rightarrow> string \<Rightarrow> int) \<Rightarrow> 'm pool_op \<Rightarrow> 'm pool \<Rightarrow> 'm pool" where
  "pool_run1 lc (GetToken g sid) P = snd (pool_getAccessToken lc g sid P)"
| "pool_run1 lc (GetExcluding g sid x) P = snd (pool_getAccessTokenExcluding lc g sid x P)"
| "pool_run1 lc (ForceRefresh g n) P = snd (pool_forceRefresh g n P)"
| "pool_run1 lc (ReplaceOAuth g n) P = snd (pool_replaceOAuth g n P)"
| "pool_run1 lc (Observe now n h) P = pool_observeResponse now n h P"

fun pool_run :: "(string \<Rightarrow> string \<Rightarrow> int) \<Rightarrow> 'm pool_op list \<Rightarrow> 'm pool \<Rightarrow> 'm pool" where
  "pool_run lc [] P = P"
| "pool_run lc (op # ops) P = pool_run lc ops (pool_run1 lc op P)"

lemma getAccessToken_snd:
  "snd (pool_getAccessToken lc g sid P) =
     (case pick lc sid None P of (None, P') \<Rightarrow> P' | (Some i, P') \<Rightarrow> snd (member_token g i P'))"
  by (simp add: pool_getAccessToken_def split: prod.splits option.splits)

lemma getExcluding_snd:
  "snd (pool_getAccessTokenExcluding lc g sid x P) =
     (case pick lc sid (Some x) P of
        (None, P') \<Rightarrow> P'
      | (Some i, P') \<Rightarrow> snd (member_token g i (case sid of None \<Rightarrow> P' | Some s \<Rightarrow>
          P'\<lparr>pl_sessions := AList.update s (pm_name (pl_members P' ! i)) (pl_sessions P')\<rparr>)))"
  by (simp add: pool_getAccessTokenExcluding_def Let_def split: prod.splits option.splits sum.splits)

lemma getAccessToken_ok:
  assumes ok: "pool_ok P"
  shows "pool_ok (snd (pool_getAccessToken lc g sid P))"
proof (cases "pick lc sid None P")
  case (Pair r P')
  show ?thesis
  proof (cases r)
    case None
    with Pair ok show ?thesis by (auto simp: getAccessToken_snd dest: pick_None)
  next
    case (Some i)
    note p = pick_Some [OF ok Pair [unfolded Some]]
    show ?thesis
      unfolding getAccessToken_snd Pair Some prod.case option.case
      by (rule member_token_ok) (simp_all add: p(1-3))
  qed
qed

lemma getExcluding_ok:
  assumes ok: "pool_ok P"
  shows "pool_ok (snd (pool_getAccessTokenExcluding lc g sid x P))"
proof (cases "pick lc sid (Some x) P")
  case (Pair r P')
  show ?thesis
  proof (cases r)
    case None
    with Pair ok show ?thesis by (auto simp: getExcluding_snd dest: pick_None)
  next
    case (Some i)
    note p = pick_Some [OF ok Pair [unfolded Some]]
    have i: "i < length (pl_members P')" using p(1,2) by simp
    show ?thesis
      unfolding getExcluding_snd Pair Some prod.case option.case
      by (rule member_token_ok) (use i p(3) in \<open>auto simp: sessions_update_ok split: option.splits\<close>)
  qed
qed

lemma run1_ok: "pool_ok P \<Longrightarrow> pool_ok (pool_run1 lc op P)"
proof (cases op)
  case (ForceRefresh g n)
  then show "pool_ok P \<Longrightarrow> ?thesis"
    by (auto simp: pool_forceRefresh_def Let_def split_beta split: option.splits
        intro!: set_member_ok dest: member_by_name_Some)
next
  case (ReplaceOAuth g n)
  then show "pool_ok P \<Longrightarrow> ?thesis"
    by (auto simp: pool_replaceOAuth_def Let_def split: option.splits prod.splits
        intro!: set_member_ok dest: member_by_name_Some)
next
  case (Observe now n h)
  then show "pool_ok P \<Longrightarrow> ?thesis"
    by (auto simp: pool_observeResponse_def split: option.splits jsnum.splits
        intro!: set_member_ok dest: member_by_name_Some)
qed (simp_all add: getAccessToken_ok getExcluding_ok)

text \<open>A session keeps its member under every call but its own failover away from it.\<close>

definition fails_over :: "string \<Rightarrow> string \<Rightarrow> 'm pool_op \<Rightarrow> bool" where
  "fails_over s n op = (case op of GetExcluding _ sid x \<Rightarrow> sid = Some s \<and> x = n | _ \<Rightarrow> False)"

lemma pick_keeps_session:
  assumes ok: "pool_ok P" and n: "map_of (pl_sessions P) s = Some n" and x: "sid = Some s \<Longrightarrow> x \<noteq> Some n"
    and pk: "pick lc sid x P = (r, P')"
  shows "map_of (pl_sessions P') s = Some n"
proof (cases r)
  case None
  with pk n show ?thesis by (auto dest: pick_None)
next
  case (Some i)
  show ?thesis
  proof (cases "sid = Some s")
    case True
    with pick_sticky [OF ok n x [OF True]] pk n show ?thesis by (metis prod.inject)
  next
    case False
    with pick_Some(6) [OF ok pk [unfolded Some] False] n show ?thesis by simp
  qed
qed

lemma run1_sticky:
  assumes ok: "pool_ok P" and n: "map_of (pl_sessions P) s = Some n" and f: "\<not> fails_over s n op"
  shows "map_of (pl_sessions (pool_run1 lc op P)) s = Some n"
proof (cases op)
  case (GetToken g sid)
  obtain r P' where pk: "pick lc sid None P = (r, P')" by fastforce
  have "map_of (pl_sessions P') s = Some n"
    by (rule pick_keeps_session [OF ok n _ pk]) simp
  with pk GetToken show ?thesis by (auto simp: getAccessToken_snd split: option.splits)
next
  case (GetExcluding g sid x)
  obtain r P' where pk: "pick lc sid (Some x) P = (r, P')" by fastforce
  have x: "sid = Some s \<Longrightarrow> Some x \<noteq> Some n" using f GetExcluding by (auto simp: fails_over_def)
  have n': "map_of (pl_sessions P') s = Some n"
    by (rule pick_keeps_session [OF ok n x pk])
  show ?thesis
  proof (cases r)
    case None
    with pk n' GetExcluding show ?thesis by (simp add: getExcluding_snd)
  next
    case (Some i)
    have "sid = Some s \<Longrightarrow> pm_name (pl_members P' ! i) = n"
      using pick_Some(2) [OF ok pk [unfolded Some]] pick_Some(5) [OF ok pk [unfolded Some], of s] n'
      by simp
    with pk n' GetExcluding Some show ?thesis
      by (auto simp: getExcluding_snd split: option.splits)
  qed
next
  case (ForceRefresh g m)
  with n show ?thesis by (auto simp: pool_forceRefresh_def Let_def split_beta split: option.splits)
next
  case (ReplaceOAuth g m)
  with n show ?thesis by (auto simp: pool_replaceOAuth_def Let_def split: option.splits prod.splits)
next
  case (Observe now m h)
  with n show ?thesis by (auto simp: pool_observeResponse_def split: option.splits jsnum.splits)
qed

lemma run_sticky:
  "pool_ok P \<Longrightarrow> map_of (pl_sessions P) s = Some n \<Longrightarrow> list_all (\<lambda>op. \<not> fails_over s n op) ops \<Longrightarrow>
     pool_ok (pool_run lc ops P) \<and> map_of (pl_sessions (pool_run lc ops P)) s = Some n"
  by (induction ops arbitrary: P) (auto simp: run1_ok run1_sticky)

lemma load_accounts_names:
  "load_accounts stored seen accs = Inr ms \<Longrightarrow>
     distinct (map pm_name ms) \<and> (\<forall>n \<in> set (map pm_name ms). n \<noteq> [] \<and> n \<notin> set seen)"
proof (induction stored seen accs arbitrary: ms rule: load_accounts.induct)
  case (2 stored seen a as)
  from "2.prems" obtain m ms' where m: "load_account stored seen a = Inr m"
      "load_accounts stored (pm_name m # seen) as = Inr ms'" "ms = m # ms'"
    by (auto split: sum.splits)
  have "pm_name m \<noteq> [] \<and> pm_name m \<notin> set seen"
    using m(1) by (auto simp: load_account_def split: option.splits list.splits if_splits sum.splits)
  with "2.IH" [OF m(1,2)] m(3) show ?case by auto
qed simp

lemma loaded_pool_ok:
  assumes "tryLoadAccountPool path stored rd = Inr (Some P)"
  shows "pool_ok P"
proof -
  obtain a as ms where ms: "load_accounts stored [] (a # as) = Inr ms"
      "createAccountPool ms = Inr P"
    using assms unfolding tryLoadAccountPool_def
    by (simp del: load_accounts.simps
        split: accounts_read.splits option.splits json.splits list.splits sum.splits)
  show ?thesis
    using load_accounts_names [OF ms(1)] ms(2)
    by (auto simp: pool_ok_def createAccountPool_def split: if_splits)
qed

subsection \<open>What the pool relies on of a manager\<close>

locale token_source =
  fixes token :: "'m \<Rightarrow> string result \<times> 'm"
    and idle :: "'m \<Rightarrow> bool"
    and current :: "'m \<Rightarrow> string"
  assumes token_current: "idle m \<Longrightarrow> token m = (Inr a, m') \<Longrightarrow> a = current m' \<and> a \<noteq> []"
    and stays_idle: "idle m \<Longrightarrow> idle (snd (token m))"
begin

lemma member_token_current:
  assumes "i < length (pl_members P)" "idle (pm_oauth (pl_members P ! i))"
    and "member_token token i P = (Inr (n, t), P')"
  shows "pm_name (pl_members P' ! i) = n" "t = current (pm_oauth (pl_members P' ! i))" "t \<noteq> []"
    "i < length (pl_members P')"
  using assms token_current [OF assms(2), of t "snd (token (pm_oauth (pl_members P ! i)))"]
  by (auto simp: member_token_def set_member_def Let_def split_beta split: sum.splits)
     (metis prod.collapse)+

lemma pool_token_current:
  assumes ok: "pool_ok P" and idle: "\<forall>m \<in> set (pl_members P). idle (pm_oauth m)"
    and run: "pool_getAccessToken lc token sid P = (Inr (n, t), P')"
  shows "t \<noteq> [] \<and> (\<exists>m \<in> set (pl_members P'). pm_name m = n \<and> t = current (pm_oauth m))"
proof -
  obtain r Q where pk: "pick lc sid None P = (r, Q)" by fastforce
  with run obtain i where i: "r = Some i" by (auto simp: pool_getAccessToken_def split: option.splits)
  note p = pick_Some(1,2) [OF ok pk [unfolded i]]
  have "i < length (pl_members Q)" "idle (pm_oauth (pl_members Q ! i))"
    using p idle by simp_all
  from member_token_current [OF this] run pk i show ?thesis
    by (force simp: pool_getAccessToken_def)
qed

end

lemma fresh_ticket: "finite A \<Longrightarrow> Suc (Max (insert 0 A)) \<notin> A"
  by (metis Max_ge Suc_n_not_le_n finite.insertI insertI2)

lemma map_of_append_fresh: "c \<notin> fst ` set xs \<Longrightarrow> map_of (xs @ (c, r) # ys) c = Some r"
  by (induction xs) auto

definition ticket :: "oauth \<Rightarrow> nat" where
  "ticket m = Suc (Max (insert 0 (set (oa_waiters m) \<union> fst ` set (oa_answers m))))"

lemma ticket_fresh: "ticket m \<notin> set (oa_waiters m) \<union> fst ` set (oa_answers m)"
  unfolding ticket_def by (rule fresh_ticket) simp

lemma run_token_ok:
  assumes "manager_ok m"
  shows "manager_ok (snd (run_token force now now' reply io m))"
  using ensureFresh_ok [OF assms ticket_fresh]
  by (simp add: run_token_def ticket_def Let_def doRefresh_reply_ok doRefresh_written_ok)

lemma run_token_fst:
  "fst (run_token force now now' reply io m) =
     (case map_of (oa_answers (snd (run_token force now now' reply io m))) (ticket m) of
        Some r \<Rightarrow> r | None \<Rightarrow> Inl (Other []))"
  by (simp add: run_token_def ticket_def Let_def)

lemma run_token_snd:
  "snd (run_token force now now' reply io m) =
     doRefresh_written io (doRefresh_reply now' reply (ensureFresh (ticket m) force now m))"
  by (simp add: run_token_def ticket_def Let_def)

lemma answered_with_current:
  assumes ok: "manager_ok m" and fl: "oa_inflight m = None" and c: "c \<notin> fst ` set (oa_answers m)"
    and m'_def: "m' = doRefresh_written io (doRefresh_reply now' reply (ensureFresh c force now m))"
  shows "oa_inflight m' = None"
    and "map_of (oa_answers m') c = Some (Inr a) \<Longrightarrow> a = ts_access (oa_current m')"
proof -
  have w: "oa_waiters m = []" using ok fl by (simp add: manager_ok_def)
  note steps = doRefresh_reply_def doRefresh_written_def settle_def Let_def
  let ?e = "ensureFresh c force now m"
  consider (now) "?e = m\<lparr>oa_answers := oa_answers m @ [(c, Inr (ts_access (oa_current m)))]\<rparr>"
    | (wait) "?e = m\<lparr>oa_inflight := Some Fetching, oa_sent := oa_sent m @ [ts_refresh (oa_current m)],
                      oa_waiters := [c]\<rparr>"
  proof (cases "\<not> force \<and> \<not> isNearExpiry now m \<and> length (ts_access (oa_current m)) > 0")
    case True
    then show thesis by (intro now) (simp add: ensureFresh_def)
  next
    case False
    then show thesis using w fl by (intro wait) (simp only: ensureFresh_def if_False, simp)
  qed
  then have "oa_inflight m' = None \<and> (map_of (oa_answers m') c = Some (Inr a) \<longrightarrow> a = ts_access (oa_current m'))"
  proof cases
    case now
    then show ?thesis
      using fl map_of_append_fresh [OF c, of _ "[]"] by (simp add: m'_def steps)
  next
    case wait
    then show ?thesis
      using map_of_append_fresh [OF c, of _ "[]"] unfolding m'_def
      by (cases reply; cases io) (simp_all add: steps)
  qed
  then show "oa_inflight m' = None" "map_of (oa_answers m') c = Some (Inr a) \<Longrightarrow> a = ts_access (oa_current m')"
    by simp_all
qed

interpretation ot: token_source "run_token force now now' reply io"
  "\<lambda>m. manager_ok m \<and> oa_inflight m = None" "\<lambda>m. ts_access (oa_current m)"
  for force now now' reply io
proof
  fix m a m'
  assume m: "manager_ok m \<and> oa_inflight m = None"
    and run: "run_token force now now' reply io m = (Inr a, m')"
  have c: "ticket m \<notin> fst ` set (oa_answers m)" using ticket_fresh [of m] by simp
  have m': "m' = doRefresh_written io (doRefresh_reply now' reply (ensureFresh (ticket m) force now m))"
    using run_token_snd [of force now now' reply io m] run by simp
  have ans: "map_of (oa_answers m') (ticket m) = Some (Inr a)"
    using run_token_fst [of force now now' reply io m] run by (simp split: option.splits)
  have "manager_ok m'" using run_token_ok [of m force now now' reply io] m run by simp
  with map_of_SomeD [OF ans] have "a \<noteq> []" by (auto simp: manager_ok_def)
  moreover have "a = ts_access (oa_current m')"
    using answered_with_current(2) [OF _ _ c m'] m ans by blast
  ultimately show "a = ts_access (oa_current m') \<and> a \<noteq> []" by simp
next
  fix m
  assume m: "manager_ok m \<and> oa_inflight m = None"
  have "ticket m \<notin> fst ` set (oa_answers m)" using ticket_fresh [of m] by simp
  then show "manager_ok (snd (run_token force now now' reply io m)) \<and>
      oa_inflight (snd (run_token force now now' reply io m)) = None"
    using m answered_with_current(1) [OF _ _ _ refl] run_token_ok [of m force now now' reply io]
    by (simp add: run_token_snd)
qed

subsection \<open>Properties\<close>

text \<open>C16: sessions are sticky. Once a session has a member, every later token request of it goes to
  that member and leaves the assignment, whatever other sessions ask, headroom is observed, tokens
  are refreshed or replaced, as long as the session itself does not fail over away from it.\<close>

theorem sessions_are_sticky:
  assumes "pool_ok P" and "map_of (pl_sessions P) s = Some n"
    and "list_all (\<lambda>op. \<not> fails_over s n op) ops"
  shows "\<exists>i. pick lc (Some s) None (pool_run lc ops P) = (Some i, pool_run lc ops P) \<and>
             pm_name (pl_members (pool_run lc ops P) ! i) = n"
proof -
  note run = run_sticky [OF assms, of lc]
  show ?thesis
    by (rule pick_sticky [OF conjunct1 [OF run] conjunct2 [OF run], of None lc]) auto
qed

definition demo_accounts :: "oauth pool" where
  "demo_accounts =
     \<lparr>pl_members = [\<lparr>pm_name = ''x'', pm_oauth = demo_manager, pm_remaining = Some 10, pm_observedAt = Some 0\<rparr>,
                    \<lparr>pm_name = ''y'', pm_oauth = demo_manager, pm_remaining = Some 90, pm_observedAt = Some 0\<rparr>],
      pl_sessions = [(''s1'', ''x'')]\<rparr>"

lemma demo_accounts_ok: "pool_ok demo_accounts"
  by (simp add: demo_accounts_def pool_ok_def)

definition demo_ops :: "oauth pool_op list" where
  "demo_ops = [Observe 1 ''x'' [(''anthropic-ratelimit-unified-remaining'', ''5'')],
               GetExcluding (run_token False 0 0 (Reply ''a'' ''r'' 3600) None) (Some ''s2'') ''x'']"

definition lc0 :: "string \<Rightarrow> string \<Rightarrow> int" where
  "lc0 a b = int (length a) - int (length b)"

theorem sessions_are_sticky_witness:
  "\<exists>i. pick lc0 (Some ''s1'') None (pool_run lc0 demo_ops demo_accounts) =
         (Some i, pool_run lc0 demo_ops demo_accounts) \<and>
       pm_name (pl_members (pool_run lc0 demo_ops demo_accounts) ! i) = ''x''"
  by (rule sessions_are_sticky [OF demo_accounts_ok])
     (simp_all add: demo_accounts_def demo_ops_def fails_over_def)

text \<open>Routing by headroom. A session without a member gets an eligible one with the most headroom,
  an unobserved member counting as unlimited; the excluded name is never chosen, and there is no
  choice only when no other name exists.\<close>

theorem new_session_gets_most_headroom:
  assumes "pool_ok P" and "sticky_member sid x P = None"
  shows "case fst (pick lc sid x P) of
           None \<Rightarrow> pl_members P \<noteq> [] \<and> (\<forall>m \<in> set (pl_members P). Some (pm_name m) = x)
         | Some i \<Rightarrow> Some (pm_name (pl_members P ! i)) \<noteq> x \<and>
             (\<forall>m \<in> set (pl_members P). Some (pm_name m) \<noteq> x \<longrightarrow>
                headroom_ge (pm_remaining (pl_members P ! i)) (pm_remaining m))"
proof (cases "pick lc sid x P")
  case (Pair r P')
  have el: "j \<in> set (eligible (pl_members P) x) \<longleftrightarrow>
      j < length (pl_members P) \<and> Some (pm_name (pl_members P ! j)) \<noteq> x" for j
    using assms(1) nth_mem [of j "pl_members P"]
    by (auto simp: eligible_iff pool_ok_def split: option.splits list.splits)
  show ?thesis
  proof (cases r)
    case None
    with Pair have "eligible (pl_members P) x = []" by (auto dest: pick_None)
    with el have "\<forall>j < length (pl_members P). Some (pm_name (pl_members P ! j)) = x" by auto
    with assms(1) None Pair show ?thesis by (auto simp: pool_ok_def in_set_conv_nth)
  next
    case (Some i)
    with Pair assms(2) have "pickByHeadroom lc (pl_members P) x = Some i"
      by (auto simp: pick_def Let_def split: option.splits)
    note best = pickByHeadroom_Some [OF this]
    with el Some Pair show ?thesis by (auto simp: in_set_conv_nth)
  qed
qed

theorem new_session_gets_most_headroom_witness:
  "fst (pick lc0 (Some ''s2'') None demo_accounts) = Some 1 \<and>
   headroom_ge (pm_remaining (pl_members demo_accounts ! 1)) (pm_remaining (hd (pl_members demo_accounts)))"
proof -
  have p: "fst (pick lc0 (Some ''s2'') None demo_accounts) = Some 1" by code_simp
  have n: "sticky_member (Some ''s2'') None demo_accounts = None" by code_simp
  have "hd (pl_members demo_accounts) \<in> set (pl_members demo_accounts)"
    by (simp add: demo_accounts_def)
  with new_session_gets_most_headroom [OF demo_accounts_ok n, of lc0] p show ?thesis by simp
qed

text \<open>The token a request is sent with. When no refresh is pending, the token the pool answers is
  the named member's current access token, freshly refreshed if need be, and it is not empty.\<close>

theorem pool_answers_members_token:
  assumes "pool_ok P" and "\<forall>m \<in> set (pl_members P). manager_ok (pm_oauth m) \<and> oa_inflight (pm_oauth m) = None"
    and "pool_getAccessToken lc (run_token False now now' reply io) sid P = (Inr (n, t), P')"
  shows "t \<noteq> [] \<and> (\<exists>m \<in> set (pl_members P'). pm_name m = n \<and> t = ts_access (oa_current (pm_oauth m)))"
  using assms by (rule ot.pool_token_current)

theorem pool_answers_members_token_witness:
  "\<exists>P' m. pool_getAccessToken lc0 (run_token False 0 0 (Reply ''a'' ''r'' 3600) None) (Some ''s1'') demo_accounts
            = (Inr (''x'', ''a''), P') \<and>
          m \<in> set (pl_members P') \<and> pm_name m = ''x'' \<and> ''a'' = ts_access (oa_current (pm_oauth m))"
proof -
  let ?r = "pool_getAccessToken lc0 (run_token False 0 0 (Reply ''a'' ''r'' 3600) None) (Some ''s1'') demo_accounts"
  have "fst ?r = Inr (''x'', ''a'')" by code_simp
  then have r: "?r = (Inr (''x'', ''a''), snd ?r)" by (metis prod.collapse)
  have idle: "\<forall>m \<in> set (pl_members demo_accounts). manager_ok (pm_oauth m) \<and> oa_inflight (pm_oauth m) = None"
    by (simp add: demo_accounts_def demo_manager_ok) (simp add: demo_manager_def)
  show ?thesis
    using pool_answers_members_token [OF demo_accounts_ok idle r] r by blast
qed

end
