(* ===== verification/Upstream.thy ===== *)
theory Upstream
  imports AccountPool Redact
begin

text \<open>
  \<open>src/src/proxy/upstream.ts\<close>: one request to the upstream service and the single retry after a 401.
  The template, the pacing and the network answer through arguments; \<open>n\<close> is 0 for the first attempt
  and 1 for the retry, since their answers may differ. The result is paired with the requests handed
  to \<open>fetch\<close>, in order. The two timers only abort a fetch or a stream: an aborted fetch is an \<open>Inl\<close>
  of the network, an aborted stream a body that ends early.
\<close>

record outbound =
  ob_url :: string
  ob_headers :: "(string \<times> string) list"
  ob_body :: string

text \<open>A response: its body is absent or a stream of text chunks; reading it as text may throw.\<close>

record response =
  rp_status :: nat
  rp_headers :: headers
  rp_body :: "string list option"
  rp_readError :: "exn option"

record upstream_result =
  ur_response :: response
  ur_servedBy :: string
  ur_outboundHeaders :: "(string \<times> string) list"

definition wrapFetchOnceStage :: "string \<Rightarrow> string \<Rightarrow> 'a result \<Rightarrow> 'a result" where
  "wrapFetchOnceStage code label r =
     (case r of
        Inr v \<Rightarrow> Inr v
      | Inl (Domain d) \<Rightarrow> Inl (Domain d)
      | Inl (Other m) \<Rightarrow> Inl (UpstreamFailed (redact (label @ '': '' @ m)) 500 code))"

definition fetchOnce ::
  "(string \<Rightarrow> outbound result) \<Rightarrow> (string option \<Rightarrow> unit result) \<Rightarrow> (outbound \<Rightarrow> response result) \<Rightarrow> string
     \<Rightarrow> (response \<times> (string \<times> string) list) result \<times> outbound list" where
  "fetchOnce apply_template pace net token =
     (case wrapFetchOnceStage ''template_apply_failed'' ''template apply failed'' (apply_template token) of
        Inl e \<Rightarrow> (Inl e, [])
      | Inr ob \<Rightarrow>
          (case wrapFetchOnceStage ''pacing_await_failed'' ''pacing await failed''
                  (pace (map_of (ob_headers ob) ''x-claude-code-session-id'')) of
             Inl e \<Rightarrow> (Inl e, [])
           | Inr _ \<Rightarrow>
               (case net ob of
                  Inl e \<Rightarrow> (Inl (UpstreamFailed502 (redact (''upstream fetch failed: '' @ exn_message e))), [ob])
                | Inr resp \<Rightarrow> (Inr (resp, ob_headers ob), [ob]))))"

definition upstream_result_of :: "string \<Rightarrow> response \<times> (string \<times> string) list \<Rightarrow> upstream_result" where
  "upstream_result_of name a = \<lparr>ur_response = fst a, ur_servedBy = name, ur_outboundHeaders = snd a\<rparr>"

definition retry_401 ::
  "('m \<Rightarrow> string result \<times> 'm) \<Rightarrow> (string \<Rightarrow> outbound result) \<Rightarrow> (string option \<Rightarrow> unit result)
     \<Rightarrow> (outbound \<Rightarrow> response result) \<Rightarrow> string \<Rightarrow> 'm pool \<Rightarrow> upstream_result result \<times> outbound list \<times> 'm pool" where
  "retry_401 force apply_template pace net name P =
     (case pool_forceRefresh force name P of
        (Inl e, Q) \<Rightarrow> (Inl e, [], Q)
      | (Inr fresh, Q) \<Rightarrow>
          (case fetchOnce apply_template pace net fresh of
             (Inl e, sent) \<Rightarrow> (Inl e, sent, Q)
           | (Inr a, sent) \<Rightarrow> (Inr (upstream_result_of name a), sent, Q)))"

definition callUpstream ::
  "(string \<Rightarrow> string \<Rightarrow> int) \<Rightarrow> ('m \<Rightarrow> string result \<times> 'm) \<Rightarrow> ('m \<Rightarrow> string result \<times> 'm)
     \<Rightarrow> (nat \<Rightarrow> string \<Rightarrow> outbound result) \<Rightarrow> (nat \<Rightarrow> string option \<Rightarrow> unit result)
     \<Rightarrow> (nat \<Rightarrow> outbound \<Rightarrow> response result) \<Rightarrow> string option \<Rightarrow> 'm pool
     \<Rightarrow> upstream_result result \<times> outbound list \<times> 'm pool" where
  "callUpstream lc get_token force apply_template pace net sid P =
     (case pool_getAccessToken lc get_token sid P of
        (Inl e, P1) \<Rightarrow> (Inl e, [], P1)
      | (Inr (name, token), P1) \<Rightarrow>
          (case fetchOnce (apply_template 0) (pace 0) (net 0) token of
             (Inl e, sent) \<Rightarrow> (Inl e, sent, P1)
           | (Inr a, sent) \<Rightarrow>
               if rp_status (fst a) \<noteq> 401 then (Inr (upstream_result_of name a), sent, P1)
               else (case retry_401 force (apply_template 1) (pace 1) (net 1) name P1 of
                       (r, again, P2) \<Rightarrow> (r, sent @ again, P2))))"

lemma wrap_Inr: "wrapFetchOnceStage c l r = Inr v \<longleftrightarrow> r = Inr v"
  by (auto simp: wrapFetchOnceStage_def split: sum.splits exn.splits)

text \<open>Nothing raw leaves a stage: what it throws is a domain error.\<close>

lemma wrap_domain: "wrapFetchOnceStage c l r = Inl e \<Longrightarrow> \<exists>d. e = Domain d"
  by (auto simp: wrapFetchOnceStage_def error_defs split: sum.splits exn.splits)

lemma fetchOnce_cases:
  assumes "fetchOnce ap pace net token = (r, sent)"
  shows "(sent = [] \<and> (\<exists>d. r = Inl (Domain d))) \<or>
    (\<exists>ob. sent = [ob] \<and> ap token = Inr ob \<and>
       ((\<exists>m d. net ob = Inl m \<and> r = Inl (Domain d) \<and> de_status d = 502) \<or>
        (\<exists>resp. net ob = Inr resp \<and> r = Inr (resp, ob_headers ob))))"
proof (cases "wrapFetchOnceStage ''template_apply_failed'' ''template apply failed'' (ap token)")
  case (Inl e)
  with assms wrap_domain [OF Inl] show ?thesis by (auto simp: fetchOnce_def)
next
  case (Inr ob)
  show ?thesis
  proof (cases "wrapFetchOnceStage ''pacing_await_failed'' ''pacing await failed''
      (pace (map_of (ob_headers ob) ''x-claude-code-session-id''))")
    case (Inl e)
    with assms Inr wrap_domain [OF Inl] show ?thesis by (auto simp: fetchOnce_def)
  next
    case p: (Inr u)
    with assms Inr show ?thesis
      by (auto simp: fetchOnce_def wrap_Inr error_defs split: sum.splits)
  qed
qed

lemma fetchOnce_Inr:
  "fetchOnce ap pace net token = (Inr a, sent) \<Longrightarrow>
     \<exists>ob. sent = [ob] \<and> ap token = Inr ob \<and> net ob = Inr (fst a) \<and> snd a = ob_headers ob"
  by (drule fetchOnce_cases) auto

lemma fetchOnce_Inl:
  "fetchOnce ap pace net token = (Inl e, sent) \<Longrightarrow> sent = [] \<or> (\<exists>ob m. sent = [ob] \<and> ap token = Inr ob \<and> net ob = Inl m)"
  by (drule fetchOnce_cases) auto

definition answered_401 :: "(nat \<Rightarrow> outbound \<Rightarrow> response result) \<Rightarrow> outbound \<Rightarrow> bool" where
  "answered_401 net ob = (case net 0 ob of Inr resp \<Rightarrow> rp_status resp = 401 | Inl _ \<Rightarrow> False)"

lemma retry_cases:
  assumes "retry_401 force ap pace net name P = (r, sent, Q)"
  shows "sent = [] \<or> (\<exists>ob t. sent = [ob] \<and> ap t = Inr ob \<and> pool_forceRefresh force name P = (Inr t, Q))"
    and "r = Inr u \<Longrightarrow> \<exists>ob. sent = [ob] \<and> net ob = Inr (ur_response u) \<and>
           ur_servedBy u = name \<and> ur_outboundHeaders u = ob_headers ob"
  using assms
  by (auto simp: retry_401_def upstream_result_of_def split: prod.splits sum.splits
      dest: fetchOnce_Inr fetchOnce_Inl)

subsection \<open>Properties\<close>

text \<open>C8: the retry policy. A call sends at most two requests. The first is built from the token of the
  member the pool chose. There is a second one only when the first was answered 401, and it is built
  from a forced refresh of the same member. Any other answer to the first, 429 and 5xx included, is
  the result as it came; the answer to the second is the result whatever its status.\<close>

theorem upstream_retry_policy:
  assumes "callUpstream lc get_token force ap pace net sid P = (r, sent, P')"
  shows "length sent \<le> 2 \<and>
    (\<forall>u. r = Inr u \<longrightarrow> sent \<noteq> [] \<and> net (length sent - 1) (last sent) = Inr (ur_response u) \<and>
           ur_outboundHeaders u = ob_headers (last sent)) \<and>
    (sent \<noteq> [] \<longrightarrow>
      (\<exists>name token P1. pool_getAccessToken lc get_token sid P = (Inr (name, token), P1) \<and>
         ap 0 token = Inr (hd sent) \<and>
         (\<forall>u. r = Inr u \<longrightarrow> ur_servedBy u = name) \<and>
         (\<forall>resp. net 0 (hd sent) = Inr resp \<and> rp_status resp \<noteq> 401 \<longrightarrow>
            length sent = 1 \<and> (\<exists>u. r = Inr u \<and> ur_response u = resp)) \<and>
         (length sent = 2 \<longrightarrow> answered_401 net (hd sent) \<and>
            (\<exists>fresh. fst (pool_forceRefresh force name P1) = Inr fresh \<and> ap 1 fresh = Inr (sent ! 1)))))"
proof (cases "pool_getAccessToken lc get_token sid P")
  case (Pair t P1)
  show ?thesis
  proof (cases t)
    case (Inl e)
    with assms Pair show ?thesis by (auto simp: callUpstream_def)
  next
    case (Inr nt)
    obtain name token where nt: "nt = (name, token)" by fastforce
    note got = Pair [unfolded Inr nt]
    obtain a1 s1 where f: "fetchOnce (ap 0) (pace 0) (net 0) token = (a1, s1)" by fastforce
    show ?thesis
    proof (cases a1)
      case (Inl e)
      with assms got f have "r = Inl e" "sent = s1" by (auto simp: callUpstream_def)
      with fetchOnce_Inl [OF f [unfolded Inl]] got show ?thesis by auto
    next
      case (Inr a)
      from fetchOnce_Inr [OF f [unfolded Inr]] obtain ob where
        ob: "s1 = [ob]" "ap 0 token = Inr ob" "net 0 ob = Inr (fst a)" "snd a = ob_headers ob" by blast
      show ?thesis
      proof (cases "rp_status (fst a) = 401")
        case False
        with assms got f Inr have "r = Inr (upstream_result_of name a)" "sent = s1"
          by (auto simp: callUpstream_def)
        with got ob False show ?thesis by (auto simp: upstream_result_of_def)
      next
        case True
        obtain r2 s2 Q where q: "retry_401 force (ap 1) (pace 1) (net 1) name P1 = (r2, s2, Q)"
          by (metis prod_cases3)
        with assms got f Inr True have res: "r = r2" "sent = s1 @ s2" by (auto simp: callUpstream_def)
        have "answered_401 net ob" using ob True by (simp add: answered_401_def)
        with res got ob True retry_cases [OF q] show ?thesis by fastforce
      qed
    qed
  qed
qed

definition demo_apply :: "nat \<Rightarrow> string \<Rightarrow> outbound result" where
  "demo_apply n t = Inr \<lparr>ob_url = ''u'', ob_headers = [(''authorization'', t)], ob_body = []\<rparr>"

definition demo_net :: "nat \<Rightarrow> outbound \<Rightarrow> response result" where
  "demo_net n ob = Inr \<lparr>rp_status = (if n = 0 then 401 else 429), rp_headers = [], rp_body = None, rp_readError = None\<rparr>"

definition demo_call :: "upstream_result result \<times> outbound list \<times> oauth pool" where
  "demo_call = callUpstream lc0 (run_token False 0 0 (Reply ''a'' ''r'' 3600) None)
     (run_token True 0 0 (Reply ''b'' ''s'' 3600) None) demo_apply (\<lambda>_ _. Inr ()) demo_net None demo_accounts"

lemma demo_call_result: "length (fst (snd demo_call)) = 2" "\<not> isl (fst demo_call)"
  by code_simp+

theorem upstream_retry_policy_witness:
  "length (fst (snd demo_call)) = 2 \<and> answered_401 demo_net (hd (fst (snd demo_call))) \<and>
   (\<exists>u. fst demo_call = Inr u \<and> demo_net 1 (last (fst (snd demo_call))) = Inr (ur_response u))"
proof -
  have c: "demo_call = (fst demo_call, fst (snd demo_call), snd (snd demo_call))" by simp
  have ne: "fst (snd demo_call) \<noteq> []" using demo_call_result(1) by auto
  obtain u where u: "fst demo_call = Inr u" using demo_call_result(2) by (metis sum.collapse(2))
  show ?thesis
    using upstream_retry_policy [OF c [symmetric, THEN sym, unfolded demo_call_def]] ne u demo_call_result(1)
    by (auto simp: demo_call_def [symmetric])
qed

end
