(* ===== verification/Template.thy ===== *)
theory Template
  imports Upstream
begin

text \<open>
  \<open>src/src/template/extracted.ts\<close>: the request that imitates a captured client. The headers follow the
  snapshot's order and values with the caller's contribution to three of them, the body is the
  caller's with an account id filled in and its keys in the snapshot's order. \<open>JSON.parse\<close>,
  \<open>JSON.stringify\<close> and the random session id are arguments. An object literal inherits the names of
  \<open>Object.prototype\<close>, which the \<open>in\<close> operator sees; an assignment to \<open>__proto__\<close> makes no property,
  and an inherited function is left out by \<open>JSON.stringify\<close>. Log output is left out; the decision to
  warn is modelled. The messages of a snapshot that is refused leave out its path and its version.
\<close>

subsection \<open>The snapshot\<close>

definition ANTHROPIC_MESSAGES_URL :: string where
  "ANTHROPIC_MESSAGES_URL = ''https://api.anthropic.com/v1/messages?beta=true''"

definition SUPPORTED_SCHEMA_VERSION :: rat where "SUPPORTED_SCHEMA_VERSION = 2"
definition SNAPSHOT_AGE_WARN_DAYS :: int where "SNAPSHOT_AGE_WARN_DAYS = 60"

definition TRANSPORT :: "string list" where
  "TRANSPORT = [''host'', ''content-length'', ''accept-encoding'', ''connection'', ''keep-alive'',
     ''transfer-encoding'', ''upgrade'']"

text \<open>The fields of the file that are read; \<open>None\<close> where the field is absent or not an array.\<close>

record snapshot_file =
  sf_schemaVersion :: "json option"
  sf_headerOrder :: "string list option"
  sf_headerValues :: "(string \<times> string) list option"
  sf_bodyKeyOrder :: "string list option"
  sf_p50Ms :: "rat option"

datatype snapshot_read = SnapMissing | SnapMalformed string | SnapNull | SnapFile snapshot_file

record snapshot =
  sp_headerOrder :: "string list"
  sp_headerValues :: "(string \<times> string) list"
  sp_bodyKeyOrder :: "string list option"
  sp_p50Ms :: "rat option"

definition loadSnapshot :: "snapshot_read \<Rightarrow> snapshot result" where
  "loadSnapshot f =
     (case f of
        SnapMissing \<Rightarrow> Inl (ConfigError ''snapshot not found'')
      | SnapMalformed m \<Rightarrow> Inl (ConfigError (redact (''snapshot malformed: '' @ m)))
      | SnapNull \<Rightarrow> Inl (Other ''null is not an object'')
      | SnapFile s \<Rightarrow>
          if sf_schemaVersion s \<noteq> Some (JNum SUPPORTED_SCHEMA_VERSION)
          then Inl (ConfigError ''snapshot schemaVersion not supported'')
          else (case (sf_headerOrder s, sf_headerValues s) of
             (Some ho, Some hv) \<Rightarrow> Inr \<lparr>sp_headerOrder = ho, sp_headerValues = hv,
                sp_bodyKeyOrder = sf_bodyKeyOrder s, sp_p50Ms = sf_p50Ms s\<rparr>
           | _ \<Rightarrow> Inl (ConfigError ''snapshot missing headerOrder or headerValues'')))"

definition tryCreateCandidateTemplate :: "snapshot_read \<Rightarrow> snapshot option" where
  "tryCreateCandidateTemplate f = (case loadSnapshot f of Inl _ \<Rightarrow> None | Inr s \<Rightarrow> Some s)"

definition recommendedMinGapMs :: "snapshot_read \<Rightarrow> rat option" where
  "recommendedMinGapMs f = (case loadSnapshot f of Inl _ \<Rightarrow> None | Inr s \<Rightarrow> sp_p50Ms s)"

text \<open>\<open>warnIfStale\<close>: an unparsable date gives \<open>NaN\<close> and no warning.\<close>

definition snapshot_stale :: "rat \<Rightarrow> rat option \<Rightarrow> bool" where
  "snapshot_stale now extractedAt =
     (case extractedAt of None \<Rightarrow> False | Some t \<Rightarrow> \<lfloor>(now - t) / 86400000\<rfloor> > SNAPSHOT_AGE_WARN_DAYS)"

subsection \<open>The beta flags\<close>

definition OAUTH_INCOMPATIBLE_BETA_PREFIXES :: "string list" where
  "OAUTH_INCOMPATIBLE_BETA_PREFIXES = []"

definition isOAuthIncompatibleBeta :: "string \<Rightarrow> bool" where
  "isOAuthIncompatibleBeta flag = list_ex (\<lambda>p. starts_with flag p) OAUTH_INCOMPATIBLE_BETA_PREFIXES"

definition flag_list :: "string \<Rightarrow> string list" where
  "flag_list v = filter (\<lambda>f. f \<noteq> []) (map trim (split_str '','' v))"

definition mergeAndFilterAnthropicBeta :: "string \<Rightarrow> string \<Rightarrow> string \<times> string list" where
  "mergeAndFilterAnthropicBeta baseValue clientValue =
     (let flags = js_set (flag_list baseValue @ flag_list clientValue)
      in (join_str '','' (filter (\<lambda>f. \<not> isOAuthIncompatibleBeta f) flags),
          filter isOAuthIncompatibleBeta flags))"

definition client_header :: "headers option \<Rightarrow> string \<Rightarrow> string option" where
  "client_header ch name = (case ch of None \<Rightarrow> None | Some h \<Rightarrow> hget h name)"

definition mergeAnthropicBeta :: "string \<Rightarrow> headers option \<Rightarrow> string" where
  "mergeAnthropicBeta baseValue ch =
     fst (mergeAndFilterAnthropicBeta baseValue
            (case client_header ch ''anthropic-beta'' of Some v \<Rightarrow> v | None \<Rightarrow> []))"

subsection \<open>The user agent\<close>

type_synonym cli_version = "nat \<times> nat \<times> nat"

definition MAX_FORWARDED_UA_LENGTH :: nat where "MAX_FORWARDED_UA_LENGTH = 120"
definition MAX_WARNED_UA_SHAPES :: nat where "MAX_WARNED_UA_SHAPES = 50"

text \<open>\<open>CLAUDE_CLI_UA\<close> from left to right: \<open>\d{1,4}\<close>, the dots, and the optional parenthesis at the end.\<close>

definition ua_num :: "string \<Rightarrow> (nat \<times> string) option" where
  "ua_num s =
     (let d = takeWhile is_digit s in
      if 1 \<le> length d \<and> length d \<le> 4 then Some (digits_val d, dropWhile is_digit s) else None)"

definition ua_dot :: "string \<Rightarrow> string option" where
  "ua_dot s = (case s of c # cs \<Rightarrow> if c = CHR ''.'' then Some cs else None | [] \<Rightarrow> None)"

definition ua_comment_char :: "char \<Rightarrow> bool" where
  "ua_comment_char c = (alnum c \<or> c \<in> set '' ,._:+/-'')"

definition ua_tail :: "string \<Rightarrow> bool" where
  "ua_tail s =
     (s = [] \<or>
      (starts_with s '' ('' \<and> ends_with s '')'' \<and>
       (let inner = butlast (drop 2 s) in
        3 \<le> length s \<and> 1 \<le> length inner \<and> length inner \<le> 60 \<and> list_all ua_comment_char inner)))"

definition parseClaudeCliUa :: "string \<Rightarrow> cli_version option" where
  "parseClaudeCliUa ua =
     (if \<not> starts_with ua ''claude-cli/'' then None
      else case ua_num (drop 11 ua) of None \<Rightarrow> None
        | Some (a, r1) \<Rightarrow> (case ua_dot r1 of None \<Rightarrow> None
        | Some r2 \<Rightarrow> (case ua_num r2 of None \<Rightarrow> None
        | Some (b, r3) \<Rightarrow> (case ua_dot r3 of None \<Rightarrow> None
        | Some r4 \<Rightarrow> (case ua_num r4 of None \<Rightarrow> None
        | Some (c, r5) \<Rightarrow> if ua_tail r5 then Some (a, b, c) else None)))))"

definition compareVersions :: "cli_version \<Rightarrow> cli_version \<Rightarrow> int" where
  "compareVersions x y =
     (let (a0, a1, a2) = x; (b0, b1, b2) = y in
      if a0 \<noteq> b0 then int a0 - int b0 else if a1 \<noteq> b1 then int a1 - int b1 else int a2 - int b2)"

definition resolveUserAgent :: "string \<Rightarrow> headers option \<Rightarrow> string" where
  "resolveUserAgent snapshotUserAgent ch =
     (case client_header ch ''user-agent'' of
        None \<Rightarrow> snapshotUserAgent
      | Some ua \<Rightarrow>
          if \<not> starts_with ua ''claude-cli/'' then snapshotUserAgent
          else case (if length ua \<le> MAX_FORWARDED_UA_LENGTH then parseClaudeCliUa ua else None) of
            None \<Rightarrow> snapshotUserAgent
          | Some cv \<Rightarrow> (case parseClaudeCliUa snapshotUserAgent of
              None \<Rightarrow> ua
            | Some sv \<Rightarrow> if compareVersions cv sv \<le> 0 then snapshotUserAgent else ua))"

text \<open>The two warnings remember what was warned about, at most fifty values each.\<close>

definition warnUnrecognizedCliUa :: "string \<Rightarrow> string list \<Rightarrow> bool \<times> string list" where
  "warnUnrecognizedCliUa ua seen =
     (if ua \<in> set seen \<or> length seen \<ge> MAX_WARNED_UA_SHAPES then (False, seen) else (True, seen @ [ua]))"

definition warnSnapshotBehind :: "cli_version \<Rightarrow> cli_version \<Rightarrow> (nat \<times> nat \<times> nat \<times> nat) list
     \<Rightarrow> bool \<times> (nat \<times> nat \<times> nat \<times> nat) list" where
  "warnSnapshotBehind sv cv seen =
     (let key = (fst sv, fst (snd sv), fst cv, fst (snd cv)) in
      if fst sv = fst cv \<and> fst (snd sv) = fst (snd cv) then (False, seen)
      else if key \<in> set seen \<or> length seen \<ge> MAX_WARNED_UA_SHAPES then (False, seen)
      else (True, seen @ [key]))"

subsection \<open>The headers\<close>

record header_state =
  hs_out :: "(string \<times> string) list"
  hs_authFilled :: bool
  hs_uaSeen :: bool

definition bearer :: "string \<Rightarrow> string" where "bearer token = ''Bearer '' @ token"

definition set_header :: "string \<Rightarrow> string \<Rightarrow> header_state \<Rightarrow> header_state" where
  "set_header n v s = s\<lparr>hs_out := AList.update n v (hs_out s)\<rparr>"

definition value_of :: "(string \<times> string) list \<Rightarrow> string \<Rightarrow> string" where
  "value_of vals n = (case map_of vals n of Some v \<Rightarrow> v | None \<Rightarrow> [])"

definition session_value :: "headers option \<Rightarrow> string \<Rightarrow> string" where
  "session_value ch uuid = (case client_header ch ''x-claude-code-session-id'' of Some (c # cs) \<Rightarrow> c # cs | _ \<Rightarrow> uuid)"

definition header_step ::
  "(string \<times> string) list \<Rightarrow> string \<Rightarrow> string \<Rightarrow> headers option \<Rightarrow> string \<Rightarrow> header_state \<Rightarrow> header_state" where
  "header_step vals token uuid ch name s =
     (if name \<in> set TRANSPORT then s
      else if name = ''x-api-key'' \<or> name = ''authorization''
      then if hs_authFilled s then s
           else (set_header ''authorization'' (bearer token) s)\<lparr>hs_authFilled := True\<rparr>
      else if name = ''x-claude-code-session-id''
      then set_header name (session_value ch uuid) s
      else if name = ''anthropic-beta''
      then set_header name (mergeAnthropicBeta (value_of vals name) ch) s
      else if name = ''user-agent''
      then let ua = resolveUserAgent (value_of vals name) ch; s' = s\<lparr>hs_uaSeen := True\<rparr>
           in if length ua > 0 then set_header name ua s' else s'
      else case map_of vals name of Some v \<Rightarrow> set_header name v s | None \<Rightarrow> s)"

definition header_finish :: "string \<Rightarrow> headers option \<Rightarrow> header_state \<Rightarrow> (string \<times> string) list" where
  "header_finish token ch s =
     (let o1 = (if hs_authFilled s then hs_out s else AList.update ''authorization'' (bearer token) (hs_out s));
          o2 = (if map_of o1 ''content-type'' \<noteq> None then o1
                else AList.update ''content-type'' ''application/json'' o1);
          ua = resolveUserAgent [] ch
      in if \<not> hs_uaSeen s \<and> length ua > 0 then AList.update ''user-agent'' ua o2 else o2)"

text \<open>\<open>new Map(entries)\<close>: a later entry with the same name wins.\<close>

definition value_map :: "(string \<times> string) list \<Rightarrow> (string \<times> string) list" where
  "value_map entries = fold (\<lambda>(n, v) m. AList.update n v m) entries []"

definition buildHeaders :: "snapshot \<Rightarrow> string \<Rightarrow> string \<Rightarrow> headers option \<Rightarrow> (string \<times> string) list" where
  "buildHeaders sp token uuid ch =
     header_finish token ch
       (fold (header_step (value_map (sp_headerValues sp)) token uuid ch) (sp_headerOrder sp)
          \<lparr>hs_out = [], hs_authFilled = False, hs_uaSeen = False\<rparr>)"

subsection \<open>The body\<close>

text \<open>\<open>{...v}\<close> of any parsed value: a string spreads into its characters.\<close>

definition spread_any :: "json \<Rightarrow> obj" where
  "spread_any v = (case v of
       JStr s \<Rightarrow> zip (map nat_str [0..<length s]) (map (\<lambda>c. JStr [c]) s) | _ \<Rightarrow> spread v)"

definition enriched_user_id :: "(string \<Rightarrow> json option) \<Rightarrow> (json \<Rightarrow> string) \<Rightarrow> string \<Rightarrow> string \<Rightarrow> string option" where
  "enriched_user_id parse stringify accountUuid user_id =
     (case parse user_id of
        None \<Rightarrow> None
      | Some v \<Rightarrow>
          if v = JNull then None
          else case as_str (jprop (Some v) ''account_uuid'') of
            Some (c # cs) \<Rightarrow> None
          | _ \<Rightarrow> Some (stringify (JObj (put ''account_uuid'' (JStr accountUuid) (spread_any v)))))"

definition enrichAccountUuid ::
  "(string \<Rightarrow> json option) \<Rightarrow> (json \<Rightarrow> string) \<Rightarrow> json \<Rightarrow> string option \<Rightarrow> json" where
  "enrichAccountUuid parse stringify clientBody accountUuid =
     (case (accountUuid, clientBody) of
        (Some (a # as), JObj kvs) \<Rightarrow>
          (case get kvs ''metadata'' of
             Some (JObj m) \<Rightarrow>
               (case as_str (get m ''user_id'') of
                  None \<Rightarrow> clientBody
                | Some uid \<Rightarrow>
                    (case enriched_user_id parse stringify (a # as) uid of
                       None \<Rightarrow> clientBody
                     | Some uid' \<Rightarrow> JObj (put ''metadata'' (JObj (put ''user_id'' (JStr uid') m)) kvs)))
           | _ \<Rightarrow> clientBody)
      | _ \<Rightarrow> clientBody)"

definition PROTO_NAMES :: "string list" where
  "PROTO_NAMES = [''constructor'', ''__defineGetter__'', ''__defineSetter__'', ''hasOwnProperty'',
     ''__lookupGetter__'', ''__lookupSetter__'', ''isPrototypeOf'', ''propertyIsEnumerable'',
     ''toString'', ''valueOf'', ''__proto__'', ''toLocaleString'']"

definition order_step :: "obj \<Rightarrow> string \<Rightarrow> obj \<Rightarrow> obj" where
  "order_step kvs k out =
     (case get kvs k of
        Some v \<Rightarrow> if k = ''__proto__'' then out else put k v out
      | None \<Rightarrow> out)"

definition rest_step :: "string \<times> json \<Rightarrow> obj \<Rightarrow> obj" where
  "rest_step kv out =
     (if fst kv \<in> set (obj_keys out) \<or> fst kv \<in> set PROTO_NAMES then out else put (fst kv) (snd kv) out)"

definition reorderBody :: "snapshot \<Rightarrow> json \<Rightarrow> json result" where
  "reorderBody sp clientBody =
     (case clientBody of
        JObj kvs \<Rightarrow>
          (case sp_bodyKeyOrder sp of
             None \<Rightarrow> Inl (Other ''snapshot.bodyKeyOrder is not iterable'')
           | Some order \<Rightarrow> Inr (JObj (fold rest_step kvs (fold (order_step kvs) order []))))
      | _ \<Rightarrow> Inr clientBody)"

definition template_apply ::
  "(string \<Rightarrow> json option) \<Rightarrow> (json \<Rightarrow> string) \<Rightarrow> string \<Rightarrow> snapshot \<Rightarrow> string option
     \<Rightarrow> json \<Rightarrow> headers option \<Rightarrow> string \<Rightarrow> outbound result" where
  "template_apply parse stringify uuid sp accountUuid clientBody ch accessToken =
     (case reorderBody sp (enrichAccountUuid parse stringify clientBody accountUuid) of
        Inl e \<Rightarrow> Inl e
      | Inr body \<Rightarrow> Inr \<lparr>ob_url = ANTHROPIC_MESSAGES_URL, ob_headers = buildHeaders sp accessToken uuid ch,
                       ob_body = stringify body\<rparr>)"

subsection \<open>What reaches the headers\<close>

definition CALLER_HEADERS :: "string list" where
  "CALLER_HEADERS = [''x-claude-code-session-id'', ''anthropic-beta'', ''user-agent'']"

lemma set_header_simps [simp]:
  "hs_authFilled (set_header n v s) = hs_authFilled s" "hs_uaSeen (set_header n v s) = hs_uaSeen s"
  "map_of (hs_out (set_header n v s)) m = (if m = n then Some v else map_of (hs_out s) m)"
  by (simp_all add: set_header_def)

definition headers_inv :: "string \<Rightarrow> header_state \<Rightarrow> bool" where
  "headers_inv token s =
     (map_of (hs_out s) ''authorization'' = (if hs_authFilled s then Some (bearer token) else None) \<and>
      map_of (hs_out s) ''x-api-key'' = None \<and> list_all (\<lambda>n. map_of (hs_out s) n = None) TRANSPORT)"

lemma not_transport:
  "''authorization'' \<notin> set TRANSPORT" "''x-claude-code-session-id'' \<notin> set TRANSPORT"
  "''anthropic-beta'' \<notin> set TRANSPORT" "''user-agent'' \<notin> set TRANSPORT" "''content-type'' \<notin> set TRANSPORT"
  by (simp_all add: TRANSPORT_def)

lemma headers_inv_set:
  "headers_inv token s \<Longrightarrow> n \<notin> set TRANSPORT \<Longrightarrow> n \<noteq> ''authorization'' \<Longrightarrow> n \<noteq> ''x-api-key'' \<Longrightarrow>
     headers_inv token (set_header n v s)"
  by (auto simp: headers_inv_def list_all_iff)

lemma headers_inv_auth:
  "headers_inv token s \<Longrightarrow> headers_inv token ((set_header ''authorization'' (bearer token) s)\<lparr>hs_authFilled := True\<rparr>)"
  using not_transport(1) by (auto simp: headers_inv_def list_all_iff)

lemma headers_inv_seen [simp]: "headers_inv token (s\<lparr>hs_uaSeen := b\<rparr>) = headers_inv token s"
  by (simp add: headers_inv_def)

lemma headers_inv_step:
  assumes "headers_inv token s"
  shows "headers_inv token (header_step vals token uuid ch name s)"
proof (cases "name \<in> set TRANSPORT \<or> name = ''x-api-key'' \<or> name = ''authorization''")
  case True
  with assms headers_inv_auth [OF assms] show ?thesis by (auto simp: header_step_def)
next
  case False
  then have "headers_inv token (set_header name v s)" "headers_inv token (set_header name v (s\<lparr>hs_uaSeen := True\<rparr>))" for v
    using assms by (simp_all add: headers_inv_set)
  with False assms show ?thesis
    unfolding header_step_def Let_def by (simp only: if_split option.split headers_inv_seen) blast
qed

lemma headers_inv_fold:
  "headers_inv token s \<Longrightarrow> headers_inv token (fold (header_step vals token uuid ch) names s)"
  by (induction names arbitrary: s) (simp_all add: headers_inv_step)

lemma finished:
  assumes "headers_inv token s"
  shows "map_of (header_finish token ch s) ''authorization'' = Some (bearer token)"
    "map_of (header_finish token ch s) ''x-api-key'' = None"
    "list_all (\<lambda>n. map_of (header_finish token ch s) n = None) TRANSPORT"
  using assms not_transport unfolding headers_inv_def header_finish_def Let_def list_all_iff
  by auto

text \<open>Two runs that differ in the caller's headers only agree on everything but the caller's three.\<close>

definition same_but_caller :: "header_state \<Rightarrow> header_state \<Rightarrow> bool" where
  "same_but_caller s t = (hs_authFilled s = hs_authFilled t \<and> hs_uaSeen s = hs_uaSeen t \<and>
     (\<forall>n. n \<notin> set CALLER_HEADERS \<longrightarrow> map_of (hs_out s) n = map_of (hs_out t) n))"

lemma same_set:
  "same_but_caller s t \<Longrightarrow> n \<in> set CALLER_HEADERS \<or> v = v' \<Longrightarrow> same_but_caller (set_header n v s) (set_header n v' t)"
  "same_but_caller s t \<Longrightarrow> n \<in> set CALLER_HEADERS \<Longrightarrow> same_but_caller (set_header n v s) t"
  "same_but_caller s t \<Longrightarrow> n \<in> set CALLER_HEADERS \<Longrightarrow> same_but_caller s (set_header n v t)"
  by (auto simp: same_but_caller_def)

lemma same_flags:
  "same_but_caller s t \<Longrightarrow> same_but_caller (s\<lparr>hs_uaSeen := b\<rparr>) (t\<lparr>hs_uaSeen := b\<rparr>)"
  "same_but_caller s t \<Longrightarrow> same_but_caller (s\<lparr>hs_authFilled := b\<rparr>) (t\<lparr>hs_authFilled := b\<rparr>)"
  by (auto simp: same_but_caller_def)

lemma caller_header:
  "''x-claude-code-session-id'' \<in> set CALLER_HEADERS" "''anthropic-beta'' \<in> set CALLER_HEADERS"
  "''user-agent'' \<in> set CALLER_HEADERS"
  by (simp_all add: CALLER_HEADERS_def)

lemma same_step:
  assumes st: "same_but_caller s t"
  shows "same_but_caller (header_step vals token uuid ch name s) (header_step vals token uuid' ch' name t)"
proof -
  have fl: "hs_authFilled s = hs_authFilled t" using st by (simp add: same_but_caller_def)
  consider "name \<in> set TRANSPORT"
    | "name \<notin> set TRANSPORT" "name = ''x-api-key'' \<or> name = ''authorization''"
    | "name \<notin> set TRANSPORT" "name \<noteq> ''x-api-key''" "name \<noteq> ''authorization''" "name = ''user-agent''"
    | "name \<notin> set TRANSPORT" "name \<noteq> ''x-api-key''" "name \<noteq> ''authorization''" "name \<noteq> ''user-agent''"
    by blast
  then show ?thesis
  proof cases
    case 1
    with st show ?thesis by (simp add: header_step_def)
  next
    case 2
    with st fl show ?thesis by (auto simp: header_step_def intro: same_set(1) same_flags(2))
  next
    case 3
    with same_flags(1) [OF st] caller_header(3) show ?thesis
      by (simp add: header_step_def Let_def same_set)
  next
    case 4
    with st caller_header show ?thesis
      by (simp add: header_step_def Let_def same_set split: option.split)
  qed
qed

lemma same_fold:
  "same_but_caller s t \<Longrightarrow>
     same_but_caller (fold (header_step vals token uuid ch) names s) (fold (header_step vals token uuid' ch') names t)"
  by (induction names arbitrary: s t) (simp_all add: same_step)

lemma same_finish:
  assumes "same_but_caller s t" "n \<notin> set CALLER_HEADERS"
  shows "map_of (header_finish token ch s) n = map_of (header_finish token ch' t) n"
proof -
  have ct: "''content-type'' \<notin> set CALLER_HEADERS" by (simp add: CALLER_HEADERS_def)
  have n: "n \<noteq> ''user-agent''" using assms(2) caller_header(3) by blast
  have "map_of (hs_out s) ''content-type'' = map_of (hs_out t) ''content-type''"
    "map_of (hs_out s) n = map_of (hs_out t) n" "hs_authFilled s = hs_authFilled t"
    using assms ct by (simp_all add: same_but_caller_def)
  with n show ?thesis
    by (cases "map_of (hs_out t) ''content-type''") (auto simp: header_finish_def Let_def)
qed

text \<open>C22: what a caller can put into the forwarded headers. Whatever the caller sends, the outgoing
  request carries the account's bearer token as its only authorization, no \<open>x-api-key\<close> and no
  transport header; and any header other than the session id, the beta flags and the user agent is
  the same for every caller, so neither the caller's key nor a cookie is forwarded.\<close>

theorem caller_reaches_three_headers:
  "map_of (buildHeaders sp token uuid ch) ''authorization'' = Some (bearer token) \<and>
   map_of (buildHeaders sp token uuid ch) ''x-api-key'' = None \<and>
   list_all (\<lambda>n. map_of (buildHeaders sp token uuid ch) n = None) TRANSPORT \<and>
   {n. map_of (buildHeaders sp token uuid ch) n \<noteq> map_of (buildHeaders sp token uuid' ch') n} \<subseteq> set CALLER_HEADERS"
proof -
  define s0 where "s0 = \<lparr>hs_out = [], hs_authFilled = False, hs_uaSeen = False\<rparr>"
  have "headers_inv token s0" by (simp add: s0_def headers_inv_def TRANSPORT_def)
  note inv = headers_inv_fold [OF this, of "value_map (sp_headerValues sp)" uuid ch "sp_headerOrder sp"]
  have "same_but_caller s0 s0" by (simp add: same_but_caller_def)
  note same = same_fold [OF this, of "value_map (sp_headerValues sp)" token uuid ch "sp_headerOrder sp" uuid' ch']
  have "{n. map_of (buildHeaders sp token uuid ch) n \<noteq> map_of (buildHeaders sp token uuid' ch') n} \<subseteq> set CALLER_HEADERS"
    using same_finish [OF same] by (auto simp: buildHeaders_def s0_def [symmetric])
  with finished [OF inv] show ?thesis
    by (simp add: buildHeaders_def s0_def [symmetric])
qed

subsection \<open>The user agent forwarded\<close>

definition version_le :: "cli_version \<Rightarrow> cli_version \<Rightarrow> bool" where
  "version_le x y = (fst x < fst y \<or> fst x = fst y \<and>
     (fst (snd x) < fst (snd y) \<or> fst (snd x) = fst (snd y) \<and> snd (snd x) \<le> snd (snd y)))"

lemma compare_le: "compareVersions x y \<le> 0 \<longleftrightarrow> version_le x y"
  by (auto simp: compareVersions_def version_le_def split_beta)

lemma version_le_total: "\<not> version_le x y \<Longrightarrow> version_le y x"
  by (auto simp: version_le_def)

text \<open>The forwarded user agent. It is the snapshot's or the caller's. A snapshot agent with a version
  is never replaced by an older or an unrecognised one, and the caller's is forwarded exactly when it
  has the shape of the real client within 120 characters and its version is higher.\<close>

theorem user_agent_never_older:
  assumes "parseClaudeCliUa snap = Some sv"
  shows "(\<exists>v. parseClaudeCliUa (resolveUserAgent snap ch) = Some v \<and> version_le sv v) \<and>
    (resolveUserAgent snap ch = snap \<or> client_header ch ''user-agent'' = Some (resolveUserAgent snap ch)) \<and>
    (resolveUserAgent snap ch \<noteq> snap \<longleftrightarrow>
       (\<exists>ua cv. client_header ch ''user-agent'' = Some ua \<and> length ua \<le> 120 \<and>
          parseClaudeCliUa ua = Some cv \<and> \<not> version_le cv sv))"
proof (cases "client_header ch ''user-agent''")
  case None
  with assms show ?thesis by (simp add: resolveUserAgent_def version_le_def)
next
  case (Some ua)
  have shape: "starts_with ua ''claude-cli/''" if "parseClaudeCliUa ua = Some cv" for cv
    using that by (auto simp: parseClaudeCliUa_def split: if_splits)
  show ?thesis
  proof (cases "length ua \<le> 120 \<and> (\<exists>cv. parseClaudeCliUa ua = Some cv \<and> \<not> version_le cv sv)")
    case True
    then obtain cv where cv: "length ua \<le> 120" "parseClaudeCliUa ua = Some cv" "\<not> version_le cv sv" by blast
    then have r: "resolveUserAgent snap ch = ua"
      using Some assms shape [OF cv(2)]
      by (simp add: resolveUserAgent_def MAX_FORWARDED_UA_LENGTH_def compare_le)
    moreover have "ua \<noteq> snap" using cv assms by (auto simp: version_le_def)
    ultimately show ?thesis unfolding r using Some cv version_le_total [OF cv(3)] by blast
  next
    case False
    then have r: "resolveUserAgent snap ch = snap"
      using Some assms
      by (auto simp: resolveUserAgent_def MAX_FORWARDED_UA_LENGTH_def compare_le split: option.splits)
    then show ?thesis using Some False assms by (auto simp: version_le_def)
  qed
qed

theorem user_agent_never_older_witness:
  "parseClaudeCliUa ''claude-cli/2.1.9 (x, y)'' = Some (2, 1, 9) \<and>
   resolveUserAgent ''claude-cli/2.1.9 (x, y)'' (Some [(''user-agent'', ''claude-cli/2.2.0'')]) \<noteq> ''claude-cli/2.1.9 (x, y)''"
proof -
  have s: "parseClaudeCliUa ''claude-cli/2.1.9 (x, y)'' = Some (2, 1, 9)" by code_simp
  have c: "parseClaudeCliUa ''claude-cli/2.2.0'' = Some (2, 2, 0)" by code_simp
  have h: "client_header (Some [(''user-agent'', ''claude-cli/2.2.0'')]) ''user-agent'' = Some ''claude-cli/2.2.0''"
    by code_simp
  have "\<not> version_le (2, 2, 0) (2, 1, 9)" "length ''claude-cli/2.2.0'' \<le> 120" by (simp_all add: version_le_def)
  with user_agent_never_older [OF s, of "Some [(''user-agent'', ''claude-cli/2.2.0'')]"] s c h show ?thesis by blast
qed

subsection \<open>The body forwarded\<close>

lemma get_order_fold:
  "get (fold (order_step kvs) order out) k =
     (if k \<in> set order \<and> k \<noteq> ''__proto__'' \<and> get kvs k \<noteq> None then get kvs k else get out k)"
  by (induction order arbitrary: out) (auto simp: order_step_def split: option.splits)

lemma key_iff: "k \<in> set (obj_keys out) \<longleftrightarrow> get out k \<noteq> None"
  by (simp add: get_None_iff)

lemma get_rest_fold:
  "get (fold rest_step xs out) k =
     (if get out k \<noteq> None then get out k else if k \<in> set PROTO_NAMES then None else get xs k)"
  by (induction xs arbitrary: out) (auto simp: rest_step_def key_iff)

lemma reordered:
  "reorderBody sp (JObj kvs) = Inr b \<Longrightarrow> \<exists>order. sp_bodyKeyOrder sp = Some order \<and>
     b = JObj (fold rest_step kvs (fold (order_step kvs) order []))"
  by (auto simp: reorderBody_def split: option.splits)

text \<open>Reordering keeps the body. Every key of the caller's body is forwarded with its value and no
  other key appears, with the one exception of keys named like a member of \<open>Object.prototype\<close> that
  the snapshot does not list: those are dropped.\<close>

theorem reordering_keeps_the_body:
  assumes "sp_bodyKeyOrder sp = Some order"
  shows "\<exists>out. reorderBody sp (JObj kvs) = Inr (JObj out) \<and>
    get out = (\<lambda>k. if k = ''__proto__'' \<or> k \<in> set PROTO_NAMES \<and> k \<notin> set order then None else get kvs k)"
proof -
  let ?out = "fold rest_step kvs (fold (order_step kvs) order [])"
  have "get ?out k = (if k = ''__proto__'' \<or> k \<in> set PROTO_NAMES \<and> k \<notin> set order then None else get kvs k)" for k
    by (cases "k = ''__proto__''") (auto simp: get_rest_fold get_order_fold PROTO_NAMES_def)
  with assms show ?thesis by (auto simp: reorderBody_def)
qed

definition demo_snapshot :: snapshot where
  "demo_snapshot = \<lparr>sp_headerOrder = [''x-api-key''], sp_headerValues = [], sp_bodyKeyOrder = Some [''model'', ''messages''],
     sp_p50Ms = None\<rparr>"

theorem reordering_keeps_the_body_witness:
  "\<exists>out. reorderBody demo_snapshot (JObj [(''messages'', JArr []), (''x'', JNull), (''model'', JStr ''m''), (''toString'', JNull)]) =
           Inr (JObj out) \<and> get out ''x'' = Some JNull \<and> get out ''toString'' = None"
proof -
  have "sp_bodyKeyOrder demo_snapshot = Some [''model'', ''messages'']" by (simp add: demo_snapshot_def)
  from reordering_keeps_the_body [OF this,
      of "[(''messages'', JArr []), (''x'', JNull), (''model'', JStr ''m''), (''toString'', JNull)]"]
  show ?thesis by (auto simp: PROTO_NAMES_def)
qed

text \<open>A user id that is itself JSON of a primitive is lost. When an account id is known and
  \<open>metadata.user_id\<close> is a decimal number (a legitimate opaque identifier), it is parsed as a number,
  spreads to nothing and is replaced: requests of different users are forwarded identically.\<close>

theorem numeric_user_ids_collapse:
  assumes "parse u = Some (JNum p)" and "parse u' = Some (JNum q)" and "account \<noteq> []"
  shows "enrichAccountUuid parse stringify (JObj (put ''metadata'' (JObj [(''user_id'', JStr u)]) kvs)) (Some account) =
         enrichAccountUuid parse stringify (JObj (put ''metadata'' (JObj [(''user_id'', JStr u')]) kvs)) (Some account)"
  using assms
  by (cases account)
     (simp_all add: enrichAccountUuid_def enriched_user_id_def as_str_def jprop_def spread_any_def spread_def)

definition demo_num_parse :: "string \<Rightarrow> json option" where
  "demo_num_parse s = (if s = ''17'' then Some (JNum 17) else if s = ''18'' then Some (JNum 18) else None)"

theorem numeric_user_ids_collapse_witness:
  "enrichAccountUuid demo_num_parse (\<lambda>v. ''j'') (JObj (put ''metadata'' (JObj [(''user_id'', JStr ''17'')]) [])) (Some ''acc'') =
   enrichAccountUuid demo_num_parse (\<lambda>v. ''j'') (JObj (put ''metadata'' (JObj [(''user_id'', JStr ''18'')]) [])) (Some ''acc'')"
proof (rule numeric_user_ids_collapse)
  show "demo_num_parse ''17'' = Some (JNum 17)" by (simp add: demo_num_parse_def)
  show "demo_num_parse ''18'' = Some (JNum 18)" by (simp add: demo_num_parse_def)
qed simp

end
