(* ===== verification/Guards.thy ===== *)
theory Guards
  imports Errors
begin

text \<open>
  Three pieces of state every request passes: \<open>src/src/usage/global.ts\<close> (the subscription guard),
  \<open>src/src/canary.ts\<close> (which template serves a request) and \<open>src/src/account-learner.ts\<close> (the
  account identity learned from responses). The threshold and the percentage are configured numbers,
  so the former may be \<open>NaN\<close>; a roll of the dice is an argument in \<open>[0, 100)\<close>.
\<close>

subsection \<open>The subscription guard\<close>

definition REMAINING_HEADER_CANDIDATES :: "string list" where
  "REMAINING_HEADER_CANDIDATES =
     [''anthropic-ratelimit-unified-remaining'', ''anthropic-ratelimit-tokens-remaining'']"

record global_guard =
  gg_remaining :: "rat option"
  gg_observedAt :: "rat option"

definition gg_init :: global_guard where
  "gg_init = \<lparr>gg_remaining = None, gg_observedAt = None\<rparr>"

fun observe_candidates :: "string list \<Rightarrow> rat \<Rightarrow> headers \<Rightarrow> global_guard \<Rightarrow> global_guard" where
  "observe_candidates [] now h g = g"
| "observe_candidates (name # names) now h g =
     (case hget h name of
        None \<Rightarrow> observe_candidates names now h g
      | Some raw \<Rightarrow> (case js_Number raw of
           Num n \<Rightarrow> g\<lparr>gg_remaining := Some n, gg_observedAt := Some now\<rparr>
         | _ \<Rightarrow> observe_candidates names now h g))"

definition observeHeaders :: "rat \<Rightarrow> headers \<Rightarrow> global_guard \<Rightarrow> global_guard" where
  "observeHeaders now h g = observe_candidates REMAINING_HEADER_CANDIDATES now h g"

definition assertSubscriptionHealthy :: "jsnum \<Rightarrow> global_guard \<Rightarrow> exn option" where
  "assertSubscriptionHealthy threshold g =
     (if js_le threshold (Num 0) then None
      else case gg_remaining g of
             None \<Rightarrow> None
           | Some r \<Rightarrow> if js_lt (Num r) threshold then Some (QuotaExceeded ''subscription headroom low'') else None)"

subsection \<open>The canary\<close>

datatype canary_reason = NoCandidate | Disabled | Tripped | RandomStable | RandomCandidate

record canary =
  ca_candidate :: bool
  ca_percent :: rat
  ca_tripped :: bool
  ca_trippedAt :: "rat option"
  ca_trippedReason :: "string option"
  ca_candidateRequests :: nat
  ca_stableRequests :: nat

definition createCanaryController :: "bool \<Rightarrow> rat \<Rightarrow> canary" where
  "createCanaryController candidate percent =
     \<lparr>ca_candidate = candidate, ca_percent = percent, ca_tripped = False, ca_trippedAt = None,
      ca_trippedReason = None, ca_candidateRequests = 0, ca_stableRequests = 0\<rparr>"

definition canary_active :: "canary \<Rightarrow> bool" where
  "canary_active c = (ca_candidate c \<and> ca_percent c > 0)"

definition canary_percent :: "canary \<Rightarrow> rat" where
  "canary_percent c = min (max 0 (ca_percent c)) 100"

definition canary_decide :: "rat \<Rightarrow> canary \<Rightarrow> bool \<times> canary_reason" where
  "canary_decide roll c =
     (if \<not> ca_candidate c then (False, NoCandidate)
      else if \<not> canary_active c \<or> canary_percent c = 0 then (False, Disabled)
      else if ca_tripped c then (False, Tripped)
      else if roll < canary_percent c then (True, RandomCandidate) else (False, RandomStable))"

definition canary_recordRequest :: "bool \<Rightarrow> canary \<Rightarrow> canary" where
  "canary_recordRequest used c =
     (if used then c\<lparr>ca_candidateRequests := ca_candidateRequests c + 1\<rparr>
      else c\<lparr>ca_stableRequests := ca_stableRequests c + 1\<rparr>)"

definition canary_trip :: "rat \<Rightarrow> string \<Rightarrow> canary \<Rightarrow> canary" where
  "canary_trip now reason c =
     (if ca_tripped c then c
      else c\<lparr>ca_tripped := True, ca_trippedAt := Some now, ca_trippedReason := Some reason\<rparr>)"

definition canary_reset :: "canary \<Rightarrow> canary" where
  "canary_reset c = c\<lparr>ca_tripped := False, ca_trippedAt := None, ca_trippedReason := None\<rparr>"

datatype canary_op = Decide rat | RecordRequest bool | Trip rat string | Reset

fun canary_run :: "canary_op list \<Rightarrow> canary \<Rightarrow> bool list \<times> canary" where
  "canary_run [] c = ([], c)"
| "canary_run (Decide roll # ops) c =
     (let (ds, c') = canary_run ops c in (fst (canary_decide roll c) # ds, c'))"
| "canary_run (RecordRequest u # ops) c = canary_run ops (canary_recordRequest u c)"
| "canary_run (Trip now r # ops) c = canary_run ops (canary_trip now r c)"
| "canary_run (Reset # ops) c = canary_run ops (canary_reset c)"

subsection \<open>The account learner\<close>

definition account_field :: "json \<Rightarrow> string option" where
  "account_field data =
     (if \<not> is_object data then None
      else
        let o' = Some data; acc = jprop o' ''account''; usr = jprop o' ''user'';
            candidates = [jprop o' ''account_uuid'', jprop o' ''account_id'', jprop acc ''uuid'',
              jprop acc ''id'', jprop o' ''user_id'', jprop usr ''uuid'', jprop usr ''id'', jprop o' ''id'']
        in (case filter (\<lambda>c. case as_str c of Some s \<Rightarrow> s \<noteq> [] | None \<Rightarrow> False) candidates of
              [] \<Rightarrow> None | c # _ \<Rightarrow> as_str c))"

definition learner_observe :: "headers \<Rightarrow> string option \<Rightarrow> string option" where
  "learner_observe h current =
     (case hget h ''anthropic-organization-id'' of
        Some (c # cs) \<Rightarrow> Some (c # cs) | _ \<Rightarrow> current)"

definition learner_override :: "string \<Rightarrow> string option \<Rightarrow> string option" where
  "learner_override uuid current = (if length uuid > 0 then Some uuid else current)"

text \<open>The answers of the bootstrap endpoints, in the order they are tried: \<open>None\<close> for a failed call, a
  status that is not ok or text that is not JSON.\<close>

fun learner_bootstrap :: "json option list \<Rightarrow> string option \<Rightarrow> string option \<times> string option" where
  "learner_bootstrap [] current = (None, current)"
| "learner_bootstrap (r # rs) current =
     (case (case r of Some data \<Rightarrow> account_field data | None \<Rightarrow> None) of
        Some uuid \<Rightarrow> (Some uuid, Some uuid)
      | None \<Rightarrow> learner_bootstrap rs current)"

lemma tripped_run:
  assumes "ca_tripped c" and "Reset \<notin> set ops"
  shows "fst (canary_run ops c) = replicate (length [() . Decide _ \<leftarrow> ops]) False \<and>
         ca_tripped (snd (canary_run ops c)) \<and>
         ca_trippedReason (snd (canary_run ops c)) = ca_trippedReason c"
  using assms
  by (induction ops c rule: canary_run.induct)
     (auto simp: canary_decide_def canary_recordRequest_def canary_trip_def split_beta)

lemma decide_candidate:
  "fst (canary_decide roll c) \<longleftrightarrow>
     ca_candidate c \<and> \<not> ca_tripped c \<and> 0 < ca_percent c \<and> roll < min (ca_percent c) 100"
  by (auto simp: canary_decide_def canary_active_def canary_percent_def max_def)

text \<open>The canary fails closed. Once a request on the candidate tripped it, no later request is
  routed to the candidate and the first reason is kept, until the operator resets it; and a request
  is routed there at all only when a candidate exists, the percentage is positive and the roll falls
  below it.\<close>

theorem tripped_canary_stays_stable:
  assumes "Reset \<notin> set ops"
  shows "True \<notin> set (fst (canary_run ops (canary_trip now reason c))) \<and>
         ca_tripped (snd (canary_run ops (canary_trip now reason c))) \<and>
         (\<not> ca_tripped c \<longrightarrow>
            ca_trippedReason (snd (canary_run ops (canary_trip now reason c))) = Some reason) \<and>
         (fst (canary_decide roll c) \<longleftrightarrow>
            ca_candidate c \<and> \<not> ca_tripped c \<and> 0 < ca_percent c \<and> roll < min (ca_percent c) 100)"
proof -
  have "ca_tripped (canary_trip now reason c)" by (simp add: canary_trip_def)
  from tripped_run [OF this assms] decide_candidate [of roll c] show ?thesis
    by (auto simp: canary_trip_def)
qed

theorem tripped_canary_stays_stable_witness:
  "True \<notin> set (fst (canary_run [Decide 1, RecordRequest False, Trip 9 ''again'', Decide 0]
     (canary_trip 5 ''tier'' (createCanaryController True 50)))) \<and>
   fst (canary_decide 1 (createCanaryController True 50))"
  using tripped_canary_stays_stable [of "[Decide 1, RecordRequest False, Trip 9 ''again'', Decide 0]"
      5 "''tier''" "createCanaryController True 50" 1]
  by (simp add: createCanaryController_def)

end
