(* ===== verification/Cooldown.thy ===== *)
theory Cooldown
  imports Errors
begin

text \<open>
  The cooldown several parts of the program put on a message (\<open>withCooldown\<close> of \<open>src/src/alerts.ts\<close>,
  the billing alarm, the throttled warnings of the concurrency limiter and of the outcome observer),
  as an interface: an offer that is due fires unless the last firing is less than the gap ago.
\<close>

text \<open>Offers at given clock readings, one after the other; the result lists what fired and when.\<close>

fun offers :: "(rat \<Rightarrow> 'e \<Rightarrow> 's \<Rightarrow> 'o option \<times> 's) \<Rightarrow> (rat \<times> 'e) list \<Rightarrow> 's \<Rightarrow> (rat \<times> 'o) list \<times> 's" where
  "offers f [] s = ([], s)"
| "offers f ((now, e) # es) s =
     (let (r, s1) = f now e s; (fs, s2) = offers f es s1
      in (case r of None \<Rightarrow> fs | Some x \<Rightarrow> (now, x) # fs, s2))"

lemma offers_fires:
  "f now e s = (Some x, s1) \<Longrightarrow>
     offers f ((now, e) # es) s = ((now, x) # fst (offers f es s1), snd (offers f es s1))"
  by (simp add: split_beta)

lemma offers_quiet: "f now e s = (None, s1) \<Longrightarrow> offers f ((now, e) # es) s = offers f es s1"
  by (simp add: split_beta)

locale cooldown_gate =
  fixes offer :: "rat \<Rightarrow> 'e \<Rightarrow> 's \<Rightarrow> 'o option \<times> 's"
    and due :: "rat \<Rightarrow> 'e \<Rightarrow> 's \<Rightarrow> bool"
    and last_at :: "'s \<Rightarrow> rat option"
    and gap :: rat
  assumes fires_iff: "fst (offer now e s) \<noteq> None \<longleftrightarrow>
          due now e s \<and> (case last_at s of None \<Rightarrow> True | Some t \<Rightarrow> gap \<le> now - t)"
    and last_after: "last_at (snd (offer now e s)) =
          (if fst (offer now e s) \<noteq> None then Some now else last_at s)"
begin

lemma spaced_after:
  "spaced gap ((case last_at s of None \<Rightarrow> [] | Some t \<Rightarrow> [t]) @ map fst (fst (offers offer es s)))"
proof (induction es arbitrary: s)
  case Nil
  then show ?case by (simp split: option.splits)
next
  case (Cons ev es)
  obtain now e where ev: "ev = (now, e)" by fastforce
  obtain r s1 where o1: "offer now e s = (r, s1)" by fastforce
  show ?case
  proof (cases r)
    case None
    with last_after [of now e s] o1 have "last_at s1 = last_at s" by simp
    with Cons.IH [of s1] None ev o1 show ?thesis by (simp add: offers_quiet del: offers.simps)
  next
    case (Some x)
    with last_after [of now e s] o1 have "last_at s1 = Some now" by simp
    moreover have "case last_at s of None \<Rightarrow> True | Some t \<Rightarrow> gap \<le> now - t"
      using fires_iff [of now e s] o1 Some by simp
    ultimately show ?thesis
      using Cons.IH [of s1] Some ev o1
      by (auto simp: offers_fires simp del: offers.simps split: option.splits)
  qed
qed

lemma firings_spaced: "spaced gap (map fst (fst (offers offer es s)))"
  using spaced_after [of s es] spaced_tl by (force split: option.splits)

text \<open>Within any stretch of time between the first and the last firing there are no more than fit.\<close>

lemma firings_count:
  assumes "fst (offers offer es s) = (t, x) # fs"
  shows "t + of_nat (length fs) * gap \<le> last (map fst (fst (offers offer es s)))"
  using spaced_count [of gap t "map fst fs"] firings_spaced [of es s] assms by simp

lemma due_after_gap_fires:
  "due now e s \<Longrightarrow> last_at s = Some t \<Longrightarrow> t + gap \<le> now \<Longrightarrow> fst (offer now e s) \<noteq> None"
  by (subst fires_iff) simp

end

end
