(* ===== verification/Drift.thy ===== *)
theory Drift
  imports Errors
begin

text \<open>
  \<open>src/src/usage/drift-analyzer.ts\<close>: the ring of recent request fingerprints and the comparison of the
  requests before and after a moment. A JavaScript \<open>Set\<close> is the list of its values in the order they
  were first added.
\<close>

definition RING_SIZE :: nat where "RING_SIZE = 100"

record fingerprint =
  fp_ts :: rat
  fp_userKey :: string
  fp_headerNames :: "string list"
  fp_bodyKeys :: "string list"
  fp_anthropicBeta :: string
  fp_userAgent :: string
  fp_model :: string

record drift_report =
  dr_comparedAt :: rat
  dr_recentCount :: nat
  dr_changes :: "string list"

definition minus_set :: "string list \<Rightarrow> string list \<Rightarrow> string list" where
  "minus_set after before = filter (\<lambda>x. x \<notin> set before) after"

definition diffSets :: "string \<Rightarrow> string list \<Rightarrow> string list \<Rightarrow> string list" where
  "diffSets label before after =
     (let added = minus_set after before; removed = minus_set before after in
      (if length added > 0 then [label @ '' added: '' @ join_str '', '' added] else []) @
      (if length removed > 0 then [label @ '' removed: '' @ join_str '', '' removed] else []))"

definition diffValues :: "string \<Rightarrow> string list \<Rightarrow> string list \<Rightarrow> string list" where
  "diffValues label before after =
     (let added = minus_set after before in
      if length added = 0 then [] else [label @ '' new value(s): '' @ join_str '' | '' added])"

definition drift_record :: "fingerprint \<Rightarrow> fingerprint list \<Rightarrow> fingerprint list" where
  "drift_record fp ring =
     (let pushed = ring @ [fp] in if length pushed > RING_SIZE then tl pushed else pushed)"

definition collect_fp :: "(fingerprint \<Rightarrow> string list) \<Rightarrow> fingerprint list \<Rightarrow> string list" where
  "collect_fp pick fps = js_set (concat (map pick fps))"

definition collectVal :: "(fingerprint \<Rightarrow> string) \<Rightarrow> fingerprint list \<Rightarrow> string list" where
  "collectVal pick fps = js_set (filter (\<lambda>v. v \<noteq> []) (map pick fps))"

definition beta_flags :: "fingerprint list \<Rightarrow> string list" where
  "beta_flags fps =
     js_set (concat (map (\<lambda>fp. map trim (filter (\<lambda>f. f \<noteq> []) (split_str '','' (fp_anthropicBeta fp)))) fps))"

definition NO_RECENT :: string where
  "NO_RECENT = ''(no recent requests within window - drift cause unobservable)''"

definition NO_AXIS :: string where
  "NO_AXIS = ''(no axis change detected - likely upstream-side classifier shift)''"

definition drift_changes :: "fingerprint list \<Rightarrow> fingerprint list \<Rightarrow> string list" where
  "drift_changes before after =
     diffSets ''header names'' (collect_fp fp_headerNames before) (collect_fp fp_headerNames after) @
     diffSets ''body keys'' (collect_fp fp_bodyKeys before) (collect_fp fp_bodyKeys after) @
     diffSets ''anthropic-beta'' (beta_flags before) (beta_flags after) @
     diffValues ''user-agent'' (collectVal fp_userAgent before) (collectVal fp_userAgent after) @
     diffValues ''model'' (collectVal fp_model before) (collectVal fp_model after) @
     diffSets ''users'' (collectVal fp_userKey before) (collectVal fp_userKey after)"

definition drift_analyze :: "rat \<Rightarrow> rat \<Rightarrow> fingerprint list \<Rightarrow> drift_report" where
  "drift_analyze now splitAt ring =
     (let before = filter (\<lambda>fp. fp_ts fp \<le> splitAt) ring;
          after = filter (\<lambda>fp. fp_ts fp > splitAt) ring in
      if length after = 0
      then \<lparr>dr_comparedAt = now, dr_recentCount = 0, dr_changes = [NO_RECENT]\<rparr>
      else let changes = drift_changes before after in
        \<lparr>dr_comparedAt = now, dr_recentCount = length after,
         dr_changes = (if length changes > 0 then changes else [NO_AXIS])\<rparr>)"

subsection \<open>The ring\<close>

text \<open>After any requests the ring holds the most recent hundred, in order.\<close>

lemma drift_record_run:
  "fold drift_record fps [] = drop (length fps - RING_SIZE) fps"
proof (induction fps rule: rev_induct)
  case (snoc fp fps)
  show ?case
  proof (cases "length fps < 100")
    case True
    with snoc show ?thesis by (simp add: drift_record_def Let_def RING_SIZE_def)
  next
    case False
    then have "Suc (length fps - 100) = length fps - 99" "drop (length fps - 100) fps \<noteq> []" by auto
    then have "tl (drop (length fps - 100) fps @ [fp]) = drop (length fps - 99) fps @ [fp]"
      by (simp add: tl_drop drop_Suc [symmetric])
    with snoc False show ?thesis by (simp add: drift_record_def Let_def RING_SIZE_def)
  qed
qed simp

subsection \<open>The comparison\<close>

lemma minus_set_Nil: "minus_set after before = [] \<longleftrightarrow> set after \<subseteq> set before"
  by (auto simp: minus_set_def filter_empty_conv)

lemma diffSets_Nil: "diffSets l before after = [] \<longleftrightarrow> set before = set after"
  by (auto simp: diffSets_def Let_def minus_set_Nil)

lemma diffValues_Nil: "diffValues l before after = [] \<longleftrightarrow> set after \<subseteq> set before"
  by (auto simp: diffValues_def Let_def minus_set_Nil)

lemma minus_subset: "A - {x} \<subseteq> B - {x} \<longleftrightarrow> A - {x} \<subseteq> B"
  by blast

lemmas diff_Nil = diffSets_Nil diffValues_Nil

lemma set_collect_fp [simp]: "set (collect_fp pick fps) = (\<Union>fp \<in> set fps. set (pick fp))"
  by (simp add: collect_fp_def)

lemma set_collectVal [simp]: "set (collectVal pick fps) = pick ` set fps - {[]}"
  by (auto simp: collectVal_def)

lemma diff_text: "c \<in> set (diffSets l b a) \<or> c \<in> set (diffValues l b a) \<Longrightarrow> l \<noteq> [] \<Longrightarrow> hd c = hd l"
  by (auto simp: diffSets_def diffValues_def Let_def split: if_splits)

lemma change_text: "c \<in> set (drift_changes b a) \<Longrightarrow> c \<noteq> NO_AXIS \<and> c \<noteq> NO_RECENT"
  using diff_text [of c]
  by (fastforce simp: drift_changes_def NO_AXIS_def NO_RECENT_def)

lemma texts_differ: "NO_AXIS \<noteq> NO_RECENT"
  by (simp add: NO_AXIS_def NO_RECENT_def)

text \<open>The report is never empty, so the monitor always appends a hint.\<close>

lemma analyze_nonempty: "dr_changes (drift_analyze now splitAt ring) \<noteq> []"
  by (simp add: drift_analyze_def Let_def)

text \<open>What the drift report says. After any sequence of requests it compares the most recent hundred
  only; it names no change of an axis exactly when some request lies after the moment and, against
  those before, the header names, body keys, beta flags and users are the same sets and no user
  agent and no model is new.\<close>

theorem drift_report_silent_iff:
  "NO_AXIS \<in> set (dr_changes (drift_analyze now splitAt (fold drift_record fps []))) \<longleftrightarrow>
     (let recent = drop (length fps - 100) fps;
          old = {fp \<in> set recent. fp_ts fp \<le> splitAt}; new = {fp \<in> set recent. fp_ts fp > splitAt}
      in new \<noteq> {} \<and>
         (\<Union>fp\<in>old. set (fp_headerNames fp)) = (\<Union>fp\<in>new. set (fp_headerNames fp)) \<and>
         (\<Union>fp\<in>old. set (fp_bodyKeys fp)) = (\<Union>fp\<in>new. set (fp_bodyKeys fp)) \<and>
         set (beta_flags (filter (\<lambda>fp. fp_ts fp \<le> splitAt) recent)) =
           set (beta_flags (filter (\<lambda>fp. fp_ts fp > splitAt) recent)) \<and>
         fp_userAgent ` new - {[]} \<subseteq> fp_userAgent ` old \<and>
         fp_model ` new - {[]} \<subseteq> fp_model ` old \<and>
         fp_userKey ` old - {[]} = fp_userKey ` new - {[]})"
proof -
  let ?report = "NO_AXIS \<in> set (dr_changes (drift_analyze now splitAt (fold drift_record fps [])))"
  define r where "r = drop (length fps - 100) fps"
  define b where "b = filter (\<lambda>fp. fp_ts fp \<le> splitAt) r"
  define a where "a = filter (\<lambda>fp. fp_ts fp > splitAt) r"
  have no_axis: "NO_AXIS \<notin> set (drift_changes b a)" using change_text by blast
  have report: "dr_changes (drift_analyze now splitAt (fold drift_record fps [])) =
      (if a = [] then [NO_RECENT] else if drift_changes b a = [] then [NO_AXIS] else drift_changes b a)"
    by (simp add: drift_analyze_def Let_def drift_record_run RING_SIZE_def
        r_def [symmetric] b_def [symmetric] a_def [symmetric])
  have "?report \<longleftrightarrow>
      a \<noteq> [] \<and> drift_changes b a = []"
    using no_axis texts_differ
    by (cases "a = []"; cases "drift_changes b a = []") (simp_all add: report)
  also have "\<dots> \<longleftrightarrow> a \<noteq> [] \<and>
      (\<Union>fp\<in>set b. set (fp_headerNames fp)) = (\<Union>fp\<in>set a. set (fp_headerNames fp)) \<and>
      (\<Union>fp\<in>set b. set (fp_bodyKeys fp)) = (\<Union>fp\<in>set a. set (fp_bodyKeys fp)) \<and>
      set (beta_flags b) = set (beta_flags a) \<and>
      fp_userAgent ` set a - {[]} \<subseteq> fp_userAgent ` set b \<and>
      fp_model ` set a - {[]} \<subseteq> fp_model ` set b \<and>
      fp_userKey ` set b - {[]} = fp_userKey ` set a - {[]}"
    unfolding drift_changes_def append_is_Nil_conv diff_Nil set_collect_fp set_collectVal minus_subset
    by (rule refl)
  finally have main: "?report \<longleftrightarrow> a \<noteq> [] \<and>
      (\<Union>fp\<in>set b. set (fp_headerNames fp)) = (\<Union>fp\<in>set a. set (fp_headerNames fp)) \<and>
      (\<Union>fp\<in>set b. set (fp_bodyKeys fp)) = (\<Union>fp\<in>set a. set (fp_bodyKeys fp)) \<and>
      set (beta_flags b) = set (beta_flags a) \<and>
      fp_userAgent ` set a - {[]} \<subseteq> fp_userAgent ` set b \<and>
      fp_model ` set a - {[]} \<subseteq> fp_model ` set b \<and>
      fp_userKey ` set b - {[]} = fp_userKey ` set a - {[]}" .
  have sets: "{fp \<in> set r. fp_ts fp \<le> splitAt} = set b" "{fp \<in> set r. splitAt < fp_ts fp} = set a"
    by (simp_all add: a_def b_def)
  show ?thesis
    unfolding Let_def r_def [symmetric] sets b_def [symmetric] a_def [symmetric] main
    by simp
qed

end
