(* ===== verification/Billing.thy ===== *)
theory Billing
  imports Cooldown Drift
begin

text \<open>
  \<open>src/src/usage/billing-monitor.ts\<close>: every response's service tier and unified status are compared
  with subscription billing; a deviation is counted, and announced unless an alarm was raised less
  than the cooldown ago. The alarm text carries the drift report of the last five minutes when an
  analyzer is given, as the ring it holds at that moment.
\<close>

definition STANDARD_TIER :: string where "STANDARD_TIER = ''standard''"
definition OK_STATUS :: "string list" where "OK_STATUS = [''allowed'', ''allowed_warning'']"
definition ALARM_COOLDOWN_MS :: rat where "ALARM_COOLDOWN_MS = 60 * 1000"

record billing_observation =
  bo_serviceTier :: "string option"
  bo_unifiedStatus :: "string option"
  bo_representativeClaim :: "string option"
  bo_observedAt :: rat

record billing =
  bm_lastObservation :: "billing_observation option"
  bm_nonStandardCount :: nat
  bm_lastAlarmAt :: "rat option"

definition createBillingMonitor :: billing where
  "createBillingMonitor = \<lparr>bm_lastObservation = None, bm_nonStandardCount = 0, bm_lastAlarmAt = None\<rparr>"

definition tierBad :: "string option \<Rightarrow> bool" where
  "tierBad tier = (tier \<noteq> None \<and> tier \<noteq> Some STANDARD_TIER)"

definition statusBad :: "string option \<Rightarrow> bool" where
  "statusBad status = (case status of None \<Rightarrow> False | Some s \<Rightarrow> s \<notin> set OK_STATUS)"

definition alarm_text ::
  "rat \<Rightarrow> fingerprint list option \<Rightarrow> string option \<Rightarrow> string option \<Rightarrow> string option \<Rightarrow> nat \<Rightarrow> string" where
  "alarm_text now ring tier status claim count =
     (let reasons = (if tierBad tier then [''service_tier='' @ the tier] else []) @
                    (if statusBad status then [''unified-status='' @ the status] else []);
          rootCause = (case ring of
             None \<Rightarrow> []
           | Some r \<Rightarrow>
               let report = drift_analyze now (now - 5 * 60000) r in
               if length (dr_changes report) > 0
               then CHR 0x0A # ''  root cause hint (window='' @ nat_str (dr_recentCount report) @ '' reqs): '' @
                    join_str ''; '' (dr_changes report)
               else [])
      in ''[billing] ALARM - '' @ join_str '' '' reasons @
         (case claim of Some (c # cs) \<Rightarrow> '' (representative-claim='' @ (c # cs) @ '')'' | _ \<Rightarrow> []) @
         '' - total non-standard responses: '' @ nat_str count @ rootCause)"

definition billing_observe ::
  "rat \<Rightarrow> rat \<Rightarrow> string option \<times> headers \<times> fingerprint list option \<Rightarrow> billing \<Rightarrow> string option \<times> billing" where
  "billing_observe cooldown now ev b =
     (let (tier, h, ring) = ev;
          status = hget h ''anthropic-ratelimit-unified-status'';
          claim = hget h ''anthropic-ratelimit-unified-representative-claim'';
          b1 = b\<lparr>bm_lastObservation := Some \<lparr>bo_serviceTier = tier, bo_unifiedStatus = status,
                 bo_representativeClaim = claim, bo_observedAt = now\<rparr>\<rparr>
      in if \<not> tierBad tier \<and> \<not> statusBad status then (None, b1)
         else
           let b2 = b1\<lparr>bm_nonStandardCount := bm_nonStandardCount b1 + 1\<rparr> in
           if (case bm_lastAlarmAt b2 of None \<Rightarrow> False | Some t \<Rightarrow> now - t < cooldown) then (None, b2)
           else (Some (alarm_text now ring tier status claim (bm_nonStandardCount b2)),
                 b2\<lparr>bm_lastAlarmAt := Some now\<rparr>))"

text \<open>A response that does not look like subscription billing.\<close>

definition deviates :: "string option \<times> headers \<times> fingerprint list option \<Rightarrow> bool" where
  "deviates ev = (tierBad (fst ev) \<or> statusBad (hget (fst (snd ev)) ''anthropic-ratelimit-unified-status''))"

interpretation bm: cooldown_gate "billing_observe gap" "\<lambda>_ ev _. deviates ev" bm_lastAlarmAt gap for gap
  by unfold_locales
     (auto simp: billing_observe_def deviates_def Let_def split_beta split: option.splits)

lemma observe_count:
  "bm_nonStandardCount (snd (billing_observe gap now ev b)) =
     bm_nonStandardCount b + (if deviates ev then 1 else 0)"
  by (auto simp: billing_observe_def deviates_def Let_def split_beta split: option.splits)

lemma run_count:
  "bm_nonStandardCount (snd (offers (billing_observe gap) es b)) =
     bm_nonStandardCount b + length (filter (\<lambda>(_, ev). deviates ev) es)"
  by (induction es arbitrary: b) (auto simp: split_beta observe_count split: option.splits)

text \<open>Billing alarms. Over any responses the alarms are at least the cooldown apart, every deviating
  response is counted whether or not it is announced, and a deviating response is announced exactly
  when no alarm was raised before or the last one is at least the cooldown ago.\<close>

theorem billing_alarms_spaced:
  "spaced cooldown (map fst (fst (offers (billing_observe cooldown) es createBillingMonitor))) \<and>
   bm_nonStandardCount (snd (offers (billing_observe cooldown) es createBillingMonitor)) =
     length (filter (\<lambda>(_, ev). deviates ev) es) \<and>
   (fst (billing_observe cooldown now ev b) \<noteq> None \<longleftrightarrow>
      deviates ev \<and> (case bm_lastAlarmAt b of None \<Rightarrow> True | Some t \<Rightarrow> cooldown \<le> now - t))"
  using bm.firings_spaced [of cooldown es createBillingMonitor] bm.fires_iff [of cooldown now ev b]
  by (simp add: run_count) (simp add: createBillingMonitor_def)

end
