(* ===== verification/Bypass.thy ===== *)
theory Bypass
  imports Template
begin

text \<open>
  \<open>src/src/usage/bypass-metadata.ts\<close>: what of the headers of a request is kept in the log. Headers are
  iterated in the order of their list; \<open>lc\<close> is \<open>localeCompare\<close>.
\<close>

definition INBOUND_ALLOWLIST :: "string list" where
  "INBOUND_ALLOWLIST =
     [''anthropic-beta'', ''anthropic-version'', ''anthropic-dangerous-direct-browser-access'',
      ''x-claude-code-session-id'', ''x-stainless-arch'', ''x-stainless-lang'', ''x-stainless-os'',
      ''x-stainless-package-version'', ''x-stainless-retry-count'', ''x-stainless-runtime'',
      ''x-stainless-runtime-version'', ''x-stainless-timeout'', ''x-app'', ''user-agent'', ''accept'',
      ''accept-language'', ''content-type'']"

definition OUTBOUND_ALLOWLIST :: "string list" where
  "OUTBOUND_ALLOWLIST = INBOUND_ALLOWLIST @ [''authorization'']"

definition UPSTREAM_RESPONSE_ALLOWLIST :: "string list" where
  "UPSTREAM_RESPONSE_ALLOWLIST =
     [''anthropic-organization-id'', ''anthropic-ratelimit-requests-limit'',
      ''anthropic-ratelimit-requests-remaining'', ''anthropic-ratelimit-requests-reset'',
      ''anthropic-ratelimit-tokens-limit'', ''anthropic-ratelimit-tokens-remaining'',
      ''anthropic-ratelimit-tokens-reset'', ''anthropic-ratelimit-input-tokens-limit'',
      ''anthropic-ratelimit-input-tokens-remaining'', ''anthropic-ratelimit-input-tokens-reset'',
      ''anthropic-ratelimit-output-tokens-limit'', ''anthropic-ratelimit-output-tokens-remaining'',
      ''anthropic-ratelimit-output-tokens-reset'', ''anthropic-ratelimit-unified-status'',
      ''anthropic-ratelimit-unified-reset'', ''anthropic-ratelimit-unified-remaining'',
      ''anthropic-ratelimit-unified-overage-status'', ''anthropic-ratelimit-unified-overage-disabled-reason'',
      ''anthropic-ratelimit-unified-representative-claim'', ''anthropic-ratelimit-unified-fallback-percentage'',
      ''anthropic-ratelimit-unified-5h-status'', ''anthropic-ratelimit-unified-5h-utilization'',
      ''anthropic-ratelimit-unified-5h-reset'', ''anthropic-ratelimit-unified-7d-status'',
      ''anthropic-ratelimit-unified-7d-utilization'', ''anthropic-ratelimit-unified-7d-reset'',
      ''anthropic-ratelimit-unified-7d_sonnet-status'', ''anthropic-ratelimit-unified-7d_sonnet-utilization'',
      ''anthropic-ratelimit-unified-7d_sonnet-reset'', ''request-id'', ''retry-after'', ''x-should-retry'',
      ''content-type'', ''x-envoy-upstream-service-time'']"

text \<open>The kept headers, and the names and lengths of the others.\<close>

type_synonym fingerprints = "(string \<times> nat) list"

definition collect_step :: "string list \<Rightarrow> string \<times> string \<Rightarrow> (string \<times> string) list \<times> fingerprints
     \<Rightarrow> (string \<times> string) list \<times> fingerprints" where
  "collect_step allow kv acc =
     (let lower = to_lower (fst kv) in
      if lower \<in> set allow then (AList.update lower (redact (snd kv)) (fst acc), snd acc)
      else (fst acc, snd acc @ [(lower, length (snd kv))]))"

definition sortFingerprints :: "(string \<Rightarrow> string \<Rightarrow> int) \<Rightarrow> fingerprints \<Rightarrow> fingerprints" where
  "sortFingerprints lc fs = sort_by_cmp (\<lambda>a b. lc (fst a) (fst b)) fs"

definition collectFromHeaders :: "(string \<Rightarrow> string \<Rightarrow> int) \<Rightarrow> string list \<Rightarrow> (string \<times> string) list
     \<Rightarrow> (string \<times> string) list \<times> fingerprints" where
  "collectFromHeaders lc allow h =
     (let (allowed, unknown) = fold (collect_step allow) h ([], []) in (allowed, sortFingerprints lc unknown))"

record bypass_metadata =
  by_inboundHeaders :: "(string \<times> string) list"
  by_outboundHeaders :: "(string \<times> string) list"
  by_upstreamHeaders :: "(string \<times> string) list"
  by_unknownInbound :: fingerprints
  by_unknownOutbound :: fingerprints
  by_unknownUpstream :: fingerprints
  by_useCandidate :: bool

definition buildBypassMetadata :: "(string \<Rightarrow> string \<Rightarrow> int) \<Rightarrow> headers \<Rightarrow> (string \<times> string) list \<Rightarrow> headers \<Rightarrow> bool
     \<Rightarrow> bypass_metadata" where
  "buildBypassMetadata lc inbound outbound upstream useCandidate =
     (let i = collectFromHeaders lc INBOUND_ALLOWLIST inbound;
          o' = collectFromHeaders lc OUTBOUND_ALLOWLIST outbound;
          u = collectFromHeaders lc UPSTREAM_RESPONSE_ALLOWLIST upstream
      in \<lparr>by_inboundHeaders = fst i, by_outboundHeaders = fst o', by_upstreamHeaders = fst u,
          by_unknownInbound = snd i, by_unknownOutbound = snd o', by_unknownUpstream = snd u,
          by_useCandidate = useCandidate\<rparr>)"

text \<open>The blob as it is stored.\<close>

definition headers_json :: "(string \<times> string) list \<Rightarrow> json" where
  "headers_json hs = JObj (map (\<lambda>(n, v). (n, JStr v)) hs)"

definition fingerprints_json :: "fingerprints \<Rightarrow> json" where
  "fingerprints_json fs = JArr (map (\<lambda>(n, l). JObj [(''name'', JStr n), (''length'', JNum (of_nat l))]) fs)"

definition bypass_json :: "bypass_metadata \<Rightarrow> json" where
  "bypass_json b = JObj
     [(''inboundHeaders'', headers_json (by_inboundHeaders b)), (''outboundHeaders'', headers_json (by_outboundHeaders b)),
      (''upstreamHeaders'', headers_json (by_upstreamHeaders b)),
      (''unknownInboundHeaders'', fingerprints_json (by_unknownInbound b)),
      (''unknownOutboundHeaders'', fingerprints_json (by_unknownOutbound b)),
      (''unknownUpstreamHeaders'', fingerprints_json (by_unknownUpstream b)),
      (''canary'', JObj [(''useCandidate'', JBool (by_useCandidate b))])]"

subsection \<open>What is kept\<close>

definition kept_ok :: "string list \<Rightarrow> (string \<times> string) list \<Rightarrow> bool" where
  "kept_ok allow hs = list_all (\<lambda>(n, v). n \<in> set allow \<and> (\<exists>raw. v = redact raw)) hs"

lemma collect_fold_kept:
  "kept_ok allow (fst acc) \<Longrightarrow> kept_ok allow (fst (fold (collect_step allow) h acc))"
proof (induction h arbitrary: acc)
  case (Cons kv h)
  have "kept_ok allow (fst (collect_step allow kv acc))"
    using Cons.prems
    by (fastforce simp: collect_step_def Let_def kept_ok_def list_all_iff dest: in_set_update)
  with Cons.IH show ?case by simp
qed simp

lemma collect_kept: "kept_ok allow (fst (collectFromHeaders lc allow h))"
  using collect_fold_kept [of allow "([], [])" h] by (simp add: collectFromHeaders_def split_beta kept_ok_def)

text \<open>Values outside the allowlist count by their length only.\<close>

definition masked :: "string list \<Rightarrow> (string \<Rightarrow> string \<Rightarrow> string) \<Rightarrow> (string \<times> string) list \<Rightarrow> (string \<times> string) list" where
  "masked allow f h = map (\<lambda>(n, v). (n, if to_lower n \<in> set allow then v else f n v)) h"

lemma collect_masked:
  assumes "\<And>n v. length (f n v) = length v"
  shows "collectFromHeaders lc allow (masked allow f h) = collectFromHeaders lc allow h"
proof -
  have "fold (collect_step allow) (masked allow f h) acc = fold (collect_step allow) h acc" for acc
    using assms by (induction h arbitrary: acc) (auto simp: masked_def collect_step_def Let_def)
  then show ?thesis by (simp add: collectFromHeaders_def)
qed

text \<open>C24: the logged headers fail closed. Only allowlisted headers are kept with a value, the value is
  redacted so no credential is in it, and the metadata does not depend on the value of any other
  header beyond its length.\<close>

theorem bypass_metadata_fails_closed:
  assumes "\<And>n v. length (f n v) = length v"
  shows "buildBypassMetadata lc (masked INBOUND_ALLOWLIST f i) (masked OUTBOUND_ALLOWLIST f ob)
           (masked UPSTREAM_RESPONSE_ALLOWLIST f u) c = buildBypassMetadata lc i ob u c \<and>
    (let b = buildBypassMetadata lc i ob u c in
     set (map fst (by_inboundHeaders b)) \<subseteq> set INBOUND_ALLOWLIST \<and>
     set (map fst (by_outboundHeaders b)) \<subseteq> set OUTBOUND_ALLOWLIST \<and>
     set (map fst (by_upstreamHeaders b)) \<subseteq> set UPSTREAM_RESPONSE_ALLOWLIST \<and>
     \<not> (\<exists>w v. secret w \<and> sublist w v \<and>
          v \<in> snd ` set (by_inboundHeaders b @ by_outboundHeaders b @ by_upstreamHeaders b)))"
proof -
  have no: "\<not> (secret w \<and> sublist w v)" if "kept_ok allow hs" "v \<in> snd ` set hs" for allow hs w v
    using that secret_removed by (fastforce simp: kept_ok_def list_all_iff)
  have names: "set (map fst hs) \<subseteq> set allow" if "kept_ok allow hs" for allow hs
    using that by (fastforce simp: kept_ok_def list_all_iff)
  note k = collect_kept [of INBOUND_ALLOWLIST lc i] collect_kept [of OUTBOUND_ALLOWLIST lc ob]
    collect_kept [of UPSTREAM_RESPONSE_ALLOWLIST lc u]
  have "\<not> (\<exists>w v. secret w \<and> sublist w v \<and> v \<in> snd ` set (fst (collectFromHeaders lc INBOUND_ALLOWLIST i) @
      fst (collectFromHeaders lc OUTBOUND_ALLOWLIST ob) @ fst (collectFromHeaders lc UPSTREAM_RESPONSE_ALLOWLIST u)))"
    unfolding set_append image_Un using no [OF k(1)] no [OF k(2)] no [OF k(3)] by blast
  with names [OF k(1)] names [OF k(2)] names [OF k(3)] show ?thesis
    using collect_masked [OF assms, of lc] by (simp add: buildBypassMetadata_def Let_def)
qed

theorem bypass_metadata_fails_closed_witness:
  "buildBypassMetadata (\<lambda>a b. int (length a) - int (length b)) (masked INBOUND_ALLOWLIST (\<lambda>n v. map (\<lambda>_. CHR ''x'') v) [(''cookie'', ''secret''), (''accept'', ''a'')]) [] [] False =
   buildBypassMetadata (\<lambda>a b. int (length a) - int (length b)) [(''cookie'', ''secret''), (''accept'', ''a'')] [] [] False"
proof -
  have "length (map (\<lambda>_. CHR ''x'') v) = length v" for v :: string by simp
  from bypass_metadata_fails_closed [of "\<lambda>n v. map (\<lambda>_. CHR ''x'') v", OF this, of "\<lambda>a b. int (length a) - int (length b)" "[(''cookie'', ''secret''), (''accept'', ''a'')]" "[]" "[]" False]
  show ?thesis by (simp add: masked_def [of OUTBOUND_ALLOWLIST] masked_def [of UPSTREAM_RESPONSE_ALLOWLIST])
qed

end
