(* ===== verification/Sanitize.thy ===== *)
theory Sanitize
  imports Errors
begin

text \<open>
  \<open>sanitizeJsonValue\<close> of \<open>src/src/usage/messages-log.ts\<close>: what is done to a body before it is stored.
  The replacement character U+FFFD is outside the model's code units; the unit 1A stands for it.
  \<open>out[k] = v\<close> on the fresh object is \<open>put\<close>: a later key that became equal by the replacement
  overwrites the earlier value in place. \<open>__proto__\<close> is among the dropped keys, so no assignment
  reaches a prototype.
\<close>

definition NUL_CHAR :: char where "NUL_CHAR = CHR 0x00"
definition REPLACEMENT_CHAR :: char where "REPLACEMENT_CHAR = CHR 0x1A"
definition MAX_SANITIZE_DEPTH :: nat where "MAX_SANITIZE_DEPTH = 1024"
definition DEPTH_SENTINEL :: string where "DEPTH_SENTINEL = ''[messages-log: depth limit reached]''"

definition DANGEROUS_KEYS :: "string list" where
  "DANGEROUS_KEYS = [''__proto__'', ''constructor'', ''prototype'', ''__lookupGetter__'',
     ''__lookupSetter__'', ''__defineGetter__'', ''__defineSetter__'']"

definition replaceNulInString :: "string \<Rightarrow> string" where
  "replaceNulInString s =
     (if NUL_CHAR \<notin> set s then s else map (\<lambda>c. if c = NUL_CHAR then REPLACEMENT_CHAR else c) s)"

definition capped :: "nat \<Rightarrow> json \<Rightarrow> json" where
  "capped depth v = (if depth > MAX_SANITIZE_DEPTH then JStr DEPTH_SENTINEL else v)"

definition put_all :: "(string \<times> json) list \<Rightarrow> obj" where
  "put_all kvs = fold (\<lambda>(k, v) out. put k v out) kvs []"

definition safe_entry :: "string \<times> 'a \<Rightarrow> bool" where
  "safe_entry kv = (fst kv \<notin> set DANGEROUS_KEYS)"

lemma entry_size [termination_simp]:
  "(k, v) \<in> set kvs \<Longrightarrow> size v < Suc (size_list (size_prod (\<lambda>_. 0) size) kvs)"
  by (induction kvs) auto

fun sanitizeJsonValue :: "json \<Rightarrow> nat \<Rightarrow> json" where
  "sanitizeJsonValue (JStr s) depth = capped depth (JStr (replaceNulInString s))"
| "sanitizeJsonValue (JArr xs) depth = capped depth (JArr (map (\<lambda>v. sanitizeJsonValue v (depth + 1)) xs))"
| "sanitizeJsonValue (JObj kvs) depth = capped depth (JObj (put_all
     (map (\<lambda>(k, v). (replaceNulInString k, sanitizeJsonValue v (depth + 1))) (filter safe_entry kvs))))"
| "sanitizeJsonValue v depth = capped depth v"

text \<open>What the database accepts: no NUL in a string or a key, no polluting key, distinct keys, and
  nothing below the depth limit but the sentinel.\<close>

fun storable :: "nat \<Rightarrow> json \<Rightarrow> bool" where
  "storable depth (JStr s) = (NUL_CHAR \<notin> set s \<and> (depth > MAX_SANITIZE_DEPTH \<longrightarrow> s = DEPTH_SENTINEL))"
| "storable depth (JArr xs) = (depth \<le> MAX_SANITIZE_DEPTH \<and> list_all (\<lambda>v. storable (depth + 1) v) xs)"
| "storable depth (JObj kvs) = (depth \<le> MAX_SANITIZE_DEPTH \<and> distinct (obj_keys kvs) \<and>
     list_all (\<lambda>(k, v). NUL_CHAR \<notin> set k \<and> k \<notin> set DANGEROUS_KEYS \<and> storable (depth + 1) v) kvs)"
| "storable depth v = (depth \<le> MAX_SANITIZE_DEPTH)"

lemma no_NUL [simp]: "NUL_CHAR \<notin> set (replaceNulInString s)"
  by (auto simp: replaceNulInString_def NUL_CHAR_def REPLACEMENT_CHAR_def)

lemma replace_clean [simp]: "NUL_CHAR \<notin> set s \<Longrightarrow> replaceNulInString s = s"
  by (simp add: replaceNulInString_def)

lemma replace_not_dangerous: "k \<notin> set DANGEROUS_KEYS \<Longrightarrow> replaceNulInString k \<notin> set DANGEROUS_KEYS"
proof
  assume k: "k \<notin> set DANGEROUS_KEYS" "replaceNulInString k \<in> set DANGEROUS_KEYS"
  then have "NUL_CHAR \<in> set k" by (auto simp: replaceNulInString_def split: if_splits)
  then have "REPLACEMENT_CHAR \<in> set (replaceNulInString k)" by (force simp: replaceNulInString_def)
  with k(2) show False by (auto simp: DANGEROUS_KEYS_def REPLACEMENT_CHAR_def)
qed

lemma put_all_distinct: "distinct (obj_keys (put_all kvs))"
proof -
  have "distinct (obj_keys out) \<Longrightarrow> distinct (obj_keys (fold (\<lambda>(k, v) out. put k v out) kvs out))" for out
    by (induction kvs arbitrary: out) (auto simp: distinct_keys_put)
  then show ?thesis by (simp add: put_all_def obj_keys_def)
qed

lemma set_put_all: "set (put_all kvs) \<subseteq> set kvs"
proof -
  have "set (fold (\<lambda>(k, v) out. put k v out) kvs out) \<subseteq> set kvs \<union> set out" for out
  proof (induction kvs arbitrary: out)
    case (Cons kv kvs)
    obtain k v where kv: "kv = (k, v)" by fastforce
    have "set (put k v out) \<subseteq> insert (k, v) (set out)" unfolding put_def by (rule set_update_subset)
    with Cons [of "put k v out"] kv show ?case by auto
  qed simp
  then show ?thesis by (force simp: put_all_def)
qed

lemma put_append: "k \<notin> set (obj_keys o') \<Longrightarrow> put k v o' = o' @ [(k, v)]"
  by (induction o') (auto simp: obj_keys_def)

lemma put_all_same: "distinct (obj_keys kvs) \<Longrightarrow> put_all kvs = kvs"
proof -
  have "distinct (obj_keys (out @ kvs)) \<Longrightarrow> fold (\<lambda>(k, v) out. put k v out) kvs out = out @ kvs" for out
  proof (induction kvs arbitrary: out)
    case (Cons kv kvs)
    obtain k v where kv: "kv = (k, v)" by fastforce
    with Cons.prems have "put k v out = out @ [(k, v)]" by (intro put_append) (auto simp: obj_keys_def)
    with Cons.IH [of "out @ [(k, v)]"] Cons.prems kv show ?case by (simp add: obj_keys_def)
  qed simp
  then show "distinct (obj_keys kvs) \<Longrightarrow> put_all kvs = kvs" by (simp add: put_all_def)
qed

lemma sentinel_clean [simp]: "NUL_CHAR \<notin> set DEPTH_SENTINEL"
  by (simp add: DEPTH_SENTINEL_def NUL_CHAR_def)

lemma capped_storable: "(depth \<le> MAX_SANITIZE_DEPTH \<Longrightarrow> storable depth v) \<Longrightarrow> storable depth (capped depth v)"
  by (simp add: capped_def)

lemma sanitized_storable: "storable depth (sanitizeJsonValue v depth)"
proof (induction v depth rule: sanitizeJsonValue.induct)
  case (2 xs depth)
  then show ?case by (auto intro!: capped_storable simp: list_all_iff)
next
  case (3 kvs depth)
  let ?m = "map (\<lambda>(k, v). (replaceNulInString k, sanitizeJsonValue v (depth + 1))) (filter safe_entry kvs)"
  have "NUL_CHAR \<notin> set k \<and> k \<notin> set DANGEROUS_KEYS \<and> storable (depth + 1) v" if "(k, v) \<in> set (put_all ?m)" for k v
  proof -
    from that set_put_all have "(k, v) \<in> set ?m" by blast
    then obtain k' v' where e: "(k', v') \<in> set (filter safe_entry kvs)" "k = replaceNulInString k'"
      "v = sanitizeJsonValue v' (depth + 1)" by auto
    from e(1) have "k' \<notin> set DANGEROUS_KEYS" by (simp add: safe_entry_def)
    with e "3.IH" [OF e(1) refl] show ?thesis by (simp add: replace_not_dangerous)
  qed
  then show ?case by (auto intro!: capped_storable simp: put_all_distinct list_all_iff)
qed (auto intro!: capped_storable)

lemma sanitize_storable_id: "storable depth v \<Longrightarrow> sanitizeJsonValue v depth = v"
proof (induction v depth rule: sanitizeJsonValue.induct)
  case (2 xs depth)
  then have "map (\<lambda>v. sanitizeJsonValue v (depth + 1)) xs = xs"
    by (auto simp: list_all_iff intro!: map_idI)
  with 2 show ?case by (simp add: capped_def)
next
  case (3 kvs depth)
  then have f: "filter safe_entry kvs = kvs"
    by (auto simp: list_all_iff safe_entry_def intro!: filter_True)
  have "map (\<lambda>(k, v). (replaceNulInString k, sanitizeJsonValue v (depth + 1))) kvs = kvs"
    using 3 f by (auto simp: list_all_iff intro!: map_idI)
  with 3 f show ?case by (simp add: capped_def put_all_same)
qed (auto simp: capped_def)

text \<open>C23: a stored body is what the database accepts, and nothing else is touched. The sanitised value
  has no NUL, no polluting key and bounded depth whatever the body was; a body that is acceptable
  already is stored as it is, so sanitising twice changes nothing more.\<close>

theorem sanitized_body_is_storable:
  "storable 0 (sanitizeJsonValue v 0) \<and>
   (sanitizeJsonValue v 0 = v \<longleftrightarrow> storable 0 v) \<and>
   sanitizeJsonValue (sanitizeJsonValue v 0) 0 = sanitizeJsonValue v 0"
  using sanitized_storable [of 0 v] sanitize_storable_id [of 0] by metis

end
