(* ===== verification/Sniff.thy ===== *)
theory Sniff
  imports Errors
begin

text \<open>
  \<open>src/src/usage/sniff.ts\<close>: the pass-through stream that reads token usage out of a response, an
  SSE stream event by event or a JSON body at the end. A chunk is the text the stateful decoder
  returned for it; \<open>JSON.parse\<close> is the parameter \<open>parse\<close> (\<open>None\<close> when it throws). The bytes
  themselves pass through untouched.
\<close>

record usage_part =
  up_input :: "rat option"
  up_output :: "rat option"
  up_tier :: "string option"

definition safeParseJson :: "(string \<Rightarrow> json option) \<Rightarrow> string \<Rightarrow> json" where
  "safeParseJson parse text = (case parse text of Some v \<Rightarrow> v | None \<Rightarrow> JNull)"

definition extractUsage :: "json \<Rightarrow> usage_part option" where
  "extractUsage parsed =
     (if \<not> is_object parsed then None
      else
        let u = coalesce (jprop (Some parsed) ''usage'') (jprop (jprop (Some parsed) ''message'') ''usage'')
        in if \<not> truthy u then None
           else
             let input = as_num (jprop u ''input_tokens''); output = as_num (jprop u ''output_tokens'');
                 tier = as_str (jprop u ''service_tier'')
             in if input = None \<and> output = None \<and> tier = None then None
                else Some \<lparr>up_input = input, up_output = output, up_tier = tier\<rparr>)"

fun parse_lines :: "(string \<Rightarrow> json option) \<Rightarrow> string list \<Rightarrow> usage_part option" where
  "parse_lines parse [] = None"
| "parse_lines parse (line # lines) =
     (if starts_with line ''data: ''
      then (case extractUsage (safeParseJson parse (drop 6 line)) of
              Some u \<Rightarrow> Some u | None \<Rightarrow> parse_lines parse lines)
      else parse_lines parse lines)"

definition parseSseBlock :: "(string \<Rightarrow> json option) \<Rightarrow> string \<Rightarrow> usage_part option" where
  "parseSseBlock parse block = parse_lines parse (split_str [CHR 0x0A] block)"

record sniffed =
  sn_input :: rat
  sn_output :: rat
  sn_tier :: "string option"

definition sn_zero :: sniffed where
  "sn_zero = \<lparr>sn_input = 0, sn_output = 0, sn_tier = None\<rparr>"

definition add_event :: "usage_part option \<Rightarrow> sniffed \<Rightarrow> sniffed" where
  "add_event u s =
     (case u of
        None \<Rightarrow> s
      | Some u \<Rightarrow>
          \<lparr>sn_input = (case up_input u of Some n \<Rightarrow> max (sn_input s) n | None \<Rightarrow> sn_input s),
           sn_output = (case up_output u of Some n \<Rightarrow> max (sn_output s) n | None \<Rightarrow> sn_output s),
           sn_tier = (case up_tier u of Some t \<Rightarrow> Some t | None \<Rightarrow> sn_tier s)\<rparr>)"

definition set_usage :: "usage_part option \<Rightarrow> sniffed \<Rightarrow> sniffed" where
  "set_usage u s =
     (case u of
        None \<Rightarrow> s
      | Some u \<Rightarrow>
          \<lparr>sn_input = (case up_input u of Some n \<Rightarrow> n | None \<Rightarrow> sn_input s),
           sn_output = (case up_output u of Some n \<Rightarrow> n | None \<Rightarrow> sn_output s),
           sn_tier = (case up_tier u of Some t \<Rightarrow> Some t | None \<Rightarrow> sn_tier s)\<rparr>)"

text \<open>The text before the first \<open>\n\n\<close>, and the text after it.\<close>

fun take_event :: "string \<Rightarrow> (string \<times> string) option" where
  "take_event (c # d # cs) =
     (if c = CHR 0x0A \<and> d = CHR 0x0A then Some ([], cs)
      else map_option (\<lambda>(e, r). (c # e, r)) (take_event (d # cs)))"
| "take_event _ = None"

lemma take_event_shorter: "take_event b = Some (e, r) \<Longrightarrow> length r < length b"
  by (induction b arbitrary: e r rule: take_event.induct) (fastforce split: if_splits)+

function drain_events :: "(string \<Rightarrow> json option) \<Rightarrow> string \<Rightarrow> sniffed \<Rightarrow> string \<times> sniffed" where
  "drain_events parse b s =
     (case take_event b of
        None \<Rightarrow> (b, s)
      | Some (e, r) \<Rightarrow> drain_events parse r (add_event (parseSseBlock parse e) s))"
  by auto
termination
  by (relation "measure (\<lambda>(p, b, s). length b)") (auto dest: take_event_shorter)

declare drain_events.simps [simp del]

definition is_event_stream :: "string \<Rightarrow> bool" where
  "is_event_stream contentType = starts_with (to_lower contentType) ''text/event-stream''"

definition sniff_transform ::
  "(string \<Rightarrow> json option) \<Rightarrow> bool \<Rightarrow> string \<Rightarrow> string \<times> sniffed \<Rightarrow> string \<times> sniffed" where
  "sniff_transform parse isStream piece bs =
     (let b = fst bs @ piece in
      if \<not> isStream then (b, snd bs) else drain_events parse b (snd bs))"

definition sniff_flush ::
  "(string \<Rightarrow> json option) \<Rightarrow> bool \<Rightarrow> string \<Rightarrow> string \<times> sniffed \<Rightarrow> sniffed" where
  "sniff_flush parse isStream piece bs =
     (let b = fst bs @ piece in
      if \<not> isStream then set_usage (extractUsage (safeParseJson parse b)) (snd bs) else snd bs)"

definition sniffUsage :: "(string \<Rightarrow> json option) \<Rightarrow> string \<Rightarrow> string list \<Rightarrow> string \<Rightarrow> sniffed" where
  "sniffUsage parse contentType pieces final =
     (let st = is_event_stream contentType in
      sniff_flush parse st final (fold (sniff_transform parse st) pieces ([], sn_zero)))"

subsection \<open>Lemmas\<close>

lemma take_event_append: "take_event b = Some (e, r) \<Longrightarrow> take_event (b @ p) = Some (e, r @ p)"
  by (induction b arbitrary: e r rule: take_event.induct) (fastforce split: if_splits)+

lemma drain_append:
  "drain_events parse (b @ p) s =
     (let (b', s') = drain_events parse b s in drain_events parse (b' @ p) s')"
proof (induction parse b s rule: drain_events.induct)
  case (1 parse b s)
  show ?case
  proof (cases "take_event b")
    case None
    then show ?thesis by (simp add: drain_events.simps [of parse b s])
  next
    case (Some x)
    obtain e r where x: "x = (e, r)" by fastforce
    from "1.IH" [OF Some x [symmetric]] Some x take_event_append [of b e r p] show ?thesis
      by (simp add: drain_events.simps [of parse b s] drain_events.simps [of parse "b @ p" s])
  qed
qed

lemma drain_stops: "take_event (fst (drain_events parse b s)) = None"
proof (induction parse b s rule: drain_events.induct)
  case (1 parse b s)
  then show ?case
    by (subst drain_events.simps) (auto split: option.splits)
qed

lemma drain_drained: "take_event b = None \<Longrightarrow> drain_events parse b s = (b, s)"
  by (simp add: drain_events.simps)

lemma transforms_drain:
  "take_event b = None \<Longrightarrow>
     fold (sniff_transform parse True) ps (b, s) = drain_events parse (b @ concat ps) s"
proof (induction ps arbitrary: b s)
  case Nil
  then show ?case by (simp add: drain_drained)
next
  case (Cons p ps)
  obtain b' s' where d: "drain_events parse (b @ p) s = (b', s')" by fastforce
  have "take_event b' = None" using drain_stops [of parse "b @ p" s] d by simp
  from Cons.IH [OF this] d show ?case
    by (simp add: sniff_transform_def drain_append [of parse "b @ p" "concat ps" s, simplified])
qed

lemma transforms_json:
  "fold (sniff_transform parse False) ps (b, s) = (b @ concat ps, s)"
  by (induction ps arbitrary: b) (auto simp: sniff_transform_def)

text \<open>The complete events of a text.\<close>

function events_of :: "string \<Rightarrow> string list" where
  "events_of b = (case take_event b of None \<Rightarrow> [] | Some (e, r) \<Rightarrow> e # events_of r)"
  by auto
termination
  by (relation "measure length") (auto dest: take_event_shorter)

declare events_of.simps [simp del]

lemma drain_events_of:
  "snd (drain_events parse b s) = fold (\<lambda>e. add_event (parseSseBlock parse e)) (events_of b) s"
proof (induction parse b s rule: drain_events.induct)
  case (1 parse b s)
  then show ?case
    by (subst drain_events.simps, subst events_of.simps) (auto split: option.splits)
qed

lemma fold_input:
  "sn_input (fold (\<lambda>u. add_event u) us s) =
     fold max [n. Some u \<leftarrow> us, Some n \<leftarrow> [up_input u]] (sn_input s)"
  by (induction us arbitrary: s) (auto simp: add_event_def max.commute split: option.splits)

lemma fold_output:
  "sn_output (fold (\<lambda>u. add_event u) us s) =
     fold max [n. Some u \<leftarrow> us, Some n \<leftarrow> [up_output u]] (sn_output s)"
  by (induction us arbitrary: s) (auto simp: add_event_def max.commute split: option.splits)

text \<open>C18: usage does not depend on the chunking. For an event stream the tokens reported are the
  maximum, over the complete events of the whole text, of what each event states, or 0; for a JSON
  body they are what the whole body states.\<close>

theorem sniffed_usage_is_chunk_independent:
  "sniffUsage parse contentType pieces final =
     (if is_event_stream contentType
      then fold add_event (map (parseSseBlock parse) (events_of (concat pieces))) sn_zero
      else set_usage (extractUsage (safeParseJson parse (concat pieces @ final))) sn_zero) \<and>
   (is_event_stream contentType \<longrightarrow>
      (let us = map (parseSseBlock parse) (events_of (concat pieces))
       in sn_input (sniffUsage parse contentType pieces final) =
            fold max [n. Some u \<leftarrow> us, Some n \<leftarrow> [up_input u]] 0 \<and>
          sn_output (sniffUsage parse contentType pieces final) =
            fold max [n. Some u \<leftarrow> us, Some n \<leftarrow> [up_output u]] 0))"
proof -
  have st: "sniffUsage parse contentType pieces final =
      fold add_event (map (parseSseBlock parse) (events_of (concat pieces))) sn_zero"
    if "is_event_stream contentType"
    using that transforms_drain [of "[]" parse pieces sn_zero] drain_events_of [of parse "concat pieces" sn_zero]
    by (simp add: sniffUsage_def sniff_flush_def Let_def fold_map comp_def)
  moreover have "sniffUsage parse contentType pieces final =
      set_usage (extractUsage (safeParseJson parse (concat pieces @ final))) sn_zero"
    if "\<not> is_event_stream contentType"
    using that transforms_json [of parse pieces "[]" sn_zero]
    by (simp add: sniffUsage_def sniff_flush_def Let_def)
  ultimately show ?thesis
    using fold_input [of "map (parseSseBlock parse) (events_of (concat pieces))" sn_zero]
      fold_output [of "map (parseSseBlock parse) (events_of (concat pieces))" sn_zero]
    by (simp add: sn_zero_def Let_def)
qed

definition demo_parse :: "string \<Rightarrow> json option" where
  "demo_parse t =
     (if t = ''A'' then Some (JObj [(''usage'', JObj [(''input_tokens'', JNum 7), (''output_tokens'', JNum 1)])])
      else if t = ''B'' then Some (JObj [(''usage'', JObj [(''output_tokens'', JNum 9)])]) else None)"

theorem sniffed_usage_is_chunk_independent_witness:
  "sniffUsage demo_parse ''text/event-stream'' [''data: A'' @ [CHR 0x0A], [CHR 0x0A] @ ''data: '', ''B'' @ [CHR 0x0A, CHR 0x0A]] [] =
     \<lparr>sn_input = 7, sn_output = 9, sn_tier = None\<rparr>"
proof -
  have s: "is_event_stream ''text/event-stream''" by code_simp
  have e: "fold add_event (map (parseSseBlock demo_parse) (events_of (concat
      [''data: A'' @ [CHR 0x0A], [CHR 0x0A] @ ''data: '', ''B'' @ [CHR 0x0A, CHR 0x0A]]))) sn_zero =
      \<lparr>sn_input = 7, sn_output = 9, sn_tier = None\<rparr>"
    by code_simp
  show ?thesis
    using sniffed_usage_is_chunk_independent [of demo_parse "''text/event-stream''"
        "[''data: A'' @ [CHR 0x0A], [CHR 0x0A] @ ''data: '', ''B'' @ [CHR 0x0A, CHR 0x0A]]" "[]"]
    by (simp only: s if_True e)
qed

end
