(* ===== verification/MessagesLog.thy ===== *)
theory MessagesLog
  imports Sanitize Sniff
begin

text \<open>
  \<open>src/src/usage/messages-log.ts\<close> and \<open>src/src/usage/messages-log-postgres.ts\<close>: what is extracted from a
  request and a response for the log, and the table. The table is the list of its rows in insertion
  order; each statement is modelled as what it does to the rows. Postgres refuses a text column that
  contains NUL and a second row with the same id. \<open>ILIKE\<close> and \<open>ORDER BY\<close> are written out;
  timestamps are milliseconds.
\<close>

subsection \<open>Requests\<close>

datatype msg_source = Client | Proxy | Upstream

definition classifyProxySource :: "nat \<Rightarrow> msg_source" where
  "classifyProxySource status = (if status = 429 \<or> status \<ge> 500 then Proxy else Client)"

definition extractErrorMessage :: "json \<Rightarrow> string option" where
  "extractErrorMessage parsed = as_str (jprop (jprop (Some parsed) ''error'') ''message'')"

definition PREVIEW_MAX :: nat where "PREVIEW_MAX = 240"

fun text_block :: "nat \<Rightarrow> json list \<Rightarrow> string" where
  "text_block m [] = []"
| "text_block m (b # bs) =
     (if jprop (Some b) ''type'' = Some (JStr ''text'')
      then (case as_str (jprop (Some b) ''text'') of Some t \<Rightarrow> take m t | None \<Rightarrow> text_block m bs)
      else text_block m bs)"

text \<open>The messages, last first.\<close>

fun preview_of :: "nat \<Rightarrow> json list \<Rightarrow> string" where
  "preview_of m [] = []"
| "preview_of m (msg # earlier) =
     (if jprop (Some msg) ''role'' \<noteq> Some (JStr ''user'') then preview_of m earlier
      else case jprop (Some msg) ''content'' of
             Some (JStr s) \<Rightarrow> take m s
           | Some (JArr bs) \<Rightarrow> text_block m bs
           | _ \<Rightarrow> [])"

definition extractPreview :: "json \<Rightarrow> nat \<Rightarrow> string" where
  "extractPreview requestBody m =
     (case jprop (Some requestBody) ''messages'' of
        Some (JArr ms) \<Rightarrow> preview_of m (rev ms) | _ \<Rightarrow> [])"

definition extractModel :: "json \<Rightarrow> string option" where
  "extractModel requestBody = as_str (jprop (Some requestBody) ''model'')"

subsection \<open>Responses\<close>

datatype response_body = RJson json | RSse string | RText string

record response_meta =
  me_input :: rat
  me_output :: rat
  me_cacheRead :: rat
  me_cacheCreation :: rat
  me_serviceTier :: "string option"
  me_stopReason :: "string option"

definition EMPTY_META :: response_meta where
  "EMPTY_META = \<lparr>me_input = 0, me_output = 0, me_cacheRead = 0, me_cacheCreation = 0,
     me_serviceTier = None, me_stopReason = None\<rparr>"

definition readUsageObject :: "json option \<Rightarrow> json option" where
  "readUsageObject v = coalesce (jprop v ''usage'') (jprop (jprop v ''message'') ''usage'')"

definition readStopReason :: "json option \<Rightarrow> string option" where
  "readStopReason v =
     (case as_str (jprop v ''stop_reason'') of
        Some s \<Rightarrow> Some s
      | None \<Rightarrow> as_str (jprop (jprop v ''delta'') ''stop_reason''))"

definition roll_max :: "rat \<Rightarrow> json option \<Rightarrow> rat" where
  "roll_max a v = (case as_num v of Some n \<Rightarrow> max a n | None \<Rightarrow> a)"

definition mergeMeta :: "response_meta \<Rightarrow> json \<Rightarrow> response_meta" where
  "mergeMeta a ev =
     (if \<not> is_object ev then a
      else
        let u = readUsageObject (Some ev); stop = readStopReason (Some ev)
        in \<lparr>me_input = roll_max (me_input a) (jprop u ''input_tokens''),
            me_output = roll_max (me_output a) (jprop u ''output_tokens''),
            me_cacheRead = roll_max (me_cacheRead a) (jprop u ''cache_read_input_tokens''),
            me_cacheCreation = roll_max (me_cacheCreation a) (jprop u ''cache_creation_input_tokens''),
            me_serviceTier = (case as_str (jprop u ''service_tier'') of Some t \<Rightarrow> Some t | None \<Rightarrow> me_serviceTier a),
            me_stopReason = (case stop of Some t \<Rightarrow> Some t | None \<Rightarrow> me_stopReason a)\<rparr>)"

definition merge_line :: "(string \<Rightarrow> json option) \<Rightarrow> string \<Rightarrow> response_meta \<Rightarrow> response_meta" where
  "merge_line parse line meta =
     (if starts_with line ''data: ''
      then (case parse (drop 6 line) of Some v \<Rightarrow> if v = JNull then meta else mergeMeta meta v | None \<Rightarrow> meta)
      else meta)"

definition extractResponseMeta :: "(string \<Rightarrow> json option) \<Rightarrow> response_body option \<Rightarrow> response_meta" where
  "extractResponseMeta parse rb =
     (case rb of
        None \<Rightarrow> EMPTY_META
      | Some (RJson body) \<Rightarrow> mergeMeta EMPTY_META body
      | Some (RText _) \<Rightarrow> EMPTY_META
      | Some (RSse raw) \<Rightarrow> fold (merge_line parse) (split_str [CHR 0x0A] raw) EMPTY_META)"

definition response_json :: "response_body \<Rightarrow> json" where
  "response_json rb = (case rb of
       RJson body \<Rightarrow> JObj [(''kind'', JStr ''json''), (''body'', body)]
     | RSse raw \<Rightarrow> JObj [(''kind'', JStr ''sse''), (''raw'', JStr raw)]
     | RText raw \<Rightarrow> JObj [(''kind'', JStr ''text''), (''raw'', JStr raw)])"

subsection \<open>Records and rows\<close>

record message_log =
  ml_id :: string
  ml_ts :: rat
  ml_userName :: string
  ml_model :: "string option"
  ml_status :: nat
  ml_streaming :: bool
  ml_durationMs :: rat
  ml_meta :: response_meta
  ml_clientIp :: "string option"
  ml_userAgent :: "string option"
  ml_requestBody :: json
  ml_responseBody :: "response_body option"
  ml_errorMessage :: "string option"
  ml_servedBy :: "string option"
  ml_bypassMetadata :: "json option"
  ml_source :: "msg_source option"

text \<open>A row of the table: the record with its bodies as stored, the preview and the archive columns.\<close>

record log_row = message_log +
  lr_request :: "json option"
  lr_response :: "json option"
  lr_preview :: string
  lr_archivedAt :: "rat option"
  lr_archiveKey :: "string option"

definition text_columns :: "message_log \<Rightarrow> string \<Rightarrow> string list" where
  "text_columns e preview =
     concat (map (case_option [] (\<lambda>s. [s]))
       [Some (ml_userName e), ml_model e, me_serviceTier (ml_meta e), me_stopReason (ml_meta e),
        ml_clientIp e, ml_userAgent e, Some preview, ml_errorMessage e, ml_servedBy e])"

definition stored_row :: "message_log \<Rightarrow> log_row" where
  "stored_row e =
     (let req = sanitizeJsonValue (ml_requestBody e) 0 in
      message_log.extend (e\<lparr>ml_bypassMetadata := map_option (\<lambda>v. sanitizeJsonValue v 0) (ml_bypassMetadata e)\<rparr>)
        (log_row.fields (Some req)
           (map_option (\<lambda>rb. sanitizeJsonValue (response_json rb) 0) (ml_responseBody e))
           (extractPreview req PREVIEW_MAX) None None))"

definition store_record :: "message_log \<Rightarrow> log_row list \<Rightarrow> exn option \<times> log_row list" where
  "store_record e rows =
     (let row = stored_row e in
      if list_ex (\<lambda>s. NUL_CHAR \<in> set s) (text_columns e (lr_preview row))
      then (Some (Other ''invalid byte sequence for encoding UTF8: 0x00''), rows)
      else if list_ex (\<lambda>r. ml_id r = ml_id e) rows
      then (Some (Other ''duplicate key value violates unique constraint''), rows)
      else (None, rows @ [row]))"

datatype status_class = All | Success | Error

record list_filters =
  lf_userName :: "string option"
  lf_model :: "string option"
  lf_statusClass :: "status_class option"
  lf_source :: "msg_source option"
  lf_search :: "string option"
  lf_before :: "rat option"
  lf_limit :: int

text \<open>\<open>ILIKE '%' || p || '%'\<close>: in the pattern \<open>%\<close> matches any text, \<open>_\<close> any character, and a
  backslash takes the next character literally. Nothing escapes them in the caller's search.\<close>

fun like :: "string \<Rightarrow> string \<Rightarrow> bool" where
  "like [] s = (s = [])"
| "like (p # ps) s =
     (if p = CHR ''%'' then like ps s \<or> (case s of [] \<Rightarrow> False | _ # cs \<Rightarrow> like (p # ps) cs)
      else if p = CHR 0x5C then (case (ps, s) of (q # qs, c # cs) \<Rightarrow> q = c \<and> like qs cs | _ \<Rightarrow> False)
      else (case s of [] \<Rightarrow> False | c # cs \<Rightarrow> (p = CHR ''_'' \<or> p = c) \<and> like ps cs))"

definition ilike_around :: "string \<Rightarrow> string \<Rightarrow> bool" where
  "ilike_around search preview = like (CHR ''%'' # to_lower search @ ''%'') (to_lower preview)"

definition row_matches :: "list_filters \<Rightarrow> log_row \<Rightarrow> bool" where
  "row_matches f r =
     ((case lf_userName f of None \<Rightarrow> True | Some u \<Rightarrow> ml_userName r = u) \<and>
      (case lf_model f of None \<Rightarrow> True | Some m \<Rightarrow> ml_model r = Some m) \<and>
      (case (case lf_statusClass f of None \<Rightarrow> All | Some c \<Rightarrow> c) of
         All \<Rightarrow> True
       | Success \<Rightarrow> ml_status r \<ge> 200 \<and> ml_status r < 300
       | Error \<Rightarrow> ml_status r \<ge> 400) \<and>
      (case lf_source f of None \<Rightarrow> True | Some s \<Rightarrow> ml_source r = Some s) \<and>
      (case lf_search f of None \<Rightarrow> True | Some s \<Rightarrow> s = [] \<or> ilike_around s (lr_preview r)) \<and>
      (case lf_before f of None \<Rightarrow> True | Some b \<Rightarrow> ml_ts r < b))"

definition list_limit :: "int \<Rightarrow> nat" where
  "list_limit l = nat (max 1 (min l 500))"

definition newest_first :: "log_row list \<Rightarrow> log_row list" where
  "newest_first rows = rev (sort_key ml_ts rows)"

definition store_list :: "list_filters \<Rightarrow> log_row list \<Rightarrow> log_row list" where
  "store_list f rows = take (list_limit (lf_limit f)) (newest_first (filter (row_matches f) rows))"

definition store_get :: "string \<Rightarrow> log_row list \<Rightarrow> log_row option" where
  "store_get i rows = find (\<lambda>r. ml_id r = i) rows"

subsection \<open>The archiver's view\<close>

definition selectBatch :: "rat \<Rightarrow> nat \<Rightarrow> log_row list \<Rightarrow> log_row list" where
  "selectBatch cutoff limit rows =
     take limit (sort_key ml_ts (filter (\<lambda>r. lr_archivedAt r = None \<and> ml_ts r < cutoff) rows))"

definition archive_row :: "string \<Rightarrow> rat \<Rightarrow> log_row \<Rightarrow> log_row" where
  "archive_row key now r =
     r\<lparr>lr_request := None, lr_response := None, lr_archivedAt := Some now, lr_archiveKey := Some key\<rparr>"

definition markArchived :: "string list \<Rightarrow> string \<Rightarrow> rat \<Rightarrow> log_row list \<Rightarrow> log_row list" where
  "markArchived ids key now rows =
     map (\<lambda>r. if ml_id r \<in> set ids \<and> lr_archivedAt r = None then archive_row key now r else r) rows"

end
