(* ===== verification/TokenBucket.thy ===== *)
theory TokenBucket
  imports Errors
begin

text \<open>
  The token bucket that \<open>src/src/proxy/rate-limit.ts\<close> (per client IP) and
  \<open>src/src/proxy/observe-outcome.ts\<close> (per process, for log writes) both implement, as an interface:
  what a draw does to the level. The lemmas bound the draws admitted over any sequence of clock
  readings, monotone or not, and say when no draw is refused.
\<close>

locale token_bucket =
  fixes draw :: "rat \<Rightarrow> 's \<Rightarrow> bool \<times> 's"
    and level :: "'s \<Rightarrow> rat"
    and clock :: "'s \<Rightarrow> rat"
    and burst :: rat
    and rate :: rat
  assumes draw_level: "level (snd (draw now s)) =
          (if now > clock s then min burst (level s + (now - clock s) * rate) else level s) -
          (if fst (draw now s) then 1 else 0)"
    and draw_clock: "clock (snd (draw now s)) = max now (clock s)"
    and draw_admits: "fst (draw now s) \<longleftrightarrow>
          1 \<le> (if now > clock s then min burst (level s + (now - clock s) * rate) else level s)"
begin

fun draws :: "rat list \<Rightarrow> 's \<Rightarrow> bool list \<times> 's" where
  "draws [] s = ([], s)"
| "draws (t # ts) s = (let (ok, s1) = draw t s; (oks, s2) = draws ts s1 in (ok # oks, s2))"

lemma draw_nonneg:
  "0 \<le> rate \<Longrightarrow> 0 \<le> level s \<Longrightarrow> 0 \<le> burst \<Longrightarrow> 0 \<le> level (snd (draw now s))"
  by (simp add: draw_level draw_admits min_def)

lemma draw_budget:
  "(if fst (draw now s) then 1 else 0) + level (snd (draw now s)) \<le>
     level s + (clock (snd (draw now s)) - clock s) * rate"
  by (simp add: draw_level draw_clock max_def)

text \<open>Admitted draws are paid from the level and the time that passed.\<close>

lemma draws_bound:
  assumes "0 \<le> rate" "0 \<le> level s" "0 \<le> burst"
  shows "of_nat (length (filter (\<lambda>ok. ok) (fst (draws ts s)))) \<le> level s + (clock (snd (draws ts s)) - clock s) * rate"
proof -
  have "of_nat (length (filter (\<lambda>ok. ok) (fst (draws ts s)))) + level (snd (draws ts s)) \<le>
          level s + (clock (snd (draws ts s)) - clock s) * rate \<and> 0 \<le> level (snd (draws ts s))"
    using assms
  proof (induction ts arbitrary: s)
    case Nil
    then show ?case by simp
  next
    case (Cons t ts)
    let ?s = "snd (draw t s)"
    have IH: "of_nat (length (filter (\<lambda>ok. ok) (fst (draws ts ?s)))) + level (snd (draws ts ?s)) \<le>
        level ?s + (clock (snd (draws ts ?s)) - clock ?s) * rate \<and> 0 \<le> level (snd (draws ts ?s))"
      by (rule Cons.IH) (use Cons.prems draw_nonneg in auto)
    with draw_budget [of t s] show ?case
      by (cases "fst (draw t s)") (auto simp: split_beta algebra_simps)
  qed
  then show ?thesis by linarith
qed

lemma clock_draws: "clock (snd (draws ts s)) = fold max ts (clock s)"
  by (induction ts arbitrary: s) (auto simp: split_beta draw_clock max.commute)

text \<open>A caller that waits long enough between draws is never refused.\<close>

lemma draw_after_wait:
  assumes "1 \<le> burst" "0 \<le> level s" "1 \<le> (now - clock s) * rate" "clock s < now"
  shows "fst (draw now s)"
  using assms by (simp add: draw_admits min_def)

end

end
