(* ===== verification/RateLimit.thy ===== *)
theory RateLimit
  imports TokenBucket
begin

text \<open>
  \<open>src/src/proxy/rate-limit.ts\<close>: one token bucket per client IP, kept in a \<open>Map\<close> whose idle entries
  are swept once it holds 64. A time is in milliseconds. The middleware answers the error it throws,
  or \<open>None\<close> when it calls \<open>next()\<close>.
\<close>

record rate_params =
  rp_perSecond :: rat
  rp_burst :: "rat option"

record bucket =
  bk_tokens :: rat
  bk_lastRefillAt :: rat
  bk_lastSeenAt :: rat

definition IDLE_EVICT_MS :: rat where
  "IDLE_EVICT_MS = 5 * 60 * 1000"

fun before_char :: "char \<Rightarrow> string \<Rightarrow> string" where
  "before_char c [] = []"
| "before_char c (x # xs) = (if x = c then [] else x # before_char c xs)"

definition defaultClientIp :: "headers \<Rightarrow> string" where
  "defaultClientIp h =
     (let first = (case hget h ''x-forwarded-for'' of
                     Some xff \<Rightarrow> trim (before_char (CHR '','') xff) | None \<Rightarrow> [])
      in if first \<noteq> [] then first
         else case hget h ''x-real-ip'' of Some ip \<Rightarrow> ip | None \<Rightarrow> ''unknown'')"

definition rl_burst :: "rate_params \<Rightarrow> rat" where
  "rl_burst p = (case rp_burst p of Some b \<Rightarrow> b | None \<Rightarrow> rp_perSecond p * 2)"

definition sweep :: "rat \<Rightarrow> (string \<times> bucket) list \<Rightarrow> (string \<times> bucket) list" where
  "sweep now bs =
     (if length bs < 64 then bs else filter (\<lambda>(ip, b). \<not> now - bk_lastSeenAt b > IDLE_EVICT_MS) bs)"

definition refill :: "rate_params \<Rightarrow> rat \<Rightarrow> bucket \<Rightarrow> bucket" where
  "refill p now b =
     (let elapsed = now - bk_lastRefillAt b;
          b1 = (if elapsed > 0
                then b\<lparr>bk_tokens := min (rl_burst p) (bk_tokens b + elapsed * (rp_perSecond p / 1000)),
                       bk_lastRefillAt := now\<rparr>
                else b)
      in b1\<lparr>bk_lastSeenAt := now\<rparr>)"

definition take_token :: "rate_params \<Rightarrow> rat \<Rightarrow> bucket \<Rightarrow> bool \<times> bucket" where
  "take_token p now b =
     (let b1 = refill p now b in
      if bk_tokens b1 < 1 then (False, b1) else (True, b1\<lparr>bk_tokens := bk_tokens b1 - 1\<rparr>))"

definition rl_request ::
  "rate_params \<Rightarrow> rat \<Rightarrow> string \<Rightarrow> (string \<times> bucket) list \<Rightarrow> exn option \<times> (string \<times> bucket) list" where
  "rl_request p now ip bs0 =
     (if rp_perSecond p \<le> 0 then (None, bs0)
      else
        let bs = sweep now bs0;
            b = (case map_of bs ip of
                   Some b \<Rightarrow> b
                 | None \<Rightarrow> \<lparr>bk_tokens = rl_burst p, bk_lastRefillAt = now, bk_lastSeenAt = now\<rparr>);
            (ok, b') = take_token p now b
        in (if ok then None
            else Some (TooManyRequests (''per-IP rate limit exceeded for '' @ ip) None),
            AList.update ip b' bs))"

fun rl_run ::
  "rate_params \<Rightarrow> (rat \<times> string) list \<Rightarrow> (string \<times> bucket) list \<Rightarrow> bool list \<times> (string \<times> bucket) list" where
  "rl_run p [] bs = ([], bs)"
| "rl_run p ((now, ip) # rs) bs =
     (let (e, bs1) = rl_request p now ip bs; (oks, bs2) = rl_run p rs bs1
      in ((e = None) # oks, bs2))"

interpretation rb: token_bucket "take_token p" bk_tokens bk_lastRefillAt "rl_burst p"
  "rp_perSecond p / 1000" for p
  by unfold_locales (auto simp: take_token_def refill_def Let_def max_def not_less)

subsection \<open>Sweeping is not observable\<close>

text \<open>The limiter without the sweep.\<close>

definition rl_request_unswept ::
  "rate_params \<Rightarrow> rat \<Rightarrow> string \<Rightarrow> (string \<times> bucket) list \<Rightarrow> bool \<times> (string \<times> bucket) list" where
  "rl_request_unswept p now ip bs =
     (let b = (case map_of bs ip of
                 Some b \<Rightarrow> b
               | None \<Rightarrow> \<lparr>bk_tokens = rl_burst p, bk_lastRefillAt = now, bk_lastSeenAt = now\<rparr>);
          (ok, b') = take_token p now b
      in (ok, AList.update ip b' bs))"

fun rl_run_unswept ::
  "rate_params \<Rightarrow> (rat \<times> string) list \<Rightarrow> (string \<times> bucket) list \<Rightarrow> bool list" where
  "rl_run_unswept p [] bs = []"
| "rl_run_unswept p ((now, ip) # rs) bs =
     (let (ok, bs1) = rl_request_unswept p now ip bs in ok # rl_run_unswept p rs bs1)"

definition bucket_ok :: "rate_params \<Rightarrow> rat \<Rightarrow> bucket \<Rightarrow> bool" where
  "bucket_ok p now b \<longleftrightarrow> bk_lastSeenAt b = bk_lastRefillAt b \<and> bk_lastRefillAt b \<le> now \<and>
     0 \<le> bk_tokens b \<and> bk_tokens b \<le> rl_burst p"

definition swept_rel ::
  "rate_params \<Rightarrow> rat \<Rightarrow> (string \<times> bucket) list \<Rightarrow> (string \<times> bucket) list \<Rightarrow> bool" where
  "swept_rel p now bs us \<longleftrightarrow> distinct (map fst bs) \<and>
     (\<forall>ip b. map_of us ip = Some b \<longrightarrow> bucket_ok p now b) \<and>
     (\<forall>ip. map_of bs ip = map_of us ip \<or>
        map_of bs ip = None \<and> (\<exists>b. map_of us ip = Some b \<and>
          rl_burst p \<le> bk_tokens b + (now - bk_lastRefillAt b) * (rp_perSecond p / 1000)))"

lemma swept_relD:
  assumes "swept_rel p now bs us"
  shows "map_of us ip = Some b \<Longrightarrow> bucket_ok p now b"
    and "map_of bs ip = map_of us ip \<or>
        map_of bs ip = None \<and> (\<exists>b. map_of us ip = Some b \<and>
          rl_burst p \<le> bk_tokens b + (now - bk_lastRefillAt b) * (rp_perSecond p / 1000))"
proof -
  note rel = assms [unfolded swept_rel_def]
  show "map_of us ip = Some b \<Longrightarrow> bucket_ok p now b"
    by (rule rel [THEN conjunct2, THEN conjunct1, rule_format])
  show "map_of bs ip = map_of us ip \<or>
        map_of bs ip = None \<and> (\<exists>b. map_of us ip = Some b \<and>
          rl_burst p \<le> bk_tokens b + (now - bk_lastRefillAt b) * (rp_perSecond p / 1000))"
    by (rule rel [THEN conjunct2, THEN conjunct2, rule_format])
qed

lemma map_of_filter_distinct:
  "distinct (map fst al) \<Longrightarrow>
     map_of (filter (\<lambda>(k, v). P v) al) k =
       (case map_of al k of Some v \<Rightarrow> if P v then Some v else None | None \<Rightarrow> None)"
proof (induction al)
  case (Cons x al)
  obtain k' v' where x: "x = (k', v')" by fastforce
  show ?case
  proof (cases "k = k'")
    case True
    have "map_of al k' = None" using Cons.prems x by (auto simp: map_of_eq_None_iff)
    with Cons x True show ?thesis by simp
  next
    case False
    with Cons x show ?thesis by simp
  qed
qed simp

lemma swept_rel_later:
  assumes "swept_rel p now bs us" "now \<le> now'" "0 < rp_perSecond p"
  shows "swept_rel p now' bs us"
proof -
  have "(now - t) * (rp_perSecond p / 1000) \<le> (now' - t) * (rp_perSecond p / 1000)" for t
    using assms(2,3) by (intro mult_right_mono) auto
  with assms show ?thesis
    unfolding swept_rel_def bucket_ok_def by (meson add_left_mono order_trans)
qed

lemma sweep_rel:
  assumes rel: "swept_rel p now bs us" and r: "0 < rp_perSecond p" and b: "rl_burst p \<le> rp_perSecond p * 300"
  shows "swept_rel p now (sweep now bs) us"
proof (cases "length bs < 64")
  case True
  with rel show ?thesis by (simp add: sweep_def)
next
  case False
  have full: "rl_burst p \<le> bk_tokens b' + (now - bk_lastRefillAt b') * (rp_perSecond p / 1000)"
    if ok: "bucket_ok p now b'" and old: "now - bk_lastSeenAt b' > IDLE_EVICT_MS" for b'
  proof -
    have "300000 * (rp_perSecond p / 1000) \<le> (now - bk_lastRefillAt b') * (rp_perSecond p / 1000)"
      using ok old r by (intro mult_right_mono) (auto simp: bucket_ok_def IDLE_EVICT_MS_def)
    with ok b show ?thesis by (simp add: bucket_ok_def)
  qed
  have s: "sweep now bs = filter (\<lambda>(ip, b). \<not> now - bk_lastSeenAt b > IDLE_EVICT_MS) bs"
    using False by (simp add: sweep_def)
  have d: "distinct (map fst bs)" using rel by (simp add: swept_rel_def)
  show ?thesis
    unfolding swept_rel_def s
  proof (intro conjI allI impI)
    show "distinct (map fst (filter (\<lambda>(ip, b). \<not> now - bk_lastSeenAt b > IDLE_EVICT_MS) bs))"
      using d by (rule distinct_map_filter)
    show "bucket_ok p now b" if "map_of us ip = Some b" for ip b
      using rel that by (auto simp: swept_rel_def)
    fix ip
    show "map_of (filter (\<lambda>(ip, b). \<not> now - bk_lastSeenAt b > IDLE_EVICT_MS) bs) ip = map_of us ip \<or>
        map_of (filter (\<lambda>(ip, b). \<not> now - bk_lastSeenAt b > IDLE_EVICT_MS) bs) ip = None \<and>
        (\<exists>b. map_of us ip = Some b \<and>
          rl_burst p \<le> bk_tokens b + (now - bk_lastRefillAt b) * (rp_perSecond p / 1000))"
    proof (cases "map_of bs ip")
      case None
      with swept_relD(2) [OF rel, of ip] show ?thesis by (simp add: map_of_filter_distinct [OF d])
    next
      case (Some b')
      with swept_relD(2) [OF rel, of ip] have u: "map_of us ip = Some b'" by simp
      with swept_relD(1) [OF rel u] full Some show ?thesis
        by (simp add: map_of_filter_distinct [OF d])
    qed
  qed
qed

lemma take_token_ok:
  assumes "bucket_ok p now b" "0 < rp_perSecond p" "0 \<le> rl_burst p"
  shows "bucket_ok p now (snd (take_token p now b))"
  using assms by (auto simp: bucket_ok_def take_token_def refill_def Let_def min_def)

lemma take_token_full:
  assumes "bucket_ok p now b"
    and "rl_burst p \<le> bk_tokens b + (now - bk_lastRefillAt b) * (rp_perSecond p / 1000)"
  shows "take_token p now b =
         take_token p now \<lparr>bk_tokens = rl_burst p, bk_lastRefillAt = now, bk_lastSeenAt = now\<rparr>"
  using assms by (cases b) (auto simp: bucket_ok_def take_token_def refill_def Let_def min_def)

lemma request_rel:
  assumes rel: "swept_rel p now bs us" and r: "0 < rp_perSecond p" "0 \<le> rl_burst p"
    and b: "rl_burst p \<le> rp_perSecond p * 300"
  shows "(fst (rl_request p now ip bs) = None) = fst (rl_request_unswept p now ip us) \<and>
         swept_rel p now (snd (rl_request p now ip bs)) (snd (rl_request_unswept p now ip us))"
proof -
  let ?fresh = "\<lparr>bk_tokens = rl_burst p, bk_lastRefillAt = now, bk_lastSeenAt = now\<rparr>"
  let ?bs = "sweep now bs"
  have rel': "swept_rel p now ?bs us" by (rule sweep_rel [OF rel r(1) b])
  have fresh: "bucket_ok p now ?fresh" using r(2) by (simp add: bucket_ok_def)
  let ?b = "case map_of ?bs ip of Some b \<Rightarrow> b | None \<Rightarrow> ?fresh"
  let ?u = "case map_of us ip of Some b \<Rightarrow> b | None \<Rightarrow> ?fresh"
  have same: "take_token p now ?b = take_token p now ?u"
    using swept_relD(2) [OF rel', of ip]
  proof (elim disjE conjE exE)
    fix b assume u: "map_of us ip = Some b" "map_of ?bs ip = None"
      "rl_burst p \<le> bk_tokens b + (now - bk_lastRefillAt b) * (rp_perSecond p / 1000)"
    from take_token_full [OF swept_relD(1) [OF rel' u(1)] u(3)] u show ?thesis by simp
  qed simp
  have uok: "bucket_ok p now ?u"
    using swept_relD(1) [OF rel'] fresh by (simp split: option.splits)
  obtain ok b' where t: "take_token p now ?u = (ok, b')" by fastforce
  have b'ok: "bucket_ok p now b'" using take_token_ok [OF uok r] t by simp
  have eqs: "rl_request p now ip bs = (if ok then None
       else Some (TooManyRequests (''per-IP rate limit exceeded for '' @ ip) None), AList.update ip b' ?bs)"
    "rl_request_unswept p now ip us = (ok, AList.update ip b' us)"
    using same t r(1) by (simp_all add: rl_request_def rl_request_unswept_def Let_def)
  have "swept_rel p now (AList.update ip b' ?bs) (AList.update ip b' us)"
    using swept_relD [OF rel'] b'ok rel' unfolding swept_rel_def
    by (simp add: distinct_update del: map_of_eq_Some_iff)
  with eqs show ?thesis by simp
qed

lemma run_rel:
  assumes "swept_rel p now bs us" "0 < rp_perSecond p" "0 \<le> rl_burst p" "rl_burst p \<le> rp_perSecond p * 300"
    and "sorted (now # map fst rs)"
  shows "fst (rl_run p rs bs) = rl_run_unswept p rs us"
  using assms(1,5)
proof (induction rs arbitrary: now bs us)
  case (Cons x rs)
  obtain t ip where x: "x = (t, ip)" by fastforce
  have rel: "swept_rel p t bs us"
    by (rule swept_rel_later [OF Cons.prems(1) _ assms(2)]) (use Cons.prems(2) x in simp)
  note q = request_rel [OF rel assms(2,3,4), of ip]
  have "fst (rl_run p rs (snd (rl_request p t ip bs))) =
        rl_run_unswept p rs (snd (rl_request_unswept p t ip us))"
    by (rule Cons.IH [of t]) (use q Cons.prems(2) x in auto)
  with q x show ?case by (simp add: split_beta)
qed simp

subsection \<open>Admissions of one client\<close>

lemma sorted_last: "sorted xs \<Longrightarrow> x \<in> set xs \<Longrightarrow> x \<le> last xs"
  by (induction xs) auto

definition times_of :: "string \<Rightarrow> (rat \<times> string) list \<Rightarrow> rat list" where
  "times_of ip rs = map fst (filter (\<lambda>r. snd r = ip) rs)"

definition admitted :: "string \<Rightarrow> (rat \<times> string) list \<Rightarrow> bool list \<Rightarrow> nat" where
  "admitted ip rs oks = length (filter (\<lambda>(r, ok). snd r = ip \<and> ok) (zip rs oks))"

lemma admitted_Cons [simp]:
  "admitted ip (r # rs) (ok # oks) = (if snd r = ip \<and> ok then 1 else 0) + admitted ip rs oks"
  "admitted ip [] oks = 0"
  by (simp_all add: admitted_def)

lemma admitted_existing:
  "map_of us ip = Some b \<Longrightarrow>
     admitted ip rs (rl_run_unswept p rs us) = length (filter (\<lambda>ok. ok) (fst (rb.draws p (times_of ip rs) b)))"
proof (induction rs arbitrary: us b)
  case (Cons r rs)
  obtain t j where r: "r = (t, j)" by fastforce
  obtain ok us1 where q: "rl_request_unswept p t j us = (ok, us1)" by fastforce
  show ?case
  proof (cases "j = ip")
    case True
    obtain b1 where b1: "take_token p t b = (ok, b1)" "map_of us1 ip = Some b1"
      using q Cons.prems True by (auto simp: rl_request_unswept_def Let_def split: prod.splits)
    from Cons.IH [OF b1(2)] True r q b1(1) show ?thesis
      by (simp add: times_of_def split_beta)
  next
    case False
    have "map_of us1 ip = Some b"
      using q Cons.prems False by (auto simp: rl_request_unswept_def Let_def split: prod.splits)
    from Cons.IH [OF this] False r q show ?thesis
      by (simp add: times_of_def)
  qed
qed (simp add: times_of_def)

lemma admitted_fresh:
  assumes "map_of us ip = None" and "times_of ip rs = t # ts"
  shows "admitted ip rs (rl_run_unswept p rs us) =
     length (filter (\<lambda>ok. ok) (fst (rb.draws p (t # ts)
        \<lparr>bk_tokens = rl_burst p, bk_lastRefillAt = t, bk_lastSeenAt = t\<rparr>)))"
  using assms
proof (induction rs arbitrary: us)
  case (Cons r rs)
  obtain t' j where r: "r = (t', j)" by fastforce
  obtain ok us1 where q: "rl_request_unswept p t' j us = (ok, us1)" by fastforce
  show ?case
  proof (cases "j = ip")
    case True
    then have t: "t' = t" "times_of ip rs = ts" using Cons.prems(2) r by (auto simp: times_of_def)
    obtain b1 where b1: "take_token p t \<lparr>bk_tokens = rl_burst p, bk_lastRefillAt = t, bk_lastSeenAt = t\<rparr> = (ok, b1)"
        "map_of us1 ip = Some b1"
      using q Cons.prems(1) True t(1) by (auto simp: rl_request_unswept_def Let_def split: prod.splits)
    from admitted_existing [OF b1(2), of rs p] True r q b1(1) t show ?thesis
      by (simp add: split_beta)
  next
    case False
    have "map_of us1 ip = None"
      using q Cons.prems(1) False by (auto simp: rl_request_unswept_def Let_def split: prod.splits)
    from Cons.IH [OF this] Cons.prems(2) False r q show ?thesis
      by (simp add: times_of_def)
  qed
qed (simp add: times_of_def)

lemma fold_max_le: "(\<forall>x \<in> set xs. x \<le> (m :: rat)) \<Longrightarrow> a \<le> m \<Longrightarrow> fold max xs a \<le> m"
  by (induction xs arbitrary: a) auto

subsection \<open>Properties\<close>

text \<open>C19: the rate limit bounds each client. Over any run with a forward clock, the requests of one IP
  that are let through number at most the burst plus what the rate refilled between the first
  and the last request, whatever other clients do and whatever the sweep evicts; the burst must not
  exceed five minutes' refill, which the default burst never does.\<close>

theorem rate_limit_bounds_each_ip:
  assumes "0 < rp_perSecond p" and "0 \<le> rl_burst p" and "rl_burst p \<le> rp_perSecond p * 300"
    and "sorted (map fst rs)" and "rs \<noteq> []"
  shows "of_nat (admitted ip rs (fst (rl_run p rs []))) \<le>
           rl_burst p + (fst (last rs) - fst (hd rs)) * (rp_perSecond p / 1000)"
proof -
  have srt: "sorted (fst (hd rs) # map fst rs)"
    using assms(4,5) by (cases rs) auto
  have "swept_rel p (fst (hd rs)) [] []" by (simp add: swept_rel_def)
  from run_rel [OF this assms(1-3) srt] have run: "fst (rl_run p rs []) = rl_run_unswept p rs []" .
  show ?thesis
  proof (cases "times_of ip rs")
    case Nil
    have "admitted ip rs oks = 0" for oks
      using Nil by (auto simp: admitted_def times_of_def filter_empty_conv dest!: set_zip_leftD)
    with assms srt last_in_set [OF assms(5)] show ?thesis by (simp add: add_nonneg_nonneg)
  next
    case (Cons t ts)
    let ?b = "\<lparr>bk_tokens = rl_burst p, bk_lastRefillAt = t, bk_lastSeenAt = t\<rparr>"
    have in_rs: "x \<in> set (t # ts) \<Longrightarrow> x \<in> fst ` set rs" for x
      unfolding Cons [symmetric] by (auto simp: times_of_def)
    have upper: "x \<in> fst ` set rs \<Longrightarrow> x \<le> fst (last rs)" for x
      using assms(4,5) sorted_last [of "map fst rs" x] by (simp add: last_map)
    have lower: "fst (hd rs) \<le> t"
      using srt in_rs [of t] by auto
    have "fold max (t # ts) t \<le> fst (last rs)"
      by (rule fold_max_le) (use in_rs upper in auto)
    then have "(fold max (t # ts) t - t) * (rp_perSecond p / 1000) \<le>
        (fst (last rs) - fst (hd rs)) * (rp_perSecond p / 1000)"
      using lower assms(1) by (intro mult_right_mono) auto
    moreover have "of_nat (length (filter (\<lambda>ok. ok) (fst (rb.draws p (t # ts) ?b)))) \<le>
        rl_burst p + (fold max (t # ts) t - t) * (rp_perSecond p / 1000)"
      using rb.draws_bound [of p ?b "t # ts"] rb.clock_draws [of p "t # ts" ?b] assms(1,2)
      by (simp del: rb.draws.simps)
    moreover have "admitted ip rs (fst (rl_run p rs [])) =
        length (filter (\<lambda>ok. ok) (fst (rb.draws p (t # ts) ?b)))"
      unfolding run by (rule admitted_fresh [OF _ Cons]) simp
    ultimately show ?thesis by linarith
  qed
qed

definition demo_rate :: rate_params where
  "demo_rate = \<lparr>rp_perSecond = 1, rp_burst = None\<rparr>"

definition demo_reqs :: "(rat \<times> string) list" where
  "demo_reqs = [(0, ''a''), (0, ''a''), (0, ''b''), (10, ''a''), (1000, ''a''), (1010, ''a'')]"

theorem rate_limit_bounds_each_ip_witness:
  "admitted ''a'' demo_reqs (fst (rl_run demo_rate demo_reqs [])) = 3 \<and> (3 :: rat) \<le> 2 + 1010 * (1 / 1000)"
proof -
  have "admitted ''a'' demo_reqs (fst (rl_run demo_rate demo_reqs [])) = 3" by code_simp
  with rate_limit_bounds_each_ip [of demo_rate demo_reqs "''a''"] show ?thesis
    by (simp add: demo_rate_def demo_reqs_def rl_burst_def)
qed

text \<open>A slow limit admits nobody. With the default burst, a configured rate below one half per
  second gives a bucket that never holds a whole token: every request is answered 429.\<close>

theorem slow_rate_refuses_all:
  assumes "0 < rp_perSecond p" and "rp_perSecond p < 1 / 2" and "rp_burst p = None"
    and "\<forall>b \<in> snd ` set bs. bk_tokens b \<le> rl_burst p"
  shows "fst (rl_run p rs bs) = replicate (length rs) False"
  using assms(4)
proof (induction rs arbitrary: bs)
  case (Cons r rs)
  obtain t ip where r: "r = (t, ip)" by fastforce
  have burst: "rl_burst p < 1" using assms(2,3) by (simp add: rl_burst_def)
  let ?bs = "sweep t bs"
  let ?b = "case map_of ?bs ip of Some b \<Rightarrow> b
            | None \<Rightarrow> \<lparr>bk_tokens = rl_burst p, bk_lastRefillAt = t, bk_lastSeenAt = t\<rparr>"
  have sub: "set ?bs \<subseteq> set bs" by (auto simp: sweep_def)
  have "bk_tokens ?b \<le> rl_burst p"
    using Cons.prems sub by (fastforce split: option.splits dest: map_of_SomeD)
  then have tk: "take_token p t ?b = (False, refill p t ?b)" "bk_tokens (refill p t ?b) \<le> rl_burst p"
    using burst by (auto simp: take_token_def refill_def Let_def)
  have "fst (rl_run p rs (AList.update ip (refill p t ?b) ?bs)) = replicate (length rs) False"
    by (rule Cons.IH) (use Cons.prems sub tk(2) in \<open>auto dest!: in_set_update\<close>)
  with tk(1) assms(1) r show ?case
    by (simp add: rl_request_def Let_def split_beta)
qed simp

theorem slow_rate_refuses_all_witness:
  "fst (rl_run \<lparr>rp_perSecond = 1 / 4, rp_burst = None\<rparr> [(0, ''a''), (60000, ''a'')] []) = [False, False]"
  using slow_rate_refuses_all [of "\<lparr>rp_perSecond = 1 / 4, rp_burst = None\<rparr>" "[]" "[(0, ''a''), (60000, ''a'')]"]
  by (simp add: numeral_2_eq_2)

end
