(* ===== verification/ObserveOutcome.thy ===== *)
theory ObserveOutcome
  imports MessagesLog Redact TokenBucket Cooldown RateLimit
begin

text \<open>
  \<open>src/src/proxy/observe-outcome.ts\<close>: the middleware that records a failure the handler did not record,
  under a global token bucket. \<open>clientIpHint\<close> of \<open>src/src/proxy/messages.ts\<close> is here because both use
  it. A request is given by its start, the flag \<open>logged\<close>, the response's status and text, the user
  and the headers; the clock after the response and the row's id are arguments.
\<close>

definition WRITE_TOKENS_PER_SEC :: rat where "WRITE_TOKENS_PER_SEC = 20"
definition WRITE_BURST :: rat where "WRITE_BURST = 40"
definition DROP_WARN_COOLDOWN_MS :: rat where "DROP_WARN_COOLDOWN_MS = 5000"

record observer =
  ob_tokens :: rat
  ob_lastRefillAt :: rat
  ob_dropped :: nat
  ob_lastDropWarnAt :: rat

definition createOutcomeObserver :: "rat \<Rightarrow> observer" where
  "createOutcomeObserver now =
     \<lparr>ob_tokens = WRITE_BURST, ob_lastRefillAt = now, ob_dropped = 0, ob_lastDropWarnAt = 0\<rparr>"

definition ob_refill :: "rat \<Rightarrow> observer \<Rightarrow> observer" where
  "ob_refill now s =
     (let elapsed = now - ob_lastRefillAt s in
      if elapsed > 0
      then s\<lparr>ob_tokens := min WRITE_BURST (ob_tokens s + elapsed * WRITE_TOKENS_PER_SEC / 1000), ob_lastRefillAt := now\<rparr>
      else s)"

text \<open>The answer, and the number of dropped rows when the warning about them is emitted.\<close>

definition admitWrite :: "rat \<Rightarrow> observer \<Rightarrow> bool \<times> nat option \<times> observer" where
  "admitWrite now s0 =
     (let s = ob_refill now s0 in
      if ob_tokens s < 1 then
        let s1 = s\<lparr>ob_dropped := ob_dropped s + 1\<rparr> in
        if now - ob_lastDropWarnAt s1 \<ge> DROP_WARN_COOLDOWN_MS
        then (False, Some (ob_dropped s1), s1\<lparr>ob_lastDropWarnAt := now, ob_dropped := 0\<rparr>)
        else (False, None, s1)
      else (True, None, s\<lparr>ob_tokens := ob_tokens s - 1\<rparr>))"

definition clientIpHint :: "headers \<Rightarrow> string option" where
  "clientIpHint h =
     (let first = (case hget h ''x-forwarded-for'' of Some xff \<Rightarrow> trim (before_char (CHR '','') xff) | None \<Rightarrow> [])
      in if first \<noteq> [] then Some first else hget h ''x-real-ip'')"

record outcome =
  oc_start :: rat
  oc_logged :: bool
  oc_status :: nat
  oc_body :: "string option"
  oc_user :: "string option"
  oc_headers :: headers

definition outcome_error :: "(string \<Rightarrow> json option) \<Rightarrow> outcome \<Rightarrow> string option" where
  "outcome_error parse oc =
     (case oc_body oc of
        None \<Rightarrow> None
      | Some text \<Rightarrow> map_option redact (extractErrorMessage (safeParseJson parse text)))"

definition outcome_record :: "(string \<Rightarrow> json option) \<Rightarrow> string \<Rightarrow> rat \<Rightarrow> outcome \<Rightarrow> message_log" where
  "outcome_record parse uuid now oc =
     \<lparr>ml_id = uuid, ml_ts = oc_start oc, ml_userName = (case oc_user oc of Some n \<Rightarrow> n | None \<Rightarrow> ''-''),
      ml_model = None, ml_status = oc_status oc, ml_streaming = False, ml_durationMs = now - oc_start oc,
      ml_meta = EMPTY_META, ml_clientIp = clientIpHint (oc_headers oc),
      ml_userAgent = hget (oc_headers oc) ''user-agent'', ml_requestBody = JNull, ml_responseBody = None,
      ml_errorMessage = outcome_error parse oc, ml_servedBy = None, ml_bypassMetadata = None,
      ml_source = Some (classifyProxySource (oc_status oc))\<rparr>"

definition observe_outcome ::
  "(string \<Rightarrow> json option) \<Rightarrow> string \<Rightarrow> rat \<Rightarrow> outcome \<Rightarrow> observer \<Rightarrow> message_log option \<times> observer" where
  "observe_outcome parse uuid now oc s =
     (if oc_logged oc \<or> oc_status oc < 400 then (None, s)
      else case admitWrite now s of
             (True, _, s') \<Rightarrow> (Some (outcome_record parse uuid now oc), s')
           | (False, _, s') \<Rightarrow> (None, s'))"

subsection \<open>The bucket and the warning\<close>

text \<open>The bucket is the interface shared with the per-IP limiter, the warning the shared cooldown.\<close>

definition write_draw :: "rat \<Rightarrow> observer \<Rightarrow> bool \<times> observer" where
  "write_draw now s = (fst (admitWrite now s), snd (snd (admitWrite now s)))"

interpretation wb: token_bucket write_draw ob_tokens ob_lastRefillAt WRITE_BURST "WRITE_TOKENS_PER_SEC / 1000"
  by unfold_locales
     (auto simp: write_draw_def admitWrite_def ob_refill_def Let_def max_def)

definition drop_warning :: "rat \<Rightarrow> unit \<Rightarrow> observer \<Rightarrow> nat option \<times> observer" where
  "drop_warning now u s = snd (admitWrite now s)"

interpretation dw: cooldown_gate drop_warning "\<lambda>now _ s. ob_tokens (ob_refill now s) < 1" "\<lambda>s. Some (ob_lastDropWarnAt s)"
  DROP_WARN_COOLDOWN_MS
  by unfold_locales
     (auto simp: drop_warning_def admitWrite_def ob_refill_def Let_def)

subsection \<open>Runs\<close>

fun observe_all ::
  "(string \<Rightarrow> json option) \<Rightarrow> (string \<times> rat \<times> outcome) list \<Rightarrow> observer \<Rightarrow> message_log list \<times> observer" where
  "observe_all parse [] s = ([], s)"
| "observe_all parse ((uuid, now, oc) # es) s =
     (let (r, s1) = observe_outcome parse uuid now oc s; (rs, s2) = observe_all parse es s1
      in ((case r of None \<Rightarrow> [] | Some x \<Rightarrow> [x]) @ rs, s2))"

definition observed :: "string \<times> rat \<times> outcome \<Rightarrow> bool" where
  "observed e = (\<not> oc_logged (snd (snd e)) \<and> 400 \<le> oc_status (snd (snd e)))"

lemma observe_draws:
  "length (fst (observe_all parse es s)) =
     length (filter (\<lambda>ok. ok) (fst (wb.draws (map (\<lambda>e. fst (snd e)) (filter observed es)) s))) \<and>
   snd (observe_all parse es s) = snd (wb.draws (map (\<lambda>e. fst (snd e)) (filter observed es)) s)"
proof (induction es arbitrary: s)
  case (Cons e es)
  obtain uuid now oc where e: "e = (uuid, now, oc)" by (metis prod_cases3)
  obtain ok w s1 where a: "admitWrite now s = (ok, w, s1)" by (metis prod_cases3)
  show ?case
  proof (cases "observed e")
    case True
    then have "observe_outcome parse uuid now oc s = (if ok then Some (outcome_record parse uuid now oc) else None, s1)"
      using a by (simp add: e observed_def observe_outcome_def split: bool.split)
    moreover have "write_draw now s = (ok, s1)" by (simp add: write_draw_def a)
    ultimately show ?thesis using Cons.IH [of s1] True by (simp add: e split_beta)
  next
    case False
    then have "observe_outcome parse uuid now oc s = (None, s)" by (auto simp: e observed_def observe_outcome_def)
    with Cons.IH [of s] False show ?thesis by (simp add: e split_beta)
  qed
qed simp

lemma fresh_observer [simp]:
  "ob_tokens (createOutcomeObserver t0) = 40" "ob_lastRefillAt (createOutcomeObserver t0) = t0"
  by (simp_all add: createOutcomeObserver_def WRITE_BURST_def)

lemma observe_rows:
  "r \<in> set (fst (observe_all parse es s)) \<Longrightarrow>
     \<exists>uuid now oc. (uuid, now, oc) \<in> set es \<and> observed (uuid, now, oc) \<and> r = outcome_record parse uuid now oc"
proof (induction es arbitrary: s)
  case (Cons e es)
  obtain uuid now oc where e: "e = (uuid, now, oc)" by (metis prod_cases3)
  show ?case
  proof (cases "r \<in> set (fst (observe_all parse es (snd (observe_outcome parse uuid now oc s))))")
    case True
    from Cons.IH [OF this] show ?thesis by auto
  next
    case False
    with Cons.prems have x: "fst (observe_outcome parse uuid now oc s) = Some r"
      by (simp add: e split_beta split: option.splits)
    then have "observed e" by (cases "observed e") (auto simp: e observe_outcome_def observed_def)
    moreover from x have "r = outcome_record parse uuid now oc"
      by (cases "admitWrite now s") (auto simp: observe_outcome_def split: if_splits bool.splits)
    moreover have "(uuid, now, oc) \<in> set (e # es)" by (simp add: e)
    ultimately show ?thesis unfolding e by (intro exI [of _ uuid] exI [of _ now] exI [of _ oc] conjI)
  qed
qed simp

lemma error_redacted: "outcome_error parse oc = Some m \<Longrightarrow> secret w \<Longrightarrow> \<not> sublist w m"
  using secret_removed by (auto simp: outcome_error_def split: option.splits)

text \<open>Recording failures is bounded and exact. However many requests fail, the rows written number
  at most forty plus twenty per second since the observer was created; only failures the handler did
  not record get a row, none of them claims to come from upstream, and no stored error message
  contains a credential.\<close>

theorem failure_rows_are_bounded:
  "of_nat (length (fst (observe_all parse es (createOutcomeObserver t0)))) \<le>
     40 + (fold max (map (\<lambda>e. fst (snd e)) (filter observed es)) t0 - t0) / 50 \<and>
   {r \<in> set (fst (observe_all parse es s)). ml_status r < 400 \<or> ml_source r = Some Upstream \<or>
      (\<exists>w m. ml_errorMessage r = Some m \<and> secret w \<and> sublist w m)} = {}"
proof
  let ?ts = "map (\<lambda>e. fst (snd e)) (filter observed es)"
  have "of_nat (length (filter (\<lambda>ok. ok) (fst (wb.draws ?ts (createOutcomeObserver t0))))) \<le>
      40 + (ob_lastRefillAt (snd (wb.draws ?ts (createOutcomeObserver t0))) - t0) / 50"
    using wb.draws_bound [of "createOutcomeObserver t0" ?ts] by (simp add: WRITE_BURST_def WRITE_TOKENS_PER_SEC_def)
  then show "of_nat (length (fst (observe_all parse es (createOutcomeObserver t0)))) \<le>
      40 + (fold max ?ts t0 - t0) / 50"
    unfolding wb.clock_draws by (simp add: observe_draws)
next
  show "{r \<in> set (fst (observe_all parse es s)). ml_status r < 400 \<or> ml_source r = Some Upstream \<or>
      (\<exists>w m. ml_errorMessage r = Some m \<and> secret w \<and> sublist w m)} = {}"
  proof -
    have "400 \<le> ml_status r \<and> ml_source r \<noteq> Some Upstream \<and> (\<forall>w m. ml_errorMessage r = Some m \<and> secret w \<longrightarrow> \<not> sublist w m)"
      if "r \<in> set (fst (observe_all parse es s))" for r
    proof -
      obtain uuid now oc where "observed (uuid, now, oc)" and r: "r = outcome_record parse uuid now oc"
        using observe_rows [OF \<open>r \<in> _\<close>] by blast
      then have "400 \<le> ml_status r" by (simp add: outcome_record_def observed_def)
      moreover have "ml_source r \<noteq> Some Upstream" by (simp add: r outcome_record_def classifyProxySource_def)
      moreover have "ml_errorMessage r = outcome_error parse oc" by (simp add: r outcome_record_def)
      ultimately show ?thesis using error_redacted by metis
    qed
    then show ?thesis
      by (intro equals0I) (elim CollectE conjE disjE exE, force, force, force)
  qed
qed

end
