(* ===== verification/UsageTracker.thy ===== *)
theory UsageTracker
  imports Sniff
begin

text \<open>
  \<open>src/src/usage/per-user.ts\<close> and \<open>src/src/usage/per-user-postgres.ts\<close>: the two implementations of the
  daily token quota. The in-memory one keeps one day per user; the Postgres one a table keyed by user
  and day, whose statements are modelled as what they do to the rows. A day is the key \<open>utcDayKey\<close>
  makes of the clock. The limit is a configured number and may be \<open>NaN\<close>.
\<close>

text \<open>\<open>utcDayKey\<close>: the ISO date, represented by its day number.\<close>

definition utcDayKey :: "rat \<Rightarrow> int" where
  "utcDayKey now = \<lfloor>now / 86400000\<rfloor>"

definition quota_error :: "string \<Rightarrow> exn" where
  "quota_error userName = QuotaExceeded (''daily token limit exceeded for \"'' @ userName @ ''\"'')"

subsection \<open>In memory\<close>

type_synonym usage_state = "(string \<times> (int \<times> rat)) list"

definition currentDayUsage :: "int \<Rightarrow> string \<Rightarrow> usage_state \<Rightarrow> int \<times> rat" where
  "currentDayUsage today userName st =
     (case map_of st userName of
        Some (day, tokens) \<Rightarrow> if day = today then (day, tokens) else (today, 0)
      | None \<Rightarrow> (today, 0))"

definition assertCanRequest :: "jsnum \<Rightarrow> int \<Rightarrow> string \<Rightarrow> usage_state \<Rightarrow> exn option" where
  "assertCanRequest limit today userName st =
     (if js_le limit (Num 0) then None
      else if js_le limit (Num (snd (currentDayUsage today userName st)))
      then Some (quota_error userName) else None)"

definition record_usage :: "int \<Rightarrow> string \<Rightarrow> rat \<Rightarrow> rat \<Rightarrow> usage_state \<Rightarrow> usage_state" where
  "record_usage today userName input output st =
     (let (day, tokens) = currentDayUsage today userName st
      in AList.update userName (day, tokens + input + output) st)"

subsection \<open>Postgres\<close>

type_synonym usage_rows = "((string \<times> int) \<times> rat) list"

definition pg_assertCanRequest :: "jsnum \<Rightarrow> int \<Rightarrow> string \<Rightarrow> usage_rows \<Rightarrow> exn option" where
  "pg_assertCanRequest limit today userName rows =
     (if js_le limit (Num 0) then None
      else
        let tokens = (case map_of rows (userName, today) of Some t \<Rightarrow> t | None \<Rightarrow> 0)
        in if js_le limit (Num tokens) then Some (quota_error userName) else None)"

text \<open>\<open>INSERT ... ON CONFLICT (user_name, day) DO UPDATE SET tokens = tokens + EXCLUDED.tokens\<close>.\<close>

definition pg_record :: "int \<Rightarrow> string \<Rightarrow> rat \<Rightarrow> rat \<Rightarrow> usage_rows \<Rightarrow> usage_rows" where
  "pg_record today userName input output rows =
     (let total = input + output in
      if total \<le> 0 then rows
      else case map_of rows (userName, today) of
             None \<Rightarrow> rows @ [((userName, today), total)]
           | Some t \<Rightarrow> AList.update (userName, today) (t + total) rows)"

definition pg_snapshot :: "int \<Rightarrow> usage_rows \<Rightarrow> (string \<times> (int \<times> rat)) list" where
  "pg_snapshot today rows = [(u, (today, t)). ((u, d), t) \<leftarrow> rows, d = today]"

subsection \<open>The contract\<close>

text \<open>Records of (day, user, input tokens, output tokens), in the order they are made.\<close>

fun rec_all :: "(int \<Rightarrow> string \<Rightarrow> rat \<Rightarrow> rat \<Rightarrow> 's \<Rightarrow> 's) \<Rightarrow> (int \<times> string \<times> rat \<times> rat) list \<Rightarrow> 's \<Rightarrow> 's" where
  "rec_all rec [] s = s"
| "rec_all rec ((d, u, i, k) # rs) s = rec_all rec rs (rec d u i k s)"

fun in_order :: "int \<Rightarrow> (int \<times> string \<times> rat \<times> rat) list \<Rightarrow> bool" where
  "in_order d [] = True"
| "in_order d ((e, u, i, k) # rs) = (d \<le> e \<and> 0 \<le> i \<and> 0 \<le> k \<and> in_order e rs)"

fun last_day :: "int \<Rightarrow> (int \<times> string \<times> rat \<times> rat) list \<Rightarrow> int" where
  "last_day d [] = d"
| "last_day d ((e, _) # rs) = last_day e rs"

lemma last_day_ge: "in_order d rs \<Longrightarrow> d \<le> last_day d rs"
  by (induction d rs rule: in_order.induct) auto

definition sum_of :: "int \<Rightarrow> string \<Rightarrow> (int \<times> string \<times> rat \<times> rat) list \<Rightarrow> rat" where
  "sum_of d u rs = sum_list [i + k. (e, v, i, k) \<leftarrow> rs, e = d \<and> v = u]"

text \<open>What a tracker of the daily quota promises, as long as the days do not go back: the tokens counted
  for a user on a day are those recorded that day, and a request is refused exactly when they reach a
  positive limit. \<open>upto d s\<close> says that nothing in \<open>s\<close> is of a later day than \<open>d\<close>.\<close>

locale usage_tracker =
  fixes used :: "int \<Rightarrow> string \<Rightarrow> 's \<Rightarrow> rat"
    and rec :: "int \<Rightarrow> string \<Rightarrow> rat \<Rightarrow> rat \<Rightarrow> 's \<Rightarrow> 's"
    and refuse :: "jsnum \<Rightarrow> int \<Rightarrow> string \<Rightarrow> 's \<Rightarrow> exn option"
    and upto_day :: "int \<Rightarrow> 's \<Rightarrow> bool"
    and start :: 's
  assumes start_used: "used d u start = 0"
    and start_upto: "upto_day d start"
    and rec_used: "upto_day d s \<Longrightarrow> d \<le> d' \<Longrightarrow> 0 \<le> i \<Longrightarrow> 0 \<le> k \<Longrightarrow>
          used d' u' (rec d u i k s) = used d' u' s + (if d' = d \<and> u' = u then i + k else 0)"
    and rec_upto: "upto_day d s \<Longrightarrow> upto_day d (rec d u i k s)"
    and upto_mono: "upto_day d s \<Longrightarrow> d \<le> d' \<Longrightarrow> upto_day d' s"
    and refuse_iff: "refuse limit d u s = (if js_le limit (Num 0) then None
          else if js_le limit (Num (used d u s)) then Some (quota_error u) else None)"
begin

lemma used_after_run:
  "in_order d rs \<Longrightarrow> upto_day d s \<Longrightarrow> last_day d rs \<le> d' \<Longrightarrow>
     used d' u (rec_all rec rs s) = used d' u s + sum_of d' u rs"
proof (induction rs arbitrary: d s)
  case (Cons r rs)
  obtain e v i k where r: "r = (e, v, i, k)" by (metis prod_cases4)
  have up: "upto_day e s" using Cons.prems r by (auto intro: upto_mono)
  have le: "e \<le> last_day e rs" "last_day e rs \<le> d'"
    using Cons.prems(1,3) r last_day_ge [of e rs] by auto
  have "used d' u (rec_all rec rs (rec e v i k s)) = used d' u (rec e v i k s) + sum_of d' u rs"
    by (rule Cons.IH [of e]) (use Cons.prems r le rec_upto [OF up] in auto)
  with rec_used [OF up, of d' i k u v] Cons.prems r le show ?case
    by (simp add: sum_of_def)
qed (simp add: sum_of_def)

lemma refused_after_run:
  assumes "in_order d rs" "last_day d rs \<le> d'"
  shows "refuse limit d' u (rec_all rec rs start) = (if js_le limit (Num 0) then None
          else if js_le limit (Num (sum_of d' u rs)) then Some (quota_error u) else None)"
  using used_after_run [OF assms(1) start_upto assms(2), of u]
  by (simp add: refuse_iff start_used del: js_le_Num_iff)

end

definition used_in_memory :: "int \<Rightarrow> string \<Rightarrow> usage_state \<Rightarrow> rat" where
  "used_in_memory d u st = snd (currentDayUsage d u st)"

definition memory_upto :: "int \<Rightarrow> usage_state \<Rightarrow> bool" where
  "memory_upto d st = (\<forall>u day t. map_of st u = Some (day, t) \<longrightarrow> day \<le> d)"

interpretation mem: usage_tracker used_in_memory record_usage assertCanRequest memory_upto "[]"
proof
  fix d d' :: int and s :: usage_state and i k :: rat and u u' :: string
  assume up: "memory_upto d s" and le: "d \<le> d'"
  show "used_in_memory d' u' (record_usage d u i k s) =
      used_in_memory d' u' s + (if d' = d \<and> u' = u then i + k else 0)"
    using up le
    by (auto simp: used_in_memory_def record_usage_def currentDayUsage_def memory_upto_def split_beta
        split: option.splits) (meson antisym)+
next
  fix d :: int and s :: usage_state and i k :: rat and u :: string
  assume "memory_upto d s"
  then show "memory_upto d (record_usage d u i k s)"
    by (auto simp: memory_upto_def record_usage_def currentDayUsage_def split_beta split: option.splits)
next
  fix d d' :: int and s :: usage_state
  show "memory_upto d s \<Longrightarrow> d \<le> d' \<Longrightarrow> memory_upto d' s" by (fastforce simp: memory_upto_def)
qed (simp_all add: used_in_memory_def currentDayUsage_def memory_upto_def assertCanRequest_def
       del: js_le_Num_iff)

definition used_in_rows :: "int \<Rightarrow> string \<Rightarrow> usage_rows \<Rightarrow> rat" where
  "used_in_rows d u rows = (case map_of rows (u, d) of Some t \<Rightarrow> t | None \<Rightarrow> 0)"

interpretation pg: usage_tracker used_in_rows pg_record pg_assertCanRequest "\<lambda>_ _. True" "[]"
  by unfold_locales
     (auto simp: used_in_rows_def pg_record_def pg_assertCanRequest_def Let_def map_add_def
       simp del: js_le_Num_iff split: option.splits)

subsection \<open>Properties\<close>

text \<open>C20: the daily quota. Both trackers count exactly what a user's responses of the day reported: after
  any records made in the order of days, a request of that or a later day is refused exactly when
  the limit is positive and the day's sum reaches it; in memory and in Postgres alike.\<close>

theorem daily_quota_counts_the_day:
  assumes "in_order d rs" and "last_day d rs \<le> d'"
  shows "assertCanRequest limit d' u (rec_all record_usage rs []) =
           (if \<not> js_le limit (Num 0) \<and> js_le limit (Num (sum_of d' u rs)) then Some (quota_error u) else None) \<and>
         pg_assertCanRequest limit d' u (rec_all pg_record rs []) =
           assertCanRequest limit d' u (rec_all record_usage rs [])"
  using mem.refused_after_run [OF assms] pg.refused_after_run [OF assms]
  by (simp del: js_le_Num_iff)

definition demo_records :: "(int \<times> string \<times> rat \<times> rat) list" where
  "demo_records = [(1, ''al'', 50, 60), (1, ''bo'', 1, 1), (2, ''al'', 30, 0)]"

theorem daily_quota_counts_the_day_witness:
  "assertCanRequest (Num 100) 2 ''al'' (rec_all record_usage demo_records []) = None \<and>
   pg_assertCanRequest (Num 30) 2 ''al'' (rec_all pg_record demo_records []) = Some (quota_error ''al'')"
proof -
  have o': "in_order 1 demo_records" "last_day 1 demo_records \<le> 2" by (simp_all add: demo_records_def)
  have s: "sum_of 2 ''al'' demo_records = 30" by (simp add: sum_of_def demo_records_def)
  show ?thesis
    using daily_quota_counts_the_day [OF o', of "Num 100" "''al''"]
      daily_quota_counts_the_day [OF o', of "Num 30" "''al''"] by (simp add: s)
qed

end
