(* ===== verification/ToolNames.thy ===== *)
theory ToolNames
  imports Errors
begin

text \<open>
  \<open>src/src/proxy/tool-name-mapping.ts\<close> and \<open>TOOL_NAME_TRIGGERS\<close> of
  \<open>src/src/proxy/classifier-triggers.ts\<close>: the per-request alias map, the outbound rewriting of
  \<open>tools[].name\<close>, and the reversal on the way back, of a whole text and of a stream. A chunk of the
  stream is the text the stateful UTF-8 decoder returned for it; \<open>rs_accepts\<close> is how many more
  \<open>enqueue\<close> calls succeed before the client's side is closed (\<open>None\<close>: it never is).
\<close>

definition TOOL_NAME_TRIGGERS :: "string list" where
  "TOOL_NAME_TRIGGERS = [''session_search'', ''skill_manage'', ''skill_view'', ''skills_list'']"

definition ALIAS_PREFIX :: string where "ALIAS_PREFIX = ''__cfy_alias_''"
definition ALIAS_SUFFIX :: string where "ALIAS_SUFFIX = ''__''"

record alias_map =
  am_forward :: "(string \<times> string) list"
  am_reverse :: "(string \<times> string) list"

definition createAliasMap :: alias_map where
  "createAliasMap = \<lparr>am_forward = [], am_reverse = []\<rparr>"

definition alias_of :: "nat \<Rightarrow> string" where
  "alias_of i = ALIAS_PREFIX @ nat_str i @ ALIAS_SUFFIX"

definition toAlias :: "string \<Rightarrow> alias_map \<Rightarrow> string \<times> alias_map" where
  "toAlias name am =
     (if name = [] then (name, am)
      else case map_of (am_forward am) name of
             Some existing \<Rightarrow> (existing, am)
           | None \<Rightarrow>
               let alias = alias_of (length (am_forward am))
               in (alias, \<lparr>am_forward = AList.update name alias (am_forward am),
                           am_reverse = AList.update alias name (am_reverse am)\<rparr>))"

definition fromAlias :: "string \<Rightarrow> alias_map \<Rightarrow> string option" where
  "fromAlias alias am = map_of (am_reverse am) alias"

definition hasMappings :: "alias_map \<Rightarrow> bool" where
  "hasMappings am = (length (am_forward am) > 0)"

subsection \<open>Outbound\<close>

definition tool_name :: "json \<Rightarrow> string option" where
  "tool_name t = as_str (jprop (Some t) ''name'')"

text \<open>An entry whose name is to be aliased: its properties and the name.\<close>

definition rewrite_target :: "string list \<Rightarrow> json \<Rightarrow> (obj \<times> string) option" where
  "rewrite_target triggers t =
     (case (t, tool_name t) of
        (JObj kvs, Some n) \<Rightarrow> if n \<in> set triggers then Some (kvs, n) else None
      | _ \<Rightarrow> None)"

text \<open>The loop over \<open>tools\<close>; the flag tells whether an entry was rewritten.\<close>

fun rewrite_tools :: "string list \<Rightarrow> json list \<Rightarrow> alias_map \<Rightarrow> json list \<times> bool \<times> alias_map" where
  "rewrite_tools triggers [] am = ([], False, am)"
| "rewrite_tools triggers (t # ts) am =
     (case rewrite_target triggers t of
        Some (kvs, n) \<Rightarrow>
          (let (a, am1) = toAlias n am; (ts', _, am2) = rewrite_tools triggers ts am1
           in (JObj (put ''name'' (JStr a) kvs) # ts', True, am2))
      | None \<Rightarrow> (let (ts', w, am2) = rewrite_tools triggers ts am in (t # ts', w, am2)))"

definition rewriteToolNamesForUpstream :: "obj \<Rightarrow> string list \<Rightarrow> alias_map \<Rightarrow> obj \<times> alias_map" where
  "rewriteToolNamesForUpstream body triggers am =
     (case get body ''tools'' of
        Some (JArr tools) \<Rightarrow>
          (let (ts, rewritten, am') = rewrite_tools triggers tools am
           in (if rewritten then put ''tools'' (JArr ts) body else body, am'))
      | _ \<Rightarrow> (body, am))"

subsection \<open>Inbound\<close>

definition reverseToolNamesInText :: "string \<Rightarrow> alias_map \<Rightarrow> string" where
  "reverseToolNamesInText text am =
     (if \<not> hasMappings am then text
      else foldl (\<lambda>out (alias, original).
                    if includes_str out alias then replace_str alias original out else out)
             text (am_reverse am))"

record rev_stream =
  rs_buffer :: string
  rs_open :: bool
  rs_accepts :: "nat option"
  rs_out :: "string list"

definition rs_init :: "nat option \<Rightarrow> rev_stream" where
  "rs_init accepts = \<lparr>rs_buffer = [], rs_open = True, rs_accepts = accepts, rs_out = []\<rparr>"

definition safeEnqueue :: "string \<Rightarrow> rev_stream \<Rightarrow> rev_stream" where
  "safeEnqueue text s =
     (if \<not> rs_open s then s
      else case rs_accepts s of
             None \<Rightarrow> s\<lparr>rs_out := rs_out s @ [text]\<rparr>
           | Some 0 \<Rightarrow> s\<lparr>rs_open := False\<rparr>
           | Some (Suc n) \<Rightarrow> s\<lparr>rs_accepts := Some n, rs_out := rs_out s @ [text]\<rparr>)"

text \<open>The text up to and with the first newline, and the rest.\<close>

fun take_line :: "string \<Rightarrow> (string \<times> string) option" where
  "take_line [] = None"
| "take_line (c # cs) =
     (if c = CHR 0x0A then Some ([c], cs)
      else case take_line cs of None \<Rightarrow> None | Some (l, r) \<Rightarrow> Some (c # l, r))"

lemma take_line_shorter: "take_line b = Some (l, r) \<Longrightarrow> length r < length b"
  by (induction b arbitrary: l) (auto split: if_splits option.splits)

lemma safeEnqueue_buffer [simp]: "rs_buffer (safeEnqueue t s) = rs_buffer s"
  by (auto simp: safeEnqueue_def split: option.splits nat.splits)

function drain_lines :: "alias_map \<Rightarrow> rev_stream \<Rightarrow> rev_stream" where
  "drain_lines am s =
     (case take_line (rs_buffer s) of
        None \<Rightarrow> s
      | Some (line, rest) \<Rightarrow>
          drain_lines am (safeEnqueue (reverseToolNamesInText line am) (s\<lparr>rs_buffer := rest\<rparr>)))"
  by auto
termination
  by (relation "measure (\<lambda>(am, s). length (rs_buffer s))") (auto dest: take_line_shorter)

declare drain_lines.simps [simp del]

definition rs_transform :: "alias_map \<Rightarrow> string \<Rightarrow> rev_stream \<Rightarrow> rev_stream" where
  "rs_transform am piece s = drain_lines am (s\<lparr>rs_buffer := rs_buffer s @ piece\<rparr>)"

definition rs_flush :: "alias_map \<Rightarrow> string \<Rightarrow> rev_stream \<Rightarrow> rev_stream" where
  "rs_flush am piece s =
     (let b = rs_buffer s @ piece in
      if length b > 0
      then (safeEnqueue (reverseToolNamesInText b am) (s\<lparr>rs_buffer := b\<rparr>))\<lparr>rs_buffer := []\<rparr>
      else s\<lparr>rs_buffer := b\<rparr>)"

text \<open>A whole response: its decoded chunks, and what the final \<open>decode()\<close> flushed.\<close>

definition reverse_stream :: "alias_map \<Rightarrow> nat option \<Rightarrow> string list \<Rightarrow> string \<Rightarrow> string list" where
  "reverse_stream am accepts pieces final =
     rs_out (rs_flush am final (fold (rs_transform am) pieces (rs_init accepts)))"

subsection \<open>The alias map\<close>

definition alias_pairs :: "string list \<Rightarrow> (string \<times> string) list" where
  "alias_pairs ns = map (\<lambda>i. (ns ! i, alias_of i)) [0..<length ns]"

definition am_ok :: "alias_map \<Rightarrow> bool" where
  "am_ok am \<longleftrightarrow> distinct (map fst (am_forward am)) \<and> [] \<notin> fst ` set (am_forward am) \<and>
     map snd (am_forward am) = map alias_of [0..<length (am_forward am)] \<and>
     am_reverse am = map prod.swap (am_forward am)"

lemma count_c_alias: "c = CHR ''c'' \<Longrightarrow> c \<notin> set (nat_str i)"
  by (auto dest: nat_str_digits simp: is_digit_def)

lemma takeWhile_digits: "takeWhile is_digit (nat_str i @ ALIAS_SUFFIX @ v) = nat_str i"
proof -
  have "\<not> is_digit (CHR ''_'')" by (simp add: is_digit_def)
  then show ?thesis
    by (subst takeWhile_append2) (simp_all add: nat_str_digits ALIAS_SUFFIX_def)
qed

text \<open>An alias occurs in another only if they are the same: the prefix fixes the place, the digits
  between prefix and closing guard the index.\<close>

lemma alias_sublist: "sublist (alias_of j) (alias_of i) \<Longrightarrow> j = i"
proof -
  assume "sublist (alias_of j) (alias_of i)"
  then obtain u v where uv: "alias_of i = u @ alias_of j @ v" by (auto simp: sublist_def)
  let ?c = "\<lambda>x. x = CHR ''c''"
  have len: "length (filter ?c (alias_of k)) = 1" for k
    using count_c_alias [of "CHR ''c''" k]
    by (auto simp: alias_of_def ALIAS_PREFIX_def ALIAS_SUFFIX_def filter_empty_conv)
  have "length (filter ?c (alias_of i)) = length (filter ?c u) + 1 + length (filter ?c v)"
    by (simp add: uv len)
  with len [of i] have u: "CHR ''c'' \<notin> set u" by (auto simp: filter_empty_conv)
  have pre: "takeWhile (\<lambda>x. \<not> ?c x) (alias_of k @ w) = ''__''" for k w
    by (simp add: alias_of_def ALIAS_PREFIX_def)
  have "takeWhile (\<lambda>x. \<not> ?c x) (u @ alias_of j @ v) = u @ ''__''"
    using u pre [of j v] by (subst takeWhile_append2) auto
  with uv pre [of i "[]"] have "u = []" by simp
  with uv have "nat_str i @ ALIAS_SUFFIX @ [] = nat_str j @ ALIAS_SUFFIX @ v"
    by (simp add: alias_of_def)
  then have "nat_str i = nat_str j" by (metis takeWhile_digits)
  then show "j = i" by simp
qed

lemma alias_inj: "alias_of i = alias_of j \<Longrightarrow> i = j"
  using alias_sublist [of i j] by simp

lemma am_ok_create: "am_ok createAliasMap"
  by (simp add: am_ok_def createAliasMap_def)

lemma am_ok_aliases: "am_ok am \<Longrightarrow> (n, a) \<in> set (am_forward am) \<Longrightarrow> \<exists>i < length (am_forward am). a = alias_of i"
proof -
  assume "am_ok am" "(n, a) \<in> set (am_forward am)"
  then have "a \<in> set (map alias_of [0..<length (am_forward am)])"
    by (metis am_ok_def set_map image_eqI snd_conv)
  then show ?thesis by auto
qed

lemma toAlias_ok:
  assumes ok: "am_ok am"
  shows "am_ok (snd (toAlias n am))"
    and "n \<noteq> [] \<Longrightarrow> (n, fst (toAlias n am)) \<in> set (am_forward (snd (toAlias n am)))"
    and "set (am_forward am) \<subseteq> set (am_forward (snd (toAlias n am)))"
    and "fst ` set (am_forward (snd (toAlias n am))) \<subseteq> insert n (fst ` set (am_forward am))"
proof -
  let ?L = "length (am_forward am)"
  have fresh: "alias_of ?L \<notin> fst ` set (am_reverse am)"
    using ok am_ok_aliases [OF ok] by (force simp: am_ok_def dest: alias_inj)
  have "am_ok (snd (toAlias n am)) \<and> (n \<noteq> [] \<longrightarrow> (n, fst (toAlias n am)) \<in> set (am_forward (snd (toAlias n am)))) \<and>
    set (am_forward am) \<subseteq> set (am_forward (snd (toAlias n am))) \<and>
    fst ` set (am_forward (snd (toAlias n am))) \<subseteq> insert n (fst ` set (am_forward am))"
  proof (cases "n = [] \<or> map_of (am_forward am) n \<noteq> None")
    case True
    with ok show ?thesis by (auto simp: toAlias_def map_of_SomeD)
  next
    case False
    then have n: "n \<notin> fst ` set (am_forward am)" by (simp add: map_of_eq_None_iff)
    have "toAlias n am = (alias_of ?L, \<lparr>am_forward = am_forward am @ [(n, alias_of ?L)],
        am_reverse = am_reverse am @ [(alias_of ?L, n)]\<rparr>)"
      using False by (simp add: toAlias_def Let_def update_new [OF n] update_new [OF fresh])
    with False n ok show ?thesis by (auto simp: am_ok_def)
  qed
  then show "am_ok (snd (toAlias n am))"
    "n \<noteq> [] \<Longrightarrow> (n, fst (toAlias n am)) \<in> set (am_forward (snd (toAlias n am)))"
    "set (am_forward am) \<subseteq> set (am_forward (snd (toAlias n am)))"
    "fst ` set (am_forward (snd (toAlias n am))) \<subseteq> insert n (fst ` set (am_forward am))" by simp_all
qed

subsection \<open>Reversal of a text\<close>

lemma reverse_foldl:
  "reverseToolNamesInText text am =
     (if hasMappings am then foldl (\<lambda>out (a, n). replace_str a n out) text (am_reverse am) else text)"
proof -
  have "(if includes_str out a then replace_str a n out else out) = replace_str a n out" for out a n
    by (simp add: includes_str_def replace_str_absent)
  then show ?thesis by (simp add: reverseToolNamesInText_def)
qed

lemma foldl_replace_absent:
  "\<forall>(a, n) \<in> set ps. \<not> sublist a text \<Longrightarrow> foldl (\<lambda>out (a, n). replace_str a n out) text ps = text"
  by (induction ps) (auto simp: replace_str_absent)

text \<open>A registered alias is reversed to its name, provided the names contain no alias.\<close>

definition alias_free :: "string \<Rightarrow> bool" where
  "alias_free t = (\<not> sublist ALIAS_PREFIX t)"

lemma alias_free_no_alias: "alias_free t \<Longrightarrow> \<not> sublist (alias_of i) t"
  unfolding alias_free_def alias_of_def
  by (metis sublist_append_leftI sublist_appendI append.left_neutral sublist_order.order_trans)

lemma reverse_alias_free: "am_ok am \<Longrightarrow> alias_free t \<Longrightarrow> reverseToolNamesInText t am = t"
  unfolding reverse_foldl
  by (auto intro!: foldl_replace_absent dest!: am_ok_aliases simp: alias_free_no_alias am_ok_def)
     (metis alias_free_no_alias am_ok_aliases am_ok_def)

lemma reverse_alias:
  assumes ok: "am_ok am" and free: "\<forall>n \<in> fst ` set (am_forward am). alias_free n"
    and mem: "(n, a) \<in> set (am_forward am)"
  shows "reverseToolNamesInText a am = n"
proof -
  from mem obtain xs ys where f: "am_forward am = xs @ (n, a) # ys" by (meson split_list)
  have al: "map snd (am_forward am) = map alias_of [0..<length (am_forward am)]"
    using ok by (simp add: am_ok_def)
  have alj: "snd (am_forward am ! j) = alias_of j" if "j < length (am_forward am)" for j
    using arg_cong [OF al, of "\<lambda>l. l ! j"] that by simp
  have a: "a = alias_of (length xs)" using alj [of "length xs"] f by simp
  have xs: "\<forall>(b, m) \<in> set (map prod.swap xs). \<not> sublist b a"
  proof (clarsimp)
    fix m b assume "(m, b) \<in> set xs" "sublist b a"
    then obtain j where j: "j < length xs" "xs ! j = (m, b)" by (auto simp: in_set_conv_nth)
    then have "b = alias_of j" using alj [of j] f by (simp add: nth_append)
    with \<open>sublist b a\<close> a j(1) show False by (auto dest: alias_sublist)
  qed
  have nf: "alias_free n" using free f by force
  have ys: "\<forall>(b, m) \<in> set (map prod.swap ys). \<not> sublist b n"
  proof (clarsimp)
    fix m b assume "(m, b) \<in> set ys" "sublist b n"
    with f am_ok_aliases [OF ok, of m b] obtain i where "b = alias_of i" by auto
    with \<open>sublist b n\<close> alias_free_no_alias [OF nf] show False by simp
  qed
  have ne: "a \<noteq> []" by (simp add: a alias_of_def ALIAS_PREFIX_def)
  have hm: "hasMappings am = True" using f by (simp add: hasMappings_def)
  have rev: "am_reverse am = map prod.swap xs @ (a, n) # map prod.swap ys"
    using ok f by (simp add: am_ok_def)
  show ?thesis
    by (simp only: reverse_foldl hm if_True rev foldl_append foldl.simps prod.case
        foldl_replace_absent [OF xs] replace_self [OF ne] foldl_replace_absent [OF ys])
qed

subsection \<open>Outbound rewriting\<close>

lemma rewrite_target_Some:
  "rewrite_target tr t = Some (kvs, n) \<longleftrightarrow> t = JObj kvs \<and> tool_name t = Some n \<and> n \<in> set tr"
  by (auto simp: rewrite_target_def split: json.splits option.splits if_splits)

lemma rewrite_target_None:
  "rewrite_target tr t = None \<Longrightarrow> tool_name t = Some n \<Longrightarrow> n \<notin> set tr"
  by (cases t) (auto simp: rewrite_target_def tool_name_def split: option.splits if_splits)

definition renamed :: "string list \<Rightarrow> alias_map \<Rightarrow> json \<Rightarrow> json \<Rightarrow> bool" where
  "renamed tr am t t' =
     (case rewrite_target tr t of
        Some (kvs, n) \<Rightarrow> \<exists>a. t' = JObj (put ''name'' (JStr a) kvs) \<and> (n, a) \<in> set (am_forward am)
      | None \<Rightarrow> t' = t)"

lemma renamed_mono: "renamed tr am t t' \<Longrightarrow> set (am_forward am) \<subseteq> set (am_forward am') \<Longrightarrow> renamed tr am' t t'"
  by (auto simp: renamed_def split: option.splits)

lemma rewrite_tools_props:
  assumes "rewrite_tools tr ts am = (ts', w, am')" and "am_ok am" and "[] \<notin> set tr"
  shows "am_ok am' \<and> set (am_forward am) \<subseteq> set (am_forward am') \<and>
     fst ` set (am_forward am') \<subseteq> fst ` set (am_forward am) \<union> set tr \<and>
     (\<not> w \<longrightarrow> ts' = ts \<and> am' = am) \<and> list_all2 (renamed tr am') ts ts'"
  using assms
proof (induction ts arbitrary: am ts' w am')
  case Nil
  then show ?case by simp
next
  case (Cons t ts)
  show ?case
  proof (cases "rewrite_target tr t")
    case None
    obtain ts1 w1 am2 where r: "rewrite_tools tr ts am = (ts1, w1, am2)" by (metis prod_cases3)
    from Cons.IH [OF r Cons.prems(2,3)] Cons.prems(1) None r show ?thesis
      by (auto simp: renamed_def)
  next
    case (Some p)
    obtain kvs n where p: "p = (kvs, n)" by fastforce
    obtain a am1 where a: "toAlias n am = (a, am1)" by fastforce
    obtain ts1 w1 am2 where r: "rewrite_tools tr ts am1 = (ts1, w1, am2)" by (metis prod_cases3)
    have t: "n \<in> set tr" using Some p by (simp add: rewrite_target_Some)
    with Cons.prems(3) have n: "n \<noteq> []" by auto
    note ta = toAlias_ok [OF Cons.prems(2), of n, unfolded a fst_conv snd_conv]
    note IH = Cons.IH [OF r ta(1) Cons.prems(3)]
    have eq: "ts' = JObj (put ''name'' (JStr a) kvs) # ts1" "w" "am' = am2"
      using Cons.prems(1) Some p a r by simp_all
    have "renamed tr am2 t (JObj (put ''name'' (JStr a) kvs))"
      using Some p IH ta(2) [OF n] by (auto simp: renamed_def)
    moreover have "fst ` set (am_forward am2) \<subseteq> fst ` set (am_forward am) \<union> set tr"
      using IH ta(4) t by blast
    ultimately show ?thesis using IH ta(3) eq by auto
  qed
qed

subsection \<open>The stream\<close>

lemma alias_no_newline: "CHR 0x0A \<notin> set (alias_of i)"
  by (auto simp: alias_of_def ALIAS_PREFIX_def ALIAS_SUFFIX_def is_digit_def dest!: nat_str_digits)

lemma alias_nonempty: "alias_of i \<noteq> []"
  by (simp add: alias_of_def ALIAS_PREFIX_def)

lemma foldl_replace_newline:
  "\<forall>(a, n) \<in> set ps. a \<noteq> [] \<and> CHR 0x0A \<notin> set a \<Longrightarrow>
     foldl (\<lambda>out (a, n). replace_str a n out) (x @ CHR 0x0A # y) ps =
     foldl (\<lambda>out (a, n). replace_str a n out) x ps @ CHR 0x0A #
     foldl (\<lambda>out (a, n). replace_str a n out) y ps"
proof (induction ps arbitrary: x y)
  case (Cons p ps)
  obtain a n where p: "p = (a, n)" by fastforce
  with Cons.prems have "replace_str a n (x @ CHR 0x0A # y) = replace_str a n x @ CHR 0x0A # replace_str a n y"
    by (auto intro: replace_newline)
  with Cons p show ?case by simp
qed simp

lemma foldl_replace_Nil: "foldl (\<lambda>out (a, n). replace_str a n out) [] ps = []"
  by (induction ps) auto

lemma reverse_newline:
  assumes "am_ok am"
  shows "reverseToolNamesInText (x @ CHR 0x0A # y) am =
           reverseToolNamesInText x am @ CHR 0x0A # reverseToolNamesInText y am"
proof -
  have "\<forall>(a, n) \<in> set (am_reverse am). a \<noteq> [] \<and> CHR 0x0A \<notin> set a"
  proof (clarify)
    fix a n assume "(a, n) \<in> set (am_reverse am)"
    then have "(n, a) \<in> set (am_forward am)" using assms by (auto simp: am_ok_def)
    with am_ok_aliases [OF assms] obtain i where "a = alias_of i" by blast
    then show "a \<noteq> [] \<and> CHR 0x0A \<notin> set a" by (simp add: alias_no_newline alias_nonempty)
  qed
  then show ?thesis by (simp add: reverse_foldl foldl_replace_newline)
qed

lemma reverse_Nil [simp]: "reverseToolNamesInText [] am = []"
  by (simp add: reverse_foldl foldl_replace_Nil)

lemma reverse_after_line:
  assumes "am_ok am" "d = [] \<or> last d = CHR 0x0A"
  shows "reverseToolNamesInText (d @ w) am = reverseToolNamesInText d am @ reverseToolNamesInText w am"
proof (cases "d = []")
  case False
  with assms(2) have d: "d = butlast d @ [CHR 0x0A]" by (metis append_butlast_last_id)
  show ?thesis
    using reverse_newline [OF assms(1), of "butlast d" w] reverse_newline [OF assms(1), of "butlast d" "[]"]
    by (subst (1 2) d) simp
qed simp

lemma take_line_Some: "take_line b = Some (l, r) \<Longrightarrow> b = l @ r \<and> l \<noteq> [] \<and> last l = CHR 0x0A"
  by (induction b arbitrary: l) (auto split: if_splits option.splits)

text \<open>What the stream has emitted is the reversal of the complete lines it was given.\<close>

definition rs_inv :: "alias_map \<Rightarrow> string \<Rightarrow> rev_stream \<Rightarrow> bool" where
  "rs_inv am input s \<longleftrightarrow> rs_open s \<and> rs_accepts s = None \<and>
     (\<exists>d. input = d @ rs_buffer s \<and> (d = [] \<or> last d = CHR 0x0A) \<and>
          concat (rs_out s) = reverseToolNamesInText d am)"

lemma drain_inv: "am_ok am \<Longrightarrow> rs_inv am input s \<Longrightarrow> rs_inv am input (drain_lines am s)"
proof (induction am s rule: drain_lines.induct)
  case (1 am s)
  show ?case
  proof (cases "take_line (rs_buffer s)")
    case None
    with 1 show ?thesis by (simp add: drain_lines.simps)
  next
    case (Some p)
    obtain l r where p: "p = (l, r)" by fastforce
    let ?s = "safeEnqueue (reverseToolNamesInText l am) (s\<lparr>rs_buffer := r\<rparr>)"
    have b: "rs_buffer s = l @ r" "l \<noteq> []" "last l = CHR 0x0A"
      using take_line_Some Some p by auto
    from "1.prems"(2) obtain d where d: "rs_open s" "rs_accepts s = None" "input = d @ rs_buffer s"
        "d = [] \<or> last d = CHR 0x0A" "concat (rs_out s) = reverseToolNamesInText d am"
      by (auto simp: rs_inv_def)
    have "rs_inv am input ?s"
      unfolding rs_inv_def
      using d b reverse_after_line [OF "1.prems"(1) d(4), of l]
      by (auto simp: safeEnqueue_def intro!: exI [of _ "d @ l"])
    then have "rs_inv am input (drain_lines am ?s)"
      by (rule "1.IH" [OF Some p [symmetric] "1.prems"(1)])
    with Some p show ?thesis by (simp add: drain_lines.simps [of am s])
  qed
qed

lemma transform_inv: "am_ok am \<Longrightarrow> rs_inv am input s \<Longrightarrow> rs_inv am (input @ piece) (rs_transform am piece s)"
  unfolding rs_transform_def by (rule drain_inv) (auto simp: rs_inv_def)

lemma transforms_inv:
  "am_ok am \<Longrightarrow> rs_inv am input s \<Longrightarrow> rs_inv am (input @ concat ps) (fold (rs_transform am) ps s)"
proof (induction ps arbitrary: input s)
  case (Cons p ps)
  from Cons.IH [OF Cons.prems(1) transform_inv [OF Cons.prems, of p]] show ?case by simp
qed simp

lemma flush_out:
  assumes "am_ok am" "rs_inv am input s"
  shows "concat (rs_out (rs_flush am final s)) = reverseToolNamesInText (input @ final) am"
proof -
  from assms(2) obtain d where d: "rs_open s" "rs_accepts s = None" "input = d @ rs_buffer s"
      "d = [] \<or> last d = CHR 0x0A" "concat (rs_out s) = reverseToolNamesInText d am"
    by (auto simp: rs_inv_def)
  with reverse_after_line [OF assms(1) d(4), of "rs_buffer s @ final"] show ?thesis
    by (auto simp: rs_flush_def safeEnqueue_def Let_def)
qed

text \<open>A client that stops reading after \<open>n\<close> lines has received the first \<open>n\<close>.\<close>

definition rs_sim :: "nat \<Rightarrow> rev_stream \<Rightarrow> rev_stream \<Rightarrow> bool" where
  "rs_sim n s t \<longleftrightarrow> rs_open s \<and> rs_accepts s = None \<and> rs_buffer t = rs_buffer s \<and>
     rs_out t = take n (rs_out s) \<and>
     (if rs_open t then length (rs_out s) \<le> n \<and> rs_accepts t = Some (n - length (rs_out s))
      else n \<le> length (rs_out s))"

lemma enqueue_sim: "rs_sim n s t \<Longrightarrow> rs_sim n (safeEnqueue x (s\<lparr>rs_buffer := b\<rparr>)) (safeEnqueue x (t\<lparr>rs_buffer := b\<rparr>))"
  by (auto simp: rs_sim_def safeEnqueue_def split: nat.splits if_splits)

lemma drain_sim: "rs_sim n s t \<Longrightarrow> rs_sim n (drain_lines am s) (drain_lines am t)"
proof (induction am s arbitrary: t rule: drain_lines.induct)
  case (1 am s)
  have b: "rs_buffer t = rs_buffer s" using "1.prems" by (simp add: rs_sim_def)
  show ?case
  proof (cases "take_line (rs_buffer s)")
    case None
    with 1 b show ?thesis by (simp add: drain_lines.simps)
  next
    case (Some p)
    obtain l r where p: "p = (l, r)" by fastforce
    from "1.IH" [OF Some p [symmetric] enqueue_sim [OF "1.prems"]] Some p b show ?thesis
      by (simp add: drain_lines.simps [of am s] drain_lines.simps [of am t])
  qed
qed

lemma transforms_sim:
  "rs_sim n s t \<Longrightarrow> rs_sim n (fold (rs_transform am) ps s) (fold (rs_transform am) ps t)"
proof (induction ps arbitrary: s t)
  case (Cons p ps)
  have "rs_sim n (rs_transform am p s) (rs_transform am p t)"
    unfolding rs_transform_def using Cons.prems
    by (intro drain_sim) (simp add: rs_sim_def)
  from Cons.IH [OF this] show ?case by simp
qed simp

lemma flush_sim: "rs_sim n s t \<Longrightarrow> rs_out (rs_flush am final t) = take n (rs_out (rs_flush am final s))"
proof -
  assume sim: "rs_sim n s t"
  then have b: "rs_buffer t = rs_buffer s" by (simp add: rs_sim_def)
  from enqueue_sim [OF sim] sim show ?thesis
    by (auto simp: rs_flush_def Let_def b rs_sim_def)
qed

lemma no_empty_trigger: "[] \<notin> set TOOL_NAME_TRIGGERS"
  by (simp add: TOOL_NAME_TRIGGERS_def)

lemma triggers_alias_free: "\<forall>n \<in> set TOOL_NAME_TRIGGERS. alias_free n"
proof -
  have "list_all alias_free TOOL_NAME_TRIGGERS" by code_simp
  then show ?thesis by (simp add: list_all_iff)
qed

lemma alias_not_trigger: "alias_of i \<notin> set TOOL_NAME_TRIGGERS"
  by (simp add: alias_of_def ALIAS_PREFIX_def TOOL_NAME_TRIGGERS_def)

lemma rewrite_tools_get:
  assumes "rewriteToolNamesForUpstream body TOOL_NAME_TRIGGERS createAliasMap = (body', am)"
    and "get body ''tools'' = Some (JArr ts)"
  obtains ts' w where "rewrite_tools TOOL_NAME_TRIGGERS ts createAliasMap = (ts', w, am)"
    "get body' ''tools'' = Some (JArr ts')"
proof -
  obtain ts' w am' where r: "rewrite_tools TOOL_NAME_TRIGGERS ts createAliasMap = (ts', w, am')"
    by (metis prod_cases3)
  with assms rewrite_tools_props [OF r am_ok_create no_empty_trigger] show thesis
    by (intro that [of ts' w]) (auto simp: rewriteToolNamesForUpstream_def split: if_splits)
qed

subsection \<open>Properties\<close>

text \<open>C14: streaming reversal is whole-text reversal. However the upstream's bytes are cut into
  chunks, what the client receives is the reversal of the whole response text; a client that closes
  its side after \<open>n\<close> writes has received the first \<open>n\<close> of the very same writes.\<close>

theorem stream_reversal_is_text_reversal:
  assumes "am_ok am"
  shows "concat (reverse_stream am None pieces final) =
           reverseToolNamesInText (concat pieces @ final) am \<and>
         reverse_stream am (Some n) pieces final = take n (reverse_stream am None pieces final)"
proof
  have "rs_inv am [] (rs_init None)" by (simp add: rs_inv_def rs_init_def)
  from flush_out [OF assms transforms_inv [OF assms this]]
  show "concat (reverse_stream am None pieces final) = reverseToolNamesInText (concat pieces @ final) am"
    by (simp add: reverse_stream_def)
  have "rs_sim n (rs_init None) (rs_init (Some n))" by (simp add: rs_sim_def rs_init_def)
  from flush_sim [OF transforms_sim [OF this]]
  show "reverse_stream am (Some n) pieces final = take n (reverse_stream am None pieces final)"
    by (simp add: reverse_stream_def)
qed

definition demo_tools :: obj where
  "demo_tools = [(''tool_choice'', JObj [(''type'', JStr ''tool''), (''name'', JStr ''session_search'')]),
                 (''tools'', JArr [JObj [(''name'', JStr ''Bash'')], JObj [(''name'', JStr ''session_search'')]])]"

definition demo_map :: alias_map where
  "demo_map = snd (rewriteToolNamesForUpstream demo_tools TOOL_NAME_TRIGGERS createAliasMap)"

lemma demo_map_ok: "am_ok demo_map"
proof -
  have m: "demo_map = \<lparr>am_forward = [(''session_search'', alias_of 0)], am_reverse = [(alias_of 0, ''session_search'')]\<rparr>"
    by code_simp
  show ?thesis by (simp add: m am_ok_def)
qed

theorem stream_reversal_is_text_reversal_witness:
  "concat (reverse_stream demo_map None [''{\"name\":\"__cfy_al'', ''ias_0__\"}''] []) = ''{\"name\":\"session_search\"}''"
proof -
  have "reverseToolNamesInText ''{\"name\":\"__cfy_alias_0__\"}'' demo_map = ''{\"name\":\"session_search\"}''"
    by code_simp
  with stream_reversal_is_text_reversal [OF demo_map_ok, of "[''{\"name\":\"__cfy_al'', ''ias_0__\"}'']" "[]" 0]
  show ?thesis by simp
qed


lemma demo_tools_rewritten:
  "rewriteToolNamesForUpstream demo_tools TOOL_NAME_TRIGGERS createAliasMap =
     (put ''tools'' (JArr [JObj [(''name'', JStr ''Bash'')], JObj [(''name'', JStr (alias_of 0))]]) demo_tools,
      demo_map)"
  by code_simp


text \<open>Only \<open>tools\<close> is rewritten. A \<open>tool_choice\<close> that forces a renamed tool is forwarded with the
  original name, which no forwarded tool has any more.\<close>

theorem forced_tool_choice_dangles:
  assumes "rewriteToolNamesForUpstream body TOOL_NAME_TRIGGERS createAliasMap = (body', am)"
    and "get body ''tools'' = Some (JArr ts)" and "n \<in> set TOOL_NAME_TRIGGERS"
    and "jprop (get body ''tool_choice'') ''name'' = Some (JStr n)"
  shows "jprop (get body' ''tool_choice'') ''name'' = Some (JStr n) \<and>
         (\<exists>ts'. get body' ''tools'' = Some (JArr ts') \<and> (\<forall>t' \<in> set ts'. tool_name t' \<noteq> Some n))"
proof
  obtain ts' w where r: "rewrite_tools TOOL_NAME_TRIGGERS ts createAliasMap = (ts', w, am)"
      and b: "get body' ''tools'' = Some (JArr ts')"
    by (rule rewrite_tools_get [OF assms(1,2)])
  note props = rewrite_tools_props [OF r am_ok_create no_empty_trigger]
  show "jprop (get body' ''tool_choice'') ''name'' = Some (JStr n)"
    using assms(1,2,4) by (auto simp: rewriteToolNamesForUpstream_def split_beta split: if_splits)
  have "tool_name t' \<noteq> Some n" if t': "t' \<in> set ts'" for t'
  proof -
    from t' obtain i where i: "i < length ts'" "t' = ts' ! i" by (auto simp: in_set_conv_nth)
    have "list_all2 (renamed TOOL_NAME_TRIGGERS am) ts ts'" using props by simp
    from list_all2_nthD2 [OF this i(1)] i(2) have ren: "renamed TOOL_NAME_TRIGGERS am (ts ! i) t'" by simp
    show ?thesis
    proof (cases "rewrite_target TOOL_NAME_TRIGGERS (ts ! i)")
      case None
      with ren assms(3) rewrite_target_None [OF None] show ?thesis by (auto simp: renamed_def)
    next
      case (Some p)
      with ren obtain kvs m a where "t' = JObj (put ''name'' (JStr a) kvs)" "(m, a) \<in> set (am_forward am)"
        by (cases p) (auto simp: renamed_def)
      moreover have "am_ok am" using props by simp
      ultimately show ?thesis
        using am_ok_aliases [of am m a] alias_not_trigger assms(3) by (auto simp: tool_name_def)
    qed
  qed
  with b show "\<exists>ts'. get body' ''tools'' = Some (JArr ts') \<and> (\<forall>t' \<in> set ts'. tool_name t' \<noteq> Some n)"
    by blast
qed

theorem forced_tool_choice_dangles_witness:
  "\<exists>body'. fst (rewriteToolNamesForUpstream demo_tools TOOL_NAME_TRIGGERS createAliasMap) = body' \<and>
     jprop (get body' ''tool_choice'') ''name'' = Some (JStr ''session_search'') \<and>
     (\<exists>ts'. get body' ''tools'' = Some (JArr ts') \<and> (\<forall>t' \<in> set ts'. tool_name t' \<noteq> Some ''session_search''))"
proof -
  have g: "get demo_tools ''tools'' =
      Some (JArr [JObj [(''name'', JStr ''Bash'')], JObj [(''name'', JStr ''session_search'')]])"
    "jprop (get demo_tools ''tool_choice'') ''name'' = Some (JStr ''session_search'')"
    by (simp_all add: demo_tools_def)
  have "''session_search'' \<in> set TOOL_NAME_TRIGGERS" by (simp add: TOOL_NAME_TRIGGERS_def)
  from forced_tool_choice_dangles [OF demo_tools_rewritten g(1) this g(2)] demo_tools_rewritten
  show ?thesis by simp
qed

end
