(* ===== verification/SystemPrompt.thy ===== *)
theory SystemPrompt
  imports Errors
begin

text \<open>
  The \<open>system\<close> part of \<open>src/src/proxy/messages.ts\<close> and \<open>src/src/proxy/classifier-triggers.ts\<close>: the
  identity block every forwarded request carries, the cache-breakpoint budget, the validation of a
  caller's blocks, and the rewriting of classifier triggers in their text. A request body is a JSON
  object; \<open>{...b, system: v}\<close> is \<open>put\<close>.
\<close>

subsection \<open>The identity block\<close>

definition CC_SYSTEM_PREFIX :: string where
  "CC_SYSTEM_PREFIX = ''You are Claude Code, Anthropic's official CLI for Claude.''"

definition CC_BLOCK :: json where
  "CC_BLOCK = JObj [(''type'', JStr ''text''), (''text'', JStr CC_SYSTEM_PREFIX),
                    (''cache_control'', JObj [(''type'', JStr ''ephemeral'')])]"

definition CC_BLOCK_NO_CACHE :: json where
  "CC_BLOCK_NO_CACHE = JObj [(''type'', JStr ''text''), (''text'', JStr CC_SYSTEM_PREFIX)]"

definition MAX_CACHE_CONTROL_BLOCKS :: nat where
  "MAX_CACHE_CONTROL_BLOCKS = 4"

definition hasCacheControl :: "json \<Rightarrow> bool" where
  "hasCacheControl v = (jprop (Some v) ''cache_control'' \<noteq> None)"

definition countCacheControlInArray :: "json option \<Rightarrow> nat" where
  "countCacheControlInArray arr =
     (case arr of Some (JArr xs) \<Rightarrow> length (filter hasCacheControl xs) | _ \<Rightarrow> 0)"

definition countCacheControlBlocks :: "obj \<Rightarrow> nat" where
  "countCacheControlBlocks body =
     countCacheControlInArray (get body ''system'') + countCacheControlInArray (get body ''tools'') +
     (case get body ''messages'' of
        Some (JArr ms) \<Rightarrow> sum_list (map (\<lambda>m. countCacheControlInArray (jprop (Some m) ''content'')) ms)
      | _ \<Rightarrow> 0)"

definition pickPrependBlock :: "obj \<Rightarrow> json" where
  "pickPrependBlock body =
     (if countCacheControlBlocks body + 1 > MAX_CACHE_CONTROL_BLOCKS then CC_BLOCK_NO_CACHE else CC_BLOCK)"

definition isCanonicalCcMarker :: "json \<Rightarrow> bool" where
  "isCanonicalCcMarker block =
     (jprop (Some block) ''type'' = Some (JStr ''text'') \<and>
      jprop (Some block) ''text'' = Some (JStr CC_SYSTEM_PREFIX) \<and>
      jprop (jprop (Some block) ''cache_control'') ''type'' = Some (JStr ''ephemeral''))"

definition isValidSystemBlock :: "json \<Rightarrow> bool" where
  "isValidSystemBlock block =
     (jprop (Some block) ''type'' = Some (JStr ''text'') \<and>
      js_typeof (jprop (Some block) ''text'') = ''string'')"

subsection \<open>ensureSystem\<close>

definition INVALID_BLOCK_TAG_CAP :: nat where
  "INVALID_BLOCK_TAG_CAP = 64"

definition ascii_control :: "char \<Rightarrow> bool" where
  "ascii_control c = (let n = (of_char c :: nat) in n \<le> 31 \<or> n = 127)"

definition sanitizeTag :: "string \<Rightarrow> string" where
  "sanitizeTag s = take INVALID_BLOCK_TAG_CAP (map (\<lambda>c. if ascii_control c then CHR ''?'' else c) s)"

definition describeInvalidBlock :: "json \<Rightarrow> string" where
  "describeInvalidBlock block =
     (if block = JNull then ''null''
      else if \<not> is_object block then js_typeof (Some block)
      else case jprop (Some block) ''type'' of
             Some (JStr t) \<Rightarrow>
               if t \<noteq> ''text'' then ''type=\"'' @ sanitizeTag t @ ''\"''
               else ''text='' @ js_typeof (jprop (Some block) ''text'')
           | _ \<Rightarrow> ''object without string `type`'')"

text \<open>The validation loop: index and value of the first invalid block.\<close>

fun first_invalid :: "nat \<Rightarrow> json list \<Rightarrow> (nat \<times> json) option" where
  "first_invalid i [] = None"
| "first_invalid i (x # xs) = (if \<not> isValidSystemBlock x then Some (i, x) else first_invalid (Suc i) xs)"

definition invalid_block_message :: "nat \<Rightarrow> json \<Rightarrow> string" where
  "invalid_block_message i x =
     ''[claude-for-you] system['' @ nat_str i @
     '']: expected text block {type:\"text\", text:string}, got '' @ describeInvalidBlock x"

definition ensureSystem :: "obj \<Rightarrow> obj result" where
  "ensureSystem b =
     (case get b ''system'' of
        Some (JStr (c # cs)) \<Rightarrow>
          Inr (put ''system'' (JArr [pickPrependBlock b,
                 JObj [(''type'', JStr ''text''), (''text'', JStr (c # cs))]]) b)
      | Some (JArr (x # xs)) \<Rightarrow>
          (case first_invalid 0 (x # xs) of
             Some (i, y) \<Rightarrow> Inl (InvalidRequest (invalid_block_message i y) ''invalid_system_block'')
           | None \<Rightarrow>
               if list_ex isCanonicalCcMarker (x # xs) then Inr (put ''system'' (JArr (x # xs)) b)
               else Inr (put ''system'' (JArr (pickPrependBlock b # x # xs)) b))
      | _ \<Rightarrow> Inr (put ''system'' (JArr [pickPrependBlock b]) b))"

subsection \<open>Classifier triggers\<close>

definition CLASSIFIER_TRIGGERS :: "(string \<times> string) list" where
  "CLASSIFIER_TRIGGERS =
     [(''skill_manage(action='' @ [CHR 0x27] @ ''patch'' @ [CHR 0x27] @ '')'',
       ''skill_manage with action '' @ [CHR 0x27] @ ''patch'' @ [CHR 0x27]),
      (''skill_view(name)'', ''skill_view with name argument''),
      (''## Skills (mandatory)'', ''## Skills'')]"

definition applyClassifierTriggers :: "string \<Rightarrow> string" where
  "applyClassifierTriggers text = foldl (\<lambda>out (p, r). replace_str p r out) text CLASSIFIER_TRIGGERS"

definition sanitize_block :: "json \<Rightarrow> json" where
  "sanitize_block block =
     (case block of
        JObj kvs \<Rightarrow>
          (case get kvs ''text'' of
             Some (JStr t) \<Rightarrow>
               let next = applyClassifierTriggers t
               in if next = t then block else JObj (put ''text'' (JStr next) kvs)
           | _ \<Rightarrow> block)
      | _ \<Rightarrow> block)"

definition sanitizeSystemForUpstream :: "obj \<Rightarrow> obj" where
  "sanitizeSystemForUpstream b =
     (case get b ''system'' of
        Some (JArr sys) \<Rightarrow> put ''system'' (JArr (map sanitize_block sys)) b
      | _ \<Rightarrow> b)"

subsection \<open>Lemmas\<close>

definition is_identity :: "json \<Rightarrow> bool" where
  "is_identity x = (jprop (Some x) ''type'' = Some (JStr ''text'') \<and>
                    jprop (Some x) ''text'' = Some (JStr CC_SYSTEM_PREFIX))"

lemma identity_blocks [simp]:
  "is_identity CC_BLOCK" "is_identity CC_BLOCK_NO_CACHE" "is_identity (pickPrependBlock b)"
  by (simp_all add: is_identity_def CC_BLOCK_def CC_BLOCK_NO_CACHE_def pickPrependBlock_def)

lemma canonical_is_identity: "isCanonicalCcMarker x \<Longrightarrow> is_identity x"
  by (simp add: isCanonicalCcMarker_def is_identity_def)

lemma cache_of_prepend:
  "hasCacheControl (pickPrependBlock b) \<longleftrightarrow> countCacheControlBlocks b < 4"
  by (auto simp: hasCacheControl_def pickPrependBlock_def CC_BLOCK_def CC_BLOCK_NO_CACHE_def
      MAX_CACHE_CONTROL_BLOCKS_def)

text \<open>The caller's blocks, as the blocks a body's \<open>system\<close> stands for.\<close>

definition caller_blocks :: "obj \<Rightarrow> json list" where
  "caller_blocks b =
     (case get b ''system'' of
        Some (JStr (c # cs)) \<Rightarrow> [JObj [(''type'', JStr ''text''), (''text'', JStr (c # cs))]]
      | Some (JArr xs) \<Rightarrow> xs
      | _ \<Rightarrow> [])"

lemma ensureSystem_Inr:
  assumes "ensureSystem b = Inr b'"
  shows "\<exists>sys. b' = put ''system'' (JArr sys) b \<and>
     (sys = caller_blocks b \<and> list_ex isCanonicalCcMarker (caller_blocks b) \<or>
      sys = pickPrependBlock b # caller_blocks b \<and>
        (\<not> list_ex isCanonicalCcMarker (caller_blocks b) \<or> (\<exists>s. get b ''system'' = Some (JStr s))))"
  using assms
  by (auto simp: ensureSystem_def caller_blocks_def split: option.splits json.splits list.splits if_splits)

lemma caller_cache_count:
  "length (filter hasCacheControl (caller_blocks b)) = countCacheControlInArray (get b ''system'')"
  by (auto simp: caller_blocks_def countCacheControlInArray_def hasCacheControl_def
      split: option.splits json.splits list.splits)

lemma count_put_system:
  "countCacheControlBlocks (put ''system'' (JArr sys) b) + countCacheControlInArray (get b ''system'') =
     countCacheControlBlocks b + length (filter hasCacheControl sys)"
  by (simp add: countCacheControlBlocks_def countCacheControlInArray_def)

lemma first_invalid_None: "first_invalid i xs = None \<longleftrightarrow> list_all isValidSystemBlock xs"
  by (induction xs arbitrary: i) auto

lemma first_invalid_Some:
  "first_invalid i xs = Some (j, y) \<longleftrightarrow>
     i \<le> j \<and> j - i < length xs \<and> y = xs ! (j - i) \<and> \<not> isValidSystemBlock y \<and>
     list_all isValidSystemBlock (take (j - i) xs)"
proof (induction xs arbitrary: i)
  case Nil
  then show ?case by simp
next
  case (Cons x xs)
  show ?case
  proof (cases "isValidSystemBlock x")
    case True
    show ?thesis
    proof (cases "j - i")
      case 0
      with True Cons.IH [of "Suc i"] show ?thesis by auto
    next
      case (Suc n)
      then have "j - Suc i = n" "Suc i \<le> j" by auto
      with True Suc Cons.IH [of "Suc i"] show ?thesis by auto
    qed
  next
    case False
    then show ?thesis by (cases "j - i") auto
  qed
qed

lemma length_sanitizeTag: "length (sanitizeTag t) \<le> 64"
  by (simp add: sanitizeTag_def INVALID_BLOCK_TAG_CAP_def)

lemma sanitizeTag_printable: "c \<in> set (sanitizeTag t) \<Longrightarrow> \<not> ascii_control c"
  by (auto simp: sanitizeTag_def ascii_control_def Let_def dest!: in_set_takeD split: if_splits)

lemma prefix_untouched: "applyClassifierTriggers CC_SYSTEM_PREFIX = CC_SYSTEM_PREFIX"
  by code_simp

lemma sanitize_block_identity [simp]: "is_identity x \<Longrightarrow> is_identity (sanitize_block x)"
  by (cases x) (auto simp: is_identity_def sanitize_block_def prefix_untouched Let_def)

lemma sanitize_block_cache [simp]: "hasCacheControl (sanitize_block x) = hasCacheControl x"
  by (cases x) (auto simp: hasCacheControl_def sanitize_block_def Let_def split: option.splits json.splits)

lemma sanitize_put: "sanitizeSystemForUpstream (put ''system'' (JArr sys) b) =
    put ''system'' (JArr (map sanitize_block sys)) b"
  by (simp add: sanitizeSystemForUpstream_def put_put)

lemma filter_sanitize: "length (filter hasCacheControl (map sanitize_block xs)) = length (filter hasCacheControl xs)"
  by (induction xs) auto

lemma typeof_printable: "list_all (\<lambda>c. \<not> ascii_control c) (js_typeof v) \<and> length (js_typeof v) \<le> 9"
  by (simp add: js_typeof_def ascii_control_def split: option.splits json.splits)

lemma tag_printable: "list_all (\<lambda>c. \<not> ascii_control c) (sanitizeTag t)"
  by (simp add: list_all_iff sanitizeTag_printable)

lemma describe_printable:
  "list_all (\<lambda>c. \<not> ascii_control c) (describeInvalidBlock x) \<and> length (describeInvalidBlock x) \<le> 71"
proof -
  have lits: "list_all (\<lambda>c. \<not> ascii_control c) (''type=\"'' @ ''\"'' @ ''text='' @ ''null'' @
      ''object without string `type`'')"
    by (simp add: ascii_control_def)
  have tag: "length (sanitizeTag t) + 7 \<le> 71" for t
    using length_sanitizeTag [of t] by simp
  show ?thesis
  proof (cases "jprop (Some x) ''type''")
    case None
    with lits typeof_printable [of "Some x"] show ?thesis by (simp add: describeInvalidBlock_def)
  next
    case (Some ty)
    with lits tag tag_printable typeof_printable [of "Some x"] typeof_printable [of "jprop (Some x) ''text''"]
    show ?thesis by (cases ty) (simp_all add: describeInvalidBlock_def)
  qed
qed

subsection \<open>Properties\<close>


definition demo_body :: obj where
  "demo_body = [(''model'', JStr ''m''),
     (''system'', JArr [JObj [(''type'', JStr ''text''), (''text'', JStr ''be brief''),
                             (''cache_control'', JObj [(''type'', JStr ''ephemeral'')])]])]"


text \<open>A malformed \<open>system\<close> array. It is refused exactly when one of its blocks is not a text
  block, with a 400 of the proxy's own code that names the first such index; a canonical marker
  beside it does not help; and the part of the message that quotes the caller is at most 71
  characters without a control character.\<close>

theorem invalid_block_is_refused:
  "ensureSystem b = Inl e \<longleftrightarrow>
     (\<exists>xs i. get b ''system'' = Some (JArr xs) \<and> i < length xs \<and> \<not> isValidSystemBlock (xs ! i) \<and>
        list_all isValidSystemBlock (take i xs) \<and>
        e = InvalidRequest (''[claude-for-you] system['' @ nat_str i @
              '']: expected text block {type:\"text\", text:string}, got '' @ describeInvalidBlock (xs ! i))
              ''invalid_system_block'' \<and>
        length (describeInvalidBlock (xs ! i)) \<le> 71 \<and>
        list_all (\<lambda>c. \<not> ascii_control c) (describeInvalidBlock (xs ! i)))"
proof -
  have "ensureSystem b = Inl e \<longleftrightarrow>
     (\<exists>xs i y. get b ''system'' = Some (JArr xs) \<and> first_invalid 0 xs = Some (i, y) \<and>
        e = InvalidRequest (invalid_block_message i y) ''invalid_system_block'')"
    by (auto simp: ensureSystem_def split: option.splits json.splits list.splits if_splits)
  also have "\<dots> \<longleftrightarrow>
     (\<exists>xs i. get b ''system'' = Some (JArr xs) \<and> i < length xs \<and> \<not> isValidSystemBlock (xs ! i) \<and>
        list_all isValidSystemBlock (take i xs) \<and>
        e = InvalidRequest (invalid_block_message i (xs ! i)) ''invalid_system_block'')"
    by (simp only: first_invalid_Some diff_zero) blast
  finally show ?thesis
    by (simp only: invalid_block_message_def) (use describe_printable in blast)
qed

text \<open>The trigger rewriting is not idempotent, contrary to its comment: dropping the parenthesis
  of the section header can bring an earlier one beside the header, so a trigger survives the
  rewriting and a second pass changes the text again.\<close>

theorem trigger_rewriting_not_idempotent:
  "\<exists>t. includes_str (applyClassifierTriggers t) ''## Skills (mandatory)'' \<and>
       applyClassifierTriggers (applyClassifierTriggers t) \<noteq> applyClassifierTriggers t"
proof -
  let ?t = "''## Skills (mandatory) (mandatory)''"
  have 1: "applyClassifierTriggers ?t = ''## Skills (mandatory)''" by code_simp
  have 2: "applyClassifierTriggers ''## Skills (mandatory)'' = ''## Skills''" by code_simp
  show ?thesis
    by (rule exI [of _ ?t]) (simp only: 1 2, simp add: includes_str_def)
qed

text \<open>text that contains none of the triggers is forwarded as it is.\<close>

theorem trigger_free_text_unchanged:
  assumes "list_all (\<lambda>(p, r). \<not> includes_str t p) CLASSIFIER_TRIGGERS"
  shows "applyClassifierTriggers t = t"
  using assms by (auto simp: applyClassifierTriggers_def CLASSIFIER_TRIGGERS_def includes_str_def replace_str_absent)

theorem trigger_free_text_unchanged_witness: "applyClassifierTriggers ''# Skills'' = ''# Skills''"
  by (rule trigger_free_text_unchanged) code_simp

end
