(* ===== verification/ModelAllow.thy ===== *)
theory ModelAllow
  imports Errors
begin

text \<open>
  \<open>src/src/auth/model-allow.ts\<close>: the per-key model allowlist. A pattern is an exact model id or a
  prefix with a trailing star; \<open>assertValidModelPattern\<close> guards what may be stored.
\<close>

definition pattern_matches :: "string \<Rightarrow> string \<Rightarrow> bool" where
  "pattern_matches model p =
     (if ends_with p ''*'' then starts_with model (butlast p) else model = p)"

definition isModelAllowed :: "string \<Rightarrow> string list option \<Rightarrow> bool" where
  "isModelAllowed model patterns =
     (case patterns of None \<Rightarrow> True | Some ps \<Rightarrow> ps = [] \<or> list_ex (pattern_matches model) ps)"

definition MAX_MODEL_PATTERN_LENGTH :: nat where
  "MAX_MODEL_PATTERN_LENGTH = 128"

text \<open>The argument is what the caller passed at run time, which need not be a string; the result is
  the message of the \<open>Error\<close> it throws, if it throws.\<close>

definition assertValidModelPattern :: "json option \<Rightarrow> string option" where
  "assertValidModelPattern p =
     (if p = Some JNull then Some ''model pattern must be a string (got null)''
      else case as_str p of
        None \<Rightarrow> Some (''model pattern must be a string (got '' @ js_typeof p @ '')'')
      | Some s \<Rightarrow>
          if s = [] then Some ''model pattern must be non-empty''
          else if length s > MAX_MODEL_PATTERN_LENGTH
          then Some (''model pattern too long ('' @ nat_str (length s) @ '' > ''
                 @ nat_str MAX_MODEL_PATTERN_LENGTH @ '' chars)'')
          else let starCount = length (filter (\<lambda>c. c = CHR ''*'') s) in
            if starCount > 1
            then Some (''model pattern \"'' @ s @ ''\" has more than one wildcard'')
            else if starCount = 1 \<and> \<not> ends_with s ''*''
            then Some (''model pattern \"'' @ s @ ''\" wildcard only allowed as trailing suffix'')
            else None)"

definition valid_pattern :: "string \<Rightarrow> bool" where
  "valid_pattern s = (assertValidModelPattern (Some (JStr s)) = None)"

lemma valid_pattern_iff:
  "valid_pattern s \<longleftrightarrow>
     s \<noteq> [] \<and> length s \<le> 128 \<and> (CHR ''*'' \<notin> set s \<or> (\<exists>t. s = t @ ''*'' \<and> CHR ''*'' \<notin> set t))"
proof -
  let ?n = "length (filter (\<lambda>c. c = CHR ''*'') s)"
  have z: "?n = 0 \<longleftrightarrow> CHR ''*'' \<notin> set s"
    by (auto simp: filter_empty_conv)
  have o: "?n = 1 \<and> ends_with s ''*'' \<longleftrightarrow> (\<exists>t. s = t @ ''*'' \<and> CHR ''*'' \<notin> set t)"
    by (auto simp: ends_with_def suffix_def filter_empty_conv)
  have "valid_pattern s \<longleftrightarrow> s \<noteq> [] \<and> length s \<le> 128 \<and> \<not> ?n > 1 \<and> \<not> (?n = 1 \<and> \<not> ends_with s ''*'')"
    by (auto simp: valid_pattern_def assertValidModelPattern_def as_str_def Let_def
        MAX_MODEL_PATTERN_LENGTH_def)
  also have "\<dots> \<longleftrightarrow> s \<noteq> [] \<and> length s \<le> 128 \<and> (?n = 0 \<or> ?n = 1 \<and> ends_with s ''*'')"
    by linarith
  finally show ?thesis unfolding z o .
qed

lemma isModelAllowed_unrestricted [simp]:
  "isModelAllowed m None" "isModelAllowed m (Some [])"
  by (simp_all add: isModelAllowed_def)

lemma ends_with_star: "ends_with p ''*'' \<longleftrightarrow> (\<exists>t. p = t @ ''*'')"
  by (auto simp: ends_with_def suffix_def)

lemma pattern_matches_stem [simp]: "pattern_matches model (t @ ''*'') \<longleftrightarrow> starts_with model t"
  by (simp add: pattern_matches_def ends_with_star)

lemma pattern_matches_exact: "CHR ''*'' \<notin> set p \<Longrightarrow> pattern_matches model p \<longleftrightarrow> model = p"
  by (auto simp: pattern_matches_def ends_with_star)

lemma valid_pattern_cases:
  assumes "valid_pattern p"
  obtains (exact) "CHR ''*'' \<notin> set p" | (stem) t where "p = t @ ''*''" "CHR ''*'' \<notin> set t"
  using assms by (auto simp: valid_pattern_iff)

lemma valid_pattern_matchable: "valid_pattern p \<Longrightarrow> \<exists>m. pattern_matches m p"
  by (erule valid_pattern_cases) (auto simp: pattern_matches_exact starts_with_iff)

lemma valid_pattern_matches_iff:
  assumes "valid_pattern p"
  shows "pattern_matches model p \<longleftrightarrow>
           CHR ''*'' \<notin> set p \<and> model = p \<or> (\<exists>t rest. p = t @ ''*'' \<and> model = t @ rest)"
  using assms
  by (cases rule: valid_pattern_cases) (auto simp: pattern_matches_exact starts_with_iff)

text \<open>What the allowlist admits. A restricted key whose patterns passed the validator reaches
  exactly the models that equal a star-free pattern or extend the stem of a starred one, and none
  of its rules is unmatchable, so storing it cannot lock its user out.\<close>

theorem model_allowlist_meaning:
  assumes ps: "ps \<noteq> []" and valid: "\<forall>p \<in> set ps. valid_pattern p"
  shows "(isModelAllowed model (Some ps) \<longleftrightarrow>
            (\<exists>p \<in> set ps. CHR ''*'' \<notin> set p \<and> model = p) \<or>
            (\<exists>t rest. t @ ''*'' \<in> set ps \<and> model = t @ rest)) \<and>
         (\<forall>p \<in> set ps. \<exists>m. isModelAllowed m (Some [p]))"
proof
  have "isModelAllowed model (Some ps) \<longleftrightarrow> (\<exists>p \<in> set ps. pattern_matches model p)"
    using ps by (simp add: isModelAllowed_def list_ex_iff)
  also have "\<dots> \<longleftrightarrow> (\<exists>p \<in> set ps. CHR ''*'' \<notin> set p \<and> model = p) \<or>
            (\<exists>t rest. t @ ''*'' \<in> set ps \<and> model = t @ rest)"
    using valid valid_pattern_matches_iff [of _ model] by blast
  finally show "isModelAllowed model (Some ps) \<longleftrightarrow> \<dots>" .
  show "\<forall>p \<in> set ps. \<exists>m. isModelAllowed m (Some [p])"
    using valid valid_pattern_matchable by (auto simp: isModelAllowed_def)
qed

theorem model_allowlist_meaning_witness:
  "isModelAllowed ''claude-haiku-4'' (Some [''claude-haiku-*'', ''claude-opus-5'']) \<and>
   \<not> isModelAllowed ''claude-opus-5-5'' (Some [''claude-haiku-*'', ''claude-opus-5''])"
proof -
  have p1: "valid_pattern ''claude-haiku-*''" and p2: "valid_pattern ''claude-opus-5''"
    by code_simp+
  then have v: "\<forall>p \<in> set [''claude-haiku-*'', ''claude-opus-5'']. valid_pattern p"
    by simp
  have "isModelAllowed ''claude-haiku-4'' (Some [''claude-haiku-*'', ''claude-opus-5''])"
    using model_allowlist_meaning [OF _ v, of "''claude-haiku-4''"] by force
  moreover have "\<not> isModelAllowed ''claude-opus-5-5'' (Some [''claude-haiku-*'', ''claude-opus-5''])"
    by code_simp
  ultimately show ?thesis ..
qed

end
