(* ===== verification/MessagesHandler.thy ===== *)
theory MessagesHandler
  imports Upstream Template Guards Billing Bypass ObserveOutcome UsageTracker ToolNames SystemPrompt ModelAllow
begin

text \<open>
  \<open>createMessagesHandler\<close> of \<open>src/src/proxy/messages.ts\<close>: a request from the first gate to the row in
  the log, over the state of all the parts it touches. \<open>preflight\<close> is the handler up to the upstream
  call, \<open>complete_response\<close> what follows it. \<open>tk\<close> gives the successive readings of the clock, \<open>roll\<close> the
  canary's dice, \<open>uuid\<close> the ids drawn. Bodies are texts in decoded chunks. The stream a client reads
  runs to its end when upstream does not break off and the client stays connected: only then do the
  transformers flush (a transformer whose reader cancels is errored, not closed).
\<close>

definition HOP_BY_HOP :: "string list" where
  "HOP_BY_HOP = [''connection'', ''keep-alive'', ''proxy-authenticate'', ''proxy-authorization'', ''te'',
     ''trailers'', ''transfer-encoding'', ''upgrade'', ''content-length'', ''content-encoding'']"

definition forwardHeaders :: "headers \<Rightarrow> headers" where
  "forwardHeaders h = fold (\<lambda>(k, v) out. if to_lower k \<in> set HOP_BY_HOP then out else hset k v out) h []"

definition isNonErrorStatus :: "nat \<Rightarrow> bool" where
  "isNonErrorStatus status = (status < 400)"

text \<open>What the handler is created with, and the state it works on.\<close>

record handler_config =
  hc_threshold :: jsnum
  hc_limit :: jsnum
  hc_gap :: rat
  hc_template :: snapshot
  hc_candidateTemplate :: "snapshot option"
  hc_parse :: "string \<Rightarrow> json option"
  hc_stringify :: "json \<Rightarrow> string"
  hc_locale :: "string \<Rightarrow> string \<Rightarrow> int"

record 'm proxy =
  px_guard :: global_guard
  px_usage :: usage_state
  px_pool :: "'m pool"
  px_learner :: "string option"
  px_canary :: canary
  px_drift :: "fingerprint list"
  px_billing :: billing
  px_rows :: "log_row list"
  px_alarms :: "string list"
  px_logErrors :: "exn list"

record request =
  rq_user :: string
  rq_allowed :: "string list option"
  rq_headers :: headers
  rq_body :: "json option"
  rq_connected :: bool

record forward =
  fw_body :: obj
  fw_aliases :: alias_map
  fw_useCandidate :: bool
  fw_session :: "string option"

record reply =
  re_status :: nat
  re_headers :: headers
  re_body :: "string list"

datatype gate = Refused exn | BadBody | Pass forward

text \<open>The handler throws, or answers; the flag is \<open>c.get('logged')\<close>.\<close>

datatype handled = Thrown exn | Answered reply bool

subsection \<open>Before the upstream call\<close>

definition model_refused :: "string list option \<Rightarrow> obj \<Rightarrow> bool" where
  "model_refused allowed client =
     (case (as_str (get client ''model''), allowed) of
        (Some m, Some ps) \<Rightarrow> \<not> isModelAllowed m (Some ps)
      | _ \<Rightarrow> False)"

definition model_error :: "request \<Rightarrow> exn" where
  "model_error rq = Forbidden (''model not allowed for key '' @ rq_user rq @ '' (permitted: '' @
     join_str '', '' (case rq_allowed rq of Some ps \<Rightarrow> ps | None \<Rightarrow> []) @ '')'') ''model_not_allowed''"

definition opt_or :: "string \<Rightarrow> string option \<Rightarrow> string" where
  "opt_or d v = (case v of Some s \<Rightarrow> s | None \<Rightarrow> d)"

definition fingerprint_of :: "rat \<Rightarrow> request \<Rightarrow> obj \<Rightarrow> fingerprint" where
  "fingerprint_of now rq outb =
     \<lparr>fp_ts = now, fp_userKey = rq_user rq, fp_headerNames = map (\<lambda>(k, v). to_lower k) (rq_headers rq),
      fp_bodyKeys = obj_keys outb, fp_anthropicBeta = opt_or [] (hget (rq_headers rq) ''anthropic-beta''),
      fp_userAgent = opt_or [] (hget (rq_headers rq) ''user-agent''),
      fp_model = opt_or [] (as_str (get outb ''model''))\<rparr>"

definition preflight ::
  "handler_config \<Rightarrow> (nat \<Rightarrow> rat) \<Rightarrow> rat \<Rightarrow> request \<Rightarrow> 'm proxy \<Rightarrow> gate \<times> 'm proxy" where
  "preflight cfg tk roll rq s =
     (case assertSubscriptionHealthy (hc_threshold cfg) (px_guard s) of
        Some e \<Rightarrow> (Refused e, s)
      | None \<Rightarrow>
     (case assertCanRequest (hc_limit cfg) (utcDayKey (tk 1)) (rq_user rq) (px_usage s) of
        Some e \<Rightarrow> (Refused e, s)
      | None \<Rightarrow>
     (case rq_body rq of
        None \<Rightarrow> (BadBody, s)
      | Some v \<Rightarrow>
     if \<not> is_object v then (BadBody, s) else
     (case ensureSystem (spread v) of
        Inl e \<Rightarrow> (Refused e, s)
      | Inr b \<Rightarrow>
     let client = sanitizeSystemForUpstream b;
         (outb, am) = rewriteToolNamesForUpstream client TOOL_NAME_TRIGGERS createAliasMap in
     if model_refused (rq_allowed rq) client then (Refused (model_error rq), s)
     else
       let use = fst (canary_decide roll (px_canary s)) in
       (Pass \<lparr>fw_body = outb, fw_aliases = am, fw_useCandidate = use,
              fw_session = hget (rq_headers rq) ''x-claude-code-session-id''\<rparr>,
        s\<lparr>px_drift := drift_record (fingerprint_of (tk 2) rq outb) (px_drift s),
          px_canary := canary_recordRequest use (px_canary s)\<rparr>)))))"

definition chosenTemplate :: "handler_config \<Rightarrow> bool \<Rightarrow> snapshot" where
  "chosenTemplate cfg use =
     (case hc_candidateTemplate cfg of Some sp \<Rightarrow> if use then sp else hc_template cfg | None \<Rightarrow> hc_template cfg)"

subsection \<open>After it\<close>

definition observe_upstream :: "rat \<Rightarrow> upstream_result \<Rightarrow> 'm proxy \<Rightarrow> 'm proxy" where
  "observe_upstream now ur s =
     (let resp = ur_response ur; h = rp_headers resp;
          s1 = (if isNonErrorStatus (rp_status resp)
                then s\<lparr>px_guard := observeHeaders now h (px_guard s),
                       px_pool := pool_observeResponse now (ur_servedBy ur) h (px_pool s)\<rparr>
                else s)
      in s1\<lparr>px_learner := learner_observe h (px_learner s1)\<rparr>)"

definition onUsage ::
  "handler_config \<Rightarrow> rat \<Rightarrow> string \<Rightarrow> bool \<Rightarrow> response \<Rightarrow> sniffed \<Rightarrow> 'm proxy \<Rightarrow> 'm proxy" where
  "onUsage cfg now user useCandidate resp usage s =
     (let s1 = s\<lparr>px_usage := record_usage (utcDayKey now) user (sn_input usage) (sn_output usage) (px_usage s)\<rparr> in
      if \<not> isNonErrorStatus (rp_status resp) then s1
      else
        let (alarm, b) = billing_observe (hc_gap cfg) now (sn_tier usage, rp_headers resp, Some (px_drift s1)) (px_billing s1);
            s2 = s1\<lparr>px_billing := b, px_alarms := px_alarms s1 @ (case alarm of Some a \<Rightarrow> [a] | None \<Rightarrow> [])\<rparr>
        in case sn_tier usage of
             Some (c # cs) \<Rightarrow>
               if useCandidate \<and> c # cs \<noteq> ''standard''
               then s2\<lparr>px_canary := canary_trip now (''candidate served service_tier='' @ (c # cs)) (px_canary s2)\<rparr>
               else s2
           | _ \<Rightarrow> s2)"

definition log_entry ::
  "handler_config \<Rightarrow> string \<Rightarrow> rat \<Rightarrow> rat \<Rightarrow> request \<Rightarrow> forward \<Rightarrow> upstream_result \<Rightarrow> bool \<Rightarrow> response_body option
     \<Rightarrow> string option \<Rightarrow> message_log" where
  "log_entry cfg uuid t0 now rq fw ur isStream rb err =
     \<lparr>ml_id = uuid, ml_ts = t0, ml_userName = rq_user rq, ml_model = extractModel (JObj (fw_body fw)),
      ml_status = rp_status (ur_response ur), ml_streaming = isStream, ml_durationMs = now - t0,
      ml_meta = extractResponseMeta (hc_parse cfg) rb, ml_clientIp = clientIpHint (rq_headers rq),
      ml_userAgent = hget (rq_headers rq) ''user-agent'', ml_requestBody = JObj (fw_body fw),
      ml_responseBody = rb, ml_errorMessage = err, ml_servedBy = Some (ur_servedBy ur),
      ml_bypassMetadata = Some (bypass_json (buildBypassMetadata (hc_locale cfg) (rq_headers rq)
        (ur_outboundHeaders ur) (rp_headers (ur_response ur)) (fw_useCandidate fw))),
      ml_source = Some Upstream\<rparr>"

definition writeLog :: "message_log \<Rightarrow> 'm proxy \<Rightarrow> 'm proxy" where
  "writeLog entry s =
     (case store_record entry (px_rows s) of
        (None, rows) \<Rightarrow> s\<lparr>px_rows := rows\<rparr>
      | (Some e, rows) \<Rightarrow> s\<lparr>px_rows := rows, px_logErrors := px_logErrors s @ [e]\<rparr>)"

definition body_text :: "response \<Rightarrow> string" where
  "body_text resp = (case rp_readError resp of Some _ \<Rightarrow> [] | None \<Rightarrow> concat (case rp_body resp of Some cs \<Rightarrow> cs | None \<Rightarrow> []))"

definition plain_body :: "json \<Rightarrow> string \<Rightarrow> response_body option" where
  "plain_body parsed text = (if parsed \<noteq> JNull then Some (RJson parsed) else if length text > 0 then Some (RText text) else None)"

definition usage_of :: "usage_part \<Rightarrow> sniffed" where
  "usage_of u = \<lparr>sn_input = (case up_input u of Some n \<Rightarrow> n | None \<Rightarrow> 0),
     sn_output = (case up_output u of Some n \<Rightarrow> n | None \<Rightarrow> 0), sn_tier = up_tier u\<rparr>"

definition stream_reply :: "alias_map \<Rightarrow> bool \<Rightarrow> string list \<Rightarrow> string list" where
  "stream_reply am finished pieces =
     (if \<not> hasMappings am then pieces
      else if finished then reverse_stream am None pieces []
      else rs_out (fold (rs_transform am) pieces (rs_init None)))"

definition complete_stream ::
  "handler_config \<Rightarrow> (nat \<Rightarrow> rat) \<Rightarrow> string \<Rightarrow> request \<Rightarrow> forward \<Rightarrow> upstream_result \<Rightarrow> string list
     \<Rightarrow> 'm proxy \<Rightarrow> handled \<times> 'm proxy" where
  "complete_stream cfg tk uuid rq fw ur pieces s =
     (let resp = ur_response ur; ct = opt_or [] (hget (rp_headers resp) ''content-type'');
          finished = (rp_readError resp = None \<and> rq_connected rq);
          s1 = (if finished
                then onUsage cfg (tk 5) (rq_user rq) (fw_useCandidate fw) resp (sniffUsage (hc_parse cfg) ct pieces []) s
                else s);
          s2 = writeLog (log_entry cfg uuid (tk 0) (tk 6) rq fw ur True (Some (RSse (concat pieces))) None) s1
      in (Answered \<lparr>re_status = rp_status resp, re_headers = forwardHeaders (rp_headers resp),
                    re_body = stream_reply (fw_aliases fw) finished pieces\<rparr> True, s2))"

definition complete_plain ::
  "handler_config \<Rightarrow> (nat \<Rightarrow> rat) \<Rightarrow> string \<Rightarrow> request \<Rightarrow> forward \<Rightarrow> upstream_result \<Rightarrow> bool
     \<Rightarrow> 'm proxy \<Rightarrow> handled \<times> 'm proxy" where
  "complete_plain cfg tk uuid rq fw ur isStream s =
     (let resp = ur_response ur; bodyText = body_text resp; parsed = safeParseJson (hc_parse cfg) bodyText;
          s1 = (case extractUsage parsed of
                  Some u \<Rightarrow> onUsage cfg (tk 5) (rq_user rq) (fw_useCandidate fw) resp (usage_of u) s
                | None \<Rightarrow> s);
          err = (if rp_status resp \<ge> 400 \<and> parsed \<noteq> JNull then extractErrorMessage parsed else None);
          s2 = writeLog (log_entry cfg uuid (tk 0) (tk 6) rq fw ur isStream (plain_body parsed bodyText) err) s1
      in (Answered \<lparr>re_status = rp_status resp, re_headers = forwardHeaders (rp_headers resp),
                    re_body = [if hasMappings (fw_aliases fw) then reverseToolNamesInText bodyText (fw_aliases fw)
                               else bodyText]\<rparr> True, s2))"

definition complete_response ::
  "handler_config \<Rightarrow> (nat \<Rightarrow> rat) \<Rightarrow> string \<Rightarrow> request \<Rightarrow> forward \<Rightarrow> upstream_result \<Rightarrow> 'm proxy \<Rightarrow> handled \<times> 'm proxy" where
  "complete_response cfg tk uuid rq fw ur s0 =
     (let s = observe_upstream (tk 4) ur s0; resp = ur_response ur;
          isStream = is_event_stream (opt_or [] (hget (rp_headers resp) ''content-type''))
      in case rp_body resp of
           Some pieces \<Rightarrow> if isStream then complete_stream cfg tk uuid rq fw ur pieces s
                          else complete_plain cfg tk uuid rq fw ur isStream s
         | None \<Rightarrow> complete_plain cfg tk uuid rq fw ur isStream s)"

subsection \<open>The handler\<close>

record 'm world =
  wo_getToken :: "'m \<Rightarrow> string result \<times> 'm"
  wo_force :: "'m \<Rightarrow> string result \<times> 'm"
  wo_pace :: "nat \<Rightarrow> string option \<Rightarrow> unit result"
  wo_net :: "nat \<Rightarrow> outbound \<Rightarrow> response result"
  wo_uuid :: "nat \<Rightarrow> string"

definition forward_call ::
  "handler_config \<Rightarrow> 'm world \<Rightarrow> request \<Rightarrow> forward \<Rightarrow> 'm proxy \<Rightarrow> upstream_result result \<times> outbound list \<times> 'm pool" where
  "forward_call cfg w rq fw s =
     callUpstream (hc_locale cfg) (wo_getToken w) (wo_force w)
       (\<lambda>n token. template_apply (hc_parse cfg) (hc_stringify cfg) (wo_uuid w n) (chosenTemplate cfg (fw_useCandidate fw))
                    (px_learner s) (JObj (fw_body fw)) (Some (rq_headers rq)) token)
       (wo_pace w) (wo_net w) (fw_session fw) (px_pool s)"

definition bad_body_reply :: "handler_config \<Rightarrow> reply" where
  "bad_body_reply cfg = \<lparr>re_status = 400, re_headers = [(''content-type'', ''application/json'')],
     re_body = [hc_stringify cfg (JObj [(''error'', JObj [(''type'', JStr ''invalid_request''),
       (''message'', JStr ''request body must be JSON object'')])])]\<rparr>"

definition messagesHandler ::
  "handler_config \<Rightarrow> (nat \<Rightarrow> rat) \<Rightarrow> rat \<Rightarrow> string \<Rightarrow> 'm world \<Rightarrow> request \<Rightarrow> 'm proxy
     \<Rightarrow> handled \<times> outbound list \<times> 'm proxy" where
  "messagesHandler cfg tk roll uuid w rq s =
     (case preflight cfg tk roll rq s of
        (Refused e, s1) \<Rightarrow> (Thrown e, [], s1)
      | (BadBody, s1) \<Rightarrow> (Answered (bad_body_reply cfg) False, [], s1)
      | (Pass fw, s1) \<Rightarrow>
          (case forward_call cfg w rq fw s1 of
             (Inl e, sent, P) \<Rightarrow> (Thrown e, sent, s1\<lparr>px_pool := P\<rparr>)
           | (Inr ur, sent, P) \<Rightarrow>
               (case complete_response cfg tk uuid rq fw ur (s1\<lparr>px_pool := P\<rparr>) of (r, s2) \<Rightarrow> (r, sent, s2))))"

end
