(* ===== verification/HandlerProps.thy ===== *)
theory HandlerProps
  imports MessagesHandler
begin

text \<open>What the handler of \<open>src/src/proxy/messages.ts\<close> guarantees, over one request and over runs of them.\<close>

subsection \<open>Gates\<close>

lemma get_model_ensure:
  assumes "ensureSystem b = Inr b'" and "k \<noteq> ''system''"
  shows "get b' k = get b k"
  using assms by (auto simp: ensureSystem_def split: option.splits json.splits list.splits if_splits)

lemma get_sanitize: "k \<noteq> ''system'' \<Longrightarrow> get (sanitizeSystemForUpstream b) k = get b k"
  by (auto simp: sanitizeSystemForUpstream_def split: option.splits json.splits)

text \<open>Every gate of the handler, on the caller's own body.\<close>

definition gates_open :: "handler_config \<Rightarrow> (nat \<Rightarrow> rat) \<Rightarrow> request \<Rightarrow> 'm proxy \<Rightarrow> bool" where
  "gates_open cfg tk rq s =
     (assertSubscriptionHealthy (hc_threshold cfg) (px_guard s) = None \<and>
      assertCanRequest (hc_limit cfg) (utcDayKey (tk 1)) (rq_user rq) (px_usage s) = None \<and>
      (case rq_body rq of
         None \<Rightarrow> False
       | Some v \<Rightarrow> is_object v \<and> (case ensureSystem (spread v) of Inl _ \<Rightarrow> False | Inr _ \<Rightarrow> True) \<and>
                   \<not> model_refused (rq_allowed rq) (spread v)))"

lemma model_refused_client:
  assumes "ensureSystem b = Inr b'"
  shows "model_refused ps (sanitizeSystemForUpstream b') = model_refused ps b"
  using get_model_ensure [OF assms, of "''model''"] by (simp add: model_refused_def get_sanitize)

lemma preflight_refused:
  assumes "\<not> gates_open cfg tk rq s"
  shows "\<exists>g. preflight cfg tk roll rq s = (g, s) \<and> ((\<exists>e. g = Refused e) \<or> g = BadBody)"
proof (cases "rq_body rq")
  case None
  then show ?thesis by (auto simp: preflight_def split: option.split)
next
  case (Some v)
  show ?thesis
  proof (cases "ensureSystem (spread v)")
    case (Inl e)
    with Some show ?thesis by (auto simp: preflight_def split: option.split)
  next
    case (Inr b)
    with assms Some model_refused_client [OF Inr] show ?thesis
      by (auto simp: gates_open_def preflight_def Let_def split_beta split: option.split)
  qed
qed

lemma preflight_passes:
  assumes "gates_open cfg tk rq s"
  obtains fw where "preflight cfg tk roll rq s =
     (Pass fw, s\<lparr>px_drift := drift_record (fingerprint_of (tk 2) rq (fw_body fw)) (px_drift s),
                 px_canary := canary_recordRequest (fw_useCandidate fw) (px_canary s)\<rparr>)"
    "fw_useCandidate fw = fst (canary_decide roll (px_canary s))"
proof -
  from assms obtain v b where v: "rq_body rq = Some v" "is_object v" "ensureSystem (spread v) = Inr b"
      "\<not> model_refused (rq_allowed rq) (spread v)"
    and g: "assertSubscriptionHealthy (hc_threshold cfg) (px_guard s) = None"
      "assertCanRequest (hc_limit cfg) (utcDayKey (tk 1)) (rq_user rq) (px_usage s) = None"
    by (auto simp: gates_open_def split: option.splits sum.splits)
  obtain outb am where r: "rewriteToolNamesForUpstream (sanitizeSystemForUpstream b) TOOL_NAME_TRIGGERS createAliasMap = (outb, am)"
    by fastforce
  from v g r model_refused_client [OF v(3), of "rq_allowed rq"] show thesis
    by (intro that [of "\<lparr>fw_body = outb, fw_aliases = am, fw_useCandidate = fst (canary_decide roll (px_canary s)),
              fw_session = hget (rq_headers rq) ''x-claude-code-session-id''\<rparr>"])
       (simp_all add: preflight_def Let_def)
qed

lemma preflight_effect:
  assumes "gates_open cfg tk rq s" and "preflight cfg tk roll rq s = (Pass fw, s1)"
  shows "px_drift s1 = drift_record (fingerprint_of (tk 2) rq (fw_body fw)) (px_drift s)"
    and "ca_candidateRequests (px_canary s1) + ca_stableRequests (px_canary s1) =
           Suc (ca_candidateRequests (px_canary s) + ca_stableRequests (px_canary s))"
    and "ca_tripped (px_canary s1) = ca_tripped (px_canary s)"
    and "px_guard s1 = px_guard s" and "px_usage s1 = px_usage s" and "px_pool s1 = px_pool s"
    and "px_learner s1 = px_learner s" and "px_billing s1 = px_billing s" and "px_rows s1 = px_rows s"
    and "px_alarms s1 = px_alarms s" and "px_logErrors s1 = px_logErrors s"
proof -
  from assms(1) obtain fw' where "preflight cfg tk roll rq s =
     (Pass fw', s\<lparr>px_drift := drift_record (fingerprint_of (tk 2) rq (fw_body fw')) (px_drift s),
                 px_canary := canary_recordRequest (fw_useCandidate fw') (px_canary s)\<rparr>)"
    by (rule preflight_passes [of _ _ _ _ roll])
  with assms(2) have s1: "s1 = s\<lparr>px_drift := drift_record (fingerprint_of (tk 2) rq (fw_body fw)) (px_drift s),
                 px_canary := canary_recordRequest (fw_useCandidate fw) (px_canary s)\<rparr>" by auto
  show "px_drift s1 = drift_record (fingerprint_of (tk 2) rq (fw_body fw)) (px_drift s)"
    and "ca_candidateRequests (px_canary s1) + ca_stableRequests (px_canary s1) =
           Suc (ca_candidateRequests (px_canary s) + ca_stableRequests (px_canary s))"
    and "ca_tripped (px_canary s1) = ca_tripped (px_canary s)"
    and "px_guard s1 = px_guard s" and "px_usage s1 = px_usage s" and "px_pool s1 = px_pool s"
    and "px_learner s1 = px_learner s" and "px_billing s1 = px_billing s" and "px_rows s1 = px_rows s"
    and "px_alarms s1 = px_alarms s" and "px_logErrors s1 = px_logErrors s"
    by (simp_all add: s1 canary_recordRequest_def)
qed

subsection \<open>After the answer\<close>

lemma writeLog_frame [simp]:
  "px_guard (writeLog e s) = px_guard s" "px_usage (writeLog e s) = px_usage s"
  "px_pool (writeLog e s) = px_pool s" "px_learner (writeLog e s) = px_learner s"
  "px_canary (writeLog e s) = px_canary s" "px_drift (writeLog e s) = px_drift s"
  "px_billing (writeLog e s) = px_billing s" "px_alarms (writeLog e s) = px_alarms s"
  by (simp_all add: writeLog_def split: prod.split option.split)

lemma onUsage_frame [simp]:
  "px_guard (onUsage cfg now u c resp us s) = px_guard s" "px_pool (onUsage cfg now u c resp us s) = px_pool s"
  "px_learner (onUsage cfg now u c resp us s) = px_learner s" "px_drift (onUsage cfg now u c resp us s) = px_drift s"
  "px_rows (onUsage cfg now u c resp us s) = px_rows s" "px_logErrors (onUsage cfg now u c resp us s) = px_logErrors s"
  "px_usage (onUsage cfg now u c resp us s) =
     record_usage (utcDayKey now) u (sn_input us) (sn_output us) (px_usage s)"
  by (simp_all add: onUsage_def Let_def split_beta split: option.split list.split)

lemma onUsage_error:
  assumes "400 \<le> rp_status resp"
  shows "px_billing (onUsage cfg now u c resp us s) = px_billing s" "px_canary (onUsage cfg now u c resp us s) = px_canary s"
    "px_alarms (onUsage cfg now u c resp us s) = px_alarms s"
  using assms by (simp_all add: onUsage_def isNonErrorStatus_def)

lemma observe_frame [simp]:
  "px_usage (observe_upstream now ur s) = px_usage s" "px_canary (observe_upstream now ur s) = px_canary s"
  "px_drift (observe_upstream now ur s) = px_drift s" "px_billing (observe_upstream now ur s) = px_billing s"
  "px_rows (observe_upstream now ur s) = px_rows s" "px_alarms (observe_upstream now ur s) = px_alarms s"
  "px_logErrors (observe_upstream now ur s) = px_logErrors s"
  by (simp_all add: observe_upstream_def Let_def)

lemma observe_error:
  assumes "400 \<le> rp_status (ur_response ur)"
  shows "px_guard (observe_upstream now ur s) = px_guard s" "px_pool (observe_upstream now ur s) = px_pool s"
  using assms by (simp_all add: observe_upstream_def Let_def isNonErrorStatus_def)

text \<open>Either branch: what is sniffed, if anything, then one row.\<close>

lemma complete_shape:
  obtains us e body where
    "complete_response cfg tk uuid rq fw ur s =
       (Answered \<lparr>re_status = rp_status (ur_response ur), re_headers = forwardHeaders (rp_headers (ur_response ur)),
          re_body = body\<rparr> True,
        writeLog e (case us of Some u \<Rightarrow> onUsage cfg (tk 5) (rq_user rq) (fw_useCandidate fw) (ur_response ur) u
                                          (observe_upstream (tk 4) ur s)
                             | None \<Rightarrow> observe_upstream (tk 4) ur s))"
    "ml_model e = extractModel (JObj (fw_body fw))" "ml_source e = Some Upstream" "ml_userName e = rq_user rq"
    "ml_status e = rp_status (ur_response ur)" "ml_id e = uuid"
proof (cases "\<exists>pieces. rp_body (ur_response ur) = Some pieces \<and>
    is_event_stream (opt_or [] (hget (rp_headers (ur_response ur)) ''content-type''))")
  case True
  then show ?thesis
    apply (elim exE conjE)
    subgoal for pieces
      by (rule that [of _ "log_entry cfg uuid (tk 0) (tk 6) rq fw ur True (Some (RSse (concat pieces))) None"
            "if rp_readError (ur_response ur) = None \<and> rq_connected rq
             then Some (sniffUsage (hc_parse cfg) (opt_or [] (hget (rp_headers (ur_response ur)) ''content-type'')) pieces [])
             else None"])
         (simp_all add: complete_response_def complete_stream_def log_entry_def Let_def)
    done
next
  case False
  then have c: "complete_response cfg tk uuid rq fw ur s =
      complete_plain cfg tk uuid rq fw ur (is_event_stream (opt_or [] (hget (rp_headers (ur_response ur)) ''content-type'')))
        (observe_upstream (tk 4) ur s)"
    by (auto simp: complete_response_def Let_def split: option.split)
  show ?thesis
    by (rule that [of _ "log_entry cfg uuid (tk 0) (tk 6) rq fw ur
            (is_event_stream (opt_or [] (hget (rp_headers (ur_response ur)) ''content-type'')))
            (plain_body (safeParseJson (hc_parse cfg) (body_text (ur_response ur))) (body_text (ur_response ur)))
            (if rp_status (ur_response ur) \<ge> 400 \<and> safeParseJson (hc_parse cfg) (body_text (ur_response ur)) \<noteq> JNull
             then extractErrorMessage (safeParseJson (hc_parse cfg) (body_text (ur_response ur))) else None)"
          "map_option usage_of (extractUsage (safeParseJson (hc_parse cfg) (body_text (ur_response ur))))"])
       (auto simp: c complete_plain_def log_entry_def Let_def split: option.split)
qed

lemma upstream_answer:
  assumes "callUpstream lc gt force ap pace net sid P = (Inr ur, sent, Q)"
  shows "\<exists>n ob. net n ob = Inr (ur_response ur)"
proof -
  obtain name token P1 where g: "pool_getAccessToken lc gt sid P = (Inr (name, token), P1)"
    using assms by (auto simp: callUpstream_def split: prod.splits sum.splits)
  obtain a s0 where f: "fetchOnce (ap 0) (pace 0) (net 0) token = (Inr a, s0)"
    using assms by (auto simp: callUpstream_def g split: prod.splits sum.splits)
  show ?thesis
  proof (cases "rp_status (fst a) = 401")
    case False
    with assms f g have "ur_response ur = fst a" by (auto simp: callUpstream_def upstream_result_of_def)
    with fetchOnce_Inr [OF f] show ?thesis by metis
  next
    case True
    obtain fresh P2 where r: "pool_forceRefresh force name P1 = (Inr fresh, P2)"
      using assms True by (auto simp: callUpstream_def f g retry_401_def split: prod.splits sum.splits)
    obtain b s1 where f1: "fetchOnce (ap 1) (pace 1) (net 1) fresh = (Inr b, s1)"
      using assms True by (auto simp: callUpstream_def f g r retry_401_def split: prod.splits sum.splits)
    with assms True f g r have "ur_response ur = fst b"
      by (auto simp: callUpstream_def upstream_result_of_def retry_401_def)
    with fetchOnce_Inr [OF f1] show ?thesis by metis
  qed
qed

subsection \<open>Runs of requests\<close>

fun handler_run ::
  "handler_config \<Rightarrow> ((nat \<Rightarrow> rat) \<times> rat \<times> string \<times> 'm world \<times> request) list \<Rightarrow> 'm proxy
     \<Rightarrow> (handled \<times> outbound list) list \<times> 'm proxy" where
  "handler_run cfg [] s = ([], s)"
| "handler_run cfg ((tk, roll, uuid, w, rq) # es) s =
     (let (r, sent, s1) = messagesHandler cfg tk roll uuid w rq s; (rs, s2) = handler_run cfg es s1
      in ((r, sent) # rs, s2))"

text \<open>The three ways a request goes.\<close>

lemma handler_cases:
  obtains (closed) r where "\<not> gates_open cfg tk rq s" "messagesHandler cfg tk roll uuid w rq s = (r, [], s)"
      "r = Answered (bad_body_reply cfg) False \<or> (\<exists>e. r = Thrown e)"
  | (failed) fw e sent P s1 where "gates_open cfg tk rq s" "preflight cfg tk roll rq s = (Pass fw, s1)"
      "messagesHandler cfg tk roll uuid w rq s = (Thrown e, sent, s1\<lparr>px_pool := P\<rparr>)"
  | (answered) fw ur r sent P s1 s2 where "gates_open cfg tk rq s" "preflight cfg tk roll rq s = (Pass fw, s1)"
      "\<exists>n ob. wo_net w n ob = Inr (ur_response ur)"
      "complete_response cfg tk uuid rq fw ur (s1\<lparr>px_pool := P\<rparr>) = (r, s2)"
      "messagesHandler cfg tk roll uuid w rq s = (r, sent, s2)"
proof (cases "gates_open cfg tk rq s")
  case False
  from preflight_refused [OF this, of roll] False show ?thesis
    by (auto simp: messagesHandler_def intro: closed)
next
  case True
  then obtain fw s1 where p: "preflight cfg tk roll rq s = (Pass fw, s1)" by (metis preflight_passes)
  show ?thesis
  proof (cases "fst (forward_call cfg w rq fw s1)")
    case (Inl e)
    with p True show ?thesis
      by (cases "forward_call cfg w rq fw s1") (auto simp: messagesHandler_def intro!: failed)
  next
    case (Inr ur)
    then obtain sent P where c: "forward_call cfg w rq fw s1 = (Inr ur, sent, P)" by (metis prod.collapse)
    obtain r s2 where "complete_response cfg tk uuid rq fw ur (s1\<lparr>px_pool := P\<rparr>) = (r, s2)" by fastforce
    with p True c upstream_answer [OF c [unfolded forward_call_def]] show ?thesis
      by (intro answered) (auto simp: messagesHandler_def)
  qed
qed

text \<open>C1: the gates guard the upstream call. Unless the subscription is healthy, the user has quota
  left and the body is an object with an acceptable system prompt and an allowed model, a request
  sends nothing upstream and changes no state; otherwise exactly one request is counted for the
  canary and one fingerprint recorded.\<close>

theorem gates_guard_upstream:
  "case messagesHandler cfg tk roll uuid w rq s of (r, sent, s') \<Rightarrow>
     if gates_open cfg tk rq s
     then (\<exists>outb. px_drift s' = drift_record (fingerprint_of (tk 2) rq outb) (px_drift s)) \<and>
          ca_candidateRequests (px_canary s') + ca_stableRequests (px_canary s') =
            Suc (ca_candidateRequests (px_canary s) + ca_stableRequests (px_canary s))
     else sent = [] \<and> s' = s \<and> (r = Answered (bad_body_reply cfg) False \<or> (\<exists>e. r = Thrown e))"
proof -
  have onUsage_counts: "ca_candidateRequests (px_canary (onUsage cfg now u c resp us t)) = ca_candidateRequests (px_canary t) \<and>
      ca_stableRequests (px_canary (onUsage cfg now u c resp us t)) = ca_stableRequests (px_canary t)" for now u c resp us t
    by (simp add: onUsage_def Let_def split_beta canary_trip_def split: option.split list.split)
  show ?thesis
  proof (cases rule: handler_cases [of cfg tk rq s roll uuid w])
    case (closed r)
    then show ?thesis by simp
  next
    case (failed fw e sent P s1)
    with preflight_effect(1,2) [OF failed(1,2)] show ?thesis by (simp del: add_Suc_right) blast
  next
    case (answered fw ur r sent P s1 s2)
    obtain us e body where c: "s2 = writeLog e (case us of Some u \<Rightarrow> onUsage cfg (tk 5) (rq_user rq) (fw_useCandidate fw)
         (ur_response ur) u (observe_upstream (tk 4) ur (s1\<lparr>px_pool := P\<rparr>))
       | None \<Rightarrow> observe_upstream (tk 4) ur (s1\<lparr>px_pool := P\<rparr>))"
      by (rule complete_shape [of cfg tk uuid rq fw ur "s1\<lparr>px_pool := P\<rparr>"]) (use answered(4) in auto)
    have "px_drift s2 = px_drift s1" and "ca_candidateRequests (px_canary s2) = ca_candidateRequests (px_canary s1)"
      and "ca_stableRequests (px_canary s2) = ca_stableRequests (px_canary s1)"
      by (cases us; simp add: c onUsage_counts)+
    with preflight_effect(1,2) [OF answered(1,2)] answered(1,5) show ?thesis by (simp del: add_Suc_right) blast
  qed
qed

text \<open>Upstream that answers nothing but errors.\<close>

definition error_world :: "'m world \<Rightarrow> bool" where
  "error_world w = (\<forall>n ob. case wo_net w n ob of Inr resp \<Rightarrow> 400 \<le> rp_status resp | Inl _ \<Rightarrow> True)"

definition signals :: "'m proxy \<Rightarrow> global_guard \<times> billing \<times> bool \<times> string list" where
  "signals s = (px_guard s, px_billing s, ca_tripped (px_canary s), px_alarms s)"

lemma handler_error_signals:
  assumes "error_world w" and "messagesHandler cfg tk roll uuid w rq s = (r, sent, s')"
  shows "signals s' = signals s"
proof (cases rule: handler_cases [of cfg tk rq s roll uuid w])
  case (closed r')
  with assms show ?thesis by simp
next
  case (failed fw e sent' P s1)
  with assms preflight_effect [OF failed(1,2)] show ?thesis by (auto simp: signals_def)
next
  case (answered fw ur r' sent' P s1 s2)
  from answered(3) assms(1) have e: "400 \<le> rp_status (ur_response ur)"
    unfolding error_world_def by (metis sum.simps(6))
  obtain us en body where c: "s2 = writeLog en (case us of Some u \<Rightarrow> onUsage cfg (tk 5) (rq_user rq) (fw_useCandidate fw)
       (ur_response ur) u (observe_upstream (tk 4) ur (s1\<lparr>px_pool := P\<rparr>))
     | None \<Rightarrow> observe_upstream (tk 4) ur (s1\<lparr>px_pool := P\<rparr>))"
    by (rule complete_shape [of cfg tk uuid rq fw ur "s1\<lparr>px_pool := P\<rparr>"]) (use answered(4) in auto)
  have "signals s2 = signals s1"
    by (cases us) (simp_all add: c signals_def observe_error [OF e] onUsage_error [OF e])
  moreover have "signals s1 = signals s"
    using preflight_effect [OF answered(1,2)] by (simp add: signals_def)
  ultimately show ?thesis using assms(2) answered(5) by simp
qed

text \<open>C9: errors are no signal. However many requests upstream answers with an error or not at all,
  the subscription guard, the billing monitor, the alarms and the canary's trip stay as they were.\<close>

theorem error_answers_feed_no_signal:
  assumes "list_all (\<lambda>(tk, roll, uuid, w, rq). error_world w) es"
  shows "signals (snd (handler_run cfg es s)) = signals s"
  using assms
proof (induction es arbitrary: s)
  case (Cons x es)
  obtain tk roll uuid w rq where x: "x = (tk, roll, uuid, w, rq)" by (metis prod_cases5)
  obtain r sent s1 where m: "messagesHandler cfg tk roll uuid w rq s = (r, sent, s1)" by (metis prod_cases3)
  from Cons have "signals (snd (handler_run cfg es s1)) = signals s1" by simp
  with handler_error_signals [OF _ m] Cons.prems show ?case by (simp add: x m split_beta)
qed simp

text \<open>The subscription guard locks the proxy for good. Once the last observed headroom is below the
  threshold, every later request is refused before anything is sent upstream, and since only a
  response can raise the observation, the state never changes again.\<close>

theorem low_headroom_locks_for_good:
  assumes "gg_remaining (px_guard s) = Some r" and "hc_threshold cfg = Num t" and "0 < t" and "r < t"
  shows "snd (handler_run cfg es s) = s \<and>
    fst (handler_run cfg es s) = replicate (length es) (Thrown (QuotaExceeded ''subscription headroom low''), [])"
proof (induction es)
  case (Cons x es)
  obtain tk roll uuid w rq where x: "x = (tk, roll, uuid, w, rq)" by (metis prod_cases5)
  have "assertSubscriptionHealthy (hc_threshold cfg) (px_guard s) = Some (QuotaExceeded ''subscription headroom low'')"
    using assms by (simp add: assertSubscriptionHealthy_def)
  then have "messagesHandler cfg tk roll uuid w rq s = (Thrown (QuotaExceeded ''subscription headroom low''), [], s)"
    by (simp add: messagesHandler_def preflight_def)
  with Cons show ?case by (simp add: x split_beta)
qed simp

definition demo_snapshot :: snapshot where
  "demo_snapshot = \<lparr>sp_headerOrder = [''accept''], sp_headerValues = [(''accept'', ''*'')],
     sp_bodyKeyOrder = Some [''model''], sp_p50Ms = None\<rparr>"

definition demo_config :: handler_config where
  "demo_config = \<lparr>hc_threshold = Num 10, hc_limit = Num 100, hc_gap = 60000, hc_template = demo_snapshot,
     hc_candidateTemplate = None, hc_parse = (\<lambda>_. None), hc_stringify = (\<lambda>_. ''json''), hc_locale = (\<lambda>_ _. 0)\<rparr>"

definition demo_proxy :: "rat \<Rightarrow> unit proxy" where
  "demo_proxy r = \<lparr>px_guard = \<lparr>gg_remaining = Some r, gg_observedAt = Some 0\<rparr>, px_usage = [],
     px_pool = \<lparr>pl_members = [\<lparr>pm_name = ''x'', pm_oauth = (), pm_remaining = None, pm_observedAt = None\<rparr>],
                 pl_sessions = []\<rparr>,
     px_learner = None, px_canary = createCanaryController False 0, px_drift = [], px_billing = createBillingMonitor,
     px_rows = [], px_alarms = [], px_logErrors = []\<rparr>"

definition demo_request :: request where
  "demo_request = \<lparr>rq_user = ''ann'', rq_allowed = None, rq_headers = [], rq_body = Some (JObj [(''model'', JStr ''m'')]),
     rq_connected = True\<rparr>"

definition demo_world :: "unit world" where
  "demo_world = \<lparr>wo_getToken = (\<lambda>u. (Inr ''t'', u)), wo_force = (\<lambda>u. (Inr ''t'', u)), wo_pace = (\<lambda>_ _. Inr ()),
     wo_net = (\<lambda>_ _. Inr \<lparr>rp_status = 429, rp_headers = [(''anthropic-ratelimit-unified-remaining'', ''1'')],
        rp_body = None, rp_readError = None\<rparr>), wo_uuid = (\<lambda>_. ''u'')\<rparr>"

theorem error_answers_feed_no_signal_witness:
  "signals (snd (handler_run demo_config (replicate 3 (\<lambda>_. 0, 0, ''id'', demo_world, demo_request)) (demo_proxy 50))) =
   signals (demo_proxy 50)"
  by (rule error_answers_feed_no_signal) (simp add: error_world_def demo_world_def numeral_3_eq_3)

theorem low_headroom_locks_for_good_witness:
  "fst (handler_run demo_config (replicate 2 (\<lambda>_. 0, 0, ''id'', demo_world, demo_request)) (demo_proxy 5)) =
   replicate 2 (Thrown (QuotaExceeded ''subscription headroom low''), [])"
  using low_headroom_locks_for_good [of "demo_proxy 5" 5 demo_config 10]
  by (simp add: demo_proxy_def demo_config_def)

subsection \<open>Accounting and logging of one answer\<close>

text \<open>A streamed answer is counted only when it was read to its end. If upstream breaks off or the
  client disconnects, its tokens reach neither the daily quota nor the billing monitor nor the canary,
  although the row in the log carries them.\<close>

theorem streamed_usage_counts_when_read_out:
  assumes "rp_body (ur_response ur) = Some pieces"
    and "is_event_stream (opt_or [] (hget (rp_headers (ur_response ur)) ''content-type''))"
  shows "let s' = snd (complete_response cfg tk uuid rq fw ur s);
             us = sniffUsage (hc_parse cfg) (opt_or [] (hget (rp_headers (ur_response ur)) ''content-type'')) pieces []
         in px_usage s' = (if rp_readError (ur_response ur) = None \<and> rq_connected rq
              then record_usage (utcDayKey (tk 5)) (rq_user rq) (sn_input us) (sn_output us) (px_usage s)
              else px_usage s) \<and>
            (if rp_readError (ur_response ur) = None \<and> rq_connected rq then True
             else px_billing s' = px_billing s \<and> px_alarms s' = px_alarms s \<and> px_canary s' = px_canary s) \<and>
            (\<exists>e. px_rows s' = snd (store_record e (px_rows s)) \<and>
                 ml_meta e = extractResponseMeta (hc_parse cfg) (Some (RSse (concat pieces))))"
proof -
  have rows: "px_rows (writeLog e t) = snd (store_record e (px_rows t))" for e and t :: "'a proxy"
    by (simp add: writeLog_def split: prod.split option.split)
  have "ml_meta (log_entry cfg uuid t0 now rq fw ur True rb err) = extractResponseMeta (hc_parse cfg) rb" for t0 now rb err
    by (simp add: log_entry_def)
  with assms show ?thesis
    by (auto simp: complete_response_def complete_stream_def Let_def rows)
qed

theorem streamed_usage_counts_when_read_out_witness:
  "px_usage (snd (complete_response demo_config (\<lambda>_. 0) ''id'' (demo_request\<lparr>rq_connected := False\<rparr>)
      \<lparr>fw_body = [], fw_aliases = createAliasMap, fw_useCandidate = False, fw_session = None\<rparr>
      \<lparr>ur_response = \<lparr>rp_status = 200, rp_headers = [(''content-type'', ''text/event-stream'')],
         rp_body = Some [''data: {}''], rp_readError = None\<rparr>, ur_servedBy = ''x'', ur_outboundHeaders = []\<rparr>
      (demo_proxy 50))) = []"
proof -
  have "is_event_stream (opt_or [] (hget [(''content-type'', ''text/event-stream'')] ''content-type''))"
    by code_simp
  with streamed_usage_counts_when_read_out [of
      "\<lparr>ur_response = \<lparr>rp_status = 200, rp_headers = [(''content-type'', ''text/event-stream'')],
         rp_body = Some [''data: {}''], rp_readError = None\<rparr>, ur_servedBy = ''x'', ur_outboundHeaders = []\<rparr>"
      "[''data: {}'']" demo_config "\<lambda>_. 0" "''id''" "demo_request\<lparr>rq_connected := False\<rparr>"
      "\<lparr>fw_body = [], fw_aliases = createAliasMap, fw_useCandidate = False, fw_session = None\<rparr>" "demo_proxy 50"]
  show ?thesis by (simp add: Let_def demo_proxy_def)
qed

text \<open>A model name with a NUL character keeps a request out of the log. The database refuses the row,
  since only the bodies are cleaned of NUL; the handler still claims the row as written, so the
  failure observer does not record the request either.\<close>

theorem nul_in_model_evades_the_log:
  assumes "get (fw_body fw) ''model'' = Some (JStr m)" and "NUL_CHAR \<in> set m"
  shows "\<exists>r e s'. complete_response cfg tk uuid rq fw ur s = (Answered r True, s') \<and>
     px_rows s' = px_rows s \<and> px_logErrors s' = px_logErrors s @ [e] \<and>
     (\<forall>parse uuid' now oc ob. oc_logged oc \<longrightarrow> observe_outcome parse uuid' now oc ob = (None, ob))"
proof -
  have refused: "\<exists>x. store_record e rows = (Some x, rows)" if "ml_model e = Some m" for e rows
    using that assms(2) by (auto simp: store_record_def text_columns_def Let_def)
  obtain us e body where c: "complete_response cfg tk uuid rq fw ur s =
       (Answered \<lparr>re_status = rp_status (ur_response ur), re_headers = forwardHeaders (rp_headers (ur_response ur)),
          re_body = body\<rparr> True,
        writeLog e (case us of Some u \<Rightarrow> onUsage cfg (tk 5) (rq_user rq) (fw_useCandidate fw) (ur_response ur) u
                                          (observe_upstream (tk 4) ur s)
                             | None \<Rightarrow> observe_upstream (tk 4) ur s))"
    and "ml_model e = extractModel (JObj (fw_body fw))"
    by (rule complete_shape [of cfg tk uuid rq fw ur s])
  with assms(1) have "ml_model e = Some m" by (simp add: extractModel_def)
  from refused [OF this, of "px_rows s"] obtain x where "store_record e (px_rows s) = (Some x, px_rows s)" by blast
  then have "px_rows (writeLog e t) = px_rows s \<and> px_logErrors (writeLog e t) = px_logErrors s @ [x]"
    if "px_rows t = px_rows s" "px_logErrors t = px_logErrors s" for t :: "'a proxy"
    using that by (simp add: writeLog_def)
  with c show ?thesis by (cases us) (auto simp: observe_outcome_def)
qed

theorem nul_in_model_evades_the_log_witness:
  "px_rows (snd (complete_response demo_config (\<lambda>_. 0) ''id'' demo_request
      \<lparr>fw_body = [(''model'', JStr [NUL_CHAR])], fw_aliases = createAliasMap, fw_useCandidate = False, fw_session = None\<rparr>
      \<lparr>ur_response = \<lparr>rp_status = 404, rp_headers = [], rp_body = None, rp_readError = None\<rparr>,
         ur_servedBy = ''x'', ur_outboundHeaders = []\<rparr> (demo_proxy 50))) = []"
  using nul_in_model_evades_the_log [of "\<lparr>fw_body = [(''model'', JStr [NUL_CHAR])], fw_aliases = createAliasMap,
      fw_useCandidate = False, fw_session = None\<rparr>" "[NUL_CHAR]" demo_config "\<lambda>_. 0" "''id''" demo_request
      "\<lparr>ur_response = \<lparr>rp_status = 404, rp_headers = [], rp_body = None, rp_readError = None\<rparr>,
         ur_servedBy = ''x'', ur_outboundHeaders = []\<rparr>" "demo_proxy 50"]
  by (auto simp: demo_proxy_def)

end
