(* ===== verification/Concurrency.thy ===== *)
theory Concurrency
  imports Cooldown
begin

text \<open>
  \<open>src/src/proxy/concurrency.ts\<close>: the global and the per-key limit on requests in flight, composed
  as \<open>src/src/app.ts\<close> mounts them (per-key outside global). A limit is the number the configuration
  holds, which may be \<open>NaN\<close>. A request arrives, is refused or runs, and later finishes; its
  \<open>finally\<close> blocks run from the inside out. \<open>cl_active\<close> lists the buckets of the requests that
  run: a history variable. \<open>cl_warned\<close> collects the warnings that were emitted.
\<close>

definition UNKNOWN_KEY :: string where "UNKNOWN_KEY = ''__unknown__''"
definition WARN_COOLDOWN_MS :: rat where "WARN_COOLDOWN_MS = 1000"

record warn_throttle =
  wt_lastEmittedAt :: rat
  wt_suppressed :: nat

definition throttledWarn :: "rat \<Rightarrow> string \<Rightarrow> warn_throttle \<Rightarrow> string option \<times> warn_throttle" where
  "throttledWarn now message w =
     (if now - wt_lastEmittedAt w < WARN_COOLDOWN_MS
      then (None, w\<lparr>wt_suppressed := wt_suppressed w + 1\<rparr>)
      else (Some (message @ (if wt_suppressed w > 0
                             then '' (+'' @ nat_str (wt_suppressed w) @ '' suppressed since last)'' else [])),
            \<lparr>wt_lastEmittedAt = now, wt_suppressed = 0\<rparr>))"

record limiters =
  cl_inFlight :: nat
  cl_byKey :: "(string \<times> nat) list"
  cl_capWarn :: warn_throttle
  cl_unknownWarn :: warn_throttle
  cl_warned :: "string list"
  cl_active :: "string list"

definition cl_init :: limiters where
  "cl_init = \<lparr>cl_inFlight = 0, cl_byKey = [], cl_capWarn = \<lparr>wt_lastEmittedAt = 0, wt_suppressed = 0\<rparr>,
              cl_unknownWarn = \<lparr>wt_lastEmittedAt = 0, wt_suppressed = 0\<rparr>, cl_warned = [], cl_active = []\<rparr>"

text \<open>The warnings keep the shared cooldown: however many requests are refused, they are spaced by it.\<close>

interpretation tw: cooldown_gate throttledWarn "\<lambda>_ _ _. True" "\<lambda>w. Some (wt_lastEmittedAt w)" WARN_COOLDOWN_MS
  by unfold_locales (auto simp: throttledWarn_def)

lemma warnings_spaced: "spaced 1000 (map fst (fst (offers throttledWarn es w)))"
  using tw.firings_spaced by (simp add: WARN_COOLDOWN_MS_def)

text \<open>\<open>max <= 0\<close> and \<open>n >= max\<close> in JavaScript's comparison.\<close>

definition limit_off :: "jsnum \<Rightarrow> bool" where
  "limit_off m = js_le m (Num 0)"

definition at_limit :: "nat \<Rightarrow> jsnum \<Rightarrow> bool" where
  "at_limit n m = js_le m (Num (of_nat n))"

subsection \<open>The global limiter\<close>

definition global_enter :: "jsnum \<Rightarrow> limiters \<Rightarrow> exn option \<times> limiters" where
  "global_enter m s =
     (if limit_off m then (None, s)
      else if at_limit (cl_inFlight s) m
      then (Some (TooManyRequests ''max concurrent requests reached'' None), s)
      else (None, s\<lparr>cl_inFlight := cl_inFlight s + 1\<rparr>))"

definition global_leave :: "jsnum \<Rightarrow> limiters \<Rightarrow> limiters" where
  "global_leave m s = (if limit_off m then s else s\<lparr>cl_inFlight := cl_inFlight s - 1\<rparr>)"

subsection \<open>The per-key limiter\<close>

definition key_count :: "limiters \<Rightarrow> string \<Rightarrow> nat" where
  "key_count s key = (case map_of (cl_byKey s) key of Some n \<Rightarrow> n | None \<Rightarrow> 0)"

definition emit :: "string option \<Rightarrow> limiters \<Rightarrow> limiters" where
  "emit w s = s\<lparr>cl_warned := cl_warned s @ (case w of Some m \<Rightarrow> [m] | None \<Rightarrow> [])\<rparr>"

definition bucket_of :: "string option \<Rightarrow> string" where
  "bucket_of user = (case user of Some n \<Rightarrow> n | None \<Rightarrow> UNKNOWN_KEY)"

definition key_enter :: "jsnum \<Rightarrow> rat \<Rightarrow> string option \<Rightarrow> limiters \<Rightarrow> exn option \<times> limiters" where
  "key_enter m now user s =
     (if limit_off m then (None, s)
      else
        let s1 = (if user = None
                  then (let (w, t) = throttledWarn now
                              ''[concurrency] per-key limiter ran without c.var.user'' (cl_unknownWarn s)
                        in emit w (s\<lparr>cl_unknownWarn := t\<rparr>))
                  else s);
            key = bucket_of user; current = key_count s1 key
        in if at_limit current m
           then (let (w, t) = throttledWarn now ''[concurrency] per-key cap reached'' (cl_capWarn s1)
                 in (Some (TooManyRequests ''per-key concurrency cap reached'' (Some [(''retry-after'', ''1'')])),
                     emit w (s1\<lparr>cl_capWarn := t\<rparr>)))
           else (None, s1\<lparr>cl_byKey := AList.update key (current + 1) (cl_byKey s1)\<rparr>))"

definition key_leave :: "jsnum \<Rightarrow> string \<Rightarrow> limiters \<Rightarrow> limiters" where
  "key_leave m key s =
     (if limit_off m then s
      else
        let n = (case map_of (cl_byKey s) key of Some n \<Rightarrow> n | None \<Rightarrow> 1); remaining = n - 1
        in if remaining = 0 then s\<lparr>cl_byKey := AList.delete key (cl_byKey s)\<rparr>
           else s\<lparr>cl_byKey := AList.update key remaining (cl_byKey s)\<rparr>)"

subsection \<open>Requests\<close>

definition request_arrives ::
  "jsnum \<Rightarrow> jsnum \<Rightarrow> rat \<Rightarrow> string option \<Rightarrow> limiters \<Rightarrow> exn option \<times> limiters" where
  "request_arrives kmax gmax now user s =
     (case key_enter kmax now user s of
        (Some e, s1) \<Rightarrow> (Some e, s1)
      | (None, s1) \<Rightarrow> (case global_enter gmax s1 of
           (Some e, s2) \<Rightarrow> (Some e, key_leave kmax (bucket_of user) s2)
         | (None, s2) \<Rightarrow> (None, s2\<lparr>cl_active := cl_active s2 @ [bucket_of user]\<rparr>)))"

text \<open>The \<open>i\<close>-th running request ends, by an answer or by an error.\<close>

definition request_finishes :: "jsnum \<Rightarrow> jsnum \<Rightarrow> nat \<Rightarrow> limiters \<Rightarrow> limiters" where
  "request_finishes kmax gmax i s =
     (if i < length (cl_active s)
      then (key_leave kmax (cl_active s ! i) (global_leave gmax s))
             \<lparr>cl_active := take i (cl_active s) @ drop (Suc i) (cl_active s)\<rparr>
      else s)"

inductive conc_reach :: "jsnum \<Rightarrow> jsnum \<Rightarrow> limiters \<Rightarrow> bool" for kmax gmax where
  init: "conc_reach kmax gmax cl_init"
| arrive: "conc_reach kmax gmax s \<Longrightarrow> conc_reach kmax gmax (snd (request_arrives kmax gmax now user s))"
| finish: "conc_reach kmax gmax s \<Longrightarrow> conc_reach kmax gmax (request_finishes kmax gmax i s)"

definition conc_inv :: "jsnum \<Rightarrow> jsnum \<Rightarrow> limiters \<Rightarrow> bool" where
  "conc_inv kmax gmax s \<longleftrightarrow>
     cl_inFlight s = (if limit_off gmax then 0 else length (cl_active s)) \<and>
     (\<forall>k. map_of (cl_byKey s) k =
        (if limit_off kmax \<or> count_list (cl_active s) k = 0 then None else Some (count_list (cl_active s) k))) \<and>
     (\<forall>m. gmax = Num (of_nat m) \<and> 0 < m \<longrightarrow> length (cl_active s) \<le> m) \<and>
     (\<forall>m k. kmax = Num (of_nat m) \<and> 0 < m \<longrightarrow> count_list (cl_active s) k \<le> m)"

text \<open>The per-key half of the state, as it is while a request passes the outer limiter.\<close>

definition keys_inv :: "jsnum \<Rightarrow> string list \<Rightarrow> limiters \<Rightarrow> bool" where
  "keys_inv kmax active s \<longleftrightarrow>
     (\<forall>k. map_of (cl_byKey s) k =
        (if limit_off kmax \<or> count_list active k = 0 then None else Some (count_list active k))) \<and>
     (\<forall>m k. kmax = Num (of_nat m) \<and> 0 < m \<longrightarrow> count_list active k \<le> m)"

lemma count_list_snoc [simp]: "count_list (xs @ [y]) x = count_list xs x + (if x = y then 1 else 0)"
  by (induction xs) auto

lemma count_list_remove:
  "i < length xs \<Longrightarrow>
     count_list (take i xs @ drop (Suc i) xs) x = count_list xs x - (if x = xs ! i then 1 else 0)"
  by (subst (2) id_take_nth_drop [of i xs]) (auto simp del: append_take_drop_id)

lemma emit_keys [simp]: "cl_byKey (emit w s) = cl_byKey s" "cl_inFlight (emit w s) = cl_inFlight s"
    "cl_active (emit w s) = cl_active s"
  by (simp_all add: emit_def)

lemma key_enter_frame:
  "cl_inFlight (snd (key_enter m now user s)) = cl_inFlight s"
  "cl_active (snd (key_enter m now user s)) = cl_active s"
  by (simp_all add: key_enter_def Let_def split_beta)

lemma key_leave_frame [simp]:
  "cl_inFlight (key_leave m k s) = cl_inFlight s" "cl_active (key_leave m k s) = cl_active s"
  by (simp_all add: key_leave_def Let_def)

lemma key_count_inv:
  "keys_inv kmax act s \<Longrightarrow> \<not> limit_off kmax \<Longrightarrow> key_count s k = count_list act k"
  by (simp add: keys_inv_def key_count_def)

lemma key_enter_effect:
  "fst (key_enter m now user s) = None \<longleftrightarrow> limit_off m \<or> \<not> at_limit (key_count s (bucket_of user)) m"
  "cl_byKey (snd (key_enter m now user s)) =
     (if limit_off m \<or> at_limit (key_count s (bucket_of user)) m then cl_byKey s
      else AList.update (bucket_of user) (key_count s (bucket_of user) + 1) (cl_byKey s))"
  by (simp_all add: key_enter_def Let_def split_beta key_count_def)

lemma limit_off_Num: "0 < m \<Longrightarrow> \<not> limit_off (Num (of_nat m))"
  by (simp add: limit_off_def)

lemma at_limit_Num: "at_limit n (Num (of_nat m)) \<longleftrightarrow> m \<le> n"
  by (simp add: at_limit_def)

lemma key_enter_inv:
  assumes inv: "keys_inv kmax act s"
  shows "fst (key_enter kmax now user s) = None \<Longrightarrow>
           keys_inv kmax (act @ [bucket_of user]) (snd (key_enter kmax now user s))"
    and "fst (key_enter kmax now user s) \<noteq> None \<Longrightarrow> keys_inv kmax act (snd (key_enter kmax now user s))"
proof -
  let ?k = "bucket_of user"
  show "keys_inv kmax (act @ [?k]) (snd (key_enter kmax now user s))"
    if "fst (key_enter kmax now user s) = None"
  proof (cases "limit_off kmax")
    case True
    with inv show ?thesis by (auto simp: keys_inv_def key_enter_effect limit_off_Num)
  next
    case False
    with that have n: "\<not> at_limit (count_list act ?k) kmax"
      by (simp add: key_enter_effect key_count_inv [OF inv])
    with False inv show ?thesis
      by (auto simp: keys_inv_def key_enter_effect key_count_inv [OF inv] at_limit_Num)
  qed
  show "keys_inv kmax act (snd (key_enter kmax now user s))"
    if "fst (key_enter kmax now user s) \<noteq> None"
    using that inv by (auto simp: keys_inv_def key_enter_effect)
qed

lemma key_leave_inv:
  assumes inv: "keys_inv kmax act s" and k: "k \<in> set act"
    and act': "\<And>x. count_list act' x = count_list act x - (if x = k then 1 else 0)"
  shows "keys_inv kmax act' (key_leave kmax k s)"
proof (cases "limit_off kmax")
  case True
  with inv show ?thesis by (auto simp: keys_inv_def key_leave_def limit_off_Num)
next
  case False
  have pos: "count_list act k \<noteq> 0" using k by (simp add: count_list_0_iff)
  with inv False have m: "map_of (cl_byKey s) k = Some (count_list act k)" by (simp add: keys_inv_def)
  have le: "count_list act' x \<le> count_list act x" for x by (simp add: act')
  show ?thesis
    unfolding keys_inv_def
  proof (intro conjI allI impI)
    show "map_of (cl_byKey (key_leave kmax k s)) x =
        (if limit_off kmax \<or> count_list act' x = 0 then None else Some (count_list act' x))" for x
      using inv False m by (auto simp: key_leave_def Let_def keys_inv_def act')
    show "count_list act' x \<le> n" if "kmax = Num (of_nat n) \<and> 0 < n" for n x
      using inv that le [of x] by (auto simp: keys_inv_def intro: order_trans)
  qed
qed

lemma conc_inv_keys:
  "conc_inv kmax gmax s \<longleftrightarrow>
     cl_inFlight s = (if limit_off gmax then 0 else length (cl_active s)) \<and>
     keys_inv kmax (cl_active s) s \<and>
     (\<forall>m. gmax = Num (of_nat m) \<and> 0 < m \<longrightarrow> length (cl_active s) \<le> m)"
  by (auto simp: conc_inv_def keys_inv_def)

lemma keys_inv_cong: "cl_byKey s = cl_byKey t \<Longrightarrow> keys_inv kmax act s = keys_inv kmax act t"
  by (simp add: keys_inv_def)

lemma arrives_inv:
  assumes inv: "conc_inv kmax gmax s"
  shows "conc_inv kmax gmax (snd (request_arrives kmax gmax now user s))"
proof -
  obtain e s1 where k: "key_enter kmax now user s = (e, s1)" by fastforce
  have fr: "cl_inFlight s1 = cl_inFlight s" "cl_active s1 = cl_active s"
    using key_enter_frame [of kmax now user s] k by simp_all
  have ki: "keys_inv kmax (cl_active s) s" using inv by (simp add: conc_inv_keys)
  note ke = key_enter_inv [OF ki, of now user, unfolded k fst_conv snd_conv]
  show ?thesis
  proof (cases e)
    case (Some x)
    with k inv ke(2) fr show ?thesis by (simp add: request_arrives_def conc_inv_keys)
  next
    case None
    note ki1 = ke(1) [OF None]
    show ?thesis
    proof (cases "fst (global_enter gmax s1)")
      case (Some x)
      then have g: "global_enter gmax s1 = (Some x, s1)"
        by (auto simp: global_enter_def split: if_splits)
      have "keys_inv kmax (cl_active s) (key_leave kmax (bucket_of user) s1)"
        by (rule key_leave_inv [OF ki1]) auto
      with k None g inv fr show ?thesis by (simp add: request_arrives_def conc_inv_keys)
    next
      case g: None
      let ?s2 = "snd (global_enter gmax s1)"
      have s2: "cl_byKey ?s2 = cl_byKey s1" "cl_active ?s2 = cl_active s1"
        "cl_inFlight ?s2 = (if limit_off gmax then cl_inFlight s1 else cl_inFlight s1 + 1)"
        using g by (auto simp: global_enter_def split: if_splits)
      have bound: "length (cl_active s) + 1 \<le> m" if "gmax = Num (of_nat m)" "0 < m" for m
        using g inv that limit_off_Num [OF that(2)] fr
        by (auto simp: global_enter_def conc_inv_keys at_limit_Num split: if_splits)
      have r: "snd (request_arrives kmax gmax now user s) = ?s2\<lparr>cl_active := cl_active s1 @ [bucket_of user]\<rparr>"
        using k None g s2(2) by (cases "global_enter gmax s1") (simp add: request_arrives_def)
      have "keys_inv kmax (cl_active s @ [bucket_of user]) (?s2\<lparr>cl_active := cl_active s1 @ [bucket_of user]\<rparr>)"
        by (rule keys_inv_cong [THEN iffD1, OF _ ki1]) (simp add: s2(1))
      with r inv fr s2 bound show ?thesis by (auto simp: conc_inv_keys)
    qed
  qed
qed

lemma finishes_inv:
  assumes inv: "conc_inv kmax gmax s"
  shows "conc_inv kmax gmax (request_finishes kmax gmax i s)"
proof (cases "i < length (cl_active s)")
  case True
  let ?act = "take i (cl_active s) @ drop (Suc i) (cl_active s)"
  let ?g = "global_leave gmax s"
  have g: "cl_byKey ?g = cl_byKey s" "cl_inFlight ?g = (if limit_off gmax then cl_inFlight s else cl_inFlight s - 1)"
    by (simp_all add: global_leave_def)
  have ki: "keys_inv kmax (cl_active s) s" using inv by (simp add: conc_inv_keys)
  have "keys_inv kmax (cl_active s) ?g"
    by (rule keys_inv_cong [THEN iffD1, OF _ ki]) (simp add: g(1))
  then have "keys_inv kmax ?act (key_leave kmax (cl_active s ! i) ?g)"
    by (rule key_leave_inv [OF _ nth_mem [OF True] count_list_remove [OF True]])
  then have "keys_inv kmax ?act (request_finishes kmax gmax i s)"
    by (rule keys_inv_cong [THEN iffD1, rotated]) (simp add: request_finishes_def True)
  moreover have "length ?act = length (cl_active s) - 1" using True by simp
  ultimately show ?thesis
    using True inv g(2) by (auto simp: conc_inv_keys request_finishes_def)
next
  case False
  with inv show ?thesis by (simp add: request_finishes_def)
qed

lemma conc_inv_init: "conc_inv kmax gmax cl_init"
  by (simp add: conc_inv_def cl_init_def)

lemma conc_reach_inv: "conc_reach kmax gmax s \<Longrightarrow> conc_inv kmax gmax s"
  by (induction rule: conc_reach.induct) (auto intro: conc_inv_init arrives_inv finishes_inv)

subsection \<open>Properties\<close>

text \<open>C5: requests in flight. Under every order of arrivals, refusals and ends, the counters are the
  numbers of running requests, no key keeps an entry after its last request ended, a request refused
  by the inner limiter gives its key slot back, and a positive whole limit is never exceeded,
  neither in all nor by one key.\<close>

theorem in_flight_is_bounded:
  assumes "conc_reach kmax gmax s"
  shows "cl_inFlight s = (if limit_off gmax then 0 else length (cl_active s)) \<and>
     (\<forall>k. map_of (cl_byKey s) k =
        (if limit_off kmax \<or> count_list (cl_active s) k = 0 then None
         else Some (count_list (cl_active s) k))) \<and>
     (\<forall>m. gmax = Num (of_nat m) \<and> 0 < m \<longrightarrow> length (cl_active s) \<le> m) \<and>
     (\<forall>m k. kmax = Num (of_nat m) \<and> 0 < m \<longrightarrow> count_list (cl_active s) k \<le> m)"
  using conc_reach_inv [OF assms] unfolding conc_inv_def .

text \<open>Three arrivals of one key under a per-key limit of two, then one end.\<close>

definition demo_conc :: limiters where
  "demo_conc =
     (let arr = (\<lambda>s. snd (request_arrives (Num 2) (Num 8) 5 (Some ''alice'') s))
      in request_finishes (Num 2) (Num 8) 0 (arr (arr (arr cl_init))))"

lemma demo_conc_reach: "conc_reach (Num 2) (Num 8) demo_conc"
  unfolding demo_conc_def Let_def by (intro conc_reach.intros)

theorem in_flight_is_bounded_witness:
  "cl_active demo_conc = [''alice''] \<and> cl_inFlight demo_conc = 1 \<and>
   map_of (cl_byKey demo_conc) ''alice'' = Some 1"
proof -
  have "cl_active demo_conc = [''alice'']" by code_simp
  with in_flight_is_bounded [OF demo_conc_reach] show ?thesis
    by (simp add: limit_off_def)
qed

text \<open>A limit that is not a number limits nothing. With \<open>NaN\<close>, which is what a malformed
  \<open>MAX_CONCURRENT_REQUESTS\<close> parses to, every arriving request runs.\<close>

theorem nan_limit_admits_all:
  "fst (request_arrives NaN NaN now user s) = None \<and>
   cl_active (snd (request_arrives NaN NaN now user s)) = cl_active s @ [bucket_of user]"
proof -
  have k: "fst (key_enter NaN now user s) = None"
    by (simp add: key_enter_effect at_limit_def)
  obtain s1 where k: "key_enter NaN now user s = (None, s1)" "cl_active s1 = cl_active s"
    using k key_enter_frame(2) [of NaN now user s] by (cases "key_enter NaN now user s") auto
  then show ?thesis
    by (simp add: request_arrives_def global_enter_def limit_off_def at_limit_def)
qed

end
