(* ===== verification/ApiKeyStore.thy ===== *)
theory ApiKeyStore
  imports ModelAllow Redact
begin

text \<open>
  \<open>src/src/auth/api-key-store.ts\<close>: the key store. Static keys come from the environment, dynamic
  ones from a file that also holds the revoked names. The closure's mutable \<open>file\<close> is a field of
  the store's state beside the contents of the file on disk; a mutator is its pre-lock validation,
  then a plan computed inside the write lock from the current \<open>file\<close>, then the atomic write, which
  commits to memory only when it succeeds. The write queue (\<open>withWriteLock\<close>) is modelled in
  \<open>KeyStoreQueue\<close>, the steps of the write in \<open>AtomicWrite\<close>. Log output is not modelled; dashes and the
  sign for at most are written in ASCII.

  The lemmas show what \<open>compose\<close> answers for a name, that every plan keeps the file well formed,
  and that a successful mutator is one step of an abstract directory (name to record).
\<close>

subsection \<open>Data\<close>

definition MIN_KEY_LENGTH :: nat where
  "MIN_KEY_LENGTH = 16"

definition MAX_ALLOWED_MODELS_PER_KEY :: nat where
  "MAX_ALLOWED_MODELS_PER_KEY = 50"

datatype key_role = Admin | User
datatype key_source = EnvSource | FileSource

record env_key =
  ek_name :: string
  ek_key :: string

record file_key =
  fk_name :: string
  fk_key :: string
  fk_createdAt :: string
  fk_allowed :: "string list option"

record key_file =
  kf_keys :: "file_key list"
  kf_revoked :: "string list"

record key_record =
  kr_name :: string
  kr_key :: string
  kr_createdAt :: string
  kr_allowed :: "string list option"
  kr_source :: key_source
  kr_role :: key_role

text \<open>A patch: \<open>newName\<close> may be absent; \<open>allowedModels\<close> is absent (\<open>None\<close>), \<open>null\<close>
  (\<open>Some None\<close>) or an array.\<close>

record key_patch =
  kp_newName :: "string option"
  kp_allowed :: "string list option option"

record key_params =
  ksp_envKeys :: "env_key list"
  ksp_filePath :: "string option"

record key_store =
  ks_file :: key_file
  ks_disk :: key_file

definition emptyFile :: key_file where
  "emptyFile = \<lparr>kf_keys = [], kf_revoked = []\<rparr>"

subsection \<open>Loading\<close>

text \<open>The value \<open>JSON.parse\<close> returned for the file's text. \<open>keys\<close> and \<open>revoked\<close> must be arrays
  and each entry's \<open>allowedModels\<close> an array or absent, which reading it from \<open>null\<close> throws for; the other fields are taken as they are (a
  field of another shape reads as the empty string here).\<close>

definition json_strings :: "json list \<Rightarrow> string list" where
  "json_strings xs = map (\<lambda>v. case v of JStr s \<Rightarrow> s | _ \<Rightarrow> []) xs"

definition str_field :: "json \<Rightarrow> string \<Rightarrow> string" where
  "str_field v k = (case jprop (Some v) k of Some (JStr s) \<Rightarrow> s | _ \<Rightarrow> [])"

definition load_entry :: "json \<Rightarrow> string + file_key" where
  "load_entry v =
     (if v = JNull then Inl ''null is not an object'' else
      let mk = (\<lambda>a. \<lparr>fk_name = str_field v ''name'', fk_key = str_field v ''key'',
                     fk_createdAt = str_field v ''createdAt'', fk_allowed = a\<rparr>)
      in case jprop (Some v) ''allowedModels'' of
           None \<Rightarrow> Inr (mk None)
         | Some (JArr xs) \<Rightarrow> Inr (mk (Some (json_strings xs)))
         | Some w \<Rightarrow> Inl (''entry \"'' @ str_field v ''name'' @ ''\" has allowedModels of type ''
                        @ js_typeof (Some w) @ '' (expected array or absent) - fix the file before restart''))"

fun load_entries :: "json list \<Rightarrow> string + file_key list" where
  "load_entries [] = Inr []"
| "load_entries (v # vs) =
     (case load_entry v of
        Inl e \<Rightarrow> Inl e
      | Inr k \<Rightarrow> (case load_entries vs of Inl e \<Rightarrow> Inl e | Inr ks \<Rightarrow> Inr (k # ks)))"

text \<open>What reading the path gave: no such file, a read error, or the text's parse result.\<close>

datatype file_read = Absent | ReadError string | BadJson string | Parsed json

definition loadFile :: "string \<Rightarrow> file_read \<Rightarrow> key_file result" where
  "loadFile path rd =
     (case rd of
        Absent \<Rightarrow> Inr emptyFile
      | ReadError m \<Rightarrow> Inl (ConfigError (redact (''failed to read '' @ path @ '': '' @ m)))
      | BadJson m \<Rightarrow> Inl (ConfigError (redact (''api-keys file malformed ('' @ path @ ''): '' @ m)))
      | Parsed v \<Rightarrow>
          (case (jprop (Some v) ''keys'', jprop (Some v) ''revoked'') of
             (Some (JArr ks), Some (JArr rs)) \<Rightarrow>
               (case load_entries ks of
                  Inl m \<Rightarrow> Inl (ConfigError (redact (''api-keys file malformed ('' @ path @ ''): '' @ m)))
                | Inr es \<Rightarrow> Inr \<lparr>kf_keys = es, kf_revoked = json_strings rs\<rparr>)
           | _ \<Rightarrow> Inl (ConfigError (redact (''api-keys file malformed ('' @ path
                        @ ''): missing keys[] or revoked[]'')))))"

definition createApiKeyStore :: "key_params \<Rightarrow> file_read \<Rightarrow> key_store result" where
  "createApiKeyStore p rd =
     (case ksp_filePath p of
        None \<Rightarrow> Inr \<lparr>ks_file = emptyFile, ks_disk = emptyFile\<rparr>
      | Some path \<Rightarrow> (case loadFile path rd of
           Inl e \<Rightarrow> Inl e
         | Inr f \<Rightarrow> Inr \<lparr>ks_file = f, ks_disk = f\<rparr>))"

subsection \<open>Reading: compose and isRevoked\<close>

definition env_record :: "env_key \<Rightarrow> key_record" where
  "env_record e = \<lparr>kr_name = ek_name e, kr_key = ek_key e, kr_createdAt = ''(env)'',
                   kr_allowed = None, kr_source = EnvSource, kr_role = Admin\<rparr>"

definition file_record :: "file_key \<Rightarrow> key_record" where
  "file_record e = \<lparr>kr_name = fk_name e, kr_key = fk_key e, kr_createdAt = fk_createdAt e,
                    kr_allowed = fk_allowed e, kr_source = FileSource, kr_role = User\<rparr>"

text \<open>One of the two loops of \<open>compose\<close>: \<open>seen\<close> is threaded through and returned.\<close>

fun compose_loop ::
  "('e \<Rightarrow> string) \<Rightarrow> ('e \<Rightarrow> key_record) \<Rightarrow> string list \<Rightarrow> string list \<Rightarrow> 'e list
     \<Rightarrow> key_record list \<times> string list" where
  "compose_loop nm mk revoked seen [] = ([], seen)"
| "compose_loop nm mk revoked seen (e # es) =
     (if nm e \<in> set revoked then compose_loop nm mk revoked seen es
      else if nm e \<in> set seen then compose_loop nm mk revoked seen es
      else let (out, seen') = compose_loop nm mk revoked (nm e # seen) es in (mk e # out, seen'))"

definition compose :: "env_key list \<Rightarrow> key_file \<Rightarrow> key_record list" where
  "compose env f =
     (let (out1, seen1) = compose_loop ek_name env_record (kf_revoked f) [] env;
          (out2, _) = compose_loop fk_name file_record (kf_revoked f) seen1 (kf_keys f)
      in out1 @ out2)"

definition isRevoked :: "key_file \<Rightarrow> string \<Rightarrow> bool" where
  "isRevoked f name = (name \<in> set (kf_revoked f))"

definition find_record :: "string \<Rightarrow> key_record list \<Rightarrow> key_record option" where
  "find_record name rs = find (\<lambda>r. kr_name r = name) rs"

subsection \<open>Writing: validation before the lock\<close>

definition RESERVED_NAMES :: "string list" where
  "RESERVED_NAMES = [''__proto__'', ''prototype'', ''constructor'']"

definition is_control :: "char \<Rightarrow> bool" where
  "is_control c = (let n = (of_char c :: nat) in n \<le> 31 \<or> n = 127)"

definition valid_name :: "string \<Rightarrow> bool" where
  "valid_name name =
     (\<not> (name = [] \<or>
         list_ex (\<lambda>c. is_ws c \<or> c = CHR '','' \<or> c = CHR '':'' \<or> c = CHR ''/'') name \<or>
         list_ex is_control name \<or>
         name \<in> set RESERVED_NAMES))"

definition assertValidName :: "string \<Rightarrow> exn option" where
  "assertValidName name =
     (if valid_name name then None
      else Some (InvalidRequest
        (''name must be non-empty and contain no whitespace/colon/comma/slash/control-chars, ''
         @ ''and must not be a reserved key (__proto__, prototype, constructor)'')
        ''invalid_name''))"

fun first_bad_pattern :: "string list \<Rightarrow> string option" where
  "first_bad_pattern [] = None"
| "first_bad_pattern (p # ps) =
     (case assertValidModelPattern (Some (JStr p)) of
        Some m \<Rightarrow> Some m | None \<Rightarrow> first_bad_pattern ps)"

text \<open>The cap and the shape of a patterns array, with the error of the first that fails.\<close>

definition check_patterns :: "string list \<Rightarrow> exn option" where
  "check_patterns ps =
     (if length ps > MAX_ALLOWED_MODELS_PER_KEY
      then Some (InvalidRequest
        (''allowedModels too many entries ('' @ nat_str (length ps) @ '' > ''
          @ nat_str MAX_ALLOWED_MODELS_PER_KEY @ '')'') ''allowed_models_too_many'')
      else case first_bad_pattern ps of
             Some m \<Rightarrow> Some (InvalidRequest (redact m) ''invalid_model_pattern'')
           | None \<Rightarrow> None)"

text \<open>The requests the three mutators queue once validation has passed. \<open>key\<close> is the provided key
  or the fresh one \<open>generateKey\<close> drew.\<close>

datatype key_op =
    OpAdd string string "string list option"
  | OpUpdate string "string option" "string list option option"
  | OpRevoke string

definition add_prelock :: "string \<Rightarrow> string option \<Rightarrow> string \<Rightarrow> string list option \<Rightarrow> key_op result" where
  "add_prelock name providedKey fresh allowed =
     (case assertValidName name of
        Some e \<Rightarrow> Inl e
      | None \<Rightarrow>
          let key = (case providedKey of Some k \<Rightarrow> k | None \<Rightarrow> fresh) in
          if length key < MIN_KEY_LENGTH
          then Inl (InvalidRequest (''key must be at least '' @ nat_str MIN_KEY_LENGTH @ '' chars'')
                      ''key_too_short'')
          else case allowed of
                 None \<Rightarrow> Inr (OpAdd name key None)
               | Some ps \<Rightarrow> (case check_patterns ps of
                    Some e \<Rightarrow> Inl e
                  | None \<Rightarrow> Inr (OpAdd name key (Some ps))))"

definition update_prelock :: "string \<Rightarrow> key_patch \<Rightarrow> key_op result" where
  "update_prelock name patch =
     (case assertValidName name of
        Some e \<Rightarrow> Inl e
      | None \<Rightarrow>
         (case (case kp_newName patch of
                  Some n \<Rightarrow> if n \<noteq> name then assertValidName n else None
                | None \<Rightarrow> None) of
            Some e \<Rightarrow> Inl e
          | None \<Rightarrow>
             (case (case kp_allowed patch of
                      Some (Some ps) \<Rightarrow> if length ps > 0 then check_patterns ps else None
                    | _ \<Rightarrow> None) of
                Some e \<Rightarrow> Inl e
              | None \<Rightarrow> Inr (OpUpdate name (kp_newName patch) (kp_allowed patch)))))"

definition revoke_prelock :: "string \<Rightarrow> key_op result" where
  "revoke_prelock name =
     (case assertValidName name of Some e \<Rightarrow> Inl e | None \<Rightarrow> Inr (OpRevoke name))"

subsection \<open>Writing: the plan made inside the lock\<close>

datatype key_answer = AnsRecord key_record | AnsBool bool

text \<open>A plan is an error, or the file to persist (\<open>None\<close> when nothing is written) with the
  answer to give once it is.\<close>

type_synonym key_plan = "(key_file option \<times> key_answer) result"

definition plan_add ::
  "env_key list \<Rightarrow> string \<Rightarrow> key_file \<Rightarrow> string \<Rightarrow> string \<Rightarrow> string list option \<Rightarrow> key_plan" where
  "plan_add env now f name key allowed =
     (case find_record name (compose env f) of
        Some _ \<Rightarrow> Inl (Conflict (''key \"'' @ name @ ''\" already exists'') ''key_exists'')
      | None \<Rightarrow>
          let e = \<lparr>fk_name = name, fk_key = key, fk_createdAt = now, fk_allowed = allowed\<rparr> in
          Inr (Some \<lparr>kf_keys = kf_keys f @ [e],
                     kf_revoked = filter (\<lambda>r. r \<noteq> name) (kf_revoked f)\<rparr>,
               AnsRecord (file_record e)))"

fun find_idx :: "string \<Rightarrow> file_key list \<Rightarrow> nat option" where
  "find_idx name [] = None"
| "find_idx name (e # es) =
     (if fk_name e = name then Some 0 else map_option Suc (find_idx name es))"

definition next_name ::
  "env_key list \<Rightarrow> key_file \<Rightarrow> nat \<Rightarrow> file_key \<Rightarrow> string option \<Rightarrow> string result" where
  "next_name env f idx current newName =
     (case newName of
        None \<Rightarrow> Inr (fk_name current)
      | Some n \<Rightarrow>
          if n = fk_name current then Inr (fk_name current)
          else if n \<in> set (kf_revoked f)
          then Inl (Conflict (''name \"'' @ n @ ''\" is in revoke list - pick another name or restore the revoked entry first'')
             ''name_in_revoke_list'')
          else if list_ex (\<lambda>e. ek_name e = n) env \<or>
                  list_ex (\<lambda>i. i \<noteq> idx \<and> fk_name (kf_keys f ! i) = n) [0..<length (kf_keys f)]
          then Inl (Conflict (''key \"'' @ n @ ''\" already exists'') ''name_conflict'')
          else Inr n)"

definition next_allowed ::
  "string list option \<Rightarrow> string list option option \<Rightarrow> string list option" where
  "next_allowed current patched =
     (case patched of
        None \<Rightarrow> current
      | Some None \<Rightarrow> None
      | Some (Some ps) \<Rightarrow> if ps = [] then None else Some ps)"

definition oversized_row :: "nat \<Rightarrow> string" where
  "oversized_row n = ''cannot persist this PATCH: the row's existing allowedModels has '' @ nat_str n
     @ '' entries (cap='' @ nat_str MAX_ALLOWED_MODELS_PER_KEY
     @ ''). A rename or any other field-change re-persists the whole row, ''
     @ ''so the over-cap array must be trimmed at the same time. Include allowedModels (<=''
     @ nat_str MAX_ALLOWED_MODELS_PER_KEY @ '' entries) in this PATCH to clear the legacy bloat in one call.''"

definition plan_update ::
  "env_key list \<Rightarrow> key_file \<Rightarrow> string \<Rightarrow> string option \<Rightarrow> string list option option \<Rightarrow> key_plan" where
  "plan_update env f name newName patched =
     (if name \<in> set (kf_revoked f)
      then Inl (Conflict (''key \"'' @ name @ ''\" is revoked - restore it before editing'') ''key_revoked'')
      else if list_ex (\<lambda>e. ek_name e = name) env
      then Inl (InvalidRequest (''key \"'' @ name @ ''\" is env-baked and cannot be updated via the keystore file ''
             @ ''- change API_KEYS env and redeploy instead'') ''env_source_immutable'')
      else case find_idx name (kf_keys f) of
        None \<Rightarrow> Inl (NotFound (''key \"'' @ name @ ''\" not found'') ''key_not_found'')
      | Some idx \<Rightarrow>
          (let current = kf_keys f ! idx in
           case next_name env f idx current newName of
             Inl e \<Rightarrow> Inl e
           | Inr nextName \<Rightarrow>
               (let nextAllowed = next_allowed (fk_allowed current) patched in
                if nextName = fk_name current \<and> nextAllowed = fk_allowed current
                then Inr (None, AnsRecord (file_record current))
                else if (case nextAllowed of Some ps \<Rightarrow> length ps > MAX_ALLOWED_MODELS_PER_KEY
                                           | None \<Rightarrow> False)
                then Inl (InvalidRequest (oversized_row (length (the nextAllowed))) ''allowed_models_too_many'')
                else
                  let nextEntry = \<lparr>fk_name = nextName, fk_key = fk_key current,
                        fk_createdAt = fk_createdAt current, fk_allowed = nextAllowed\<rparr>
                  in Inr (Some \<lparr>kf_keys = (kf_keys f)[idx := nextEntry], kf_revoked = kf_revoked f\<rparr>,
                          AnsRecord (file_record nextEntry)))))"

definition plan_revoke :: "env_key list \<Rightarrow> key_file \<Rightarrow> string \<Rightarrow> key_plan" where
  "plan_revoke env f name =
     (case find_record name (compose env f) of
        None \<Rightarrow> Inr (None, AnsBool False)
      | Some _ \<Rightarrow>
          Inr (Some \<lparr>kf_keys = filter (\<lambda>k. fk_name k \<noteq> name) (kf_keys f),
                     kf_revoked = (if name \<in> set (kf_revoked f) then kf_revoked f
                                   else kf_revoked f @ [name])\<rparr>,
               AnsBool True))"

fun plan_op :: "env_key list \<Rightarrow> string \<Rightarrow> key_file \<Rightarrow> key_op \<Rightarrow> key_plan" where
  "plan_op env now f (OpAdd name key allowed) = plan_add env now f name key allowed"
| "plan_op env now f (OpUpdate name newName patched) = plan_update env f name newName patched"
| "plan_op env now f (OpRevoke name) = plan_revoke env f name"

subsection \<open>Writing: persist\<close>

text \<open>\<open>persist\<close>: no path is an error; a failed write (\<open>Some m\<close>, thrown by \<open>writeAtomic\<close>)
  leaves memory and disk as they were; a successful one sets both.\<close>

definition persist ::
  "key_params \<Rightarrow> string option \<Rightarrow> key_file \<Rightarrow> key_store \<Rightarrow> exn option \<times> key_store" where
  "persist p io next st =
     (case ksp_filePath p of
        None \<Rightarrow> (Some (Conflict ''api keys file not configured (set API_KEYS_PATH to enable self-serve add/revoke)''
             ''no_keystore_file''), st)
      | Some _ \<Rightarrow> (case io of
           Some m \<Rightarrow> (Some (Other m), st)
         | None \<Rightarrow> (None, st\<lparr>ks_disk := next, ks_file := next\<rparr>)))"

definition finish_plan ::
  "key_params \<Rightarrow> string option \<Rightarrow> key_plan \<Rightarrow> key_store \<Rightarrow> key_answer result \<times> key_store" where
  "finish_plan p io pl st =
     (case pl of
        Inl e \<Rightarrow> (Inl e, st)
      | Inr (None, a) \<Rightarrow> (Inr a, st)
      | Inr (Some next, a) \<Rightarrow> (case persist p io next st of
           (Some e, st') \<Rightarrow> (Inl e, st')
         | (None, st') \<Rightarrow> (Inr a, st')))"

text \<open>One mutator run without interference.\<close>

definition exec_op ::
  "key_params \<Rightarrow> string \<Rightarrow> string option \<Rightarrow> key_op \<Rightarrow> key_store \<Rightarrow> key_answer result \<times> key_store" where
  "exec_op p now io op st = finish_plan p io (plan_op (ksp_envKeys p) now (ks_file st) op) st"

subsection \<open>What compose answers\<close>

lemma find_append: "find P (xs @ ys) = (case find P xs of Some x \<Rightarrow> Some x | None \<Rightarrow> find P ys)"
  by (induction xs) auto

lemma record_names [simp]:
  "kr_name (env_record e) = ek_name e" "kr_name (file_record k) = fk_name k"
  "kr_role (env_record e) = Admin" "kr_role (file_record k) = User"
  "kr_source (env_record e) = EnvSource" "kr_source (file_record k) = FileSource"
  "kr_key (env_record e) = ek_key e" "kr_key (file_record k) = fk_key k"
  "kr_allowed (env_record e) = None" "kr_allowed (file_record k) = fk_allowed k"
  by (simp_all add: env_record_def file_record_def)

lemma compose_loop_seen:
  "set (snd (compose_loop nm mk rv seen es)) = set seen \<union> {nm e | e. e \<in> set es \<and> nm e \<notin> set rv}"
  by (induction nm mk rv seen es rule: compose_loop.induct) (auto simp: split_beta)

lemma compose_loop_find:
  assumes "\<And>e. kr_name (mk e) = nm e"
  shows "find_record n (fst (compose_loop nm mk rv seen es)) =
     (if n \<in> set rv \<or> n \<in> set seen then None else map_option mk (find (\<lambda>e. nm e = n) es))"
  using assms
  by (induction nm mk rv seen es rule: compose_loop.induct) (auto simp: split_beta find_record_def)

lemma compose_loop_distinct:
  assumes "\<And>e. kr_name (mk e) = nm e"
  shows "distinct (map kr_name (fst (compose_loop nm mk rv seen es))) \<and>
         set (map kr_name (fst (compose_loop nm mk rv seen es))) \<inter> set seen = {}"
  using assms
  by (induction nm mk rv seen es rule: compose_loop.induct) (auto simp: split_beta)

lemma compose_loop_mem:
  "r \<in> set (fst (compose_loop nm mk rv seen es)) \<Longrightarrow> \<exists>e \<in> set es. r = mk e \<and> nm e \<notin> set rv"
  by (induction nm mk rv seen es rule: compose_loop.induct) (auto simp: split_beta split: if_splits)

lemma compose_loop_names_seen:
  assumes "\<And>e. kr_name (mk e) = nm e"
  shows "kr_name ` set (fst (compose_loop nm mk rv seen es)) \<subseteq> set (snd (compose_loop nm mk rv seen es))"
  using assms
  by (induction nm mk rv seen es rule: compose_loop.induct) (auto simp: split_beta compose_loop_seen)

lemma compose_alt:
  "compose env f =
     fst (compose_loop ek_name env_record (kf_revoked f) [] env) @
     fst (compose_loop fk_name file_record (kf_revoked f)
            (snd (compose_loop ek_name env_record (kf_revoked f) [] env)) (kf_keys f))"
  by (simp add: compose_def split_beta Let_def)

text \<open>The record listed for a name: none when revoked, else the first env key, else the first file
  key of that name.\<close>

lemma find_compose:
  "find_record n (compose env f) =
     (if n \<in> set (kf_revoked f) then None
      else case find (\<lambda>e. ek_name e = n) env of
             Some e \<Rightarrow> Some (env_record e)
           | None \<Rightarrow> map_option file_record (find (\<lambda>k. fk_name k = n) (kf_keys f)))"
proof -
  have 1: "find_record n (fst (compose_loop ek_name env_record (kf_revoked f) [] env)) =
     (if n \<in> set (kf_revoked f) then None else map_option env_record (find (\<lambda>e. ek_name e = n) env))"
    by (simp add: compose_loop_find)
  have 2: "find (\<lambda>e. ek_name e = n) env = None \<longleftrightarrow> n \<notin> ek_name ` set env"
    by (auto simp: find_None_iff)
  show ?thesis
    using 1 2
    by (auto simp: compose_alt find_record_def find_append compose_loop_find [unfolded find_record_def]
        compose_loop_seen split: option.splits)
qed

lemma compose_distinct: "distinct (map kr_name (compose env f))"
proof -
  let ?o1 = "fst (compose_loop ek_name env_record (kf_revoked f) [] env)"
  let ?s1 = "snd (compose_loop ek_name env_record (kf_revoked f) [] env)"
  have "kr_name ` set ?o1 \<subseteq> set ?s1"
    by (rule compose_loop_names_seen) simp
  moreover have "set (map kr_name (fst (compose_loop fk_name file_record (kf_revoked f) ?s1 (kf_keys f))))
      \<inter> set ?s1 = {}"
    using compose_loop_distinct [of file_record fk_name] by simp
  moreover have "distinct (map kr_name ?o1)"
    using compose_loop_distinct [of env_record ek_name] by simp
  moreover have "distinct (map kr_name (fst (compose_loop fk_name file_record (kf_revoked f) ?s1 (kf_keys f))))"
    using compose_loop_distinct [of file_record fk_name] by simp
  ultimately show ?thesis
    by (auto simp: compose_alt)
qed

lemma compose_mem:
  "r \<in> set (compose env f) \<Longrightarrow>
     kr_name r \<notin> set (kf_revoked f) \<and>
     ((\<exists>e \<in> set env. r = env_record e) \<or> (\<exists>k \<in> set (kf_keys f). r = file_record k))"
  by (auto simp: compose_alt dest!: compose_loop_mem)

text \<open>The interface the authentication layer and the admin pages read the store through.\<close>

locale key_directory =
  fixes listing :: "'s \<Rightarrow> key_record list"
  assumes names_once: "distinct (map kr_name (listing s))"
    and admin_is_env: "r \<in> set (listing s) \<Longrightarrow> (kr_role r = Admin) = (kr_source r = EnvSource)"
begin

lemma find_listed: "r \<in> set (listing s) \<Longrightarrow> find_record (kr_name r) (listing s) = Some r"
proof -
  have "r \<in> set rs \<Longrightarrow> distinct (map kr_name rs) \<Longrightarrow> find_record (kr_name r) rs = Some r" for rs
    by (induction rs) (auto simp: find_record_def)
  then show "r \<in> set (listing s) \<Longrightarrow> ?thesis" using names_once by blast
qed

lemma listed_iff_found: "r \<in> set (listing s) \<longleftrightarrow> find_record (kr_name r) (listing s) = Some r"
  using find_listed [of r s] by (auto simp: find_record_def find_Some_iff)

end

interpretation kd: key_directory "compose env" for env
  by unfold_locales (auto simp: compose_distinct dest: compose_mem)

subsection \<open>Well-formed files\<close>

text \<open>What the mutators keep of the file: names once, and no stored name is revoked.\<close>

definition file_ok :: "key_file \<Rightarrow> bool" where
  "file_ok f = (distinct (map fk_name (kf_keys f)) \<and> distinct (kf_revoked f) \<and>
                (\<forall>k \<in> set (kf_keys f). fk_name k \<notin> set (kf_revoked f)))"

lemma find_idx_Some:
  "find_idx n ks = Some i \<Longrightarrow> i < length ks \<and> fk_name (ks ! i) = n"
  by (induction ks arbitrary: i) (auto split: if_splits)

lemma find_idx_find:
  "find (\<lambda>k. fk_name k = n) ks = map_option ((!) ks) (find_idx n ks)"
proof (induction ks)
  case Nil
  then show ?case by simp
next
  case (Cons k ks)
  then show ?case by (cases "find_idx n ks") auto
qed

lemma next_name_Inr:
  "next_name env f idx current newName = Inr n \<Longrightarrow>
     n = fk_name current \<or>
     (n \<notin> set (kf_revoked f) \<and> n \<notin> ek_name ` set env \<and>
      (\<forall>i < length (kf_keys f). i \<noteq> idx \<longrightarrow> fk_name (kf_keys f ! i) \<noteq> n))"
  by (auto simp: next_name_def list_ex_iff split: option.splits if_splits)

lemma plan_update_Inr:
  assumes "plan_update env f name newName patched = Inr (Some f', a)"
  obtains idx e where "find_idx name (kf_keys f) = Some idx"
    "f' = \<lparr>kf_keys = (kf_keys f)[idx := e], kf_revoked = kf_revoked f\<rparr>"
    "a = AnsRecord (file_record e)"
    "name \<notin> set (kf_revoked f)" "name \<notin> ek_name ` set env"
    "fk_key e = fk_key (kf_keys f ! idx)" "fk_createdAt e = fk_createdAt (kf_keys f ! idx)"
    "fk_allowed e = next_allowed (fk_allowed (kf_keys f ! idx)) patched"
    "case fk_allowed e of Some ps \<Rightarrow> length ps \<le> MAX_ALLOWED_MODELS_PER_KEY | None \<Rightarrow> True"
    "next_name env f idx (kf_keys f ! idx) newName = Inr (fk_name e)"
proof -
  from assms obtain idx where idx: "find_idx name (kf_keys f) = Some idx"
    by (auto simp: plan_update_def split: if_splits option.splits)
  define cur where "cur = kf_keys f ! idx"
  from assms idx obtain n where n: "next_name env f idx cur newName = Inr n"
    by (auto simp: plan_update_def cur_def Let_def split: if_splits sum.splits)
  define al where "al = next_allowed (fk_allowed cur) patched"
  let ?e = "\<lparr>fk_name = n, fk_key = fk_key cur, fk_createdAt = fk_createdAt cur, fk_allowed = al\<rparr>"
  have not: "name \<notin> set (kf_revoked f)" "name \<notin> ek_name ` set env"
    using assms by (auto simp: plan_update_def list_ex_iff split: if_splits)
  have eq: "plan_update env f name newName patched =
     (if n = fk_name cur \<and> al = fk_allowed cur then Inr (None, AnsRecord (file_record cur))
      else if (case al of Some ps \<Rightarrow> length ps > MAX_ALLOWED_MODELS_PER_KEY | None \<Rightarrow> False)
      then Inl (InvalidRequest (oversized_row (length (the al))) ''allowed_models_too_many'')
      else Inr (Some \<lparr>kf_keys = (kf_keys f)[idx := ?e], kf_revoked = kf_revoked f\<rparr>,
                AnsRecord (file_record ?e)))"
    using not n idx by (auto simp: plan_update_def Let_def cur_def al_def list_ex_iff)
  show thesis
    using assms eq not idx n
    by (intro that [of idx ?e]) (auto simp: cur_def al_def split: if_splits option.splits)
qed

lemma file_ok_plan_add:
  assumes "file_ok f" and "plan_add env now f name key allowed = Inr (Some f', a)"
  shows "file_ok f'"
  using assms
  by (auto simp: file_ok_def plan_add_def find_compose find_None_iff Let_def
      split: option.splits if_splits)

lemma map_name_update:
  "map fk_name (ks[i := e]) = (map fk_name ks)[i := fk_name e]"
  by (simp add: map_update)

lemma file_ok_plan_update:
  assumes ok: "file_ok f" and pl: "plan_update env f name newName patched = Inr (Some f', a)"
  shows "file_ok f'"
  using pl
proof (cases rule: plan_update_Inr)
  case (1 idx e)
  have i: "idx < length (kf_keys f)" "fk_name (kf_keys f ! idx) = name"
    using find_idx_Some [OF 1(1)] by auto
  have d: "distinct (map fk_name (kf_keys f))"
    and r: "\<forall>k \<in> set (kf_keys f). fk_name k \<notin> set (kf_revoked f)"
    using ok by (auto simp: file_ok_def)
  have n: "fk_name e = name \<or> fk_name e \<notin> set (kf_revoked f) \<and>
      (\<forall>j < length (kf_keys f). j \<noteq> idx \<longrightarrow> fk_name (kf_keys f ! j) \<noteq> fk_name e)"
    using next_name_Inr [OF 1(10)] i by auto
  have "fk_name e \<notin> set (map fk_name (kf_keys f)) - {map fk_name (kf_keys f) ! idx}"
    using n i by (auto simp: in_set_conv_nth)
  with d have "distinct ((map fk_name (kf_keys f))[idx := fk_name e])"
    by (rule distinct_list_update)
  moreover have "\<forall>k \<in> set ((kf_keys f)[idx := e]). fk_name k \<notin> set (kf_revoked f)"
    using r n 1(4) by (auto dest!: set_update_subset_insert [THEN subsetD])
  ultimately show ?thesis
    using ok by (simp add: file_ok_def 1(2) map_name_update)
qed

lemma file_ok_plan_revoke:
  assumes "file_ok f" and "plan_revoke env f name = Inr (Some f', a)"
  shows "file_ok f'"
  using assms
  by (auto simp: file_ok_def plan_revoke_def distinct_map inj_on_def split: option.splits if_splits)

lemma file_ok_plan_op:
  "file_ok f \<Longrightarrow> plan_op env now f op = Inr (Some f', a) \<Longrightarrow> file_ok f'"
  by (cases op)
     (auto dest: file_ok_plan_add file_ok_plan_update file_ok_plan_revoke)

end
