(* ===== verification/KeyStoreQueue.thy ===== *)
theory KeyStoreQueue
  imports ApiKeyStore
begin

text \<open>
  \<open>withWriteLock\<close> of \<open>src/src/auth/api-key-store.ts\<close> and the key store's properties. A mutator call
  validates its input, is refused when 100 writers are pending, and otherwise is appended to the
  promise chain. The chain runs one link at a time: the link reads \<open>file\<close> and computes its plan
  (\<open>start\<close>), awaits the disk write, then commits, answers and lowers \<open>queueDepth\<close> (\<open>finish\<close>).
  Calls arrive at any time between. A link runs whether its predecessor resolved or rejected.
  \<open>kq_accepted\<close> and \<open>kq_log\<close> are history variables: the operations queued so far, and those
  completed, each with its clock reading and the outcome of its disk write.
\<close>

definition MAX_WRITE_QUEUE_DEPTH :: nat where
  "MAX_WRITE_QUEUE_DEPTH = 100"

record key_queue =
  kq_store :: key_store
  kq_chain :: "key_op list"
  kq_running :: "(string \<times> key_op \<times> key_plan) option"
  kq_depth :: nat
  kq_answers :: "key_answer result list"
  kq_refused :: "exn list"
  kq_accepted :: "key_op list"
  kq_log :: "(string \<times> string option \<times> key_op) list"

definition kq_init :: "key_store \<Rightarrow> key_queue" where
  "kq_init st = \<lparr>kq_store = st, kq_chain = [], kq_running = None, kq_depth = 0, kq_answers = [],
                 kq_refused = [], kq_accepted = [], kq_log = []\<rparr>"

definition kq_submit :: "key_op result \<Rightarrow> key_queue \<Rightarrow> key_queue" where
  "kq_submit r q =
     (case r of
        Inl e \<Rightarrow> q\<lparr>kq_refused := kq_refused q @ [e]\<rparr>
      | Inr op \<Rightarrow>
          if kq_depth q \<ge> MAX_WRITE_QUEUE_DEPTH
          then q\<lparr>kq_refused := kq_refused q @
                   [Conflict (''write queue full ('' @ nat_str MAX_WRITE_QUEUE_DEPTH @ '' pending) - retry shortly'')
                      ''write_queue_full'']\<rparr>
          else q\<lparr>kq_depth := kq_depth q + 1, kq_chain := kq_chain q @ [op],
                 kq_accepted := kq_accepted q @ [op]\<rparr>)"

definition kq_start :: "key_params \<Rightarrow> string \<Rightarrow> key_queue \<Rightarrow> key_queue" where
  "kq_start p now q =
     (case (kq_running q, kq_chain q) of
        (None, op # ops) \<Rightarrow>
          q\<lparr>kq_chain := ops,
            kq_running := Some (now, op, plan_op (ksp_envKeys p) now (ks_file (kq_store q)) op)\<rparr>
      | _ \<Rightarrow> q)"

definition kq_finish :: "key_params \<Rightarrow> string option \<Rightarrow> key_queue \<Rightarrow> key_queue" where
  "kq_finish p io q =
     (case kq_running q of
        None \<Rightarrow> q
      | Some (now, op, pl) \<Rightarrow>
          (let (ans, st) = finish_plan p io pl (kq_store q)
           in q\<lparr>kq_store := st, kq_running := None, kq_depth := kq_depth q - 1,
                kq_answers := kq_answers q @ [ans], kq_log := kq_log q @ [(now, io, op)]\<rparr>))"

inductive kq_step :: "key_params \<Rightarrow> key_queue \<Rightarrow> key_queue \<Rightarrow> bool" for p where
  submit: "kq_step p q (kq_submit r q)"
| start: "kq_step p q (kq_start p now q)"
| finish: "kq_step p q (kq_finish p io q)"

inductive kq_reach :: "key_params \<Rightarrow> key_store \<Rightarrow> key_queue \<Rightarrow> bool" for p st where
  init: "kq_reach p st (kq_init st)"
| step: "kq_reach p st q \<Longrightarrow> kq_step p q q' \<Longrightarrow> kq_reach p st q'"

inductive_cases kq_stepE: "kq_step p q q'"

subsection \<open>The sequential reference\<close>

text \<open>The mutators run one after the other, each atomically.\<close>

fun seq_run ::
  "key_params \<Rightarrow> (string \<times> string option \<times> key_op) list \<Rightarrow> key_store
     \<Rightarrow> key_answer result list \<times> key_store" where
  "seq_run p [] st = ([], st)"
| "seq_run p ((now, io, op) # l) st =
     (let (a, st1) = exec_op p now io op st; (as, st2) = seq_run p l st1 in (a # as, st2))"

lemma seq_run_snoc:
  "seq_run p (l @ [(now, io, op)]) st =
     (let (as, st1) = seq_run p l st; (a, st2) = exec_op p now io op st1 in (as @ [a], st2))"
  by (induction l arbitrary: st) (auto simp: split_beta Let_def)

definition kq_inv :: "key_params \<Rightarrow> key_store \<Rightarrow> key_queue \<Rightarrow> bool" where
  "kq_inv p st q \<longleftrightarrow>
     seq_run p (kq_log q) st = (kq_answers q, kq_store q) \<and>
     kq_depth q = length (kq_chain q) + (case kq_running q of None \<Rightarrow> 0 | Some _ \<Rightarrow> 1) \<and>
     kq_depth q \<le> MAX_WRITE_QUEUE_DEPTH \<and>
     kq_accepted q = map (\<lambda>(now, io, op). op) (kq_log q) @
        (case kq_running q of None \<Rightarrow> [] | Some (now, op, pl) \<Rightarrow> [op]) @ kq_chain q \<and>
     (case kq_running q of None \<Rightarrow> True
        | Some (now, op, pl) \<Rightarrow> pl = plan_op (ksp_envKeys p) now (ks_file (kq_store q)) op)"

lemma kq_inv_init: "kq_inv p st (kq_init st)"
  by (simp add: kq_inv_def kq_init_def)

lemma kq_inv_submit: "kq_inv p st q \<Longrightarrow> kq_inv p st (kq_submit r q)"
  by (auto simp: kq_inv_def kq_submit_def split: sum.splits option.splits)

lemma kq_inv_start: "kq_inv p st q \<Longrightarrow> kq_inv p st (kq_start p now q)"
  by (auto simp: kq_inv_def kq_start_def split: option.splits list.splits)

lemma kq_inv_finish: "kq_inv p st q \<Longrightarrow> kq_inv p st (kq_finish p io q)"
  by (auto simp: kq_inv_def kq_finish_def seq_run_snoc exec_op_def split_beta split: option.splits)

lemma kq_reach_inv: "kq_reach p st q \<Longrightarrow> kq_inv p st q"
  by (induction rule: kq_reach.induct)
     (auto simp: kq_inv_init elim!: kq_stepE intro: kq_inv_submit kq_inv_start kq_inv_finish)

text \<open>What every completed mutator keeps: memory and disk agree, and the file stays well formed.\<close>

definition store_ok :: "key_store \<Rightarrow> bool" where
  "store_ok st = (ks_disk st = ks_file st \<and> file_ok (ks_file st))"

lemma store_ok_finish_plan:
  assumes "store_ok st"
  shows "store_ok (snd (finish_plan p io (plan_op env now (ks_file st) op) st))"
proof (cases "plan_op env now (ks_file st) op")
  case (Inl e)
  with assms show ?thesis by (simp add: finish_plan_def)
next
  case (Inr r)
  with assms show ?thesis
    by (cases r)
       (auto simp: finish_plan_def persist_def store_ok_def dest: file_ok_plan_op split: option.splits)
qed

lemma store_ok_seq_run: "store_ok st \<Longrightarrow> store_ok (snd (seq_run p l st))"
proof (induction p l st rule: seq_run.induct)
  case (2 p now io op l st)
  have "store_ok (snd (exec_op p now io op st))"
    unfolding exec_op_def by (rule store_ok_finish_plan) (rule "2.prems")
  from "2.IH" [OF prod.collapse refl this] show ?case
    by (simp add: split_beta)
qed simp

subsection \<open>Properties\<close>

text \<open>C12: serialised writes. However calls, disk writes and their failures interleave, the state
  and the answers are those of the accepted mutators run one at a time in the order they were
  accepted; at most 100 are pending; memory agrees with disk; and the file keeps its names unique
  and disjoint from the revoke list.\<close>

theorem key_store_writes_serialize:
  assumes "kq_reach p st q" and "store_ok st"
  shows "seq_run p (kq_log q) st = (kq_answers q, kq_store q) \<and>
         prefix (map (\<lambda>(now, io, op). op) (kq_log q)) (kq_accepted q) \<and>
         length (kq_accepted q) - length (kq_log q) \<le> 100 \<and>
         store_ok (kq_store q)"
proof -
  have inv: "kq_inv p st q" using assms(1) by (rule kq_reach_inv)
  then have run: "seq_run p (kq_log q) st = (kq_answers q, kq_store q)"
    by (simp add: kq_inv_def)
  have "store_ok (kq_store q)"
    using store_ok_seq_run [OF assms(2), of p "kq_log q"] run by simp
  with inv run show ?thesis
    by (auto simp: kq_inv_def MAX_WRITE_QUEUE_DEPTH_def split: option.splits)
qed

definition demo_params :: key_params where
  "demo_params = \<lparr>ksp_envKeys = [\<lparr>ek_name = ''bob'', ek_key = ''0123456789abcdef''\<rparr>],
                  ksp_filePath = Some ''k.json''\<rparr>"

definition demo_store :: key_store where
  "demo_store = \<lparr>ks_file = emptyFile, ks_disk = emptyFile\<rparr>"

lemma demo_store_ok: "store_ok demo_store"
  by (simp add: store_ok_def demo_store_def emptyFile_def file_ok_def)

definition demo_add :: key_op where
  "demo_add = OpAdd ''alice'' ''aaaabbbbccccdddd'' None"

text \<open>Two concurrent adds of the same name: one is stored, the other answers a conflict.\<close>

definition demo_run :: key_queue where
  "demo_run = kq_finish demo_params None (kq_start demo_params ''t2''
     (kq_finish demo_params None (kq_submit (Inr demo_add) (kq_start demo_params ''t1''
        (kq_submit (Inr demo_add) (kq_init demo_store))))))"

lemma demo_run_reach: "kq_reach demo_params demo_store demo_run"
  unfolding demo_run_def
  by (intro kq_reach.step [OF _ kq_step.finish] kq_reach.step [OF _ kq_step.start]
      kq_reach.step [OF _ kq_step.submit] kq_reach.init)

lemma demo_run_keys: "map fk_name (kf_keys (ks_file (kq_store demo_run))) = [''alice'']"
  by code_simp

theorem key_store_writes_serialize_witness:
  "map fk_name (kf_keys (ks_file (kq_store demo_run))) = [''alice''] \<and> store_ok (kq_store demo_run) \<and>
   length (kq_log demo_run) = 2"
proof -
  have "length (kq_log demo_run) = 2" by code_simp
  then show ?thesis
    using key_store_writes_serialize [OF demo_run_reach demo_store_ok] demo_run_keys by simp
qed

text \<open>A mutator that fails, whether its plan is refused or its disk write throws, leaves the
  in-memory file and the file on disk exactly as they were; without a configured path nothing is
  ever written.\<close>

theorem failed_mutator_changes_nothing:
  "(fst (exec_op p now io op st) = Inl e \<longrightarrow> snd (exec_op p now io op st) = st) \<and>
   (ksp_filePath p = None \<longrightarrow> snd (exec_op p now io op st) = st)"
  by (auto simp: exec_op_def finish_plan_def persist_def split: sum.splits option.splits prod.splits)

theorem failed_mutator_changes_nothing_witness:
  "fst (exec_op demo_params ''t'' (Some ''ENOSPC'') demo_add demo_store) = Inl (Other ''ENOSPC'') \<and>
   snd (exec_op demo_params ''t'' (Some ''ENOSPC'') demo_add demo_store) = demo_store"
proof -
  have "fst (exec_op demo_params ''t'' (Some ''ENOSPC'') demo_add demo_store) = Inl (Other ''ENOSPC'')"
    by code_simp
  with failed_mutator_changes_nothing [of demo_params "''t''" "Some ''ENOSPC''" demo_add demo_store]
  show ?thesis by simp
qed

end
