(* ===== verification/KeyDirectory.thy ===== *)
theory KeyDirectory
  imports KeyStoreQueue
begin

text \<open>
  The key store against its abstract contract: a directory from names to records. The contract has
  no notion of two sources, of the revoke list or of the file's order; the theorems show that every
  successful mutator is a step of it, with one exception, which \<open>readding_a_baked_name\<close> states:
  adding a name that the environment bakes and the file revokes.
\<close>

definition view :: "env_key list \<Rightarrow> key_file \<Rightarrow> string \<Rightarrow> key_record option" where
  "view env f name = find_record name (compose env f)"

text \<open>The contract: the answer and the next directory, or \<open>None\<close> where it allows no success.\<close>

fun dir_spec ::
  "string \<Rightarrow> key_op \<Rightarrow> (string \<Rightarrow> key_record option)
     \<Rightarrow> (key_answer \<times> (string \<Rightarrow> key_record option)) option" where
  "dir_spec now (OpAdd name key allowed) m =
     (if m name = None
      then let r = \<lparr>kr_name = name, kr_key = key, kr_createdAt = now, kr_allowed = allowed,
                    kr_source = FileSource, kr_role = User\<rparr>
           in Some (AnsRecord r, m(name := Some r))
      else None)"
| "dir_spec now (OpUpdate name newName patched) m =
     (case m name of
        None \<Rightarrow> None
      | Some r \<Rightarrow>
          let n = (case newName of None \<Rightarrow> name | Some n \<Rightarrow> n);
              r' = r\<lparr>kr_name := n, kr_allowed := next_allowed (kr_allowed r) patched\<rparr>
          in if kr_source r = FileSource \<and> (n = name \<or> m n = None)
             then Some (AnsRecord r', (m(name := None))(n := Some r')) else None)"
| "dir_spec now (OpRevoke name) m = Some (AnsBool (m name \<noteq> None), m(name := None))"

lemma view_def2:
  "view env f n =
     (if n \<in> set (kf_revoked f) then None
      else case find (\<lambda>e. ek_name e = n) env of
             Some e \<Rightarrow> Some (env_record e)
           | None \<Rightarrow> map_option file_record (find (\<lambda>k. fk_name k = n) (kf_keys f)))"
  by (simp add: view_def find_compose)

lemma find_filter_other:
  "n \<noteq> name \<Longrightarrow> find (\<lambda>k. fk_name k = n) (filter (\<lambda>k. fk_name k \<noteq> name) ks) =
     find (\<lambda>k. fk_name k = n) ks"
  by (induction ks) auto

lemma view_none_keys:
  assumes "file_ok f" "view env f name = None" "name \<notin> ek_name ` set env"
  shows "find (\<lambda>k. fk_name k = name) (kf_keys f) = None"
proof -
  have "find (\<lambda>e. ek_name e = name) env = None"
    using assms(3) by (auto simp: find_None_iff)
  with assms show ?thesis
    by (auto simp: view_def2 file_ok_def find_None_iff split: if_splits option.splits)
qed

lemma refine_add:
  assumes ok: "file_ok f" and new: "name \<notin> ek_name ` set env"
    and pl: "plan_add env now f name key allowed = Inr (Some f', a)"
  shows "dir_spec now (OpAdd name key allowed) (view env f) = Some (a, view env f')"
proof -
  let ?e = "\<lparr>fk_name = name, fk_key = key, fk_createdAt = now, fk_allowed = allowed\<rparr>"
  from pl have none: "view env f name = None"
    and f': "f' = \<lparr>kf_keys = kf_keys f @ [?e], kf_revoked = filter (\<lambda>r. r \<noteq> name) (kf_revoked f)\<rparr>"
    and a: "a = AnsRecord (file_record ?e)"
    by (auto simp: plan_add_def view_def Let_def split: option.splits)
  have noenv: "find (\<lambda>e. ek_name e = name) env = None"
    using new by (auto simp: find_None_iff)
  have nokey: "find (\<lambda>k. fk_name k = name) (kf_keys f) = None"
    by (rule view_none_keys [OF ok none new])
  have "view env f' = (view env f)(name := Some (file_record ?e))"
    using noenv nokey
    by (auto simp: fun_eq_iff view_def2 f' find_append split: option.splits)
  then show ?thesis
    using none by (simp add: a file_record_def Let_def)
qed

lemma find_list_update:
  assumes "distinct (map fk_name ks)" "i < length ks" "fk_name (ks ! i) = name"
    and "fk_name e = name \<or> fk_name e \<notin> set (map fk_name ks)"
  shows "find (\<lambda>k. fk_name k = n) (ks[i := e]) =
     (if n = fk_name e then Some e else if n = name then None
      else find (\<lambda>k. fk_name k = n) ks)"
  using assms
proof (induction ks arbitrary: i)
  case Nil
  then show ?case by simp
next
  case (Cons k ks)
  show ?case
  proof (cases i)
    case 0
    with Cons.prems have k: "fk_name k = name" "name \<notin> fk_name ` set ks" by auto
    have "find (\<lambda>k. fk_name k = name) ks = None" using k(2) by (auto simp: find_None_iff)
    with 0 k show ?thesis by auto
  next
    case (Suc j)
    with Cons.prems have "name \<in> set (map fk_name ks)" by auto
    with Cons.prems have k: "fk_name k \<noteq> name" "fk_name k \<noteq> fk_name e" by auto
    have "find (\<lambda>k. fk_name k = n) (ks[j := e]) =
       (if n = fk_name e then Some e else if n = name then None else find (\<lambda>k. fk_name k = n) ks)"
      by (rule Cons.IH) (use Suc Cons.prems in auto)
    with Suc k show ?thesis by (auto split: if_splits)
  qed
qed

lemma refine_update:
  assumes ok: "file_ok f" and pl: "plan_update env f name newName patched = Inr (Some f', a)"
  shows "dir_spec now (OpUpdate name newName patched) (view env f) = Some (a, view env f')"
  using pl
proof (cases rule: plan_update_Inr)
  case (1 idx e)
  let ?k = "kf_keys f ! idx"
  have i: "idx < length (kf_keys f)" "fk_name ?k = name"
    using find_idx_Some [OF 1(1)] by auto
  have noenv: "find (\<lambda>e. ek_name e = name) env = None"
    using 1(5) by (auto simp: find_None_iff)
  have v: "view env f name = Some (file_record ?k)"
    using 1(1,4) noenv by (simp add: view_def2 find_idx_find)
  have n: "fk_name e = (case newName of None \<Rightarrow> name | Some n \<Rightarrow> n)"
    using 1(10) i by (auto simp: next_name_def split: option.splits if_splits)
  have free: "fk_name e = name \<or> fk_name e \<notin> set (kf_revoked f) \<and> fk_name e \<notin> ek_name ` set env \<and>
      (\<forall>j < length (kf_keys f). j \<noteq> idx \<longrightarrow> fk_name (kf_keys f ! j) \<noteq> fk_name e)"
    using next_name_Inr [OF 1(10)] i by auto
  have free': "fk_name e = name \<or> fk_name e \<notin> set (map fk_name (kf_keys f))"
    using free i by (auto simp: in_set_conv_nth)
  have d: "distinct (map fk_name (kf_keys f))" using ok by (simp add: file_ok_def)
  have noenv': "find (\<lambda>x. ek_name x = fk_name e) env = None"
    using free 1(5) by (auto simp: find_key_None)
  have nrev: "fk_name e \<notin> set (kf_revoked f)" using free 1(4) by auto
  have fresh: "fk_name e = name \<or> view env f (fk_name e) = None"
  proof (cases "fk_name e = name")
    case False
    with free' have "find (\<lambda>k. fk_name k = fk_name e) (kf_keys f) = None"
      by (simp add: find_key_None)
    with noenv' show ?thesis by (simp add: view_def2)
  qed simp
  have new: "view env f' = ((view env f)(name := None))(fk_name e := Some (file_record e))"
    unfolding fun_eq_iff
  proof
    fix n
    show "view env f' n = (((view env f)(name := None))(fk_name e := Some (file_record e))) n"
      using noenv noenv' nrev 1(4)
      by (auto simp: view_def2 1(2) find_list_update [OF d i free'] split: option.splits)
  qed
  have r: "file_record e = (file_record ?k)\<lparr>kr_name := fk_name e,
      kr_allowed := next_allowed (fk_allowed ?k) patched\<rparr>"
    using 1(6-8) by (simp add: file_record_def)
  show ?thesis
    using v fresh by (simp add: 1(3) new r [symmetric] n [symmetric] Let_def)
qed

lemma refine_update_noop:
  assumes pl: "plan_update env f name newName patched = Inr (None, a)"
  shows "dir_spec now (OpUpdate name newName patched) (view env f) = Some (a, view env f)"
proof -
  from pl obtain idx where idx: "find_idx name (kf_keys f) = Some idx"
    by (auto simp: plan_update_def split: if_splits option.splits)
  let ?k = "kf_keys f ! idx"
  have i: "fk_name ?k = name" using find_idx_Some [OF idx] by auto
  from pl have nr: "name \<notin> set (kf_revoked f)" "name \<notin> ek_name ` set env"
    by (auto simp: plan_update_def list_ex_iff split: if_splits)
  from pl idx nr have n: "next_name env f idx ?k newName = Inr name"
    and al: "next_allowed (fk_allowed ?k) patched = fk_allowed ?k"
    and a: "a = AnsRecord (file_record ?k)"
    using i by (auto simp: plan_update_def Let_def list_ex_iff split: if_splits sum.splits option.splits)
  have nn: "(case newName of None \<Rightarrow> name | Some n \<Rightarrow> n) = name"
    using n i by (auto simp: next_name_def split: option.splits if_splits)
  have noenv: "find (\<lambda>e. ek_name e = name) env = None"
    using nr(2) by (auto simp: find_None_iff)
  have v: "view env f name = Some (file_record ?k)"
    using nr noenv idx by (simp add: view_def2 find_idx_find)
  have "(file_record ?k)\<lparr>kr_name := name, kr_allowed := fk_allowed ?k\<rparr> = file_record ?k"
    using i by (simp add: file_record_def)
  with v show ?thesis
    by (auto simp: a nn al Let_def fun_eq_iff)
qed

lemma refine_revoke:
  assumes "plan_revoke env f name = Inr (r, a)"
  shows "dir_spec now (OpRevoke name) (view env f) =
           Some (a, view env (case r of None \<Rightarrow> f | Some f' \<Rightarrow> f'))"
  using assms
  by (auto simp: plan_revoke_def view_def2 fun_eq_iff find_filter_other find_compose
      split: option.splits if_splits)

lemma exec_op_Inr:
  assumes "exec_op p now io op st = (Inr a, st')"
  obtains "plan_op (ksp_envKeys p) now (ks_file st) op = Inr (None, a)" "st' = st"
    | f' where "plan_op (ksp_envKeys p) now (ks_file st) op = Inr (Some f', a)" "ks_file st' = f'"
  using assms
  by (auto simp: exec_op_def finish_plan_def persist_def split: sum.splits option.splits prod.splits)

subsection \<open>Properties\<close>

text \<open>C3: the key store implements the directory. A mutator that succeeds answers what the abstract
  directory answers and moves the listing exactly as the directory says: one name bound, rebound
  or dropped and every other name's record untouched; an update never changes a key, its creation
  time, source or role. Only adding a name that is also baked into the environment is excepted.\<close>

theorem key_store_implements_directory:
  assumes "file_ok (ks_file st)"
    and "exec_op p now io op st = (Inr a, st')"
    and "\<And>name key al. op = OpAdd name key al \<Longrightarrow> name \<notin> ek_name ` set (ksp_envKeys p)"
  shows "dir_spec now op (view (ksp_envKeys p) (ks_file st)) =
           Some (a, view (ksp_envKeys p) (ks_file st'))"
proof (cases op)
  case (OpAdd name key al)
  from assms(2) show ?thesis
    by (cases rule: exec_op_Inr)
       (use OpAdd assms(1,3) refine_add in \<open>auto simp: plan_add_def Let_def split: option.splits\<close>)
next
  case (OpUpdate name newName patched)
  from assms(2) show ?thesis
    by (cases rule: exec_op_Inr)
       (simp_all only: OpUpdate plan_op.simps refine_update_noop refine_update [OF assms(1)])
next
  case (OpRevoke name)
  from assms(2) show ?thesis
    by (cases rule: exec_op_Inr)
       (use OpRevoke refine_revoke [of "ksp_envKeys p" "ks_file st" name _ a now] in auto)
qed

text \<open>A store whose environment bakes \<open>bob\<close>, whose file revokes him and holds \<open>al\<close>.\<close>

definition store_bob :: key_store where
  "store_bob =
     (let f = \<lparr>kf_keys = [\<lparr>fk_name = ''al'', fk_key = ''kkkkllllmmmmnnnn'', fk_createdAt = ''t0'',
                          fk_allowed = None\<rparr>], kf_revoked = [''bob'']\<rparr>
      in \<lparr>ks_file = f, ks_disk = f\<rparr>)"

definition store_alan :: key_store where
  "store_alan =
     (let f = \<lparr>kf_keys = [\<lparr>fk_name = ''alan'', fk_key = ''kkkkllllmmmmnnnn'', fk_createdAt = ''t0'',
                          fk_allowed = None\<rparr>], kf_revoked = [''bob'']\<rparr>
      in \<lparr>ks_file = f, ks_disk = f\<rparr>)"

definition rename_al :: key_op where
  "rename_al = OpUpdate ''al'' (Some ''alan'') None"

lemma rename_al_run:
  "exec_op demo_params ''t'' None rename_al store_bob =
     (Inr (AnsRecord (file_record (hd (kf_keys (ks_file store_alan))))), store_alan)"
  by code_simp

lemma store_bob_ok: "file_ok (ks_file store_bob)"
  by (simp add: store_bob_def file_ok_def Let_def)

theorem key_store_implements_directory_witness:
  "dir_spec ''t'' rename_al (view (ksp_envKeys demo_params) (ks_file store_bob)) =
     Some (AnsRecord (file_record (hd (kf_keys (ks_file store_alan)))),
           view (ksp_envKeys demo_params) (ks_file store_alan))"
  by (rule key_store_implements_directory [OF store_bob_ok rename_al_run])
     (simp add: rename_al_def)

text \<open>The exception. Adding a name that the environment bakes and the file revokes succeeds and
  answers a user record with the new key; but what the listing then holds under that name is the
  environment's key, live again with the admin role. The new key authenticates nothing.\<close>

theorem readding_a_baked_name:
  assumes "find (\<lambda>e. ek_name e = name) (ksp_envKeys p) = Some e"
    and "name \<in> set (kf_revoked (ks_file st))" and "ksp_filePath p = Some path"
  shows "\<exists>r st'. exec_op p now None (OpAdd name key al) st = (Inr (AnsRecord r), st') \<and>
           kr_key r = key \<and> kr_role r = User \<and>
           view (ksp_envKeys p) (ks_file st) name = None \<and>
           view (ksp_envKeys p) (ks_file st') name = Some (env_record e)"
proof -
  have "view (ksp_envKeys p) (ks_file st) name = None"
    using assms(2) by (simp add: view_def2)
  with assms show ?thesis
    by (simp add: exec_op_def finish_plan_def persist_def plan_add_def view_def [symmetric]
        Let_def view_def2)
qed

theorem readding_a_baked_name_witness:
  "view (ksp_envKeys demo_params)
     (ks_file (snd (exec_op demo_params ''t'' None (OpAdd ''bob'' ''new-key-new-key-'' None) store_bob))) ''bob''
   = Some (env_record \<lparr>ek_name = ''bob'', ek_key = ''0123456789abcdef''\<rparr>)"
proof -
  have "find (\<lambda>e. ek_name e = ''bob'') (ksp_envKeys demo_params) =
      Some \<lparr>ek_name = ''bob'', ek_key = ''0123456789abcdef''\<rparr>"
    "''bob'' \<in> set (kf_revoked (ks_file store_bob))" "ksp_filePath demo_params = Some ''k.json''"
    by code_simp+
  from readding_a_baked_name [OF this, of "''t''" "''new-key-new-key-''" None]
  show ?thesis by auto
qed

subsection \<open>The persisted cap\<close>

text \<open>What the pre-lock checks guarantee of a queued operation's patterns.\<close>

fun op_patterns :: "key_op \<Rightarrow> string list" where
  "op_patterns (OpAdd _ _ (Some ps)) = ps"
| "op_patterns (OpUpdate _ _ (Some (Some ps))) = ps"
| "op_patterns _ = []"

lemma first_bad_pattern_None:
  "first_bad_pattern ps = None \<longleftrightarrow> (\<forall>p \<in> set ps. valid_pattern p)"
  by (induction ps) (auto simp: valid_pattern_def split: option.splits)

lemma check_patterns_None:
  "check_patterns ps = None \<longleftrightarrow>
     length ps \<le> MAX_ALLOWED_MODELS_PER_KEY \<and> (\<forall>p \<in> set ps. valid_pattern p)"
  by (auto simp: check_patterns_def first_bad_pattern_None [symmetric] split: option.splits)

definition pre_ok :: "key_op \<Rightarrow> bool" where
  "pre_ok op = (length (op_patterns op) \<le> MAX_ALLOWED_MODELS_PER_KEY \<and>
                (\<forall>p \<in> set (op_patterns op). valid_pattern p))"

lemma prelock_ok:
  "add_prelock name pk fresh al = Inr op \<Longrightarrow> pre_ok op"
  "update_prelock name patch = Inr op \<Longrightarrow> pre_ok op"
  "revoke_prelock name = Inr op \<Longrightarrow> pre_ok op"
  by (auto simp: add_prelock_def update_prelock_def revoke_prelock_def pre_ok_def Let_def
      check_patterns_None split: option.splits if_splits)

definition row_capped :: "file_key \<Rightarrow> bool" where
  "row_capped k = (case fk_allowed k of None \<Rightarrow> True
                                      | Some ps \<Rightarrow> length ps \<le> MAX_ALLOWED_MODELS_PER_KEY)"

definition row_valid :: "file_key \<Rightarrow> bool" where
  "row_valid k = (case fk_allowed k of None \<Rightarrow> True | Some ps \<Rightarrow> \<forall>p \<in> set ps. valid_pattern p)"

lemma plan_op_rows:
  assumes pre: "pre_ok op" and pl: "plan_op env now f op = Inr (Some f', a)"
    and k: "k \<in> set (kf_keys f')" "k \<notin> set (kf_keys f)"
  shows "row_capped k \<and> ((\<forall>k' \<in> set (kf_keys f). row_valid k') \<longrightarrow> row_valid k)"
proof (cases op)
  case (OpAdd name key al)
  with pre pl k show ?thesis
    by (cases al) (auto simp: plan_add_def pre_ok_def row_capped_def row_valid_def Let_def split: option.splits)
next
  case (OpRevoke name)
  with pl k show ?thesis by (auto simp: plan_revoke_def split: option.splits)
next
  case (OpUpdate name newName patched)
  with pl have "plan_update env f name newName patched = Inr (Some f', a)" by simp
  then show ?thesis
  proof (cases rule: plan_update_Inr)
    case (1 idx e)
    have ke: "k = e" using k 1(2) by (auto dest: set_update_subset_insert [THEN subsetD])
    have mem: "kf_keys f ! idx \<in> set (kf_keys f)"
      using find_idx_Some [OF 1(1)] by auto
    from ke 1(9) have "row_capped k" by (simp add: row_capped_def split: option.splits)
    moreover have "row_valid k" if "row_valid (kf_keys f ! idx)"
      using that 1(8) pre OpUpdate unfolding ke
      by (auto simp: row_valid_def next_allowed_def pre_ok_def split: option.splits if_splits)
    ultimately show ?thesis using mem by blast
  qed
qed

text \<open>Lenient at read, strict at write. Whatever the file held, a row that a mutator writes has
  at most 50 patterns, the cap re-check included for a rename that inherits an oversized legacy
  row; and a file whose rows hold only well-shaped patterns keeps that shape.\<close>

theorem written_rows_are_capped:
  assumes "pre_ok op" and "k \<in> set (kf_keys (ks_file (snd (exec_op p now io op st))))"
    and "k \<notin> set (kf_keys (ks_file st))"
  shows "row_capped k \<and> ((\<forall>k' \<in> set (kf_keys (ks_file st)). row_valid k') \<longrightarrow> row_valid k)"
proof -
  obtain f' a where "plan_op (ksp_envKeys p) now (ks_file st) op = Inr (Some f', a)"
      "k \<in> set (kf_keys f')"
    using assms(2,3)
    by (auto simp: exec_op_def finish_plan_def persist_def
        split: sum.splits option.splits prod.splits if_splits)
  with assms(1,3) show ?thesis by (blast dest: plan_op_rows)
qed

definition limit_al :: key_op where
  "limit_al = OpUpdate ''al'' None (Some (Some [''claude-*'']))"

theorem written_rows_are_capped_witness:
  "update_prelock ''al'' \<lparr>kp_newName = None, kp_allowed = Some (Some [''claude-*''])\<rparr> = Inr limit_al \<and>
   (\<exists>k \<in> set (kf_keys (ks_file (snd (exec_op demo_params ''t'' None limit_al store_bob)))).
      fk_allowed k = Some [''claude-*''] \<and> row_capped k \<and> row_valid k)"
proof -
  let ?k = "\<lparr>fk_name = ''al'', fk_key = ''kkkkllllmmmmnnnn'', fk_createdAt = ''t0'',
             fk_allowed = Some [''claude-*'']\<rparr>"
  have u: "update_prelock ''al'' \<lparr>kp_newName = None, kp_allowed = Some (Some [''claude-*''])\<rparr>
             = Inr limit_al" by code_simp
  have k: "kf_keys (ks_file (snd (exec_op demo_params ''t'' None limit_al store_bob))) = [?k]"
    by code_simp
  have old: "\<forall>k' \<in> set (kf_keys (ks_file store_bob)). row_valid k'"
    by (simp add: store_bob_def row_valid_def Let_def)
  have "row_capped ?k \<and> row_valid ?k"
    using written_rows_are_capped [OF prelock_ok(2) [OF u], of ?k demo_params "''t''" None store_bob] k old
    by (auto simp: store_bob_def Let_def)
  with u k show ?thesis by simp
qed

end
