(* ===== verification/App.thy ===== *)
theory App
  imports HandlerProps Concurrency RateLimit ApiKeyAuth
begin

text \<open>
  \<open>src/src/app.ts\<close>: how a request to \<open>/v1/messages\<close> passes the middlewares (authentication, the failure
  observer, the body limit, the per-IP, per-key and global limiters, the handler), and \<open>onError\<close>, which
  makes a response of whatever is thrown. The framework turns an exception into that response at the
  layer that threw, so an outer middleware sees a response. The body limit belongs to the framework:
  its verdict is an argument. The limiters end when the handler has returned its response, which for
  a streamed answer is before the body is read.
\<close>

subsection \<open>Errors\<close>

definition json_reply :: "(json \<Rightarrow> string) \<Rightarrow> nat \<Rightarrow> json \<Rightarrow> reply" where
  "json_reply stringify status v =
     \<lparr>re_status = status, re_headers = [(''content-type'', ''application/json'')], re_body = [stringify v]\<rparr>"

definition error_json :: "string \<Rightarrow> string \<Rightarrow> json" where
  "error_json code message = JObj [(''error'', JObj [(''type'', JStr code), (''message'', JStr message)])]"

definition error_header_step :: "string \<times> string \<Rightarrow> reply \<Rightarrow> reply" where
  "error_header_step nv r =
     (let key = to_lower (fst nv) in
      if key \<in> set FORBIDDEN_ERROR_HEADERS then r else r\<lparr>re_headers := hset key (snd nv) (re_headers r)\<rparr>)"

text \<open>The response, and the message for the server-error sink; \<open>html\<close> is the admin error page.\<close>

definition onError :: "(json \<Rightarrow> string) \<Rightarrow> string \<Rightarrow> string \<Rightarrow> exn \<Rightarrow> reply \<times> string option" where
  "onError stringify html path e =
     (case e of
        Domain d \<Rightarrow>
          if de_status d = 401 \<and> starts_with path ''/admin''
          then (\<lparr>re_status = 401, re_headers = [(''www-authenticate'', ''Basic realm=\"claude-for-you admin\"'')],
                 re_body = [''Unauthorized'']\<rparr>, None)
          else
            (fold error_header_step (case de_headers d of Some hs \<Rightarrow> hs | None \<Rightarrow> [])
               (json_reply stringify (de_status d) (error_json (de_code d) (de_message d))),
             if de_status d \<ge> 500 then Some (redact (''[5xx] '' @ de_code d @ '': '' @ de_message d)) else None)
      | Other m \<Rightarrow>
          ((if starts_with path ''/admin''
            then \<lparr>re_status = 500, re_headers = [(''content-type'', ''text/html; charset=UTF-8'')], re_body = [html]\<rparr>
            else json_reply stringify 500 (error_json ''internal_error'' ''internal error'')),
           Some (redact (''[unhandled] '' @ m))))"

definition too_large_reply :: "(json \<Rightarrow> string) \<Rightarrow> reply" where
  "too_large_reply stringify =
     json_reply stringify 413 (error_json ''invalid_request'' ''request body too large (>32MB)'')"

subsection \<open>The chain\<close>

record app_config =
  ac_handler :: handler_config
  ac_rate :: rate_params
  ac_perKey :: jsnum
  ac_global :: jsnum

record 'm app =
  ap_keys :: "key_record list"
  ap_rate :: "(string \<times> bucket) list"
  ap_limits :: limiters
  ap_observer :: observer
  ap_proxy :: "'m proxy"
  ap_serverErrors :: "string list"

record incoming =
  in_headers :: headers
  in_body :: "json option"
  in_tooLarge :: bool
  in_connected :: bool

definition request_of :: "auth_user \<Rightarrow> incoming \<Rightarrow> request" where
  "request_of u inc = \<lparr>rq_user = au_name u, rq_allowed = au_allowed u, rq_headers = in_headers inc,
     rq_body = in_body inc, rq_connected = in_connected inc\<rparr>"

text \<open>What lies inside the observer.\<close>

definition serve_inner ::
  "app_config \<Rightarrow> (nat \<Rightarrow> rat) \<Rightarrow> rat \<Rightarrow> string \<Rightarrow> 'm world \<Rightarrow> auth_user \<Rightarrow> incoming \<Rightarrow> 'm app
     \<Rightarrow> handled \<times> outbound list \<times> 'm app" where
  "serve_inner cfg tk roll uuid w u inc s =
     (if in_tooLarge inc then (Answered (too_large_reply (hc_stringify (ac_handler cfg))) False, [], s)
      else case rl_request (ac_rate cfg) (tk 11) (defaultClientIp (in_headers inc)) (ap_rate s) of
        (Some e, bs) \<Rightarrow> (Thrown e, [], s\<lparr>ap_rate := bs\<rparr>)
      | (None, bs) \<Rightarrow>
          (case request_arrives (ac_perKey cfg) (ac_global cfg) (tk 12) (Some (au_name u)) (ap_limits s) of
             (Some e, l) \<Rightarrow> (Thrown e, [], s\<lparr>ap_rate := bs, ap_limits := l\<rparr>)
           | (None, l) \<Rightarrow>
               (case messagesHandler (ac_handler cfg) tk roll uuid w (request_of u inc) (ap_proxy s) of
                  (r, sent, p) \<Rightarrow>
                    (r, sent, s\<lparr>ap_rate := bs, ap_proxy := p,
                       ap_limits := request_finishes (ac_perKey cfg) (ac_global cfg) (length (cl_active l) - 1) l\<rparr>))))"

definition reply_of :: "app_config \<Rightarrow> string \<Rightarrow> handled \<Rightarrow> reply \<times> bool \<times> string option" where
  "reply_of cfg html r =
     (case r of
        Answered rep logged \<Rightarrow> (rep, logged, None)
      | Thrown e \<Rightarrow> (case onError (hc_stringify (ac_handler cfg)) html ''/v1/messages'' e of (rep, m) \<Rightarrow> (rep, False, m)))"

definition sunk :: "string option \<Rightarrow> 'm app \<Rightarrow> 'm app" where
  "sunk m s = s\<lparr>ap_serverErrors := ap_serverErrors s @ (case m of Some x \<Rightarrow> [x] | None \<Rightarrow> [])\<rparr>"

definition serve_messages ::
  "app_config \<Rightarrow> (nat \<Rightarrow> rat) \<Rightarrow> rat \<Rightarrow> string \<times> string \<Rightarrow> string \<Rightarrow> 'm world \<Rightarrow> incoming \<Rightarrow> 'm app
     \<Rightarrow> reply \<times> outbound list \<times> 'm app" where
  "serve_messages cfg tk roll ids html w inc s =
     (case apiKeyMiddleware (ap_keys s) (in_headers inc) of
        Inl e \<Rightarrow> (case reply_of cfg html (Thrown e) of (rep, _, m) \<Rightarrow> (rep, [], sunk m s))
      | Inr u \<Rightarrow>
          (case serve_inner cfg tk roll (fst ids) w u inc s of (r, sent, s1) \<Rightarrow>
          (case reply_of cfg html r of (rep, logged, m) \<Rightarrow>
             let oc = \<lparr>oc_start = tk 10, oc_logged = logged, oc_status = re_status rep,
                       oc_body = Some (concat (re_body rep)), oc_user = Some (au_name u), oc_headers = in_headers inc\<rparr>;
                 s2 = sunk m s1;
                 (row, ob) = observe_outcome (hc_parse (ac_handler cfg)) (snd ids) (tk 13) oc (ap_observer s2);
                 p = (case row of Some e \<Rightarrow> writeLog e (ap_proxy s2) | None \<Rightarrow> ap_proxy s2)
             in (rep, sent, s2\<lparr>ap_observer := ob, ap_proxy := p\<rparr>))))"

subsection \<open>Error responses\<close>

definition clean_headers :: "reply \<Rightarrow> bool" where
  "clean_headers r = list_all (\<lambda>(n, v). n \<notin> set FORBIDDEN_ERROR_HEADERS) (re_headers r)"

lemma clean_step: "clean_headers r \<Longrightarrow> clean_headers (error_header_step nv r)"
  by (auto simp: clean_headers_def error_header_step_def hset_def Let_def list_all_iff dest!: in_set_update)

lemma error_headers_fold:
  "re_status (fold error_header_step hs r) = re_status r"
  "clean_headers r \<Longrightarrow> clean_headers (fold error_header_step hs r)"
proof -
  have "re_status (error_header_step nv r) = re_status r" for nv and r :: reply
    by (simp add: error_header_step_def Let_def)
  then show "re_status (fold error_header_step hs r) = re_status r" by (induction hs arbitrary: r) simp_all
  show "clean_headers r \<Longrightarrow> clean_headers (fold error_header_step hs r)"
    by (induction hs arbitrary: r) (simp_all add: clean_step)
qed

lemma clean_base:
  "clean_headers (json_reply stringify st v)"
  "clean_headers \<lparr>re_status = st, re_headers = [(''www-authenticate'', x)], re_body = b\<rparr>"
  "clean_headers \<lparr>re_status = st, re_headers = [(''content-type'', x)], re_body = b\<rparr>"
  by (simp_all add: clean_headers_def json_reply_def FORBIDDEN_ERROR_HEADERS_def)

lemma onError_clean: "clean_headers (fst (onError stringify html path e))"
  by (cases e) (simp_all add: onError_def clean_base error_headers_fold(2))

lemma onError_status: "re_status (fst (onError stringify html path e)) = (case exn_status e of Some st \<Rightarrow> st | None \<Rightarrow> 500)"
  by (cases e) (simp_all add: onError_def exn_status_def error_headers_fold(1) json_reply_def)

lemma onError_sink: "snd (onError stringify html path e) = Some x \<Longrightarrow> \<exists>m. x = redact m"
  by (cases e) (auto simp: onError_def split: if_splits)

text \<open>C25: error responses leak nothing. The response to an unexpected exception does not depend on its
  message, no error carries a framing, hop-by-hop or credential header, the status of a domain error
  is kept, and what is reported about a failure holds no credential.\<close>

theorem error_responses_leak_nothing:
  "fst (onError stringify html path (Other m)) = fst (onError stringify html path (Other m')) \<and>
   fst ` set (re_headers (fst (onError stringify html path e))) \<inter> set FORBIDDEN_ERROR_HEADERS = {} \<and>
   re_status (fst (onError stringify html path e)) = (case exn_status e of Some st \<Rightarrow> st | None \<Rightarrow> 500) \<and>
   \<not> (\<exists>x w'. snd (onError stringify html path e) = Some x \<and> secret w' \<and> sublist w' x)"
proof -
  have "fst ` set (re_headers (fst (onError stringify html path e))) \<inter> set FORBIDDEN_ERROR_HEADERS = {}"
    using onError_clean [of stringify html path e] unfolding clean_headers_def list_all_iff by fastforce
  moreover have "\<not> (\<exists>x w'. snd (onError stringify html path e) = Some x \<and> secret w' \<and> sublist w' x)"
    using onError_sink secret_removed by blast
  moreover have "fst (onError stringify html path (Other m)) = fst (onError stringify html path (Other m'))"
    by (simp add: onError_def)
  ultimately show ?thesis using onError_status by blast
qed

subsection \<open>Slots\<close>

lemma arrives_active:
  "request_arrives kmax gmax now user s = (Some e, l) \<Longrightarrow> cl_active l = cl_active s"
  "request_arrives kmax gmax now user s = (None, l) \<Longrightarrow> cl_active l = cl_active s @ [bucket_of user]"
  using key_enter_frame [of kmax now user s]
  by (auto simp: request_arrives_def global_enter_def split: prod.splits option.splits if_splits)

lemma finishes_active:
  "cl_active l = xs @ [k] \<Longrightarrow> cl_active (request_finishes kmax gmax (length (cl_active l) - 1) l) = xs"
  by (simp add: request_finishes_def)

lemma same_active_same_counts:
  assumes "conc_inv kmax gmax s" and "conc_inv kmax gmax t" and "cl_active t = cl_active s"
  shows "cl_inFlight t = cl_inFlight s \<and> key_count t k = key_count s k"
  using assms by (simp add: conc_inv_def key_count_def)

lemma sunk_frame [simp]:
  "ap_limits (sunk m s) = ap_limits s" "ap_proxy (sunk m s) = ap_proxy s" "ap_keys (sunk m s) = ap_keys s"
  "ap_observer (sunk m s) = ap_observer s" "ap_rate (sunk m s) = ap_rate s" "sunk None s = s"
  by (simp_all add: sunk_def)

lemma inner_limits:
  assumes "conc_reach (ac_perKey cfg) (ac_global cfg) (ap_limits s)"
    and "serve_inner cfg tk roll uuid w u inc s = (r, sent, s')"
  shows "conc_reach (ac_perKey cfg) (ac_global cfg) (ap_limits s') \<and> cl_active (ap_limits s') = cl_active (ap_limits s)"
proof (cases "in_tooLarge inc \<or> fst (rl_request (ac_rate cfg) (tk 11) (defaultClientIp (in_headers inc)) (ap_rate s)) \<noteq> None")
  case True
  with assms show ?thesis by (auto simp: serve_inner_def split: prod.splits option.splits if_splits)
next
  case False
  obtain x l where a: "request_arrives (ac_perKey cfg) (ac_global cfg) (tk 12) (Some (au_name u)) (ap_limits s) = (x, l)"
    by fastforce
  have l: "conc_reach (ac_perKey cfg) (ac_global cfg) l"
    using conc_reach.arrive [OF assms(1), of "tk 12" "Some (au_name u)"] a by simp
  show ?thesis
  proof (cases x)
    case (Some e)
    with False assms(2) a l arrives_active(1) [OF a [unfolded Some]] show ?thesis
      by (auto simp: serve_inner_def split: prod.splits option.splits)
  next
    case None
    from False assms(2) a None
    have "ap_limits s' = request_finishes (ac_perKey cfg) (ac_global cfg) (length (cl_active l) - 1) l"
      by (auto simp: serve_inner_def split: prod.splits option.splits)
    with l finishes_active [OF arrives_active(2) [OF a [unfolded None]]] show ?thesis
      by (auto intro: conc_reach.finish)
  qed
qed


definition demo_app :: "unit app" where
  "demo_app = \<lparr>ap_keys = [], ap_rate = [], ap_limits = cl_init, ap_observer = createOutcomeObserver 0,
     ap_proxy = demo_proxy 50, ap_serverErrors = []\<rparr>"

definition demo_app_config :: app_config where
  "demo_app_config = \<lparr>ac_handler = demo_config, ac_rate = \<lparr>rp_perSecond = 0, rp_burst = None\<rparr>, ac_perKey = Num 2, ac_global = Num 8\<rparr>"

definition demo_incoming :: incoming where
  "demo_incoming = \<lparr>in_headers = [], in_body = None, in_tooLarge = False, in_connected = True\<rparr>"


subsection \<open>Rows\<close>

definition attempts :: "'m proxy \<Rightarrow> nat" where
  "attempts p = length (px_rows p) + length (px_logErrors p)"

lemma writeLog_attempt:
  "attempts (writeLog e p) = Suc (attempts p)"
  "px_rows (writeLog e p) = px_rows p \<or> px_rows (writeLog e p) = px_rows p @ [stored_row e]"
  by (simp_all add: attempts_def writeLog_def store_record_def Let_def)

lemma handler_rows:
  assumes "messagesHandler cfg tk roll uuid w rq p = (r, sent, p')"
  shows "((\<exists>e. r = Thrown e) \<or> (\<exists>rep. r = Answered rep False)) \<and> px_rows p' = px_rows p \<and> px_logErrors p' = px_logErrors p \<or>
    (\<exists>rep e q. r = Answered rep True \<and> p' = writeLog e q \<and> px_rows q = px_rows p \<and> px_logErrors q = px_logErrors p \<and>
       ml_status e = re_status rep \<and> ml_userName e = rq_user rq)"
proof (cases rule: handler_cases [of cfg tk rq p roll uuid w])
  case (closed r')
  with assms show ?thesis by auto
next
  case (failed fw e sent' P s1)
  with assms preflight_effect [OF failed(1,2)] show ?thesis by auto
next
  case (answered fw ur r' sent' P s1 s2)
  obtain us e body where c: "complete_response cfg tk uuid rq fw ur (s1\<lparr>px_pool := P\<rparr>) =
       (Answered \<lparr>re_status = rp_status (ur_response ur), re_headers = forwardHeaders (rp_headers (ur_response ur)),
          re_body = body\<rparr> True,
        writeLog e (case us of Some u \<Rightarrow> onUsage cfg (tk 5) (rq_user rq) (fw_useCandidate fw) (ur_response ur) u
                                          (observe_upstream (tk 4) ur (s1\<lparr>px_pool := P\<rparr>))
                             | None \<Rightarrow> observe_upstream (tk 4) ur (s1\<lparr>px_pool := P\<rparr>)))"
    and e: "ml_userName e = rq_user rq" "ml_status e = rp_status (ur_response ur)"
    by (rule complete_shape [of cfg tk uuid rq fw ur "s1\<lparr>px_pool := P\<rparr>"])
  let ?q = "case us of Some u \<Rightarrow> onUsage cfg (tk 5) (rq_user rq) (fw_useCandidate fw) (ur_response ur) u
                                          (observe_upstream (tk 4) ur (s1\<lparr>px_pool := P\<rparr>))
                             | None \<Rightarrow> observe_upstream (tk 4) ur (s1\<lparr>px_pool := P\<rparr>)"
  have "px_rows ?q = px_rows p" "px_logErrors ?q = px_logErrors p"
    using preflight_effect [OF answered(1,2)] by (auto split: option.split)
  moreover have "p' = writeLog e ?q" and "r = Answered \<lparr>re_status = rp_status (ur_response ur),
      re_headers = forwardHeaders (rp_headers (ur_response ur)), re_body = body\<rparr> True"
    using assms answered(4,5) c by auto
  ultimately show ?thesis using e by (intro disjI2 exI [of _ e] exI [of _ ?q]) auto
qed

lemma inner_rows:
  assumes "serve_inner cfg tk roll uuid w u inc s = (r, sent, s')"
  shows "((\<exists>e. r = Thrown e) \<or> (\<exists>rep. r = Answered rep False)) \<and> px_rows (ap_proxy s') = px_rows (ap_proxy s) \<and>
      px_logErrors (ap_proxy s') = px_logErrors (ap_proxy s) \<or>
    (\<exists>rep e q. r = Answered rep True \<and> ap_proxy s' = writeLog e q \<and> px_rows q = px_rows (ap_proxy s) \<and>
       px_logErrors q = px_logErrors (ap_proxy s) \<and> ml_status e = re_status rep \<and> ml_userName e = au_name u)"
  "ap_observer s' = ap_observer s"
proof -
  obtain h p' out where m: "messagesHandler (ac_handler cfg) tk roll uuid w (request_of u inc) (ap_proxy s) = (h, out, p')"
    by (metis prod_cases3)
  have "(r = h \<and> ap_proxy s' = p') \<or>
      (((\<exists>e. r = Thrown e) \<or> (\<exists>rep. r = Answered rep False)) \<and> ap_proxy s' = ap_proxy s)"
    using assms by (auto simp: serve_inner_def m split: prod.splits option.splits if_splits)
  then show "((\<exists>e. r = Thrown e) \<or> (\<exists>rep. r = Answered rep False)) \<and> px_rows (ap_proxy s') = px_rows (ap_proxy s) \<and>
      px_logErrors (ap_proxy s') = px_logErrors (ap_proxy s) \<or>
    (\<exists>rep e q. r = Answered rep True \<and> ap_proxy s' = writeLog e q \<and> px_rows q = px_rows (ap_proxy s) \<and>
       px_logErrors q = px_logErrors (ap_proxy s) \<and> ml_status e = re_status rep \<and> ml_userName e = au_name u)"
    using handler_rows [OF m] by (elim disjE) (auto simp: request_of_def)
  show "ap_observer s' = ap_observer s"
    using assms by (auto simp: serve_inner_def split: prod.splits option.splits if_splits)
qed

lemma unauthenticated_status:
  assumes "apiKeyMiddleware entries h = Inl e"
  shows "\<exists>d. e = Domain d \<and> de_status d \<in> {400, 401}"
  using assms by (auto simp: apiKeyMiddleware_def error_defs split: option.splits if_splits)

lemma unauthenticated_request:
  assumes Inl: "apiKeyMiddleware (ap_keys s) (in_headers inc) = Inl e"
  shows "case serve_messages cfg tk roll ids html w inc s of (rep, sent, s') \<Rightarrow>
    sent = [] \<and> s' = s \<and> re_status rep \<in> {400, 401}"
proof -
  obtain d where d: "e = Domain d" "de_status d \<in> {400, 401}" using unauthenticated_status [OF Inl] by blast
  then have "snd (onError (hc_stringify (ac_handler cfg)) html ''/v1/messages'' e) = None"
    by (auto simp: onError_def)
  moreover have "re_status (fst (onError (hc_stringify (ac_handler cfg)) html ''/v1/messages'' e)) \<in> {400, 401}"
    using d by (simp add: onError_status exn_status_def)
  ultimately show ?thesis
    by (auto simp: serve_messages_def Inl reply_of_def split: prod.split)
qed

text \<open>What the observer adds.\<close>

lemma observer_rows:
  assumes "observe_outcome parse uid now oc ob = (row, ob')"
  shows "(oc_logged oc \<longrightarrow> row = None) \<and>
    (row \<noteq> None \<longrightarrow> ml_status (the row) = oc_status oc \<and> ml_userName (the row) = (case oc_user oc of Some n \<Rightarrow> n | None \<Rightarrow> ''-'')) \<and>
    (\<not> oc_logged oc \<and> 400 \<le> oc_status oc \<and> fst (admitWrite now ob) \<longrightarrow> row \<noteq> None)"
  using assms by (auto simp: observe_outcome_def outcome_record_def split: prod.splits bool.splits if_splits)


end
