(* ===== verification/Alerts.thy ===== *)
theory Alerts
  imports Cooldown
begin

text \<open>
  \<open>src/src/alerts.ts\<close> (webhook sinks, the cooldown wrapper) and \<open>src/src/alerts-store.ts\<close> (the webhook
  addresses). A sink's effect is the posts it makes, as pairs of address and body; a post that fails
  is swallowed by \<open>postJson\<close>, so its outcome does not matter. The stored file is read as the JSON it
  holds (\<open>None\<close>: absent, unreadable or not JSON). The file's two fields hold text, \<open>null\<close> or nothing:
  a value of another type makes \<open>url.trim\<close> throw at boot, which is \<open>Inl\<close>.
\<close>

subsection \<open>Sinks\<close>

definition MAX_DISCORD_CONTENT_LENGTH :: nat where "MAX_DISCORD_CONTENT_LENGTH = 1900"
definition MAX_SLACK_TEXT_LENGTH :: nat where "MAX_SLACK_TEXT_LENGTH = 3500"

type_synonym post = "string \<times> json"

definition truncated :: "nat \<Rightarrow> string \<Rightarrow> string" where
  "truncated m message = (if length message > m then take (m - 1) message @ ellipsis else message)"

definition createDiscordSink :: "string \<Rightarrow> string \<Rightarrow> post list" where
  "createDiscordSink url message =
     [(url, JObj [(''content'', JStr (truncated MAX_DISCORD_CONTENT_LENGTH message))])]"

definition createSlackSink :: "string \<Rightarrow> string \<Rightarrow> post list" where
  "createSlackSink url message =
     [(url, JObj [(''text'', JStr (truncated MAX_SLACK_TEXT_LENGTH message))])]"

definition noopSink :: "string \<Rightarrow> post list" where
  "noopSink message = []"

record alert_config =
  ac_discord :: "string option"
  ac_slack :: "string option"

definition createDynamicSink :: "alert_config \<Rightarrow> string \<Rightarrow> post list" where
  "createDynamicSink cfg message =
     (case ac_discord cfg of
        Some (c # cs) \<Rightarrow> createDiscordSink (c # cs) message
      | _ \<Rightarrow> (case ac_slack cfg of
           Some (c # cs) \<Rightarrow> createSlackSink (c # cs) message
         | _ \<Rightarrow> []))"

text \<open>\<open>withCooldown\<close>: the state is the time of the last message let through, 0 at first.\<close>

definition withCooldown :: "rat \<Rightarrow> rat \<Rightarrow> string \<Rightarrow> rat \<Rightarrow> string option \<times> rat" where
  "withCooldown cooldownMs now message lastAt =
     (if now - lastAt < cooldownMs then (None, lastAt) else (Some message, now))"

interpretation wc: cooldown_gate "withCooldown gap" "\<lambda>_ _ _. True" Some gap for gap
  by unfold_locales (auto simp: withCooldown_def)

subsection \<open>The address store\<close>

definition normalize :: "string option \<Rightarrow> string option" where
  "normalize url =
     (case url of None \<Rightarrow> None | Some u \<Rightarrow> if trim u = [] then None else Some (trim u))"

definition normalize_json :: "json \<Rightarrow> string option result" where
  "normalize_json v =
     (case v of JNull \<Rightarrow> Inr None | JStr u \<Rightarrow> Inr (normalize (Some u))
      | _ \<Rightarrow> Inl (Other ''url.trim is not a function''))"

definition choose_url :: "json option \<Rightarrow> string option \<Rightarrow> string option result" where
  "choose_url fileVal envVal =
     (case fileVal of None \<Rightarrow> Inr (normalize envVal) | Some v \<Rightarrow> normalize_json v)"

definition createAlertStore :: "json option \<Rightarrow> string option \<Rightarrow> string option \<Rightarrow> alert_config result" where
  "createAlertStore file envDiscord envSlack =
     (case choose_url (jprop file ''discordWebhookUrl'') envDiscord of
        Inl e \<Rightarrow> Inl e
      | Inr d \<Rightarrow> (case choose_url (jprop file ''slackWebhookUrl'') envSlack of
           Inl e \<Rightarrow> Inl e
         | Inr s \<Rightarrow> Inr \<lparr>ac_discord = d, ac_slack = s\<rparr>))"

definition opt_str :: "string option \<Rightarrow> json" where
  "opt_str u = (case u of None \<Rightarrow> JNull | Some s \<Rightarrow> JStr s)"

definition config_file :: "alert_config \<Rightarrow> json" where
  "config_file cfg =
     JObj [(''discordWebhookUrl'', opt_str (ac_discord cfg)), (''slackWebhookUrl'', opt_str (ac_slack cfg))]"

text \<open>A setter: memory changes first, then the file is written, which may throw.\<close>

definition persist_config ::
  "exn option \<Rightarrow> alert_config \<Rightarrow> alert_config \<times> json option \<Rightarrow> exn option \<times> alert_config \<times> json option" where
  "persist_config io cfg' st =
     (case io of None \<Rightarrow> (None, cfg', Some (config_file cfg')) | Some e \<Rightarrow> (Some e, cfg', snd st))"

definition setDiscord ::
  "exn option \<Rightarrow> string option \<Rightarrow> alert_config \<times> json option \<Rightarrow> exn option \<times> alert_config \<times> json option" where
  "setDiscord io url st = persist_config io ((fst st)\<lparr>ac_discord := normalize url\<rparr>) st"

definition setSlack ::
  "exn option \<Rightarrow> string option \<Rightarrow> alert_config \<times> json option \<Rightarrow> exn option \<times> alert_config \<times> json option" where
  "setSlack io url st = persist_config io ((fst st)\<lparr>ac_slack := normalize url\<rparr>) st"

lemma normalize_idem [simp]: "normalize (normalize u) = normalize u"
  by (cases u) (auto simp: normalize_def)

lemma choose_opt_str: "choose_url (Some (opt_str u)) e = Inr (normalize u)"
  by (cases u) (auto simp: choose_url_def normalize_json_def opt_str_def normalize_def)

text \<open>What an operator set, including a cleared address, outlives a restart with any environment.\<close>

lemma setting_survives_restart:
  assumes "normalize (ac_slack cfg) = ac_slack cfg" "setDiscord None url (cfg, f) = (r, cfg', f')"
  shows "createAlertStore f' envD envS = Inr cfg' \<and> ac_discord cfg' = normalize url"
  using assms choose_opt_str
  by (auto simp: setDiscord_def persist_config_def createAlertStore_def config_file_def jprop_def)

lemma truncated_bound: "0 < m \<Longrightarrow> length (truncated m s) \<le> m"
  by (auto simp: truncated_def ellipsis_def)

end
