(* ===== verification/AdminApi.thy ===== *)
theory AdminApi
  imports KeyDirectory ApiKeyAuth AccountPool Alerts
begin

text \<open>
  The state-changing half of the admin interface: \<open>src/src/admin/csrf.ts\<close>, \<open>keys.ts\<close>, \<open>oauth.ts\<close> and
  \<open>alerts.ts\<close>, behind the middlewares \<open>src/src/app.ts\<close> puts before them. A request carries its body as
  the JSON it parses to and as the form it decodes to, each \<open>None\<close> where that throws; a form field is
  \<open>None\<close> when it is a file. \<open>host_of\<close> is the host name \<open>new URL(referer)\<close> finds, if it parses.
\<close>

record admin_request =
  ar_method :: string
  ar_headers :: headers
  ar_protocol :: string
  ar_host :: string
  ar_name :: string
  ar_json :: "json option"
  ar_form :: "(string \<times> string option) list option"

subsection \<open>CSRF\<close>

definition SAFE_METHODS :: "string list" where
  "SAFE_METHODS = [''GET'', ''HEAD'', ''OPTIONS'']"

definition xf_host :: "admin_request \<Rightarrow> string option" where
  "xf_host r = (case hget (ar_headers r) ''x-forwarded-host'' of Some h \<Rightarrow> Some h | None \<Rightarrow> hget (ar_headers r) ''host'')"

text \<open>The first colon is dropped, as \<open>replace(':', '')\<close> does.\<close>

fun drop_colon :: "string \<Rightarrow> string" where
  "drop_colon [] = []"
| "drop_colon (c # cs) = (if c = CHR '':'' then cs else c # drop_colon cs)"

definition computeExpected :: "admin_request \<Rightarrow> string \<times> string" where
  "computeExpected r =
     ((case xf_host r of
         Some h \<Rightarrow> (case hget (ar_headers r) ''x-forwarded-proto'' of Some p \<Rightarrow> p | None \<Rightarrow> drop_colon (ar_protocol r)) @ ''://'' @ h
       | None \<Rightarrow> ar_protocol r @ ''//'' @ ar_host r),
      hd (split_str '':'' (case xf_host r of Some h \<Rightarrow> h | None \<Rightarrow> ar_host r)))"

definition refererHostname :: "(string \<Rightarrow> string option) \<Rightarrow> string option \<Rightarrow> string option" where
  "refererHostname host_of referer = (case referer of Some (c # cs) \<Rightarrow> host_of (c # cs) | _ \<Rightarrow> None)"

definition csrfGuard :: "(string \<Rightarrow> string option) \<Rightarrow> admin_request \<Rightarrow> exn option" where
  "csrfGuard host_of r =
     (if ar_method r \<in> set SAFE_METHODS then None
      else case hget (ar_headers r) ''sec-fetch-site'' of
        Some site \<Rightarrow>
          if site = ''same-origin'' \<or> site = ''none'' then None
          else Some (CsrfFailed (''csrf check failed: Sec-Fetch-Site='' @ site))
      | None \<Rightarrow>
          (case hget (ar_headers r) ''origin'' of
             None \<Rightarrow> None
           | Some origin \<Rightarrow>
               if origin = ''null''
               then (case refererHostname host_of (hget (ar_headers r) ''referer'') of
                       Some h \<Rightarrow> if h = snd (computeExpected r) then None
                                else Some (CsrfFailed ''csrf check failed: Origin=null'')
                     | None \<Rightarrow> Some (CsrfFailed ''csrf check failed: Origin=null''))
               else if origin \<noteq> fst (computeExpected r)
               then Some (CsrfFailed (''csrf check failed: Origin '' @ origin))
               else None))"

text \<open>The chain in front of every admin route.\<close>

definition admin_gate :: "(string \<Rightarrow> string option) \<Rightarrow> key_record list \<Rightarrow> admin_request \<Rightarrow> auth_user result" where
  "admin_gate host_of entries r =
     (case apiKeyMiddleware entries (ar_headers r) of
        Inl e \<Rightarrow> Inl e
      | Inr u \<Rightarrow> (case requireAdmin u of
           Some e \<Rightarrow> Inl e
         | None \<Rightarrow> (case csrfGuard host_of r of Some e \<Rightarrow> Inl e | None \<Rightarrow> Inr u)))"

subsection \<open>Bodies\<close>

definition is_json :: "admin_request \<Rightarrow> bool" where
  "is_json r = includes_str (case hget (ar_headers r) ''content-type'' of Some ct \<Rightarrow> ct | None \<Rightarrow> []) ''application/json''"

definition form_get :: "(string \<times> string option) list \<Rightarrow> string \<Rightarrow> string option" where
  "form_get form k = (case map_of form k of Some v \<Rightarrow> v | None \<Rightarrow> None)"

definition form_obj :: "(string \<times> string option) list \<Rightarrow> obj" where
  "form_obj form = fold (\<lambda>(k, v) out. put k (JStr (case v of Some s \<Rightarrow> s | None \<Rightarrow> [])) out) form []"

definition parseFormOrJson :: "admin_request \<Rightarrow> json option" where
  "parseFormOrJson r = (if is_json r then ar_json r else map_option (\<lambda>f. JObj (form_obj f)) (ar_form r))"

text \<open>The nonempty pieces between whitespace and commas.\<close>

fun model_words_go :: "string \<Rightarrow> string \<Rightarrow> string list" where
  "model_words_go acc [] = (if acc = [] then [] else [rev acc])"
| "model_words_go acc (c # cs) =
     (if is_ws c \<or> c = CHR '','' then (if acc = [] then [] else [rev acc]) @ model_words_go [] cs
      else model_words_go (c # acc) cs)"

definition model_words :: "string \<Rightarrow> string list" where
  "model_words s = model_words_go [] s"

definition all_strings :: "json list \<Rightarrow> bool" where
  "all_strings xs = list_all (\<lambda>v. case v of JStr _ \<Rightarrow> True | _ \<Rightarrow> False) xs"

subsection \<open>Keys\<close>

definition keyPreview :: "string \<Rightarrow> string" where
  "keyPreview key = take 4 key @ ellipsis @ slice_last 4 key"

definition allowed_json :: "string list option \<Rightarrow> json" where
  "allowed_json a = (case a of Some ps \<Rightarrow> JArr (map JStr ps) | None \<Rightarrow> JNull)"

definition source_json :: "key_source \<Rightarrow> json" where
  "source_json s = JStr (case s of EnvSource \<Rightarrow> ''env'' | FileSource \<Rightarrow> ''file'')"

definition keys_list :: "key_record list \<Rightarrow> json" where
  "keys_list entries = JObj [(''keys'', JArr (map (\<lambda>e. JObj
     [(''name'', JStr (kr_name e)), (''source'', source_json (kr_source e)), (''createdAt'', JStr (kr_createdAt e)),
      (''keyPreview'', JStr (keyPreview (kr_key e))), (''allowedModels'', allowed_json (kr_allowed e))]) entries))]"

definition create_request :: "admin_request \<Rightarrow> (string \<times> string option \<times> string list option) result" where
  "create_request r =
     (if is_json r then
        (if \<not> truthy (ar_json r) then Inl (InvalidRequest0 ''body must be JSON'')
         else
           let body = ar_json r; name = jprop body ''name''; key = as_str (jprop body ''key'') in
           (case (case jprop body ''allowedModels'' of
                    Some (JArr ms) \<Rightarrow>
                      if \<not> all_strings ms then Inl (InvalidRequest0 ''allowedModels must be an array of strings'')
                      else Inr (if length ms > 0 then Some (json_strings ms) else None)
                  | _ \<Rightarrow> Inr None) of
              Inl e \<Rightarrow> Inl e
            | Inr allowed \<Rightarrow> (case as_str name of
                 Some n \<Rightarrow> Inr (n, key, allowed)
               | None \<Rightarrow> Inl (InvalidRequest0 ''body must be { name: string, key?, allowedModels? }''))))
      else
        (case ar_form r of
           None \<Rightarrow> Inl (Other ''formData failed'')
         | Some form \<Rightarrow>
             let key = (case form_get form ''key'' of Some (c # cs) \<Rightarrow> Some (c # cs) | _ \<Rightarrow> None);
                 allowed = (case form_get form ''allowedModels'' of
                    Some s \<Rightarrow> if length (trim s) > 0 \<and> length (model_words s) > 0 then Some (model_words s) else None
                  | None \<Rightarrow> None)
             in (case form_get form ''name'' of
                   Some n \<Rightarrow> Inr (n, key, allowed)
                 | None \<Rightarrow> Inl (InvalidRequest0 ''body must be { name: string, key?, allowedModels? }''))))"

text \<open>The stores' mutators run without interference here; \<open>fresh\<close> is the key drawn, \<open>io\<close> the write.\<close>

definition keys_create ::
  "key_params \<Rightarrow> string \<Rightarrow> string \<Rightarrow> string option \<Rightarrow> admin_request \<Rightarrow> key_store \<Rightarrow> json result \<times> key_store" where
  "keys_create p now fresh io r st =
     (case create_request r of
        Inl e \<Rightarrow> (Inl e, st)
      | Inr (name, key, allowed) \<Rightarrow>
          (case add_prelock name key fresh allowed of
             Inl e \<Rightarrow> (Inl e, st)
           | Inr op \<Rightarrow> (case exec_op p now io op st of
                (Inl e, st') \<Rightarrow> (Inl e, st')
              | (Inr (AnsRecord rec), st') \<Rightarrow>
                  (Inr (JObj [(''name'', JStr (kr_name rec)), (''key'', JStr (kr_key rec)),
                     (''createdAt'', JStr (kr_createdAt rec)), (''allowedModels'', allowed_json (kr_allowed rec)),
                     (''note'', JStr ''Store this value securely - it will not be shown again.'')]), st')
              | (Inr (AnsBool _), st') \<Rightarrow> (Inl (Other ''unreachable''), st'))))"

text \<open>The patch of \<open>allowedModels\<close>: absent, \<open>null\<close> or an array of strings.\<close>

definition patch_allowed :: "json option \<Rightarrow> string list option option result" where
  "patch_allowed v =
     (case v of
        None \<Rightarrow> Inr None
      | Some JNull \<Rightarrow> Inr (Some None)
      | Some (JArr ms) \<Rightarrow>
          if all_strings ms then Inr (Some (Some (json_strings ms)))
          else Inl (InvalidRequest0 ''allowedModels must be an array of strings or null'')
      | _ \<Rightarrow> Inl (InvalidRequest0 ''allowedModels must be an array of strings or null''))"

definition update_request :: "admin_request \<Rightarrow> key_patch result" where
  "update_request r =
     (if ar_name r = [] then Inl (InvalidRequest0 ''missing name path parameter'')
      else if is_json r then
        (if \<not> truthy (ar_json r) then Inl (InvalidRequest0 ''body must be JSON'')
         else
           let name = jprop (ar_json r) ''name'' in
           if name \<noteq> None \<and> as_str name = None then Inl (InvalidRequest0 ''name must be a string'')
           else (case patch_allowed (jprop (ar_json r) ''allowedModels'') of
                   Inl e \<Rightarrow> Inl e
                 | Inr a \<Rightarrow> Inr \<lparr>kp_newName = as_str name, kp_allowed = a\<rparr>))
      else
        (case ar_form r of
           None \<Rightarrow> Inl (Other ''formData failed'')
         | Some form \<Rightarrow> Inr
             \<lparr>kp_newName = (case form_get form ''name'' of
                 Some n \<Rightarrow> if length n > 0 \<and> n \<noteq> ar_name r then Some n else None | None \<Rightarrow> None),
              kp_allowed = (case map_of form ''allowedModels'' of
                 Some (Some s) \<Rightarrow> Some (if length (model_words s) > 0 then Some (model_words s) else None)
               | _ \<Rightarrow> None)\<rparr>))"

definition keys_update ::
  "key_params \<Rightarrow> string \<Rightarrow> string option \<Rightarrow> admin_request \<Rightarrow> key_store \<Rightarrow> json result \<times> key_store" where
  "keys_update p now io r st =
     (case update_request r of
        Inl e \<Rightarrow> (Inl e, st)
      | Inr patch \<Rightarrow>
          (case update_prelock (ar_name r) patch of
             Inl e \<Rightarrow> (Inl e, st)
           | Inr op \<Rightarrow> (case exec_op p now io op st of
                (Inl e, st') \<Rightarrow> (Inl e, st')
              | (Inr (AnsRecord rec), st') \<Rightarrow>
                  (Inr (JObj [(''kind'', JStr ''updated''), (''name'', JStr (kr_name rec)),
                     (''createdAt'', JStr (kr_createdAt rec)), (''allowedModels'', allowed_json (kr_allowed rec))]), st')
              | (Inr (AnsBool _), st') \<Rightarrow> (Inl (Other ''unreachable''), st'))))"

definition keys_revoke ::
  "key_params \<Rightarrow> string \<Rightarrow> string option \<Rightarrow> admin_request \<Rightarrow> key_store \<Rightarrow> json result \<times> key_store" where
  "keys_revoke p now io r st =
     (if ar_name r = [] then (Inl (InvalidRequest0 ''missing name path parameter''), st)
      else case revoke_prelock (ar_name r) of
        Inl e \<Rightarrow> (Inl e, st)
      | Inr op \<Rightarrow> (case exec_op p now io op st of
           (Inl e, st') \<Rightarrow> (Inl e, st')
         | (Inr (AnsBool True), st') \<Rightarrow> (Inr (JObj [(''revoked'', JStr (ar_name r))]), st')
         | (Inr _, st') \<Rightarrow> (Inl (NotFound (''key '' @ ar_name r @ '' not found'') ''not_found''), st')))"

subsection \<open>OAuth tokens\<close>

definition asString :: "json option \<Rightarrow> string" where
  "asString v = (case as_str v of Some s \<Rightarrow> trim s | None \<Rightarrow> [])"

definition REFRESH_PREFIX :: string where "REFRESH_PREFIX = ''sk-ant-ort01-''"
definition ACCESS_PREFIX :: string where "ACCESS_PREFIX = ''sk-ant-oat01-''"

definition validate :: "json option \<Rightarrow> (string \<times> token_state) result" where
  "validate raw =
     (let refresh = asString (jprop raw ''refreshToken'');
          memberName = (if asString (jprop raw ''memberName'') = [] then ''default'' else asString (jprop raw ''memberName''));
          access = asString (jprop raw ''accessToken'');
          expiresRaw = asString (jprop raw ''expiresAt'');
          expiresAt = (if length expiresRaw > 0 then js_Number expiresRaw else Num 0)
      in if length refresh = 0 then Inl (InvalidRequest0 ''refreshToken is required'')
         else if \<not> starts_with refresh REFRESH_PREFIX then Inl (InvalidRequest0 ''refreshToken must start with the prefix'')
         else if length refresh < 32 then Inl (InvalidRequest0 ''refreshToken looks too short (<32 chars)'')
         else if length access > 0 \<and> \<not> starts_with access ACCESS_PREFIX
         then Inl (InvalidRequest0 ''accessToken must start with the prefix if provided'')
         else (case expiresAt of
                 Num q \<Rightarrow> if q < 0 then Inl (InvalidRequest0 ''expiresAt must be a non-negative number'')
                          else Inr (memberName, \<lparr>ts_access = access, ts_refresh = refresh, ts_expires = q\<rparr>)
               | _ \<Rightarrow> Inl (InvalidRequest0 ''expiresAt must be a non-negative number'')))"

text \<open>The handler, over a pool whose members are managers; success is the redirect.\<close>

definition oauth_replace :: "admin_request \<Rightarrow> oauth pool \<Rightarrow> exn option \<times> oauth pool" where
  "oauth_replace r P =
     (let raw = parseFormOrJson r in
      if \<not> truthy raw then (Some (InvalidRequest0 ''invalid request body''), P)
      else case validate raw of
        Inl e \<Rightarrow> (Some e, P)
      | Inr (name, state) \<Rightarrow> pool_replaceOAuth (replace_state state) name P)"

subsection \<open>Webhooks\<close>

definition DISCORD_PREFIXES :: "string list" where
  "DISCORD_PREFIXES = [''https://discord.com/api/webhooks/'', ''https://ptb.discord.com/api/webhooks/'',
     ''https://canary.discord.com/api/webhooks/'']"

definition SLACK_PREFIX :: string where "SLACK_PREFIX = ''https://hooks.slack.com/''"

definition readUrlField :: "json option \<Rightarrow> string result" where
  "readUrlField raw =
     (case jprop raw ''url'' of
        Some (JStr s) \<Rightarrow> Inr (trim s)
      | _ \<Rightarrow> Inl (InvalidRequest0 ''url field must be a string''))"

definition validateDiscord :: "string \<Rightarrow> exn option" where
  "validateDiscord url =
     (if length url = 0 then None
      else if \<not> list_ex (\<lambda>p. starts_with url p) DISCORD_PREFIXES
      then Some (InvalidRequest0 ''Discord webhook must start with https://discord.com/api/webhooks/'') else None)"

definition validateSlack :: "string \<Rightarrow> exn option" where
  "validateSlack url =
     (if length url = 0 then None
      else if \<not> starts_with url SLACK_PREFIX
      then Some (InvalidRequest0 ''Slack webhook must start with https://hooks.slack.com/'') else None)"

definition alerts_set ::
  "(string \<Rightarrow> exn option) \<Rightarrow> (exn option \<Rightarrow> string option \<Rightarrow> alert_config \<times> json option \<Rightarrow> exn option \<times> alert_config \<times> json option)
     \<Rightarrow> exn option \<Rightarrow> admin_request \<Rightarrow> alert_config \<times> json option \<Rightarrow> exn option \<times> alert_config \<times> json option" where
  "alerts_set check store io r st =
     (let raw = parseFormOrJson r in
      if \<not> truthy raw then (Some (InvalidRequest0 ''invalid request body''), st)
      else case readUrlField raw of
        Inl e \<Rightarrow> (Some e, st)
      | Inr url \<Rightarrow> (case check url of
           Some e \<Rightarrow> (Some e, st)
         | None \<Rightarrow> store io (if length url > 0 then Some url else None) st))"

definition alerts_setDiscord where "alerts_setDiscord = alerts_set validateDiscord setDiscord"
definition alerts_setSlack where "alerts_setSlack = alerts_set validateSlack setSlack"

end
