(* ===== verification/AdminProps.thy ===== *)
theory AdminProps
  imports AdminApi
begin

text \<open>What the admin interface guarantees, from the request to the authentication of later requests.\<close>

subsection \<open>The key routes behind their gate\<close>

datatype key_route = ListKeys | CreateKey | UpdateKey | RevokeKey

definition route_method :: "key_route \<Rightarrow> string" where
  "route_method rt = (case rt of ListKeys \<Rightarrow> ''GET'' | CreateKey \<Rightarrow> ''POST'' | UpdateKey \<Rightarrow> ''PATCH'' | RevokeKey \<Rightarrow> ''DELETE'')"

definition admin_keys ::
  "(string \<Rightarrow> string option) \<Rightarrow> key_params \<Rightarrow> string \<Rightarrow> string \<Rightarrow> string option \<Rightarrow> key_route \<Rightarrow> admin_request \<Rightarrow> key_store
     \<Rightarrow> json result \<times> key_store" where
  "admin_keys host_of p now fresh io rt r st =
     (if ar_method r \<noteq> route_method rt then (Inl (NotFound ''404 Not Found'' ''not_found''), st)
      else case admin_gate host_of (compose (ksp_envKeys p) (ks_file st)) r of
        Inl e \<Rightarrow> (Inl e, st)
      | Inr u \<Rightarrow> (case rt of
           ListKeys \<Rightarrow> (Inr (keys_list (compose (ksp_envKeys p) (ks_file st))), st)
         | CreateKey \<Rightarrow> keys_create p now fresh io r st
         | UpdateKey \<Rightarrow> keys_update p now io r st
         | RevokeKey \<Rightarrow> keys_revoke p now io r st))"

text \<open>The browser's own account of where a request came from.\<close>

definition cross_site :: "admin_request \<Rightarrow> bool" where
  "cross_site r = (case hget (ar_headers r) ''sec-fetch-site'' of
     Some site \<Rightarrow> site \<in> {''cross-site'', ''same-site''}
   | None \<Rightarrow> (case hget (ar_headers r) ''origin'' of
       Some origin \<Rightarrow> origin \<noteq> ''null'' \<and> origin \<noteq> fst (computeExpected r) | None \<Rightarrow> False))"


subsection \<open>A key's life\<close>

lemma compose_loop_snoc:
  "fst (compose_loop nm mk rv seen (es @ [e])) =
     fst (compose_loop nm mk rv seen es) @
     (if nm e \<in> set rv \<or> nm e \<in> set (snd (compose_loop nm mk rv seen es)) then [] else [mk e])"
  by (induction nm mk rv seen es rule: compose_loop.induct) (simp_all add: split_beta)

lemma added_is_last:
  assumes ok: "file_ok f" and new: "name \<notin> ek_name ` set env"
    and pl: "plan_add env now f name key allowed = Inr (Some f', a)"
  shows "\<exists>xs. compose env f' = xs @ [file_record \<lparr>fk_name = name, fk_key = key, fk_createdAt = now, fk_allowed = allowed\<rparr>]"
proof -
  from pl have none: "view env f name = None"
    and f': "f' = \<lparr>kf_keys = kf_keys f @ [\<lparr>fk_name = name, fk_key = key, fk_createdAt = now, fk_allowed = allowed\<rparr>],
                   kf_revoked = filter (\<lambda>r. r \<noteq> name) (kf_revoked f)\<rparr>"
    by (auto simp: plan_add_def view_def Let_def split: option.splits)
  have "name \<notin> fk_name ` set (kf_keys f)"
    using view_none_keys [OF ok none new] by (simp add: find_key_None)
  with new show ?thesis
    by (auto simp: compose_alt f' compose_loop_snoc compose_loop_seen)
qed

lemma create_succeeds:
  assumes "keys_create p now fresh io r st = (Inr ans, st')" and "create_request r = Inr (name, key, allowed)"
  shows "\<exists>a f'. plan_add (ksp_envKeys p) now (ks_file st) name (case key of Some k \<Rightarrow> k | None \<Rightarrow> fresh) allowed = Inr (Some f', a) \<and>
     ks_file st' = f' \<and> ks_disk st' = f' \<and> 16 \<le> length (case key of Some k \<Rightarrow> k | None \<Rightarrow> fresh)"
proof -
  obtain op where op: "add_prelock name key fresh allowed = Inr op"
    using assms by (auto simp: keys_create_def split: sum.splits)
  then have o: "op = OpAdd name (case key of Some k \<Rightarrow> k | None \<Rightarrow> fresh) allowed"
    and len: "16 \<le> length (case key of Some k \<Rightarrow> k | None \<Rightarrow> fresh)"
    by (auto simp: add_prelock_def Let_def MIN_KEY_LENGTH_def split: option.splits if_splits)
  have "\<exists>a. exec_op p now io op st = (Inr a, st')"
    using assms op by (auto simp: keys_create_def split: sum.splits prod.splits key_answer.splits)
  with len show ?thesis
    by (auto simp: o exec_op_def finish_plan_def persist_def plan_add_def Let_def
        split: sum.splits option.splits prod.splits)
qed


text \<open>A revoked name is out. Once the revoke route has answered, no request is authenticated as that
  name, on disk as in memory.\<close>

theorem revoked_name_never_authenticates:
  assumes "keys_revoke p now io r st = (Inr ans, st')" and "apiKeyMiddleware (compose (ksp_envKeys p) (ks_disk st')) h = Inr u"
  shows "au_name u \<noteq> ar_name r \<and> ks_file st' = ks_disk st'"
proof -
  obtain f' where f: "plan_revoke (ksp_envKeys p) (ks_file st) (ar_name r) = Inr (Some f', AnsBool True)"
      "ks_file st' = f'" "ks_disk st' = f'"
    using assms(1)
    by (auto simp: keys_revoke_def revoke_prelock_def exec_op_def finish_plan_def persist_def plan_revoke_def
        split: sum.splits option.splits prod.splits if_splits key_answer.splits bool.splits)
  then have "f' = \<lparr>kf_keys = filter (\<lambda>k. fk_name k \<noteq> ar_name r) (kf_keys (ks_file st)),
      kf_revoked = (if ar_name r \<in> set (kf_revoked (ks_file st)) then kf_revoked (ks_file st)
                    else kf_revoked (ks_file st) @ [ar_name r])\<rparr>"
    by (auto simp: plan_revoke_def split: option.splits)
  then have "ar_name r \<in> set (kf_revoked f')" by simp
  then have "find_record (ar_name r) (compose (ksp_envKeys p) f') = None" by (simp add: find_compose)
  with kd.authenticated_record [OF assms(2)] f show ?thesis by auto
qed

subsection \<open>The listing\<close>

text \<open>The listing shows no key. It is the same for any two directories that differ only in the middle of
  their keys: all but the first and the last four characters are withheld.\<close>

theorem listing_withholds_keys:
  assumes "\<And>k. take 4 (f k) = take 4 k" and "\<And>k. slice_last 4 (f k) = slice_last 4 k"
  shows "keys_list (map (\<lambda>r. r\<lparr>kr_key := f (kr_key r)\<rparr>) rs) = keys_list rs"
  using assms by (simp add: keys_list_def keyPreview_def)

definition starred :: "string \<Rightarrow> string" where
  "starred k = (if length k \<ge> 8 then take 4 k @ replicate (length k - 8) (CHR ''*'') @ drop (length k - 4) k else k)"

theorem listing_withholds_keys_witness:
  "keys_list (map (\<lambda>r. r\<lparr>kr_key := starred (kr_key r)\<rparr>) (compose (ksp_envKeys demo_params) emptyFile)) =
   keys_list (compose (ksp_envKeys demo_params) emptyFile)"
  by (rule listing_withholds_keys) (auto simp: starred_def slice_last_def)

subsection \<open>Fields read as absent\<close>

text \<open>A textual allowlist in a JSON body is ignored. The create route accepts a list as text in a form
  (and its error message offers text), but in JSON anything that is not an array counts as no
  restriction: the key is created with access to every model.\<close>

theorem textual_allowlist_is_ignored:
  assumes "is_json r" and "ar_json r = Some (JObj body)" and "get body ''name'' = Some (JStr name)"
    and "get body ''allowedModels'' = Some (JStr models)" and "keys_create p now fresh io r st = (Inr ans, st')"
  shows "\<exists>e \<in> set (kf_keys (ks_file st')). fk_name e = name \<and> fk_allowed e = None"
proof -
  have c: "create_request r = Inr (name, as_str (get body ''key''), None)"
    using assms(1-4) by (simp add: create_request_def truthy_def jprop_def)
  let ?k = "case as_str (get body ''key'') of Some k \<Rightarrow> k | None \<Rightarrow> fresh"
  have "kf_keys f' = kf_keys f @ [\<lparr>fk_name = name, fk_key = k, fk_createdAt = now, fk_allowed = None\<rparr>]"
    if "plan_add env now f name k None = Inr (Some f', a)" for env f f' a k
    using that by (auto simp: plan_add_def Let_def split: option.splits)
  with create_succeeds [OF assms(5) c] obtain f' where
    "kf_keys f' = kf_keys (ks_file st) @ [\<lparr>fk_name = name, fk_key = ?k, fk_createdAt = now, fk_allowed = None\<rparr>]"
    "ks_file st' = f'" by blast
  then show ?thesis by simp
qed

lemma numeric_expiry_is_ignored:
  assumes "jprop raw ''expiresAt'' = Some (JNum q)" and "validate raw = Inr (name, state)"
  shows "ts_expires state = 0"
  using assms by (auto simp: validate_def asString_def as_str_def Let_def split: if_splits)

subsection \<open>Webhooks\<close>

definition known_hook :: "string list \<Rightarrow> string option \<Rightarrow> bool" where
  "known_hook ps u = (case u of None \<Rightarrow> True | Some s \<Rightarrow> list_ex (starts_with s) ps)"

definition hooks_known :: "alert_config \<Rightarrow> bool" where
  "hooks_known cfg = (known_hook DISCORD_PREFIXES (ac_discord cfg) \<and> known_hook [SLACK_PREFIX] (ac_slack cfg))"

text \<open>A setting: which channel, what the write gives, the request.\<close>

fun set_hooks :: "(bool \<times> exn option \<times> admin_request) list \<Rightarrow> alert_config \<times> json option \<Rightarrow> alert_config \<times> json option" where
  "set_hooks [] st = st"
| "set_hooks ((discord, io, r) # es) st =
     set_hooks es (snd ((if discord then alerts_setDiscord else alerts_setSlack) io r st))"

lemma trimmed_url: "readUrlField raw = Inr url \<Longrightarrow> trim url = url"
  by (auto simp: readUrlField_def split: option.splits json.splits)

lemma set_discord_known:
  assumes "hooks_known (fst st)"
  shows "hooks_known (fst (snd (alerts_setDiscord io r st)))"
  using assms
  by (auto simp: alerts_setDiscord_def alerts_set_def setDiscord_def persist_config_def validateDiscord_def hooks_known_def
      known_hook_def normalize_def Let_def dest: trimmed_url split: sum.splits option.splits if_splits)

lemma set_slack_known:
  assumes "hooks_known (fst st)"
  shows "hooks_known (fst (snd (alerts_setSlack io r st)))"
  using assms
  by (auto simp: alerts_setSlack_def alerts_set_def setSlack_def persist_config_def validateSlack_def hooks_known_def
      known_hook_def normalize_def Let_def dest: trimmed_url split: sum.splits option.splits if_splits)


subsection \<open>Concrete requests\<close>

definition demo_create :: admin_request where
  "demo_create = \<lparr>ar_method = ''POST'',
     ar_headers = [(''content-type'', ''application/json''), (''x-api-key'', ''0123456789abcdef'')],
     ar_protocol = ''http:'', ar_host = ''h'', ar_name = [],
     ar_json = Some (JObj [(''name'', JStr ''alice''), (''key'', JStr ''aaaabbbbccccdddd''), (''allowedModels'', JStr ''x'')]),
     ar_form = None\<rparr>"

lemma demo_create_runs:
  "\<not> isl (fst (keys_create demo_params ''t'' [] None demo_create demo_store))"
  "create_request demo_create = Inr (''alice'', Some ''aaaabbbbccccdddd'', None)"
  "admin_keys (\<lambda>_. None) demo_params ''t'' [] None CreateKey demo_create demo_store =
   keys_create demo_params ''t'' [] None demo_create demo_store"
  "is_json demo_create"
  by code_simp+

lemma demo_created:
  "\<exists>ans. keys_create demo_params ''t'' [] None demo_create demo_store =
     (Inr ans, snd (keys_create demo_params ''t'' [] None demo_create demo_store))"
  using demo_create_runs(1) by (metis prod.collapse sum.collapse(2))

lemma demo_disk: "kf_keys (ks_file (snd (keys_create demo_params ''t'' [] None demo_create demo_store))) \<noteq> []"
  by code_simp



theorem textual_allowlist_is_ignored_witness:
  "\<exists>e \<in> set (kf_keys (ks_file (snd (keys_create demo_params ''t'' [] None demo_create demo_store)))).
     fk_name e = ''alice'' \<and> fk_allowed e = None"
proof -
  obtain ans where c: "keys_create demo_params ''t'' [] None demo_create demo_store =
     (Inr ans, snd (keys_create demo_params ''t'' [] None demo_create demo_store))" using demo_created by blast
  show ?thesis
    by (rule textual_allowlist_is_ignored [OF demo_create_runs(4) _ _ _ c, where body = "[(''name'', JStr ''alice''), (''key'', JStr ''aaaabbbbccccdddd''), (''allowedModels'', JStr ''x'')]" and models = "''x''"])
       (simp_all add: demo_create_def)
qed

definition demo_revoke :: admin_request where
  "demo_revoke = demo_create\<lparr>ar_method := ''DELETE'', ar_name := ''bob''\<rparr>"

theorem revoked_name_never_authenticates_witness:
  "ks_file (snd (keys_revoke demo_params ''t'' None demo_revoke
       (snd (keys_create demo_params ''t'' [] None demo_create demo_store)))) =
   ks_disk (snd (keys_revoke demo_params ''t'' None demo_revoke
       (snd (keys_create demo_params ''t'' [] None demo_create demo_store))))"
proof -
  let ?R = "keys_revoke demo_params ''t'' None demo_revoke (snd (keys_create demo_params ''t'' [] None demo_create demo_store))"
  have "\<not> isl (fst ?R)" by code_simp
  then obtain ans where r: "?R = (Inr ans, snd ?R)" by (metis prod.collapse sum.collapse(2))
  have a: "apiKeyMiddleware (compose (ksp_envKeys demo_params) (ks_disk (snd ?R))) [(''x-api-key'', ''aaaabbbbccccdddd'')] =
      Inr \<lparr>au_name = ''alice'', au_role = User, au_allowed = None\<rparr>" by code_simp
  from revoked_name_never_authenticates [OF r a] show ?thesis by blast
qed

definition demo_hook :: admin_request where
  "demo_hook = demo_create\<lparr>ar_json := Some (JObj [(''url'', JStr ''https://hooks.slack.com/services/T'')])\<rparr>"


end
