(* ===== verification/AtomicWrite.thy ===== *)
theory AtomicWrite
  imports Prelude
begin

text \<open>
  \<open>writeAtomic\<close>, as it stands in \<open>src/src/auth/api-key-store.ts\<close>, \<open>src/src/auth/oauth.ts\<close> and
  \<open>src/src/alerts-store.ts\<close>: the text is written to a file of its own and renamed over the old one. The other
  theories take this as one step with an outcome; here it is the steps the disk sees. The disk maps
  paths to a content and a mode; a write proceeds in pieces of any size, a rename is atomic. Any number of
  writers run interleaved, each step may fail, and a crash is an end of the steps at any point.
\<close>

type_synonym disk = "string \<Rightarrow> (string \<times> nat) option"

datatype write_pc = MakingDir | Opening | Writing nat | Renaming | Written | WriteFailed

record writer =
  wr_path :: string
  wr_tmp :: string
  wr_text :: string
  wr_pc :: write_pc

definition OWNER_ONLY :: nat where "OWNER_ONLY = 384"

definition tmp_name :: "string \<Rightarrow> string \<Rightarrow> string" where
  "tmp_name path random = path @ ''.'' @ random @ ''.tmp''"

definition writeAtomic :: "string \<Rightarrow> string \<Rightarrow> string \<Rightarrow> writer" where
  "writeAtomic path random content =
     \<lparr>wr_path = path, wr_tmp = tmp_name path random, wr_text = content, wr_pc = MakingDir\<rparr>"

text \<open>One step of a writer: whether the system call works, and how much of the text a write takes.\<close>

definition write_step :: "bool \<Rightarrow> nat \<Rightarrow> writer \<Rightarrow> disk \<Rightarrow> writer \<times> disk" where
  "write_step ok n w d =
     (case wr_pc w of
        MakingDir \<Rightarrow> (w\<lparr>wr_pc := (if ok then Opening else WriteFailed)\<rparr>, d)
      | Opening \<Rightarrow>
          if ok then (w\<lparr>wr_pc := Writing 0\<rparr>, d(wr_tmp w \<mapsto> ([], OWNER_ONLY))) else (w\<lparr>wr_pc := WriteFailed\<rparr>, d)
      | Writing k \<Rightarrow>
          if \<not> ok then (w\<lparr>wr_pc := WriteFailed\<rparr>, d)
          else let k' = min (length (wr_text w)) (k + Suc n)
               in (w\<lparr>wr_pc := (if k' = length (wr_text w) then Renaming else Writing k')\<rparr>,
                   d(wr_tmp w \<mapsto> (take k' (wr_text w), OWNER_ONLY)))
      | Renaming \<Rightarrow>
          if ok then (w\<lparr>wr_pc := Written\<rparr>, d(wr_path w := d (wr_tmp w), wr_tmp w := None))
          else (w\<lparr>wr_pc := WriteFailed\<rparr>, d)
      | _ \<Rightarrow> (w, d))"

text \<open>A schedule: which writer takes the next step, and how it goes.\<close>

fun write_run :: "(nat \<times> bool \<times> nat) list \<Rightarrow> writer list \<Rightarrow> disk \<Rightarrow> writer list \<times> disk" where
  "write_run [] ws d = (ws, d)"
| "write_run ((i, ok, n) # es) ws d =
     (if i < length ws then (let (w, d') = write_step ok n (ws ! i) d in write_run es (ws[i := w]) d')
      else write_run es ws d)"

subsection \<open>The invariant\<close>

text \<open>What a writer has put into its own file, and what the others see: the start or a whole text.\<close>

definition own_file :: "disk \<Rightarrow> writer \<Rightarrow> bool" where
  "own_file d w = (case wr_pc w of
       Writing k \<Rightarrow> d (wr_tmp w) = Some (take k (wr_text w), OWNER_ONLY)
     | Renaming \<Rightarrow> d (wr_tmp w) = Some (wr_text w, OWNER_ONLY)
     | _ \<Rightarrow> True)"

definition whole :: "disk \<Rightarrow> writer list \<Rightarrow> disk \<Rightarrow> string \<Rightarrow> bool" where
  "whole d0 ws d p \<longleftrightarrow> d p = d0 p \<or>
     (\<exists>w \<in> set ws. wr_path w = p \<and> wr_pc w = Written \<and> d p = Some (wr_text w, OWNER_ONLY))"

definition apart :: "writer list \<Rightarrow> bool" where
  "apart ws \<longleftrightarrow> distinct (map wr_tmp ws) \<and> set (map wr_tmp ws) \<inter> set (map wr_path ws) = {}"

definition disk_inv :: "disk \<Rightarrow> writer list \<Rightarrow> disk \<Rightarrow> bool" where
  "disk_inv d0 ws d \<longleftrightarrow> list_all (own_file d) ws \<and> (\<forall>p. p \<notin> set (map wr_tmp ws) \<longrightarrow> whole d0 ws d p)"

lemma step_names: "write_step ok n w d = (w', d') \<Longrightarrow>
    wr_path w' = wr_path w \<and> wr_tmp w' = wr_tmp w \<and> wr_text w' = wr_text w"
  by (auto simp: write_step_def Let_def split: write_pc.splits if_splits)

lemma step_disk:
  assumes "write_step ok n w d = (w', d')" "own_file d w" "wr_tmp w \<noteq> wr_path w"
  shows "own_file d' w'" "p \<noteq> wr_tmp w \<Longrightarrow> p \<noteq> wr_path w \<Longrightarrow> d' p = d p"
    "d' (wr_path w) = d (wr_path w) \<or> wr_pc w' = Written \<and> d' (wr_path w) = Some (wr_text w, OWNER_ONLY)"
    "wr_pc w = Written \<Longrightarrow> w' = w"
proof -
  note d = write_step_def own_file_def Let_def
  have eq: "w' = fst (write_step ok n w d)" "d' = snd (write_step ok n w d)" using assms(1) by simp_all
  show "own_file d' w'" using assms(2,3) unfolding eq by (cases "wr_pc w"; cases ok; simp add: d)
  show "p \<noteq> wr_tmp w \<Longrightarrow> p \<noteq> wr_path w \<Longrightarrow> d' p = d p" unfolding eq by (cases "wr_pc w"; cases ok; simp add: d)
  show "d' (wr_path w) = d (wr_path w) \<or> wr_pc w' = Written \<and> d' (wr_path w) = Some (wr_text w, OWNER_ONLY)"
  proof (cases "wr_pc w = Renaming \<and> ok")
    case True
    then show ?thesis using assms(2,3) unfolding eq by (simp add: d)
  next
    case False
    then have "d' (wr_path w) = d (wr_path w)"
      using assms(3) unfolding eq by (cases "wr_pc w") (simp_all add: d)
    then show ?thesis ..
  qed
  show "wr_pc w = Written \<Longrightarrow> w' = w" unfolding eq by (simp add: d)
qed

lemma write_step_inv:
  assumes "apart ws" "disk_inv d0 ws d" "i < length ws" "write_step ok n (ws ! i) d = (w', d')"
  shows "apart (ws[i := w'])" "disk_inv d0 (ws[i := w']) d'" "map wr_tmp (ws[i := w']) = map wr_tmp ws"
proof -
  let ?w = "ws ! i"
  note names = step_names [OF assms(4)]
  show tmps: "map wr_tmp (ws[i := w']) = map wr_tmp ws" using names assms(3) by (simp add: map_update list_update_same_conv)
  have paths: "map wr_path (ws[i := w']) = map wr_path ws" using names assms(3) by (simp add: map_update list_update_same_conv)
  show "apart (ws[i := w'])" using assms(1) unfolding apart_def tmps paths .
  have here: "?w \<in> set ws" using assms(3) by simp
  have ne: "wr_tmp ?w \<noteq> wr_path ?w" using assms(1) here unfolding apart_def by auto
  have own: "own_file d ?w" using assms(2) here by (simp add: disk_inv_def list_all_iff)
  note st = step_disk [OF assms(4) own ne]
  have "own_file d' v" if "j < length ws" "j \<noteq> i" "v = ws ! j" for j v
  proof -
    have "wr_tmp v \<noteq> wr_tmp ?w" using assms(1,3) that by (simp add: apart_def distinct_conv_nth)
    moreover have "wr_tmp v \<in> set (map wr_tmp ws)" "wr_path ?w \<in> set (map wr_path ws)"
      using that here by simp_all
    then have "wr_tmp v \<noteq> wr_path ?w" using assms(1) unfolding apart_def by (metis IntI empty_iff)
    ultimately have "d' (wr_tmp v) = d (wr_tmp v)" by (rule st(2))
    moreover have "own_file d v" using assms(2) that by (simp add: disk_inv_def list_all_length)
    ultimately show ?thesis by (simp add: own_file_def split: write_pc.splits)
  qed
  then have owns: "list_all (own_file d') (ws[i := w'])"
    using st(1) assms(3) by (auto simp: list_all_length nth_list_update)
  have "whole d0 (ws[i := w']) d' p" if p: "p \<notin> set (map wr_tmp ws)" for p
  proof -
    have W: "whole d0 ws d p" using assms(2) p by (simp add: disk_inv_def)
    have w': "w' \<in> set (ws[i := w'])" using assms(3) by (rule set_update_memI)
    show ?thesis
    proof (cases "d' p = d p")
      case True
      from W consider "d p = d0 p" | v where "v \<in> set ws" "wr_path v = p" "wr_pc v = Written" "d p = Some (wr_text v, OWNER_ONLY)"
        unfolding whole_def by blast
      then show ?thesis
      proof cases
        case 2
        then obtain j where j: "j < length ws" "v = ws ! j" by (auto simp: in_set_conv_nth)
        have "v \<in> set (ws[i := w'])"
        proof (cases "j = i")
          case True
          then have "w' = v" using st(4) 2(3) j(2) by simp
          with w' show ?thesis by simp
        next
          case False
          then have "ws[i := w'] ! j = v" using j by simp
          then show ?thesis using j(1) nth_mem [of j "ws[i := w']"] by simp
        qed
        with 2 True show ?thesis unfolding whole_def by auto
      qed (use True in \<open>simp add: whole_def\<close>)
    next
      case False
      have "p \<noteq> wr_tmp ?w" using p here by auto
      with False st(2) have pp: "p = wr_path ?w" by blast
      with False st(3) have "wr_pc w' = Written" "d' p = Some (wr_text ?w, OWNER_ONLY)" by auto
      with pp names w' show ?thesis unfolding whole_def by (intro disjI2 bexI [of _ w']) simp_all
    qed
  qed
  then show "disk_inv d0 (ws[i := w']) d'" using owns tmps by (simp add: disk_inv_def)
qed

lemma run_keeps_inv:
  "apart ws \<Longrightarrow> disk_inv d0 ws d \<Longrightarrow> write_run es ws d = (ws', d')
   \<Longrightarrow> disk_inv d0 ws' d' \<and> map wr_tmp ws' = map wr_tmp ws"
proof (induction es arbitrary: ws d)
  case (Cons e es)
  obtain i ok n where e: "e = (i, ok, n)" by (cases e) auto
  show ?case
  proof (cases "i < length ws")
    case True
    obtain w1 d1 where s: "write_step ok n (ws ! i) d = (w1, d1)" by fastforce
    note st = write_step_inv [OF Cons.prems(1,2) True s]
    show ?thesis using Cons.IH [OF st(1,2)] Cons.prems(3) True s st(3) by (simp add: e)
  next
    case False
    then show ?thesis using Cons by (simp add: e)
  qed
qed simp

lemma run_texts: "write_run es ws d = (ws', d') \<Longrightarrow>
    map wr_path ws' = map wr_path ws \<and> map wr_text ws' = map wr_text ws"
proof (induction es arbitrary: ws d)
  case (Cons e es)
  obtain i ok n where e: "e = (i, ok, n)" by (cases e) auto
  show ?case
  proof (cases "i < length ws")
    case True
    obtain w1 d1 where s: "write_step ok n (ws ! i) d = (w1, d1)" by fastforce
    have "map wr_path (ws[i := w1]) = map wr_path ws" "map wr_text (ws[i := w1]) = map wr_text ws"
      using step_names [OF s] True by (simp_all add: map_update list_update_same_conv)
    with Cons.IH [of "ws[i := w1]" d1] Cons.prems True s show ?thesis by (simp add: e)
  next
    case False
    then show ?thesis using Cons by (simp add: e)
  qed
qed simp

text \<open>Alone and with every call succeeding, a writer is done after four steps and one per character.\<close>

definition succeeding :: "nat list \<Rightarrow> (nat \<times> bool \<times> nat) list" where
  "succeeding ns = map (\<lambda>n. (0, True, n)) ns"

lemma succeeding_simps [simp]: "succeeding [] = []" "succeeding (n # ns) = (0, True, n) # succeeding ns"
  by (simp_all add: succeeding_def)

lemma written_stays: "wr_pc w = Written \<Longrightarrow> write_run (succeeding ns) [w] d = ([w], d)"
  by (induction ns) (simp_all add: write_step_def)

definition completes :: "writer \<Rightarrow> nat list \<Rightarrow> disk \<Rightarrow> bool" where
  "completes w ns d \<longleftrightarrow> (case write_run (succeeding ns) [w] d of
     (ws, d') \<Rightarrow> ws = [w\<lparr>wr_pc := Written\<rparr>] \<and> d' (wr_path w) = Some (wr_text w, OWNER_ONLY))"

lemma renaming_completes:
  assumes "wr_pc w = Renaming" "d (wr_tmp w) = Some (wr_text w, OWNER_ONLY)" "wr_tmp w \<noteq> wr_path w" "ns \<noteq> []"
  shows "completes w ns d"
  using assms by (cases ns) (simp_all add: completes_def write_step_def written_stays)

lemma writing_completes:
  "wr_pc w = Writing k \<Longrightarrow> wr_tmp w \<noteq> wr_path w \<Longrightarrow> Suc (length (wr_text w) - k) < length ns \<Longrightarrow> completes w ns d"
proof (induction ns arbitrary: w k d)
  case (Cons n ns w k d)
  let ?k = "min (length (wr_text w)) (k + Suc n)"
  let ?d = "d(wr_tmp w \<mapsto> (take ?k (wr_text w), OWNER_ONLY))"
  let ?w = "w\<lparr>wr_pc := (if ?k = length (wr_text w) then Renaming else Writing ?k)\<rparr>"
  have "completes ?w ns ?d"
  proof (cases "?k = length (wr_text w)")
    case True
    then show ?thesis using Cons.prems by (intro renaming_completes) auto
  next
    case False
    then have "Suc (length (wr_text w) - ?k) < length ns" using Cons.prems(3) by auto
    then show ?thesis using False Cons.prems(2) by (intro Cons.IH [of _ ?k]) simp_all
  qed
  moreover have "write_step True n w d = (?w, ?d)" using Cons.prems(1) by (simp add: write_step_def Let_def)
  ultimately show ?case by (simp add: completes_def)
qed simp

lemma write_completes:
  assumes "length t + 3 < length ns"
  shows "completes (writeAtomic p r t) ns d"
proof -
  obtain m n ns' where ns: "ns = m # n # ns'" "length t + 1 < length ns'"
    using assms by (cases ns; cases "tl ns") auto
  let ?w = "writeAtomic p r t"
  let ?d = "d(tmp_name p r \<mapsto> ([], OWNER_ONLY))"
  have "completes (?w\<lparr>wr_pc := Writing 0\<rparr>) ns' ?d"
    using ns(2) by (intro writing_completes [of _ 0]) (simp_all add: writeAtomic_def tmp_name_def)
  then show ?thesis by (simp add: ns(1) completes_def write_step_def writeAtomic_def)
qed

subsection \<open>Atomicity\<close>

definition fresh_writers :: "writer list \<Rightarrow> bool" where
  "fresh_writers ws \<longleftrightarrow> list_all (\<lambda>w. wr_pc w = MakingDir) ws"

text \<open>Whatever is interleaved, fails or crashes: every file that is not one of the writers' own holds
  at every moment what it held at the start, or the whole text of a writer that has finished, readable to
  its owner only.\<close>

theorem writes_are_atomic:
  assumes "apart ws" "fresh_writers ws" "p \<notin> set (map wr_tmp ws)" "write_run es ws d = (ws', d')"
  shows "d' p = d p \<or> (\<exists>w \<in> set ws. wr_path w = p \<and> w\<lparr>wr_pc := Written\<rparr> \<in> set ws' \<and> d' p = Some (wr_text w, OWNER_ONLY))"
proof -
  have "disk_inv d ws d"
    using assms(2) by (auto simp: disk_inv_def whole_def fresh_writers_def own_file_def list_all_iff)
  then have inv: "disk_inv d ws' d'" and tmps: "map wr_tmp ws' = map wr_tmp ws"
    using run_keeps_inv [OF assms(1) _ assms(4)] by blast+
  note same = run_texts [OF assms(4)]
  from inv assms(3) have "whole d ws' d' p" unfolding disk_inv_def tmps by blast
  then consider "d' p = d p" | w where "w \<in> set ws'" "wr_path w = p" "wr_pc w = Written" "d' p = Some (wr_text w, OWNER_ONLY)"
    unfolding whole_def by blast
  then show ?thesis
  proof cases
    case 2
    then obtain i where i: "i < length ws'" "w = ws' ! i" by (auto simp: in_set_conv_nth)
    have len: "length ws = length ws'" using tmps by (rule map_eq_imp_length_eq [symmetric])
    have "map f ws' ! i = map f ws ! i" if "map f ws' = map f ws" for f :: "writer \<Rightarrow> string" using that by simp
    then have "wr_tmp w = wr_tmp (ws ! i)" "wr_path w = wr_path (ws ! i)" "wr_text w = wr_text (ws ! i)"
      using tmps same i len by (metis nth_map)+
    then have "w = (ws ! i)\<lparr>wr_pc := Written\<rparr>" using 2(3) by (cases w; cases "ws ! i") simp
    moreover have "ws ! i \<in> set ws" using i len by simp
    ultimately show ?thesis using 2 by (intro disjI2 bexI [of _ "ws ! i"]) auto
  qed simp
qed

text \<open>Two writers of one file; the first has renamed, the second was cut off in the middle.\<close>

definition demo_writers :: "writer list" where
  "demo_writers = [writeAtomic ''keys.json'' ''a1'' ''{1}'', writeAtomic ''keys.json'' ''b2'' ''{2}'']"

definition demo_schedule :: "(nat \<times> bool \<times> nat) list" where
  "demo_schedule = [(0, True, 0), (1, True, 0), (0, True, 0), (1, True, 0), (0, True, 0), (1, True, 0), (0, True, 5), (0, True, 0)]"

lemma writes_are_atomic_witness:
  "snd (write_run demo_schedule demo_writers (\<lambda>_. None)) ''keys.json'' \<in> {None, Some (''{1}'', 384), Some (''{2}'', 384)} \<and>
   snd (write_run demo_schedule demo_writers (\<lambda>_. None)) ''keys.json.b2.tmp'' = Some (''{'', 384)"
proof -
  obtain ws' d' where run: "write_run demo_schedule demo_writers (\<lambda>_. None) = (ws', d')" by fastforce
  have "apart demo_writers" "fresh_writers demo_writers" "''keys.json'' \<notin> set (map wr_tmp demo_writers)"
    by (simp_all add: demo_writers_def apart_def fresh_writers_def writeAtomic_def tmp_name_def)
  from writes_are_atomic [OF this run]
  have "d' ''keys.json'' \<in> {None, Some (''{1}'', 384), Some (''{2}'', 384)}"
    by (auto simp: demo_writers_def writeAtomic_def OWNER_ONLY_def)
  moreover have "snd (write_run demo_schedule demo_writers (\<lambda>_. None)) ''keys.json.b2.tmp'' = Some (''{'', 384)"
    by (simp add: demo_schedule_def demo_writers_def writeAtomic_def tmp_name_def write_step_def OWNER_ONLY_def)
  ultimately show ?thesis using run by simp
qed

end
