(* ===== verification/CrashSafety.thy ===== *)
theory CrashSafety
  imports KeyStoreQueue AtomicWrite
begin

text \<open>
  The key store of \<open>src/src/auth/api-key-store.ts\<close> over the steps of its disk writes: the write queue of
  \<open>KeyStoreQueue\<close>, whose running link drives a writer of \<open>AtomicWrite\<close>, and what a boot reads back after
  the process was killed between any two steps. \<open>stringify\<close> and \<open>parse\<close> are \<open>JSON.stringify\<close> with its
  indentation and \<open>JSON.parse\<close>. That the kernel keeps a rename it has acknowledged is taken for granted:
  the process dies, the machine does not.
\<close>

subsection \<open>The file as text\<close>

definition entry_json :: "file_key \<Rightarrow> json" where
  "entry_json e = JObj ([(''name'', JStr (fk_name e)), (''key'', JStr (fk_key e)), (''createdAt'', JStr (fk_createdAt e))] @
     (case fk_allowed e of None \<Rightarrow> [] | Some ps \<Rightarrow> [(''allowedModels'', JArr (map JStr ps))]))"

definition key_file_json :: "key_file \<Rightarrow> json" where
  "key_file_json f = JObj [(''keys'', JArr (map entry_json (kf_keys f))), (''revoked'', JArr (map JStr (kf_revoked f)))]"

definition read_file :: "(string \<Rightarrow> json option) \<Rightarrow> disk \<Rightarrow> string \<Rightarrow> file_read" where
  "read_file parse d path =
     (case d path of
        None \<Rightarrow> Absent
      | Some (raw, _) \<Rightarrow> (case parse raw of None \<Rightarrow> BadJson ''JSON Parse error'' | Some v \<Rightarrow> Parsed v))"

definition stored :: "(string \<Rightarrow> json option) \<Rightarrow> disk \<Rightarrow> string \<Rightarrow> key_file \<Rightarrow> bool" where
  "stored parse d path f \<longleftrightarrow> loadFile path (read_file parse d path) = Inr f"

lemma json_strings_JStr [simp]: "json_strings (map JStr xs) = xs"
  by (induction xs) (simp_all add: json_strings_def)

lemma load_entry_json: "load_entry (entry_json e) = Inr e"
  by (cases e) (auto simp: load_entry_def entry_json_def str_field_def jprop_def get_Cons split: option.splits)

lemma load_entries_json: "load_entries (map entry_json es) = Inr es"
  by (induction es) (simp_all add: load_entry_json)

lemma load_key_file: "loadFile path (Parsed (key_file_json f)) = Inr f"
  by (simp add: loadFile_def key_file_json_def jprop_def load_entries_json)

lemma stored_text: "d path = Some (raw, m) \<Longrightarrow> parse raw = Some (key_file_json f) \<Longrightarrow> stored parse d path f"
  by (simp add: stored_def read_file_def load_key_file)

subsection \<open>The machine\<close>

record key_service =
  sv_queue :: key_queue
  sv_writer :: "writer option"
  sv_disk :: disk

datatype service_event =
    Submits "key_op result"
  | Starts string string
  | Writes bool nat
  | Finishes string

text \<open>The write that the running link awaits.\<close>

definition awaited :: "key_queue \<Rightarrow> key_file option" where
  "awaited q = (case kq_running q of Some (_, _, Inr (Some nxt, _)) \<Rightarrow> Some nxt | _ \<Rightarrow> None)"

definition link_writer :: "(json \<Rightarrow> string) \<Rightarrow> key_params \<Rightarrow> string \<Rightarrow> key_queue \<Rightarrow> writer option" where
  "link_writer stringify p random q =
     (case (ksp_filePath p, awaited q) of
        (Some path, Some nxt) \<Rightarrow> Some (writeAtomic path random (stringify (key_file_json nxt)))
      | _ \<Rightarrow> None)"

text \<open>A link ends when it awaits nothing, or when its write is done or has failed with \<open>m\<close>.\<close>

fun service_step :: "(json \<Rightarrow> string) \<Rightarrow> key_params \<Rightarrow> service_event \<Rightarrow> key_service \<Rightarrow> key_service" where
  "service_step stringify p (Submits r) s = s\<lparr>sv_queue := kq_submit r (sv_queue s)\<rparr>"
| "service_step stringify p (Starts now random) s =
     (if kq_running (sv_queue s) \<noteq> None then s
      else let q = kq_start p now (sv_queue s) in s\<lparr>sv_queue := q, sv_writer := link_writer stringify p random q\<rparr>)"
| "service_step stringify p (Writes ok n) s =
     (case sv_writer s of
        None \<Rightarrow> s
      | Some w \<Rightarrow> (let (w', d) = write_step ok n w (sv_disk s) in s\<lparr>sv_writer := Some w', sv_disk := d\<rparr>))"
| "service_step stringify p (Finishes m) s =
     (case sv_writer s of
        None \<Rightarrow> s\<lparr>sv_queue := kq_finish p None (sv_queue s)\<rparr>
      | Some w \<Rightarrow>
          (case wr_pc w of
             Written \<Rightarrow> s\<lparr>sv_queue := kq_finish p None (sv_queue s), sv_writer := None\<rparr>
           | WriteFailed \<Rightarrow> s\<lparr>sv_queue := kq_finish p (Some m) (sv_queue s), sv_writer := None\<rparr>
           | _ \<Rightarrow> s))"

definition service_run :: "(json \<Rightarrow> string) \<Rightarrow> key_params \<Rightarrow> service_event list \<Rightarrow> key_store \<Rightarrow> disk \<Rightarrow> key_service" where
  "service_run stringify p es st d =
     fold (service_step stringify p) es \<lparr>sv_queue = kq_init st, sv_writer = None, sv_disk = d\<rparr>"

subsection \<open>Refinement\<close>

text \<open>Seen through its queue, the machine makes steps of the queue, or none.\<close>

lemma service_refines:
  "kq_reach p st (sv_queue s) \<Longrightarrow> kq_reach p st (sv_queue (service_step stringify p e s))"
  by (cases e) (auto simp: Let_def split: option.splits write_pc.splits prod.splits
      intro: kq_reach.step kq_step.intros)

lemma run_refines: "kq_reach p st (sv_queue (service_run stringify p es st d))"
proof (induction es rule: rev_induct)
  case Nil
  show ?case by (simp add: service_run_def kq_reach.init)
next
  case (snoc e es)
  then show ?case using service_refines [of p st _ stringify e] by (simp add: service_run_def)
qed

definition lands :: "writer \<Rightarrow> key_file \<Rightarrow> key_file \<Rightarrow> key_file" where
  "lands w nxt old = (if wr_pc w = Written then nxt else old)"

definition service_inv :: "(json \<Rightarrow> string) \<Rightarrow> (string \<Rightarrow> json option) \<Rightarrow> string \<Rightarrow> key_service \<Rightarrow> bool" where
  "service_inv stringify parse path s \<longleftrightarrow>
     (case sv_writer s of
        None \<Rightarrow> stored parse (sv_disk s) path (ks_disk (kq_store (sv_queue s))) \<and> awaited (sv_queue s) = None
      | Some w \<Rightarrow> \<exists>nxt. awaited (sv_queue s) = Some nxt \<and>
          wr_path w = path \<and> wr_tmp w \<noteq> path \<and> wr_text w = stringify (key_file_json nxt) \<and> own_file (sv_disk s) w \<and>
          stored parse (sv_disk s) path (lands w nxt (ks_disk (kq_store (sv_queue s)))))"

lemma tmp_differs: "tmp_name path r \<noteq> path"
  by (simp add: tmp_name_def)

lemma stored_cong: "d path = d' path \<Longrightarrow> stored parse d path f = stored parse d' path f"
  by (simp add: stored_def read_file_def)

lemma awaited_submit: "awaited (kq_submit r q) = awaited q" "kq_store (kq_submit r q) = kq_store q"
  by (simp_all add: awaited_def kq_submit_def split: sum.split)

lemma awaited_idle: "kq_running q = None \<Longrightarrow> awaited q = None"
  by (simp add: awaited_def)

lemma awaited_finish: "awaited (kq_finish p io q) = None"
  by (simp add: awaited_def kq_finish_def split_beta split: option.split)

lemma store_start: "kq_store (kq_start p now q) = kq_store q"
  by (simp add: kq_start_def split: option.split list.split)

lemma disk_finish:
  assumes "ksp_filePath p = Some path"
  shows "ks_disk (kq_store (kq_finish p io q)) =
    (case awaited q of Some nxt \<Rightarrow> if io = None then nxt else ks_disk (kq_store q) | None \<Rightarrow> ks_disk (kq_store q))"
proof (cases "kq_running q")
  case (Some r)
  obtain now op pl where r: "r = (now, op, pl)" by (cases r) auto
  show ?thesis
  proof (cases pl)
    case (Inr x)
    obtain nx a where x: "x = (nx, a)" by (cases x)
    show ?thesis using assms Some
      by (cases nx; cases io) (simp_all add: r Inr x kq_finish_def awaited_def finish_plan_def persist_def)
  qed (simp add: Some r kq_finish_def awaited_def finish_plan_def)
qed (simp add: kq_finish_def awaited_def)

lemma service_inv_write:
  assumes inv: "service_inv stringify parse path s" and Some: "sv_writer s = Some w"
    and json: "\<forall>f. parse (stringify (key_file_json f)) = Some (key_file_json f)" and st: "write_step ok n w (sv_disk s) = (w', d)"
  shows "service_inv stringify parse path (s\<lparr>sv_writer := Some w', sv_disk := d\<rparr>)"
proof -
  let ?old = "ks_disk (kq_store (sv_queue s))"
  from inv Some obtain nxt where r: "awaited (sv_queue s) = Some nxt" "wr_path w = path" "wr_tmp w \<noteq> wr_path w"
      "wr_text w = stringify (key_file_json nxt)" "own_file (sv_disk s) w"
      "stored parse (sv_disk s) path (lands w nxt ?old)"
    by (auto simp: service_inv_def)
  note step = step_disk [OF st r(5,3)]
  consider "wr_pc w = Written" | "wr_pc w \<noteq> Written" "wr_pc w' = Written" | "wr_pc w \<noteq> Written" "wr_pc w' \<noteq> Written" by blast
  then have "stored parse d path (lands w' nxt ?old)"
  proof cases
    case 1
    then have "w' = w" "d = sv_disk s" using st by (simp_all add: write_step_def)
    then show ?thesis using r(6) by simp
  next
    case 2
    then have "d path = Some (wr_text w, OWNER_ONLY)"
      using st r(2,3,5) by (auto simp: write_step_def own_file_def Let_def split: write_pc.splits if_splits)
    then show ?thesis using 2 r(4) json by (simp add: stored_text lands_def)
  next
    case 3
    then have "d path = sv_disk s path" using step(3) r(2) by simp
    then show ?thesis using 3 r(6) stored_cong [of d path "sv_disk s"] by (simp add: lands_def)
  qed
  then show ?thesis using r step_names [OF st] step(1) by (simp add: service_inv_def)
qed

lemma service_inv_step:
  assumes inv: "service_inv stringify parse path s" and path: "ksp_filePath p = Some path"
    and json: "\<forall>f. parse (stringify (key_file_json f)) = Some (key_file_json f)"
  shows "service_inv stringify parse path (service_step stringify p e s)"
proof (cases e)
  case (Submits r)
  then show ?thesis
    using inv by (cases "sv_writer s") (simp_all add: service_inv_def awaited_submit)
next
  case (Starts now random)
  show ?thesis
  proof (cases "kq_running (sv_queue s)")
    case None
    let ?q = "kq_start p now (sv_queue s)"
    have "sv_writer s = None" using inv awaited_idle [OF None] by (simp add: service_inv_def split: option.splits)
    then have here: "stored parse (sv_disk s) path (ks_disk (kq_store ?q))" using inv by (simp add: service_inv_def store_start)
    show ?thesis
      using here None Starts path
      by (cases "awaited ?q") (simp_all add: service_inv_def link_writer_def Let_def writeAtomic_def own_file_def tmp_differs lands_def)
  qed (use inv Starts in simp)
next
  case (Writes ok n)
  show ?thesis
  proof (cases "sv_writer s")
    case (Some w)
    obtain w' d where st: "write_step ok n w (sv_disk s) = (w', d)" by fastforce
    from service_inv_write [OF inv Some json st] show ?thesis using Some st Writes by simp
  qed (use inv Writes in simp)
next
  case (Finishes m)
  show ?thesis
  proof (cases "sv_writer s")
    case None
    then show ?thesis using inv Finishes by (simp add: service_inv_def awaited_finish disk_finish [OF path])
  next
    case (Some w)
    show ?thesis
      using inv Finishes Some by (cases "wr_pc w") (auto simp: service_inv_def awaited_finish disk_finish [OF path] lands_def)
  qed
qed

lemma service_run_inv:
  assumes "ksp_filePath p = Some path" "\<forall>f. parse (stringify (key_file_json f)) = Some (key_file_json f)" "stored parse d path (ks_disk st)"
  shows "service_inv stringify parse path (service_run stringify p es st d)"
proof (induction es rule: rev_induct)
  case Nil
  show ?case using assms(3) by (simp add: service_run_def service_inv_def kq_init_def awaited_def)
next
  case (snoc e es)
  from service_inv_step [OF snoc assms(1,2)] show ?case by (simp add: service_run_def)
qed

subsection \<open>What a boot finds\<close>

lemma boot_reads:
  "ksp_filePath p = Some path \<Longrightarrow> stored parse d path f
   \<Longrightarrow> createApiKeyStore p (read_file parse d path) = Inr \<lparr>ks_file = f, ks_disk = f\<rparr>"
  by (simp add: createApiKeyStore_def stored_def)

lemma store_ok_eq: "store_ok st \<Longrightarrow> ks_disk st = f \<Longrightarrow> \<lparr>ks_file = f, ks_disk = f\<rparr> = st"
  by (cases st) (simp add: store_ok_def)

lemma awaited_exec:
  assumes "kq_inv p st q" "awaited q = Some nxt" "ksp_filePath p = Some path"
  shows "\<exists>now op pl. kq_running q = Some (now, op, pl) \<and>
    snd (seq_run p (kq_log q @ [(now, None, op)]) st) = \<lparr>ks_file = nxt, ks_disk = nxt\<rparr>"
proof -
  from assms(2) obtain now op a where r: "kq_running q = Some (now, op, Inr (Some nxt, a))"
    by (auto simp: awaited_def split: option.splits sum.splits)
  with assms(1) have "plan_op (ksp_envKeys p) now (ks_file (kq_store q)) op = Inr (Some nxt, a)"
      "seq_run p (kq_log q) st = (kq_answers q, kq_store q)"
    by (simp_all add: kq_inv_def)
  then show ?thesis using r assms(3) by (simp add: seq_run_snoc exec_op_def finish_plan_def persist_def)
qed

text \<open>C13: killed at any point. However calls arrive, links start and end, system calls fail and the pieces of a
  write are cut, a boot after a kill reads a well-formed key file whose store is that of the completed
  mutators run one at a time in the order they were accepted, the one that was running either
  included or not.\<close>

theorem crash_recovers_a_prefix:
  assumes "ksp_filePath p = Some path" and "store_ok st"
    and "\<forall>f. parse (stringify (key_file_json f)) = Some (key_file_json f)"
    and "stored parse d path (ks_file st)"
    and "s = service_run stringify p es st d"
  shows "\<exists>l. (l = kq_log (sv_queue s) \<or>
              (\<exists>now op pl. kq_running (sv_queue s) = Some (now, op, pl) \<and> l = kq_log (sv_queue s) @ [(now, None, op)])) \<and>
             createApiKeyStore p (read_file parse (sv_disk s) path) = Inr (snd (seq_run p l st))"
proof -
  let ?q = "sv_queue s"
  have q: "kq_inv p st ?q" unfolding assms(5) by (intro kq_reach_inv run_refines)
  then have log: "snd (seq_run p (kq_log ?q) st) = kq_store ?q" by (simp add: kq_inv_def)
  have ok: "store_ok (kq_store ?q)" using store_ok_seq_run [OF assms(2), of p "kq_log ?q"] by (simp add: log)
  have "stored parse d path (ks_disk st)" using assms(2,4) by (simp add: store_ok_def)
  from service_run_inv [OF assms(1,3) this] have inv: "service_inv stringify parse path s" unfolding assms(5) .
  then consider "stored parse (sv_disk s) path (ks_disk (kq_store ?q))" |
      nxt where "awaited ?q = Some nxt" "stored parse (sv_disk s) path nxt"
    by (cases "sv_writer s") (auto simp: service_inv_def lands_def split: if_splits)
  then show ?thesis
  proof cases
    case 1
    then show ?thesis using store_ok_eq [OF ok refl] log by (intro exI [of _ "kq_log ?q"]) (simp add: boot_reads [OF assms(1)])
  next
    case 2
    from awaited_exec [OF q 2(1) assms(1)] obtain now op pl where "kq_running ?q = Some (now, op, pl)"
        "snd (seq_run p (kq_log ?q @ [(now, None, op)]) st) = \<lparr>ks_file = nxt, ks_disk = nxt\<rparr>" by blast
    with 2(2) show ?thesis
      by (intro exI [of _ "kq_log ?q @ [(now, None, op)]"]) (simp add: boot_reads [OF assms(1)])
  qed
qed

text \<open>A plain encoding of key files, in the place of JSON's: a word ends with a comma and a dot
  stands before each of its characters.\<close>

definition words_text :: "string list \<Rightarrow> string" where
  "words_text ts = concat (map (\<lambda>t. concat (map (\<lambda>c. [CHR ''.'', c]) t) @ '','') ts)"

fun text_words :: "string \<Rightarrow> string \<Rightarrow> string list" where
  "text_words cur [] = []"
| "text_words cur (m # r) =
     (if m = CHR '','' then cur # text_words [] r else (case r of [] \<Rightarrow> [] | c # r' \<Rightarrow> text_words (cur @ [c]) r'))"

lemma text_words_word:
  "text_words cur (concat (map (\<lambda>c. [CHR ''.'', c]) t) @ CHR '','' # r) = (cur @ t) # text_words [] r"
  by (induction t arbitrary: cur) simp_all

lemma text_words_text: "text_words [] (words_text ts) = ts"
  by (induction ts) (simp_all add: words_text_def text_words_word)

definition tagged :: "string \<Rightarrow> string list \<Rightarrow> string list" where
  "tagged t xs = concat (map (\<lambda>x. [t, x]) xs)"

definition entry_words :: "file_key \<Rightarrow> string list" where
  "entry_words e = [if fk_allowed e = None then ''n'' else ''s'', fk_name e, fk_key e, fk_createdAt e] @
     tagged ''p'' (case fk_allowed e of None \<Rightarrow> [] | Some ps \<Rightarrow> ps)"

definition file_words :: "key_file \<Rightarrow> string list" where
  "file_words f = concat (map entry_words (kf_keys f)) @ tagged ''r'' (kf_revoked f)"

fun words_file :: "string list \<Rightarrow> string list \<times> key_file" where
  "words_file (t # x # ts) =
     (if t = ''r'' then (let (ps, f) = words_file ts in (ps, f\<lparr>kf_revoked := x # kf_revoked f\<rparr>))
      else if t = ''p'' then (let (ps, f) = words_file ts in (x # ps, f))
      else (case ts of
          k # c # ts' \<Rightarrow>
            (let (ps, f) = words_file ts';
                 e = \<lparr>fk_name = x, fk_key = k, fk_createdAt = c, fk_allowed = (if t = ''s'' then Some ps else None)\<rparr>
             in ([], f\<lparr>kf_keys := e # kf_keys f\<rparr>))
        | _ \<Rightarrow> ([], emptyFile)))"
| "words_file _ = ([], emptyFile)"

lemma words_file_revoked: "words_file (tagged ''r'' rs) = ([], \<lparr>kf_keys = [], kf_revoked = rs\<rparr>)"
  by (induction rs) (simp_all add: tagged_def emptyFile_def)

lemma words_file_patterns: "words_file ts = ([], f) \<Longrightarrow> words_file (tagged ''p'' ps @ ts) = (ps, f)"
  by (induction ps) (simp_all add: tagged_def)

lemma words_file_entry:
  "words_file ts = ([], f) \<Longrightarrow> words_file (entry_words e @ ts) = ([], f\<lparr>kf_keys := e # kf_keys f\<rparr>)"
  by (cases e; cases "fk_allowed e") (simp_all add: entry_words_def words_file_patterns)

lemma words_file_file: "words_file (file_words f) = ([], f)"
proof -
  have "words_file (concat (map entry_words es) @ tagged ''r'' rs) = ([], \<lparr>kf_keys = es, kf_revoked = rs\<rparr>)" for es rs
    by (induction es) (simp_all add: words_file_revoked words_file_entry)
  then show ?thesis by (cases f) (simp add: file_words_def)
qed

definition demo_stringify :: "json \<Rightarrow> string" where
  "demo_stringify v = (case loadFile [] (Parsed v) of Inl _ \<Rightarrow> [] | Inr f \<Rightarrow> words_text (file_words f))"

definition demo_parse :: "string \<Rightarrow> json option" where
  "demo_parse raw = Some (key_file_json (snd (words_file (text_words [] raw))))"

lemma demo_round_trip: "demo_parse (demo_stringify (key_file_json f)) = Some (key_file_json f)"
  by (simp add: demo_parse_def demo_stringify_def load_key_file text_words_text words_file_file)

text \<open>An added key: killed in the middle of the write, and killed after the rename and before the
  answer.\<close>

definition demo_cut :: "service_event list" where
  "demo_cut = [Submits (Inr demo_add), Starts ''t1'' ''a1'', Writes True 0, Writes True 0, Writes True 9]"

definition demo_killed :: "service_event list \<Rightarrow> key_service" where
  "demo_killed es = service_run demo_stringify demo_params es demo_store (\<lambda>_. None)"

definition demo_renamed :: "service_event list" where
  "demo_renamed = demo_cut @ [Writes True 999, Writes True 0]"

definition demo_boot :: "service_event list \<Rightarrow> key_store result" where
  "demo_boot es = createApiKeyStore demo_params (read_file demo_parse (sv_disk (demo_killed es)) ''k.json'')"

lemma demo_log: "kq_log (sv_queue (demo_killed demo_cut)) = []" "kq_log (sv_queue (demo_killed demo_renamed)) = []"
  by code_simp+

lemma demo_link: "map_option (\<lambda>(now, op, _). (now, op)) (kq_running (sv_queue (demo_killed demo_cut))) = Some (''t1'', demo_add)"
    "map_option (\<lambda>(now, op, _). (now, op)) (kq_running (sv_queue (demo_killed demo_renamed))) = Some (''t1'', demo_add)"
  by code_simp+

lemma demo_pieces: "map_option (length \<circ> fst) (sv_disk (demo_killed demo_cut) ''k.json.a1.tmp'') = Some 10"
  by code_simp

lemma demo_booted: "map_sum id (\<lambda>st. kf_keys (ks_file st)) (demo_boot demo_cut) = Inr []"
    "map_sum id (\<lambda>st. map fk_name (kf_keys (ks_file st))) (demo_boot demo_renamed) = Inr [''alice'']"
  by code_simp+

lemma crash_recovers_a_prefix_witness:
  "map_option (length \<circ> fst) (sv_disk (demo_killed demo_cut) ''k.json.a1.tmp'') = Some 10 \<and>
   demo_boot demo_cut = Inr demo_store \<and>
   demo_boot demo_renamed = Inr (snd (seq_run demo_params [(''t1'', None, demo_add)] demo_store))"
proof -
  have p: "ksp_filePath demo_params = Some ''k.json''" by (simp add: demo_params_def)
  have j: "\<forall>f. demo_parse (demo_stringify (key_file_json f)) = Some (key_file_json f)" by (simp add: demo_round_trip)
  have d: "stored demo_parse (\<lambda>_. None) ''k.json'' (ks_file demo_store)"
    by (simp add: stored_def read_file_def loadFile_def demo_store_def)
  note recovers = crash_recovers_a_prefix [OF p demo_store_ok j d demo_killed_def]
  have keys: "kf_keys (ks_file demo_store) = []" by (simp add: demo_store_def emptyFile_def)
  have "kf_keys (ks_file (snd (seq_run demo_params [(''t1'', None, demo_add)] demo_store))) \<noteq> []" by code_simp
  then have "demo_boot demo_cut = Inr demo_store"
    using recovers [of demo_cut] demo_log(1) demo_link(1) demo_booted(1) by (auto simp: demo_boot_def)
  moreover have "demo_boot demo_renamed = Inr (snd (seq_run demo_params [(''t1'', None, demo_add)] demo_store))"
    using recovers [of demo_renamed] demo_log(2) demo_link(2) demo_booted(2) keys by (auto simp: demo_boot_def)
  ultimately show ?thesis using demo_pieces by simp
qed

end
