(* ===== verification/Models.thy ===== *)
theory Models
  imports Upstream
begin

text \<open>
  \<open>src/src/proxy/models.ts\<close>: model discovery, a request passed through to upstream with one retry after
  a 401. The network and the pool answer through arguments, as in Upstream; \<open>n\<close> is 0 for the first
  attempt. The third component of the result is the requests sent: the URL and the headers.
\<close>

definition ANTHROPIC_MODELS_URL :: string where
  "ANTHROPIC_MODELS_URL = ''https://api.anthropic.com/v1/models''"

definition models_headers :: "string \<Rightarrow> (string \<times> string) list" where
  "models_headers token =
     [(''authorization'', ''Bearer '' @ token), (''anthropic-version'', ''2023-06-01''),
      (''anthropic-beta'', ''oauth-2025-04-20'')]"

type_synonym models_request = "string \<times> (string \<times> string) list"

record models_answer =
  ma_status :: nat
  ma_contentType :: string
  ma_body :: string

definition fetchModels ::
  "(nat \<Rightarrow> models_request \<Rightarrow> response result) \<Rightarrow> string \<Rightarrow> nat \<Rightarrow> string \<Rightarrow> response result" where
  "fetchModels net url n tok =
     (case net n (url, models_headers tok) of
        Inr resp \<Rightarrow> Inr resp
      | Inl e \<Rightarrow> Inl (UpstreamFailed502 (redact (''models fetch failed: '' @ exn_message e))))"

definition models_body :: "response \<Rightarrow> models_answer result" where
  "models_body resp =
     (case rp_readError resp of
        Some e \<Rightarrow> Inl (UpstreamFailed502 (redact (''models body read failed: '' @ exn_message e)))
      | None \<Rightarrow> Inr \<lparr>ma_status = rp_status resp,
          ma_contentType = (case hget (rp_headers resp) ''content-type'' of Some ct \<Rightarrow> ct | None \<Rightarrow> ''application/json''),
          ma_body = concat (case rp_body resp of Some cs \<Rightarrow> cs | None \<Rightarrow> [])\<rparr>)"

definition modelsHandler ::
  "(string \<Rightarrow> string \<Rightarrow> int) \<Rightarrow> ('m \<Rightarrow> string result \<times> 'm) \<Rightarrow> ('m \<Rightarrow> string result \<times> 'm)
     \<Rightarrow> (nat \<Rightarrow> models_request \<Rightarrow> response result) \<Rightarrow> string \<Rightarrow> 'm pool
     \<Rightarrow> models_answer result \<times> models_request list \<times> 'm pool" where
  "modelsHandler lc get_token force net search P =
     (let url = ANTHROPIC_MODELS_URL @ search in
      case pool_getAccessToken lc get_token None P of
        (Inl e, P1) \<Rightarrow> (Inl (UpstreamFailed502 (redact (''models token fetch failed: '' @ exn_message e))), [], P1)
      | (Inr (name, token), P1) \<Rightarrow>
          (let first = (url, models_headers token) in
           case fetchModels net url 0 token of
             Inl e \<Rightarrow> (Inl e, [first], P1)
           | Inr res \<Rightarrow>
               if rp_status res \<noteq> 401 then (models_body res, [first], P1)
               else (case pool_forceRefresh force name P1 of
                  (Inl e, P2) \<Rightarrow>
                    (Inl (UpstreamFailed502 (redact (''models auth refresh failed: '' @ exn_message e))), [first], P2)
                | (Inr fresh, P2) \<Rightarrow>
                    (case fetchModels net url 1 fresh of
                       Inl e \<Rightarrow> (Inl e, [first, (url, models_headers fresh)], P2)
                     | Inr res' \<Rightarrow> (models_body res', [first, (url, models_headers fresh)], P2)))))"

text \<open>A 502, or the status upstream answered some request with.\<close>

definition models_outcome :: "(nat \<Rightarrow> models_request \<Rightarrow> response result) \<Rightarrow> models_answer result \<Rightarrow> bool" where
  "models_outcome net r =
     (case r of Inl e \<Rightarrow> exn_status e = Some 502
      | Inr a \<Rightarrow> \<exists>n u resp. net n u = Inr resp \<and> ma_status a = rp_status resp)"

lemma models_outcome_502: "models_outcome net (Inl (UpstreamFailed502 m))"
  by (simp add: models_outcome_def)

lemma fetchModels_Inr: "fetchModels net url n tok = Inr resp \<Longrightarrow> net n (url, models_headers tok) = Inr resp"
  by (simp add: fetchModels_def split: sum.splits)

lemma fetchModels_Inl: "fetchModels net url n tok = Inl e \<Longrightarrow> models_outcome net (Inl e)"
  by (auto simp: fetchModels_def models_outcome_def split: sum.splits)

lemma models_outcome_body:
  assumes "fetchModels net url n tok = Inr resp"
  shows "models_outcome net (models_body resp)"
proof (cases "rp_readError resp")
  case None
  with fetchModels_Inr [OF assms] show ?thesis
    by (simp add: models_body_def models_outcome_def) blast
qed (simp add: models_body_def models_outcome_502)

text \<open>Model discovery never fails with anything but a 502. Whatever the token endpoint, the network or
  the body does, the handler answers upstream's status or throws a 502; at most two requests leave, all
  to the models endpoint with the client's query, the second only after a 401.\<close>

theorem models_fail_only_with_502:
  "case modelsHandler lc get_token force net search P of (r, sent, P') \<Rightarrow>
     models_outcome net r \<and> length sent \<le> 2 \<and> fst ` set sent \<subseteq> {ANTHROPIC_MODELS_URL @ search} \<and>
     (if length sent = 2 then \<exists>resp. net 0 (hd sent) = Inr resp \<and> rp_status resp = 401 else True)"
  using fetchModels_Inl fetchModels_Inr models_outcome_body
  by (auto simp: modelsHandler_def Let_def models_outcome_502 split: prod.splits sum.splits) blast+

end
