(* ===== verification/Pacing.thy ===== *)
theory Pacing
  imports Errors
begin

text \<open>
  \<open>src/src/pacing.ts\<close>: the minimum gap between requests of one session. A call reads the clock and
  the session's last send, sleeps for what is missing of the gap, and stores the clock again. The
  two halves are separate functions, since other calls may run while one sleeps.
\<close>

text \<open>The sleep a call asks for; \<open>None\<close> when pacing is off or the call has no session id.\<close>

definition pacing_begin :: "rat \<Rightarrow> string option \<Rightarrow> rat \<Rightarrow> (string \<times> rat) list \<Rightarrow> rat option" where
  "pacing_begin minGapMs sid now lastSent =
     (if minGapMs \<le> 0 \<or> sid = None \<or> sid = Some [] then None
      else case map_of lastSent (the sid) of
             None \<Rightarrow> Some 0
           | Some prev \<Rightarrow> let elapsed = now - prev in
               Some (if elapsed < minGapMs then minGapMs - elapsed else 0))"

definition pacing_end :: "string \<Rightarrow> rat \<Rightarrow> (string \<times> rat) list \<Rightarrow> (string \<times> rat) list" where
  "pacing_end sid now lastSent = AList.update sid now lastSent"

text \<open>Calls of one session, each beginning after the one before was released: the pairs are the clock
  at the call and at its release, which a timer never makes earlier than it was asked to.\<close>

fun paced :: "rat \<Rightarrow> string \<Rightarrow> (rat \<times> rat) list \<Rightarrow> (string \<times> rat) list \<Rightarrow> bool" where
  "paced gap sid [] m = True"
| "paced gap sid ((t, r) # cs) m =
     (r \<ge> t + (case pacing_begin gap (Some sid) t m of Some w \<Rightarrow> w | None \<Rightarrow> 0) \<and>
      (case cs of [] \<Rightarrow> True | (t', _) # _ \<Rightarrow> r \<le> t') \<and>
      paced gap sid cs (pacing_end sid r m))"

lemma paced_release:
  assumes "0 < gap" "sid \<noteq> []" "map_of m sid = Some prev" "paced gap sid ((t, r) # cs) m"
  shows "prev + gap \<le> r"
  using assms by (auto simp: pacing_begin_def Let_def split: if_splits)

text \<open>Two calls of one session that overlap are asked to sleep until the same moment, so the gap does
  not hold between them.\<close>

lemma overlapping_calls_release_together:
  "0 < gap \<Longrightarrow> sid \<noteq> [] \<Longrightarrow> map_of m sid = Some prev \<Longrightarrow> prev \<le> t \<Longrightarrow> t \<le> t' \<Longrightarrow> t' < prev + gap \<Longrightarrow>
     pacing_begin gap (Some sid) t m = Some (prev + gap - t) \<and>
     pacing_begin gap (Some sid) t' m = Some (prev + gap - t')"
  by (simp add: pacing_begin_def Let_def)

subsection \<open>Properties\<close>

text \<open>Paced requests. The releases of a session's calls that do not overlap are at least the gap
  apart.\<close>

theorem sequential_calls_are_spaced:
  assumes "0 < gap" and "sid \<noteq> []" and "paced gap sid cs m"
  shows "spaced gap (map snd cs)"
  using assms(3)
proof (induction cs arbitrary: m)
  case (Cons c cs)
  obtain t r where c: "c = (t, r)" by fastforce
  from Cons.prems c have p: "paced gap sid cs (pacing_end sid r m)" by simp
  show ?case
  proof (cases cs)
    case (Cons c' cs')
    obtain t' r' where c': "c' = (t', r')" by fastforce
    have "r + gap \<le> r'"
      by (rule paced_release [OF assms(1,2) _ p [unfolded Cons c']]) (simp add: pacing_end_def)
    with Cons.IH [OF p] c c' Cons show ?thesis by simp
  qed simp
qed simp

theorem sequential_calls_are_spaced_witness: "spaced 100 [0, 100, 205]"
proof -
  have "paced 100 ''s'' [(0, 0), (5, 100), (130, 205)] []"
    by (simp add: pacing_begin_def pacing_end_def)
  from sequential_calls_are_spaced [OF _ _ this] show ?thesis by simp
qed

end
