(* ===== verification/Archive.thy ===== *)
theory Archive
  imports MessagesLog UsageTracker
begin

text \<open>
  \<open>src/src/usage/messages-log-archive.ts\<close> and the loop of \<open>src/src/usage/archive-cli.ts\<close>: old rows are
  grouped by day, each group is uploaded as one compressed object, and only then are its rows marked
  and their bodies dropped. Compression, \<open>JSON.stringify\<close>, \<open>JSON.parse\<close> and the ISO form of a time are
  arguments. An upload or an update may succeed, fail, or take effect and still be reported as
  failed (a lost answer, or the process dying right after it).
\<close>

datatype io_outcome = Done | NotDone | DoneButLost

record archive_state =
  as_rows :: "log_row list"
  as_objects :: "(string \<times> string) list"

definition buildArchiveKey :: "string \<Rightarrow> nat \<Rightarrow> nat \<Rightarrow> string \<Rightarrow> string" where
  "buildArchiveKey day epochMs seq pre =
     pre @ ''/dt='' @ day @ ''/part-'' @ nat_str epochMs @ ''-'' @ nat_str seq @ ''.jsonl.gz''"

definition opt_json :: "('a \<Rightarrow> json) \<Rightarrow> 'a option \<Rightarrow> json" where
  "opt_json f v = (case v of None \<Rightarrow> JNull | Some x \<Rightarrow> f x)"

definition source_name :: "msg_source \<Rightarrow> string" where
  "source_name s = (case s of Client \<Rightarrow> ''client'' | Proxy \<Rightarrow> ''proxy'' | Upstream \<Rightarrow> ''upstream'')"

text \<open>\<open>toRecord\<close> of a row, with the time as ISO text.\<close>

definition row_json :: "(rat \<Rightarrow> string) \<Rightarrow> log_row \<Rightarrow> json" where
  "row_json fmt r = JObj
     [(''id'', JStr (ml_id r)), (''ts'', JStr (fmt (ml_ts r))), (''userName'', JStr (ml_userName r)),
      (''model'', opt_json JStr (ml_model r)), (''status'', JNum (of_nat (ml_status r))),
      (''streaming'', JBool (ml_streaming r)), (''durationMs'', JNum (ml_durationMs r)),
      (''inputTokens'', JNum (me_input (ml_meta r))), (''outputTokens'', JNum (me_output (ml_meta r))),
      (''cacheReadTokens'', JNum (me_cacheRead (ml_meta r))),
      (''cacheCreationTokens'', JNum (me_cacheCreation (ml_meta r))),
      (''serviceTier'', opt_json JStr (me_serviceTier (ml_meta r))),
      (''stopReason'', opt_json JStr (me_stopReason (ml_meta r))),
      (''clientIp'', opt_json JStr (ml_clientIp r)), (''userAgent'', opt_json JStr (ml_userAgent r)),
      (''requestBody'', opt_json id (lr_request r)), (''responseBody'', opt_json id (lr_response r)),
      (''errorMessage'', opt_json JStr (ml_errorMessage r)), (''servedBy'', opt_json JStr (ml_servedBy r)),
      (''bypassMetadata'', opt_json id (ml_bypassMetadata r)),
      (''source'', opt_json (\<lambda>s. JStr (source_name s)) (ml_source r)),
      (''archivedAt'', opt_json (\<lambda>t. JStr (fmt t)) (lr_archivedAt r)),
      (''archiveKey'', opt_json JStr (lr_archiveKey r))]"

definition serializeJsonl :: "(json \<Rightarrow> string) \<Rightarrow> (rat \<Rightarrow> string) \<Rightarrow> log_row list \<Rightarrow> string" where
  "serializeJsonl stringify fmt rows =
     join_str [CHR 0x0A] (map (\<lambda>r. stringify (row_json fmt r)) rows) @ [CHR 0x0A]"

definition cutoffFrom :: "rat \<Rightarrow> rat \<Rightarrow> rat" where
  "cutoffFrom now cutoffDays = now - cutoffDays * 24 * 60 * 60 * 1000"

text \<open>Reading back: the first line that holds an object with the id. The dates of the result stay text.\<close>

fun find_line :: "(string \<Rightarrow> json option) \<Rightarrow> string \<Rightarrow> string list \<Rightarrow> obj option" where
  "find_line parse i [] = None"
| "find_line parse i (line # rest) =
     (if length line = 0 \<or> \<not> includes_str line i then find_line parse i rest
      else case parse line of
        Some (JObj kvs) \<Rightarrow> if get kvs ''id'' = Some (JStr i) then Some kvs else find_line parse i rest
      | _ \<Rightarrow> find_line parse i rest)"

definition parseArchivedRow :: "(string \<Rightarrow> json option) \<Rightarrow> (string \<Rightarrow> string) \<Rightarrow> string \<Rightarrow> string \<Rightarrow> obj option" where
  "parseArchivedRow parse gunzip gzipped i = find_line parse i (split_str [CHR 0x0A] (gunzip gzipped))"

subsection \<open>One batch\<close>

text \<open>The rows of each day, days in the order of their first row.\<close>

fun add_to_day :: "int \<Rightarrow> log_row \<Rightarrow> (int \<times> log_row list) list \<Rightarrow> (int \<times> log_row list) list" where
  "add_to_day d r [] = [(d, [r])]"
| "add_to_day d r ((d', rs) # days) = (if d = d' then (d', rs @ [r]) # days else (d', rs) # add_to_day d r days)"

definition byDay :: "log_row list \<Rightarrow> (int \<times> log_row list) list" where
  "byDay rows = fold (\<lambda>r. add_to_day (utcDayKey (ml_ts r)) r) rows []"

record archive_env =
  ae_gzip :: "string \<Rightarrow> string"
  ae_stringify :: "json \<Rightarrow> string"
  ae_fmt :: "rat \<Rightarrow> string"
  ae_day :: "int \<Rightarrow> string"
  ae_prefix :: string
  ae_cutoffDays :: rat
  ae_batchSize :: nat
  ae_dryRun :: bool

definition object_of :: "archive_env \<Rightarrow> log_row list \<Rightarrow> string" where
  "object_of env rows = ae_gzip env (serializeJsonl (ae_stringify env) (ae_fmt env) rows)"

definition put_object :: "archive_env \<Rightarrow> io_outcome \<Rightarrow> string \<Rightarrow> string \<Rightarrow> archive_state \<Rightarrow> bool \<times> archive_state" where
  "put_object env io key body st =
     (if ae_dryRun env then (True, st)
      else (io = Done, if io = NotDone then st else st\<lparr>as_objects := AList.update key body (as_objects st)\<rparr>))"

definition mark_rows :: "archive_env \<Rightarrow> io_outcome \<Rightarrow> string list \<Rightarrow> string \<Rightarrow> rat \<Rightarrow> archive_state \<Rightarrow> bool \<times> archive_state" where
  "mark_rows env io ids key now st =
     (if ae_dryRun env then (True, st)
      else (io = Done, if io = NotDone then st else st\<lparr>as_rows := markArchived ids key now (as_rows st)\<rparr>))"

fun archive_parts ::
  "archive_env \<Rightarrow> nat \<Rightarrow> (nat \<Rightarrow> io_outcome \<times> io_outcome) \<Rightarrow> nat \<Rightarrow> (int \<times> log_row list) list
     \<Rightarrow> archive_state \<Rightarrow> bool \<times> nat \<times> archive_state" where
  "archive_parts env epochMs io seq [] st = (True, 0, st)"
| "archive_parts env epochMs io seq ((day, dayRows) # days) st =
     (let key = buildArchiveKey (ae_day env day) epochMs seq (ae_prefix env);
          (stored, st1) = put_object env (fst (io seq)) key (object_of env dayRows) st
      in if \<not> stored then (False, 0, st1)
         else
           let (marked, st2) = mark_rows env (snd (io seq)) (map ml_id dayRows) key (of_nat epochMs) st1
           in if \<not> marked then (False, 0, st2)
              else case archive_parts env epochMs io (seq + 1) days st2 of
                (ok, n, st3) \<Rightarrow> (ok, length dayRows + n, st3))"

definition archiveBatch ::
  "archive_env \<Rightarrow> nat \<Rightarrow> (nat \<Rightarrow> io_outcome \<times> io_outcome) \<Rightarrow> archive_state \<Rightarrow> bool \<times> nat \<times> archive_state" where
  "archiveBatch env epochMs io st =
     archive_parts env epochMs io 0
       (byDay (selectBatch (cutoffFrom (of_nat epochMs) (ae_cutoffDays env)) (ae_batchSize env) (as_rows st))) st"

text \<open>The loop of the command: at most \<open>maxBatches\<close> batches, given as their clock readings and
  outcomes; it ends at a failed batch, at an empty one, and after the first in a dry run.\<close>

fun archive_loop ::
  "archive_env \<Rightarrow> (nat \<times> (nat \<Rightarrow> io_outcome \<times> io_outcome)) list \<Rightarrow> archive_state \<Rightarrow> bool \<times> nat \<times> archive_state" where
  "archive_loop env [] st = (True, 0, st)"
| "archive_loop env ((now, io) # bs) st =
     (case archiveBatch env now io st of
        (ok, n, st1) \<Rightarrow>
          if \<not> ok then (False, 0, st1)
          else if n = 0 then (True, 0, st1)
          else if ae_dryRun env then (True, n, st1)
          else case archive_loop env bs st1 of (ok', n', st2) \<Rightarrow> (ok', n + n', st2))"

definition intFromEnv :: "nat \<Rightarrow> string option \<Rightarrow> nat result" where
  "intFromEnv fallback raw =
     (case raw of
        None \<Rightarrow> Inr fallback
      | Some s \<Rightarrow> if trim s = [] then Inr fallback
                  else case js_Number s of
                    Num q \<Rightarrow> if q \<le> 0 then Inl (Other ''must be a positive number'') else Inr (nat \<lfloor>q\<rfloor>)
                  | _ \<Rightarrow> Inl (Other ''must be a positive number''))"

end
