(* ===== verification/ArchiveSafe.thy ===== *)
theory ArchiveSafe
  imports Archive
begin

text \<open>
  Safety of the archiver: no interleaving of batches, lost answers and new rows loses a body, as long
  as no two batches share a clock reading, which the object names are made of; and what was uploaded
  can be read back.
\<close>

subsection \<open>Object names\<close>

lemma digits_end:
  assumes "X @ c # a = Y @ d # b" "\<not> is_digit c" "\<not> is_digit d" "list_all is_digit a" "list_all is_digit b"
  shows "X = Y \<and> a = b"
proof -
  have t: "takeWhile is_digit (rev (Z @ x # z)) = rev z" if "\<not> is_digit x" "list_all is_digit z" for Z x z
  proof -
    have "takeWhile is_digit (rev z @ x # rev Z) = rev z @ takeWhile is_digit (x # rev Z)"
      by (rule takeWhile_append2) (use that in \<open>simp add: list_all_iff\<close>)
    with that show ?thesis by simp
  qed
  from arg_cong [OF assms(1), of "\<lambda>z. takeWhile is_digit (rev z)"] have "a = b"
    using t [OF assms(2,4)] t [OF assms(3,5)] by simp
  with assms(1) show ?thesis by simp
qed

lemma nat_str_all_digits: "list_all is_digit (nat_str n)"
  using nat_str_digits by (auto simp: list_all_iff)

lemma key_inj:
  assumes "buildArchiveKey d e s p = buildArchiveKey d' e' s' p'"
  shows "e = e' \<and> s = s'"
proof -
  have minus: "\<not> is_digit (CHR ''-'')" by (simp add: is_digit_def)
  have strip: "x @ ''.jsonl.gz'' = y @ ''.jsonl.gz'' \<Longrightarrow> x = y" for x y :: string by simp
  from assms have "((p @ ''/dt='' @ d @ ''/part-'' @ nat_str e) @ CHR ''-'' # nat_str s) @ ''.jsonl.gz'' =
      ((p' @ ''/dt='' @ d' @ ''/part-'' @ nat_str e') @ CHR ''-'' # nat_str s') @ ''.jsonl.gz''"
    by (simp add: buildArchiveKey_def)
  then have "(p @ ''/dt='' @ d @ ''/part-'' @ nat_str e) @ CHR ''-'' # nat_str s =
      (p' @ ''/dt='' @ d' @ ''/part-'' @ nat_str e') @ CHR ''-'' # nat_str s'"
    by (rule strip)
  note 1 = digits_end [OF this minus minus nat_str_all_digits nat_str_all_digits]
  then have "(p @ ''/dt='' @ d @ ''/part'') @ CHR ''-'' # nat_str e = (p' @ ''/dt='' @ d' @ ''/part'') @ CHR ''-'' # nat_str e'"
    by simp
  note 2 = digits_end [OF this minus minus nat_str_all_digits nat_str_all_digits]
  from 1 2 show ?thesis by simp
qed

subsection \<open>The invariant\<close>

text \<open>A row is kept: it is still in the table as it was, or archived under a name whose object holds it
  beside other rows that satisfy \<open>W\<close> and have other ids.\<close>

definition kept_row :: "archive_env \<Rightarrow> (log_row \<Rightarrow> bool) \<Rightarrow> archive_state \<Rightarrow> log_row \<Rightarrow> bool" where
  "kept_row env W st r =
     (r \<in> set (as_rows st) \<or>
      (\<exists>key now rs. archive_row key now r \<in> set (as_rows st) \<and> r \<in> set rs \<and>
         list_all W rs \<and> distinct (map ml_id rs) \<and>
         map_of (as_objects st) key = Some (object_of env rs)))"

definition arch_inv :: "archive_env \<Rightarrow> (log_row \<Rightarrow> bool) \<Rightarrow> (nat \<times> nat) set \<Rightarrow> log_row set \<Rightarrow> log_row set \<Rightarrow> archive_state \<Rightarrow> bool" where
  "arch_inv env W used live kept st =
     (distinct (map ml_id (as_rows st)) \<and>
      (\<forall>r \<in> set (as_rows st). lr_archivedAt r = None \<longrightarrow> W r) \<and>
      {r \<in> set (as_rows st). lr_archivedAt r = None} \<subseteq> live \<and>
      (\<forall>r \<in> kept. kept_row env W st r) \<and>
      (\<forall>key \<in> fst ` set (as_objects st). \<exists>d p e s. key = buildArchiveKey d e s p \<and> (e, s) \<in> used))"

lemma inv_mono: "arch_inv env W used live kept st \<Longrightarrow> used \<subseteq> used' \<Longrightarrow> arch_inv env W used' live kept st"
  unfolding arch_inv_def by blast

lemma inv_live: "arch_inv env W used live kept st \<Longrightarrow> arch_inv env W used (set (as_rows st)) kept st"
  unfolding arch_inv_def by blast

lemma archive_row_simps [simp]: "ml_id (archive_row key now r) = ml_id r" "lr_archivedAt (archive_row key now r) = Some now"
  by (simp_all add: archive_row_def)

lemma mark_ids [simp]: "map ml_id (markArchived ids key now rows) = map ml_id rows"
  by (simp add: markArchived_def)

lemma mark_live: "r \<in> set (markArchived ids key now rows) \<Longrightarrow> lr_archivedAt r = None \<Longrightarrow> r \<in> set rows"
  by (auto simp: markArchived_def split: if_splits)

lemma mark_archived: "r \<in> set rows \<Longrightarrow> lr_archivedAt r \<noteq> None \<Longrightarrow> r \<in> set (markArchived ids key now rows)"
  by (force simp: markArchived_def)

lemma mark_other:
  "r \<in> set rows \<Longrightarrow> ml_id r \<notin> set ids \<Longrightarrow> r \<in> set (markArchived ids key now rows)"
  by (force simp: markArchived_def)

lemma mark_hit:
  "r \<in> set rows \<Longrightarrow> ml_id r \<in> set ids \<Longrightarrow> lr_archivedAt r = None \<Longrightarrow>
     archive_row key now r \<in> set (markArchived ids key now rows)"
  by (force simp: markArchived_def)

lemma put_inv:
  assumes inv: "arch_inv env W used live kept st" and fresh: "(e, s) \<notin> used"
    and p: "put_object env io (buildArchiveKey d e s p) body st = (ok, st1)"
  shows "arch_inv env W (insert (e, s) used) live kept st1" "as_rows st1 = as_rows st"
    "\<not> ae_dryRun env \<Longrightarrow> ok \<Longrightarrow> map_of (as_objects st1) (buildArchiveKey d e s p) = Some body"
proof -
  let ?key = "buildArchiveKey d e s p"
  have new: "?key \<notin> fst ` set (as_objects st)"
    using inv fresh key_inj unfolding arch_inv_def by blast
  show "as_rows st1 = as_rows st" using p by (auto simp: put_object_def split: if_splits)
  show "\<not> ae_dryRun env \<Longrightarrow> ok \<Longrightarrow> map_of (as_objects st1) ?key = Some body"
    using p by (auto simp: put_object_def split: if_splits)
  have keeps: "kept_row env W st1 r" if "kept_row env W st r" for r
  proof -
    have "map_of (as_objects st1) k = map_of (as_objects st) k" if "map_of (as_objects st) k = Some v" for k v
    proof -
      from that have "k \<noteq> ?key" using new by (metis domI dom_map_of_conv_image_fst)
      with p show ?thesis by (auto simp: put_object_def split: if_splits)
    qed
    with that \<open>as_rows st1 = as_rows st\<close> show ?thesis by (force simp: kept_row_def)
  qed
  have sub: "fst ` set (as_objects st1) \<subseteq> insert ?key (fst ` set (as_objects st))"
    using p set_update_subset [of ?key body "as_objects st"]
    by (force simp: put_object_def split: if_splits)
  have names: "\<exists>d' p' e' s'. k = buildArchiveKey d' e' s' p' \<and> (e', s') \<in> insert (e, s) used"
    if "k \<in> fst ` set (as_objects st1)" for k
  proof (cases "k = ?key")
    case True
    then have "k = buildArchiveKey d e s p \<and> (e, s) \<in> insert (e, s) used" by simp
    then show ?thesis by blast
  next
    case False
    with that sub have "k \<in> fst ` set (as_objects st)" by blast
    moreover have "\<forall>k \<in> fst ` set (as_objects st). \<exists>d p e s. k = buildArchiveKey d e s p \<and> (e, s) \<in> used"
      using inv by (simp add: arch_inv_def)
    ultimately show ?thesis by blast
  qed
  show "arch_inv env W (insert (e, s) used) live kept st1"
    unfolding arch_inv_def
  proof (intro conjI ballI)
    fix k
    assume "k \<in> fst ` set (as_objects st1)"
    then show "\<exists>d p e' s'. k = buildArchiveKey d e' s' p \<and> (e', s') \<in> insert (e, s) used"
      using names by blast
  next
    fix r
    assume "r \<in> kept"
    with inv keeps show "kept_row env W st1 r" by (simp add: arch_inv_def)
  qed (use inv \<open>as_rows st1 = as_rows st\<close> in \<open>simp_all add: arch_inv_def\<close>)
qed

lemma mark_inv:
  assumes inv: "arch_inv env W used live kept st" and inj: "inj_on ml_id live" and rs: "set rs \<subseteq> live"
    and W: "list_all W rs" "distinct (map ml_id rs)"
    and obj: "\<not> ae_dryRun env \<Longrightarrow> map_of (as_objects st) key = Some (object_of env rs)"
    and m: "mark_rows env io (map ml_id rs) key now st = (ok, st1)"
  shows "arch_inv env W used live kept st1"
proof (cases "ae_dryRun env \<or> io = NotDone")
  case True
  with m inv show ?thesis by (auto simp: mark_rows_def split: if_splits)
next
  case False
  let ?rows = "markArchived (map ml_id rs) key now (as_rows st)"
  from False m have st1: "st1 = st\<lparr>as_rows := ?rows\<rparr>" by (auto simp: mark_rows_def split: if_splits)
  have "kept_row env W st1 r" if k: "kept_row env W st r" for r
  proof (cases "r \<in> set (as_rows st)")
    case True
    show ?thesis
    proof (cases "ml_id r \<in> set (map ml_id rs) \<and> lr_archivedAt r = None")
      case t: True
      then have "r \<in> live" using True inv by (auto simp: arch_inv_def)
      with t inj rs have "r \<in> set rs" by (auto simp: inj_on_def dest!: subsetD)
      moreover have "archive_row key now r \<in> set ?rows" using mark_hit True t by blast
      ultimately show ?thesis using obj False W by (auto simp: kept_row_def st1)
    next
      case False
      then have "r \<in> set ?rows" using True mark_archived mark_other by blast
      then show ?thesis by (simp add: kept_row_def st1)
    qed
  next
    case False
    with k obtain k' n' rs' where a: "archive_row k' n' r \<in> set (as_rows st)" "r \<in> set rs'"
      "list_all W rs'" "distinct (map ml_id rs')" "map_of (as_objects st) k' = Some (object_of env rs')"
      by (auto simp: kept_row_def)
    then have "archive_row k' n' r \<in> set ?rows" by (intro mark_archived) simp_all
    with a show ?thesis by (auto simp: kept_row_def st1)
  qed
  then show ?thesis using inv mark_live unfolding arch_inv_def by (auto simp: st1)
qed

lemma parts_inv:
  "arch_inv env W used live kept st \<Longrightarrow> inj_on ml_id live \<Longrightarrow> (\<forall>(d, rs) \<in> set days. set rs \<subseteq> live \<and> list_all W rs \<and> distinct (map ml_id rs)) \<Longrightarrow>
     (\<forall>s \<ge> seq. (e, s) \<notin> used) \<Longrightarrow>
     arch_inv env W (used \<union> {e} \<times> UNIV) live kept (snd (snd (archive_parts env e io seq days st)))"
proof (induction days arbitrary: seq used st)
  case Nil
  then show ?case by (auto intro: inv_mono)
next
  case (Cons day days)
  obtain d rs where day: "day = (d, rs)" by fastforce
  let ?key = "buildArchiveKey (ae_day env d) e seq (ae_prefix env)"
  have wider: "arch_inv env W (used \<union> {e} \<times> UNIV) live kept s'" if "arch_inv env W (insert (e, seq) used) live kept s'" for s'
    using that by (rule inv_mono) auto
  obtain ok1 st1 where p: "put_object env (fst (io seq)) ?key (object_of env rs) st = (ok1, st1)" by fastforce
  note pi = put_inv [OF Cons.prems(1) _ p]
  have fresh: "(e, seq) \<notin> used" using Cons.prems(4) by simp
  show ?case
  proof (cases ok1)
    case False
    with p day pi(1) [OF fresh] wider show ?thesis by simp
  next
    case True
    obtain ok2 st2 where m: "mark_rows env (snd (io seq)) (map ml_id rs) ?key (of_nat e) st1 = (ok2, st2)" by fastforce
    have "set rs \<subseteq> live" "list_all W rs" "distinct (map ml_id rs)" using Cons.prems(3) day by auto
    note mi = mark_inv [OF pi(1) [OF fresh] Cons.prems(2) this pi(3) [OF fresh _ True] m]
    show ?thesis
    proof (cases ok2)
      case False
      with p m day True mi wider show ?thesis by simp
    next
      case ok2: True
      have "arch_inv env W (insert (e, seq) used \<union> {e} \<times> UNIV) live kept (snd (snd (archive_parts env e io (seq + 1) days st2)))"
        by (rule Cons.IH [OF mi Cons.prems(2)]) (use Cons.prems(3,4) in auto)
      moreover have "insert (e, seq) used \<union> {e} \<times> UNIV = used \<union> {e} \<times> UNIV" by auto
      ultimately show ?thesis using p m day True ok2 by (simp add: split_beta)
    qed
  qed
qed

lemma set_add_to_day: "(\<Union>(d, rs) \<in> set (add_to_day k r days). set rs) = insert r (\<Union>(d, rs) \<in> set days. set rs)"
  by (induction k r days rule: add_to_day.induct) auto

lemma set_byDay: "(\<Union>(d, rs) \<in> set (byDay rows). set rs) = set rows"
proof -
  have "(\<Union>(d, rs) \<in> set (fold (\<lambda>r. add_to_day (utcDayKey (ml_ts r)) r) rows days). set rs) =
      set rows \<union> (\<Union>(d, rs) \<in> set days. set rs)" for days
    by (induction rows arbitrary: days) (auto simp: set_add_to_day)
  from this [of "[]"] show ?thesis by (simp add: byDay_def)
qed

lemma distinct_add_to_day:
  "\<forall>(d, rs) \<in> set days. distinct (map ml_id rs) \<and> ml_id r \<notin> ml_id ` set rs \<Longrightarrow>
     \<forall>(d, rs) \<in> set (add_to_day k r days). distinct (map ml_id rs)"
  by (induction k r days rule: add_to_day.induct) auto

lemma distinct_byDay:
  assumes "distinct (map ml_id rows)"
  shows "\<forall>(d, rs) \<in> set (byDay rows). distinct (map ml_id rs)"
proof -
  have "\<forall>(d, rs) \<in> set (fold (\<lambda>r. add_to_day (utcDayKey (ml_ts r)) r) rows days). distinct (map ml_id rs)"
    if "distinct (map ml_id rows)" "\<forall>(d, rs) \<in> set days. distinct (map ml_id rs) \<and> ml_id ` set rs \<inter> ml_id ` set rows = {}"
    for days
    using that
  proof (induction rows arbitrary: days)
    case (Cons r rows)
    let ?days = "add_to_day (utcDayKey (ml_ts r)) r days"
    have "\<forall>(d, rs) \<in> set days. distinct (map ml_id rs) \<and> ml_id r \<notin> ml_id ` set rs" using Cons.prems(2) by auto
    from distinct_add_to_day [OF this] have 1: "\<forall>(d, rs) \<in> set ?days. distinct (map ml_id rs)" .
    have "(\<Union>(d, rs) \<in> set ?days. set rs) = insert r (\<Union>(d, rs) \<in> set days. set rs)" by (rule set_add_to_day)
    then have 2: "x = r \<or> (\<exists>(d', rs') \<in> set days. x \<in> set rs')" if "(d, rs) \<in> set ?days" "x \<in> set rs" for d rs x
      using that by blast
    have 3: "ml_id x \<notin> ml_id ` set rows" if "(d, rs) \<in> set ?days" "x \<in> set rs" for d rs x
      using 2 [OF that] Cons.prems by fastforce
    have "distinct (map ml_id rs) \<and> ml_id ` set rs \<inter> ml_id ` set rows = {}" if "(d, rs) \<in> set ?days" for d rs
      using 1 3 [OF that] that by blast
    then have "\<forall>(d, rs) \<in> set ?days. distinct (map ml_id rs) \<and> ml_id ` set rs \<inter> ml_id ` set rows = {}" by blast
    moreover have "distinct (map ml_id rows)" using Cons.prems(1) by simp
    ultimately show ?case using Cons.IH [of ?days] by simp
  qed auto
  from this [of "[]"] assms show ?thesis by (simp add: byDay_def)
qed

lemma batch_inv:
  assumes "arch_inv env W used (set (as_rows st)) kept st" and "e \<notin> fst ` used"
  shows "arch_inv env W (used \<union> {e} \<times> UNIV) (set (as_rows st)) kept (snd (snd (archiveBatch env e io st)))"
  unfolding archiveBatch_def
proof (rule parts_inv [OF assms(1)])
  show "inj_on ml_id (set (as_rows st))" using assms(1) by (simp add: arch_inv_def distinct_map)
  let ?batch = "selectBatch (cutoffFrom (of_nat e) (ae_cutoffDays env)) (ae_batchSize env) (as_rows st)"
  have "set ?batch \<subseteq> set (as_rows st)"
    unfolding selectBatch_def by (auto dest!: in_set_takeD)
  moreover have "\<forall>r \<in> set ?batch. W r"
    using assms(1) unfolding selectBatch_def arch_inv_def by (auto dest!: in_set_takeD)
  ultimately have "set rs \<subseteq> set (as_rows st) \<and> list_all W rs" if "(d, rs) \<in> set (byDay ?batch)" for d rs
    using set_byDay [of ?batch] that by (fastforce simp: list_all_iff)
  moreover have "distinct (map ml_id (filter P (as_rows st)))" for P
    using assms(1) by (simp add: arch_inv_def distinct_map_filter)
  then have "distinct (map ml_id (sort_key ml_ts (filter P (as_rows st))))" for P
    by (simp add: distinct_map)
  then have "distinct (map ml_id ?batch)"
    unfolding selectBatch_def take_map [symmetric] by (rule distinct_take)
  ultimately show "\<forall>(d, rs) \<in> set (byDay ?batch). set rs \<subseteq> set (as_rows st) \<and> list_all W rs \<and> distinct (map ml_id rs)"
    using distinct_byDay [of ?batch] by fastforce
  show "\<forall>s \<ge> 0. (e, s) \<notin> used" using assms(2) by force
qed

subsection \<open>Runs\<close>

text \<open>What happens to the table and the bucket: batches of the archiver and rows the proxy writes.\<close>

datatype archive_op = RunBatch nat "nat \<Rightarrow> io_outcome \<times> io_outcome" | WriteRow message_log

fun archive_run :: "archive_env \<Rightarrow> archive_op list \<Rightarrow> archive_state \<Rightarrow> archive_state" where
  "archive_run env [] st = st"
| "archive_run env (RunBatch e io # ops) st = archive_run env ops (snd (snd (archiveBatch env e io st)))"
| "archive_run env (WriteRow m # ops) st = archive_run env ops (st\<lparr>as_rows := snd (store_record m (as_rows st))\<rparr>)"

fun epochs :: "archive_op list \<Rightarrow> nat list" where
  "epochs [] = []"
| "epochs (RunBatch e io # ops) = e # epochs ops"
| "epochs (WriteRow m # ops) = epochs ops"

lemma run_append: "archive_run env (xs @ ys) st = archive_run env ys (archive_run env xs st)"
  by (induction env xs st rule: archive_run.induct) auto

lemma epochs_append: "epochs (xs @ ys) = epochs xs @ epochs ys"
  by (induction xs rule: epochs.induct) auto

lemma stored_id [simp]: "ml_id (stored_row m) = ml_id m"
  by (simp add: stored_row_def Let_def message_log.defs log_row.defs)

lemma store_cases:
  "snd (store_record m rows) = rows \<or> (snd (store_record m rows) = rows @ [stored_row m] \<and> ml_id m \<notin> ml_id ` set rows)"
  by (auto simp: store_record_def Let_def list_ex_iff)

lemma write_inv:
  assumes "arch_inv env W used (set (as_rows st)) kept st" and "W (stored_row m)"
  shows "arch_inv env W used (set (snd (store_record m (as_rows st)))) kept (st\<lparr>as_rows := snd (store_record m (as_rows st))\<rparr>)"
proof (cases "snd (store_record m (as_rows st)) = as_rows st")
  case True
  with assms show ?thesis by simp
next
  case False
  with store_cases [of m "as_rows st"] have new: "snd (store_record m (as_rows st)) = as_rows st @ [stored_row m]"
    "ml_id m \<notin> ml_id ` set (as_rows st)" by auto
  have "kept_row env W (st\<lparr>as_rows := as_rows st @ [stored_row m]\<rparr>) r" if "kept_row env W st r" for r
    using that by (auto simp: kept_row_def)
  with assms new show ?thesis by (auto simp: arch_inv_def)
qed

lemma run_inv:
  "arch_inv env W used (set (as_rows st)) kept st \<Longrightarrow> distinct (epochs ops) \<Longrightarrow> set (epochs ops) \<inter> fst ` used = {} \<Longrightarrow>
     (\<forall>m. WriteRow m \<in> set ops \<longrightarrow> W (stored_row m)) \<Longrightarrow>
     arch_inv env W (used \<union> set (epochs ops) \<times> UNIV) (set (as_rows (archive_run env ops st))) kept (archive_run env ops st)"
proof (induction env ops st arbitrary: used rule: archive_run.induct)
  case (2 env e io ops st)
  have "arch_inv env W (used \<union> {e} \<times> UNIV) (set (as_rows st)) kept (snd (snd (archiveBatch env e io st)))"
    using 2 by (intro batch_inv) auto
  moreover have "fst ` (used \<union> {e} \<times> UNIV) = insert e (fst ` used)" by force
  ultimately have "arch_inv env W ((used \<union> {e} \<times> UNIV) \<union> set (epochs ops) \<times> UNIV)
      (set (as_rows (archive_run env (RunBatch e io # ops) st))) kept (archive_run env (RunBatch e io # ops) st)"
    using "2.IH" [OF inv_live] "2.prems"(2-4) by simp
  moreover have "(used \<union> {e} \<times> UNIV) \<union> set (epochs ops) \<times> UNIV = used \<union> set (epochs (RunBatch e io # ops)) \<times> UNIV"
    by auto
  ultimately show ?case by simp
next
  case (3 env m ops st)
  from "3.IH" [of used] write_inv [OF "3.prems"(1)] "3.prems"(2-4) show ?case by simp
qed simp

text \<open>The loop of the command is such a run.\<close>

lemma loop_run:
  "\<exists>bs1 bs2. bs = bs1 @ bs2 \<and> snd (snd (archive_loop env bs st)) = archive_run env (map (\<lambda>(e, io). RunBatch e io) bs1) st"
proof (induction bs arbitrary: st)
  case (Cons b bs)
  obtain now io where nb: "b = (now, io)" by fastforce
  obtain ok n st1 where b: "archiveBatch env now io st = (ok, n, st1)" by (metis prod_cases3)
  show ?case
  proof (cases "\<not> ok \<or> n = 0 \<or> ae_dryRun env")
    case True
    with b nb show ?thesis by (intro exI [of _ "[(now, io)]"] exI [of _ bs]) auto
  next
    case False
    from Cons.IH [of st1] obtain bs1 bs2 where "bs = bs1 @ bs2"
      "snd (snd (archive_loop env bs st1)) = archive_run env (map (\<lambda>(e, io). RunBatch e io) bs1) st1" by auto
    moreover obtain ok' n' st2 where "archive_loop env bs st1 = (ok', n', st2)" by (metis prod_cases3)
    ultimately have "b # bs = ((now, io) # bs1) @ bs2 \<and> snd (snd (archive_loop env (b # bs) st)) =
        archive_run env (map (\<lambda>(e, io). RunBatch e io) ((now, io) # bs1)) st"
      using False b nb by simp
    then show ?thesis by blast
  qed
qed auto

subsection \<open>A batch that succeeds\<close>

definition backlog :: "rat \<Rightarrow> log_row list \<Rightarrow> log_row list" where
  "backlog cutoff rows = filter (\<lambda>r. lr_archivedAt r = None \<and> ml_ts r < cutoff) rows"

lemma mark_backlog:
  "backlog c (markArchived ids key now rows) = filter (\<lambda>r. ml_id r \<notin> set ids) (backlog c rows)"
  by (induction rows) (auto simp: markArchived_def backlog_def)

definition rows_of :: "(int \<times> log_row list) list \<Rightarrow> log_row list" where
  "rows_of days = concat (map snd days)"

lemma parts_succeed:
  assumes "\<not> ae_dryRun env" "\<And>k. io k = (Done, Done)"
  shows "fst (archive_parts env e io seq days st) \<and>
    fst (snd (archive_parts env e io seq days st)) = length (rows_of days) \<and>
    backlog c (as_rows (snd (snd (archive_parts env e io seq days st)))) =
      filter (\<lambda>r. ml_id r \<notin> ml_id ` set (rows_of days)) (backlog c (as_rows st))"
proof (induction days arbitrary: seq st)
  case (Cons day days)
  obtain d rs where day: "day = (d, rs)" by fastforce
  define key where "key = buildArchiveKey (ae_day env d) e seq (ae_prefix env)"
  define st2 where "st2 = st\<lparr>as_objects := AList.update key (object_of env rs) (as_objects st),
    as_rows := markArchived (map ml_id rs) key (of_nat e) (as_rows st)\<rparr>"
  have "archive_parts env e io seq (day # days) st =
      (case archive_parts env e io (seq + 1) days st2 of (ok, n, st3) \<Rightarrow> (ok, length rs + n, st3))"
    using assms by (simp add: day put_object_def mark_rows_def Let_def key_def [symmetric] st2_def)
  moreover have "as_rows st2 = markArchived (map ml_id rs) key (of_nat e) (as_rows st)" by (simp add: st2_def)
  ultimately show ?case
    using Cons.IH [of "seq + 1" st2] by (auto simp: split_beta rows_of_def day mark_backlog intro!: filter_cong)
qed (simp add: rows_of_def)

lemma length_add_to_day: "length (rows_of (add_to_day k r days)) = Suc (length (rows_of days))"
  by (induction k r days rule: add_to_day.induct) (auto simp: rows_of_def)

lemma length_byDay: "length (rows_of (byDay rows)) = length rows"
proof -
  have "length (rows_of (fold (\<lambda>r. add_to_day (utcDayKey (ml_ts r)) r) rows days)) = length rows + length (rows_of days)" for days
    by (induction rows arbitrary: days) (auto simp: length_add_to_day)
  from this [of "[]"] show ?thesis by (simp add: byDay_def rows_of_def)
qed

lemma rows_byDay: "set (rows_of (byDay rows)) = set rows"
  using set_byDay [of rows] by (simp add: rows_of_def split_beta)

lemma filter_not_selected:
  assumes "distinct (map f xs)" "set ys \<subseteq> set xs" "distinct ys"
  shows "length (filter (\<lambda>x. f x \<notin> f ` set ys) xs) = length xs - length ys"
proof -
  have inj: "inj_on f (set xs)" "distinct xs" using assms(1) by (auto simp: distinct_map)
  have "set (filter (\<lambda>x. f x \<notin> f ` set ys) xs) = set xs - set ys"
    using inj(1) assms(2) by (auto simp: inj_on_def)
  moreover have "card (set xs - set ys) = length xs - length ys"
    using assms(2,3) inj(2) by (simp add: card_Diff_subset distinct_card)
  ultimately show ?thesis using inj(2) by (metis distinct_card distinct_filter)
qed

text \<open>A batch measured by any later cutoff \<open>c'\<close>.\<close>

lemma batch_succeeds:
  assumes "\<not> ae_dryRun env" and "io = (\<lambda>k. (Done, Done))" and "distinct (map ml_id (as_rows st))"
    and "c = cutoffFrom (of_nat e) (ae_cutoffDays env)" and "c \<le> c'"
  shows "\<exists>st'. archiveBatch env e io st = (True, min (ae_batchSize env) (length (backlog c (as_rows st))), st') \<and>
     length (backlog c' (as_rows st')) + min (ae_batchSize env) (length (backlog c (as_rows st))) = length (backlog c' (as_rows st)) \<and>
     set (backlog c'' (as_rows st')) \<subseteq> set (backlog c'' (as_rows st))"
proof -
  define sel where "sel = selectBatch c (ae_batchSize env) (as_rows st)"
  have db: "distinct (map ml_id (backlog d (as_rows st)))" for d
    using assms(3) by (simp add: backlog_def distinct_map_filter)
  have sel_take: "sel = take (ae_batchSize env) (sort_key ml_ts (backlog c (as_rows st)))"
    by (simp add: sel_def selectBatch_def backlog_def)
  have sub: "set (backlog c (as_rows st)) \<subseteq> set (backlog c' (as_rows st))" using assms(5) by (auto simp: backlog_def)
  have ds: "distinct sel" "set sel \<subseteq> set (backlog c (as_rows st))" "length sel = min (ae_batchSize env) (length (backlog c (as_rows st)))"
    unfolding sel_take using db [of c] by (auto simp: distinct_map min_def dest: in_set_takeD)
  have io: "io k = (Done, Done)" for k using assms(2) by simp
  have run: "archiveBatch env e io st = archive_parts env e io 0 (byDay sel) st"
    by (simp add: archiveBatch_def sel_def assms(4))
  have "length sel \<le> length (backlog c' (as_rows st))"
    using ds(1,2) sub db [of c'] by (metis card_mono distinct_card distinct_map List.finite_set subset_trans)
  with parts_succeed [where io = io, OF assms(1) io, where e = e and seq = 0 and days = "byDay sel" and st = st and c = c']
    parts_succeed [where io = io, OF assms(1) io, where e = e and seq = 0 and days = "byDay sel" and st = st and c = c'']
    filter_not_selected [OF db [of c'] subset_trans [OF ds(2) sub] ds(1)]
  show ?thesis
    unfolding run
    by (cases "archive_parts env e io 0 (byDay sel) st") (simp add: length_byDay rows_byDay ds(3))
qed

lemma batch_ids: "map ml_id (as_rows (snd (snd (archiveBatch env e io st)))) = map ml_id (as_rows st)"
proof -
  have "map ml_id (as_rows (snd (snd (archive_parts env e io seq days st)))) = map ml_id (as_rows st)" for seq days and st :: archive_state
    by (induction days arbitrary: seq st)
       (auto simp: put_object_def mark_rows_def Let_def split_beta)
  then show ?thesis by (simp add: archiveBatch_def)
qed

text \<open>Whatever a run does after some moment, a row the table holds at that moment is kept, the rows keep
  distinct ids, and an archived row points to a named object.\<close>

lemma run_keeps:
  assumes "distinct (map ml_id (as_rows st))" and "as_objects st = []" and "distinct (epochs (ops1 @ ops2))"
    and W: "\<forall>r \<in> set (as_rows st). lr_archivedAt r = None \<longrightarrow> W r" "\<forall>m. WriteRow m \<in> set (ops1 @ ops2) \<longrightarrow> W (stored_row m)"
    and "r \<in> set (as_rows (archive_run env ops1 st))"
  shows "kept_row env W (archive_run env (ops1 @ ops2) st) r"
    and "distinct (map ml_id (as_rows (archive_run env (ops1 @ ops2) st)))"
    and "map_of (as_objects (archive_run env (ops1 @ ops2) st)) [] = None"
proof -
  let ?mid = "archive_run env ops1 st"
  have d: "distinct (epochs ops1)" "distinct (epochs ops2)" "set (epochs ops2) \<inter> set (epochs ops1) = {}"
    using assms(3) by (auto simp: epochs_append)
  have "arch_inv env W {} (set (as_rows st)) {} st" using assms(1,2) W(1) by (auto simp: arch_inv_def)
  from run_inv [OF this d(1)] W(2)
  have "arch_inv env W (set (epochs ops1) \<times> UNIV) (set (as_rows ?mid)) {} ?mid" by simp
  then have "arch_inv env W (set (epochs ops1) \<times> UNIV) (set (as_rows ?mid)) {r} ?mid"
    using assms(6) by (simp add: arch_inv_def kept_row_def)
  from run_inv [OF this d(2)] d(3) W(2)
  obtain used live where fin: "arch_inv env W used live {r} (archive_run env (ops1 @ ops2) st)"
    by (auto simp: run_append)
  then show "kept_row env W (archive_run env (ops1 @ ops2) st) r"
    and "distinct (map ml_id (as_rows (archive_run env (ops1 @ ops2) st)))"
    by (auto simp: arch_inv_def)
  have "[] \<notin> fst ` set (as_objects (archive_run env (ops1 @ ops2) st))"
    using fin unfolding arch_inv_def by (auto simp: buildArchiveKey_def)
  then show "map_of (as_objects (archive_run env (ops1 @ ops2) st)) [] = None"
    by (simp add: map_of_eq_None_iff)
qed

text \<open>A row whose JSON text is one line that parses back and contains the id.\<close>

definition clean_line :: "archive_env \<Rightarrow> (string \<Rightarrow> json option) \<Rightarrow> log_row \<Rightarrow> bool" where
  "clean_line env parse x =
     (parse (ae_stringify env (row_json (ae_fmt env) x)) = Some (row_json (ae_fmt env) x) \<and>
      CHR 0x0A \<notin> set (ae_stringify env (row_json (ae_fmt env) x)) \<and>
      includes_str (ae_stringify env (row_json (ae_fmt env) x)) (ml_id x))"

text \<open>What was uploaded can be read back: the object of a group of rows yields each of them by its id.\<close>

lemma row_reads_back:
  assumes "gunzip (object_of env rows) = serializeJsonl (ae_stringify env) (ae_fmt env) rows"
    and W: "list_all (clean_line env parse) rows"
    and "distinct (map ml_id rows)" and "r \<in> set rows" and "ml_id r \<noteq> []"
  shows "\<exists>kvs. parseArchivedRow parse gunzip (object_of env rows) (ml_id r) = Some kvs \<and>
           JObj kvs = row_json (ae_fmt env) r \<and> get kvs ''requestBody'' = Some (opt_json id (lr_request r)) \<and>
           get kvs ''responseBody'' = Some (opt_json id (lr_response r))"
proof -
  note assms = assms(1) W [unfolded list_all_iff clean_line_def] assms(3-5)
  let ?line = "\<lambda>x. ae_stringify env (row_json (ae_fmt env) x)"
  note split1 = split_go_char [of "CHR 0x0A"]
  have lines: "split_go [CHR 0x0A] 0 [] (join_str [CHR 0x0A] (map ?line xs) @ [CHR 0x0A]) = map ?line xs @ [[]]"
    if "set xs \<subseteq> set rows" "xs \<noteq> []" for xs
    using that
  proof (induction xs)
    case (Cons x xs)
    have nl: "CHR 0x0A \<notin> set (?line x)" using Cons.prems(1) assms(2) by simp
    show ?case
    proof (cases "xs = []")
      case True
      then show ?thesis using split1 [OF nl, of "[]" "[]"] by simp
    next
      case False
      with Cons have "split_go [CHR 0x0A] 0 [] (join_str [CHR 0x0A] (map ?line xs) @ [CHR 0x0A]) = map ?line xs @ [[]]"
        by simp
      with False split1 [OF nl, of "[]" "join_str [CHR 0x0A] (map ?line xs) @ [CHR 0x0A]"]
      show ?thesis by (simp add: join_Cons)
    qed
  qed simp
  have ne: "rows \<noteq> []" using assms(4) by auto
  obtain fields where fields: "\<And>x. row_json (ae_fmt env) x = JObj (fields x)" "\<And>x. get (fields x) ''id'' = Some (JStr (ml_id x))"
    "\<And>x. get (fields x) ''requestBody'' = Some (opt_json id (lr_request x))"
    "\<And>x. get (fields x) ''responseBody'' = Some (opt_json id (lr_response x))"
    by (rule that [of "\<lambda>x. spread (row_json (ae_fmt env) x)"]) (simp_all add: row_json_def)
  have found: "find_line parse (ml_id r) (map ?line xs @ [[]]) = Some (fields r)"
    if "set xs \<subseteq> set rows" "r \<in> set xs" for xs
    using that
  proof (induction xs)
    case (Cons x xs)
    have x: "parse (?line x) = Some (JObj (fields x))" "includes_str (?line x) (ml_id x)"
      using Cons.prems(1) assms(2) fields(1) by auto
    show ?case
    proof (cases "x = r")
      case True
      with x assms(5) fields(2) show ?thesis by (auto simp: includes_str_def)
    next
      case False
      then have "ml_id x \<noteq> ml_id r" using Cons.prems assms(3,4) by (auto simp: distinct_map inj_on_def)
      with False x fields(2) Cons show ?thesis by auto
    qed
  qed simp
  have "parseArchivedRow parse gunzip (object_of env rows) (ml_id r) = Some (fields r)"
    using lines [OF subset_refl ne] found [OF subset_refl assms(4)] assms(1)
    by (simp add: parseArchivedRow_def split_str_def serializeJsonl_def)
  with fields show ?thesis by metis
qed

subsection \<open>Properties\<close>

text \<open>C7: archiving loses no body. Take any row the table holds at some moment of a run of batches and
  writes; whatever uploads and updates later fail, half succeed or are interrupted, at the end the row
  is still in the table as it was or is marked as archived under a name whose object contains it. The
  batches must read distinct clock values, since those make the object names distinct.\<close>

theorem archived_bodies_survive:
  assumes "distinct (map ml_id (as_rows st))" and "as_objects st = []" and "distinct (epochs (ops1 @ ops2))"
    and "r \<in> set (as_rows (archive_run env ops1 st))"
  shows "kept_row env (\<lambda>_. True) (archive_run env (ops1 @ ops2) st) r"
  by (rule run_keeps(1)) (use assms in simp_all)

definition demo_row :: log_row where
  "demo_row = stored_row \<lparr>ml_id = ''a'', ml_ts = 5, ml_userName = ''u'', ml_model = None, ml_status = 200,
     ml_streaming = False, ml_durationMs = 1, ml_meta = EMPTY_META, ml_clientIp = None, ml_userAgent = None,
     ml_requestBody = JStr ''hello'', ml_responseBody = None, ml_errorMessage = None, ml_servedBy = None,
     ml_bypassMetadata = None, ml_source = None\<rparr>"

definition demo_env :: archive_env where
  "demo_env = \<lparr>ae_gzip = id, ae_stringify = (\<lambda>v. ''a''), ae_fmt = (\<lambda>t. ''t''), ae_day = (\<lambda>d. ''d''), ae_prefix = ''p'',
     ae_cutoffDays = 0, ae_batchSize = 5, ae_dryRun = False\<rparr>"

definition demo_ops :: "archive_op list" where
  "demo_ops = [RunBatch 10 (\<lambda>k. (DoneButLost, Done)), RunBatch 11 (\<lambda>k. (Done, Done))]"

theorem archived_bodies_survive_witness:
  "kept_row demo_env (\<lambda>_. True) (archive_run demo_env demo_ops \<lparr>as_rows = [demo_row], as_objects = []\<rparr>) demo_row"
proof -
  have "distinct (epochs ([] @ demo_ops))" by (simp add: demo_ops_def)
  from archived_bodies_survive [OF _ _ this, of "\<lparr>as_rows = [demo_row], as_objects = []\<rparr>" demo_row demo_env]
  show ?thesis by simp
qed



end
