(* ===== verification/Config.thy ===== *)
theory Config
  imports ApiKeyAuth
begin

text \<open>
  \<open>src/src/config.ts\<close>: the configuration read from the environment. \<open>env\<close> is \<open>process.env\<close>, \<open>None\<close>
  for a variable that is not set. A numeric variable is what \<open>Number\<close> makes of its text, so it may be
  \<open>NaN\<close>; the parts that receive it say what they do with that.
\<close>

type_synonym environment = "string \<Rightarrow> string option"

datatype log_level = Debug | Info | Warn | LogError

record settings =
  se_port :: jsnum
  se_host :: string
  se_refreshToken :: string
  se_accessToken :: "string option"
  se_expiresAt :: "jsnum option"
  se_tokenStorePath :: string
  se_apiKeys :: "env_key list"
  se_apiKeysFilePath :: "string option"
  se_dailyTokenLimitPerKey :: jsnum
  se_databaseUrl :: "string option"
  se_globalSubscriptionThresholdTokens :: jsnum
  se_maxConcurrentRequests :: jsnum
  se_maxConcurrentRequestsPerKey :: jsnum
  se_perIpRateLimitPerSecond :: jsnum
  se_pacingMinGapMs :: jsnum
  se_accountUuidOverride :: "string option"
  se_accountsPath :: string
  se_canaryPercent :: jsnum
  se_messagesLogEnabled :: bool
  se_messagesLogArchiveBucket :: "string option"
  se_messagesLogArchiveRegion :: string
  se_discordWebhookUrl :: "string option"
  se_slackWebhookUrl :: "string option"
  se_tlsIp :: "string option"
  se_logLevel :: log_level

text \<open>A variable that is set and not empty, the idiom of the optional addresses.\<close>

definition present :: "string option \<Rightarrow> string option" where
  "present v = (case v of Some (c # cs) \<Rightarrow> Some (c # cs) | _ \<Rightarrow> None)"

definition or_default :: "string \<Rightarrow> string option \<Rightarrow> string" where
  "or_default d v = (case v of Some s \<Rightarrow> s | None \<Rightarrow> d)"

definition parse_entry :: "string \<Rightarrow> env_key result" where
  "parse_entry pair =
     (if CHR '':'' \<notin> set pair
      then Inl (ConfigError (''API_KEYS entry malformed (expected name:key): '' @ pair))
      else
        let name = trim (takeWhile (\<lambda>c. c \<noteq> CHR '':'') pair);
            key = trim (drop 1 (dropWhile (\<lambda>c. c \<noteq> CHR '':'') pair))
        in if length key < 16
           then Inl (ConfigError (''API_KEYS key for '' @ name @ '' too short (<16 chars)''))
           else Inr \<lparr>ek_name = name, ek_key = key\<rparr>)"

fun parse_entries :: "string list \<Rightarrow> env_key list result" where
  "parse_entries [] = Inr []"
| "parse_entries (pair # pairs) =
     (case parse_entry pair of
        Inl e \<Rightarrow> Inl e
      | Inr k \<Rightarrow> (case parse_entries pairs of Inl e \<Rightarrow> Inl e | Inr ks \<Rightarrow> Inr (k # ks)))"

definition parseApiKeys :: "string option \<Rightarrow> env_key list result" where
  "parseApiKeys raw =
     (case raw of
        None \<Rightarrow> Inr []
      | Some s \<Rightarrow>
          if s = [] then Inr []
          else parse_entries (filter (\<lambda>pair. pair \<noteq> []) (map trim (split_str '','' s))))"

definition parseLogLevel :: "string option \<Rightarrow> log_level result" where
  "parseLogLevel raw =
     (let v = to_lower (or_default ''info'' raw) in
      if v = ''debug'' then Inr Debug else if v = ''info'' then Inr Info
      else if v = ''warn'' then Inr Warn else if v = ''error'' then Inr LogError
      else Inl (ConfigError (''Invalid LOG_LEVEL: '' @ or_default ''undefined'' raw)))"

definition loadConfig :: "environment \<Rightarrow> settings result" where
  "loadConfig env =
     (let apiKeysFilePath = present (env ''API_KEYS_PATH'') in
      case parseApiKeys (env ''API_KEYS'') of
        Inl e \<Rightarrow> Inl e
      | Inr apiKeys \<Rightarrow>
          if length apiKeys = 0 \<and> apiKeysFilePath = None
          then Inl (ConfigError ''Provide API_KEYS env or API_KEYS_PATH (file-based store)'')
          else (case parseLogLevel (env ''LOG_LEVEL'') of
            Inl e \<Rightarrow> Inl e
          | Inr level \<Rightarrow> Inr
              \<lparr>se_port = js_Number (or_default ''3456'' (env ''PORT'')),
               se_host = or_default ''127.0.0.1'' (env ''HOST''),
               se_refreshToken = or_default [] (env ''ANTHROPIC_OAUTH_REFRESH_TOKEN''),
               se_accessToken = env ''ANTHROPIC_OAUTH_ACCESS_TOKEN'',
               se_expiresAt = map_option js_Number (present (env ''ANTHROPIC_OAUTH_EXPIRES_AT'')),
               se_tokenStorePath = or_default ''./data/tokens.json'' (env ''TOKEN_STORE_PATH''),
               se_apiKeys = apiKeys,
               se_apiKeysFilePath = apiKeysFilePath,
               se_dailyTokenLimitPerKey = js_Number (or_default ''0'' (env ''DAILY_TOKEN_LIMIT_PER_KEY'')),
               se_databaseUrl = present (env ''DATABASE_URL''),
               se_globalSubscriptionThresholdTokens =
                 js_Number (or_default ''0'' (env ''GLOBAL_SUBSCRIPTION_THRESHOLD_TOKENS'')),
               se_maxConcurrentRequests = js_Number (or_default ''8'' (env ''MAX_CONCURRENT_REQUESTS'')),
               se_maxConcurrentRequestsPerKey = js_Number (or_default ''0'' (env ''MAX_CONCURRENT_REQUESTS_PER_KEY'')),
               se_perIpRateLimitPerSecond = js_Number (or_default ''0'' (env ''PER_IP_RATE_LIMIT_PER_SECOND'')),
               se_pacingMinGapMs = js_Number (or_default ''0'' (env ''PACING_MIN_GAP_MS'')),
               se_accountUuidOverride = present (env ''ACCOUNT_UUID_OVERRIDE''),
               se_accountsPath = or_default ''./data/accounts.json'' (env ''ACCOUNTS_PATH''),
               se_canaryPercent = js_Number (or_default ''0'' (env ''CANARY_PERCENT'')),
               se_messagesLogEnabled = (to_lower (or_default ''true'' (env ''MESSAGES_LOG_ENABLED'')) \<noteq> ''false''),
               se_messagesLogArchiveBucket = present (env ''MESSAGES_LOG_ARCHIVE_BUCKET''),
               se_messagesLogArchiveRegion = or_default ''ap-northeast-2'' (env ''AWS_REGION''),
               se_discordWebhookUrl = present (env ''DISCORD_WEBHOOK_URL''),
               se_slackWebhookUrl = present (env ''SLACK_WEBHOOK_URL''),
               se_tlsIp = present (env ''TLS_IP''),
               se_logLevel = level\<rparr>))"

subsection \<open>Reading the keys back\<close>

definition show_entry :: "env_key \<Rightarrow> string" where
  "show_entry e = ek_name e @ '':'' @ ek_key e"

text \<open>An entry the format can carry: no separator in the name, no comma, no blank at an end.\<close>

definition plain_entry :: "env_key \<Rightarrow> bool" where
  "plain_entry e =
     (CHR '':'' \<notin> set (ek_name e) \<and> CHR '','' \<notin> set (ek_name e) \<and> CHR '','' \<notin> set (ek_key e) \<and>
      trim (ek_name e) = ek_name e \<and> trim (ek_key e) = ek_key e \<and> 16 \<le> length (ek_key e))"

lemma parse_show:
  assumes "plain_entry e"
  shows "trim (show_entry e) = show_entry e" and "parse_entry (show_entry e) = Inr e"
proof -
  have n: "CHR '':'' \<notin> set (ek_name e)" "trim (ek_name e) = ek_name e" and k: "trim (ek_key e) = ek_key e" "16 \<le> length (ek_key e)"
    using assms by (auto simp: plain_entry_def)
  have "ek_key e \<noteq> []" using k(2) by auto
  then have "last (show_entry e) = last (ek_key e)" "\<not> is_ws (last (ek_key e))"
    using k(1) trim_fix [of "ek_key e"] by (auto simp: show_entry_def)
  moreover have "\<not> is_ws (hd (show_entry e))"
    using n(2) trim_fix [of "ek_name e"] by (cases "ek_name e") (auto simp: show_entry_def is_ws_def)
  ultimately show "trim (show_entry e) = show_entry e" by (simp add: trim_fix)
  have "takeWhile (\<lambda>c. c \<noteq> CHR '':'') (show_entry e) = ek_name e"
    "dropWhile (\<lambda>c. c \<noteq> CHR '':'') (show_entry e) = CHR '':'' # ek_key e"
    using n(1) by (auto simp: show_entry_def takeWhile_append dropWhile_append)
  then show "parse_entry (show_entry e) = Inr e"
    using n k by (simp add: parse_entry_def show_entry_def)
qed

lemma parse_shown: "list_all plain_entry es \<Longrightarrow> parse_entries (map show_entry es) = Inr es"
  by (induction es) (simp_all add: parse_show)

lemma parse_joined:
  assumes "list_all plain_entry es"
  shows "parseApiKeys (Some (join_str '','' (map show_entry es))) = Inr es"
proof (cases "es = []")
  case False
  have "CHR '','' \<notin> set (show_entry e)" if "e \<in> set es" for e
    using assms that by (auto simp: show_entry_def plain_entry_def list_all_iff)
  then have split: "split_str '','' (join_str '','' (map show_entry es)) = map show_entry es"
    using False by (intro split_join) auto
  have "filter (\<lambda>pair. pair \<noteq> []) (map trim (map show_entry es)) = map show_entry es"
    using assms parse_show(1) by (auto simp: list_all_iff filter_id_conv show_entry_def)
  moreover have "join_str '','' (map show_entry es) \<noteq> []"
    using False by (cases es rule: list.exhaust; cases "tl es") (auto simp: show_entry_def)
  ultimately show ?thesis using split parse_shown [OF assms] by (simp add: parseApiKeys_def)
qed (simp add: parseApiKeys_def)

text \<open>What is accepted: every entry has a separator and a key of at least 16 characters. Nothing is asked
  of the name, which may be empty or repeat.\<close>

lemma parse_entries_keys: "parse_entries ps = Inr es \<Longrightarrow> \<forall>e \<in> set es. 16 \<le> length (ek_key e) \<and> trim (ek_name e) = ek_name e"
  by (induction ps arbitrary: es) (auto simp: parse_entry_def Let_def split: sum.splits if_splits)

lemma parsed_keys:
  "parseApiKeys raw = Inr es \<Longrightarrow> \<forall>e \<in> set es. 16 \<le> length (ek_key e) \<and> trim (ek_name e) = ek_name e"
  by (auto simp: parseApiKeys_def split: option.splits if_splits dest!: parse_entries_keys)

lemma empty_name_accepted:
  "parseApiKeys (Some '':0123456789abcdef'') = Inr [\<lparr>ek_name = [], ek_key = ''0123456789abcdef''\<rparr>]"
  by (simp add: parseApiKeys_def split_str_def trim_def is_ws_def parse_entry_def)

end
