(* ===== verification/ArchiveCommand.thy ===== *)
theory ArchiveCommand
  imports ArchiveSafe Config
begin

text \<open>
  The command of \<open>src/src/usage/archive-cli.ts\<close>: its environment, the credentials it uses, the checks
  before the first batch, the dry run and the exit code. The listing of the bucket, the connection to the
  database and the turns of the loop (a clock reading and the outcomes of its uploads and updates) are
  arguments. Log output is left out.
\<close>

record s3_client =
  s3_bucket :: string
  s3_region :: string
  s3_accessKeyId :: string
  s3_secretAccessKey :: string
  s3_sessionToken :: "string option"

record archive_settings =
  sg_cutoffDays :: nat
  sg_batchSize :: nat
  sg_maxBatches :: nat

record archive_world =
  aw_list :: "s3_client \<Rightarrow> exn option"
  aw_connect :: "string \<Rightarrow> exn option"
  aw_turns :: "nat \<Rightarrow> nat \<times> (nat \<Rightarrow> io_outcome \<times> io_outcome)"

definition DEFAULT_CUTOFF_DAYS :: nat where "DEFAULT_CUTOFF_DAYS = 14"
definition DEFAULT_BATCH_SIZE :: nat where "DEFAULT_BATCH_SIZE = 200"
definition DEFAULT_MAX_BATCHES :: nat where "DEFAULT_MAX_BATCHES = 50"

definition filled_in :: "string option \<Rightarrow> string option" where
  "filled_in v = (case v of Some (c # cs) \<Rightarrow> Some (c # cs) | _ \<Rightarrow> None)"

definition archive_settings_of :: "environment \<Rightarrow> archive_settings result" where
  "archive_settings_of env =
     (case intFromEnv DEFAULT_CUTOFF_DAYS (env ''MESSAGES_LOG_ARCHIVE_AFTER_DAYS'') of
        Inl e \<Rightarrow> Inl e
      | Inr cutoffDays \<Rightarrow>
     (case intFromEnv DEFAULT_BATCH_SIZE (env ''MESSAGES_LOG_ARCHIVE_BATCH'') of
        Inl e \<Rightarrow> Inl e
      | Inr batchSize \<Rightarrow>
     (case intFromEnv DEFAULT_MAX_BATCHES (env ''MESSAGES_LOG_ARCHIVE_MAX_BATCHES'') of
        Inl e \<Rightarrow> Inl e
      | Inr maxBatches \<Rightarrow> Inr \<lparr>sg_cutoffDays = cutoffDays, sg_batchSize = batchSize, sg_maxBatches = maxBatches\<rparr>)))"

definition archive_client :: "environment \<Rightarrow> string \<Rightarrow> s3_client result" where
  "archive_client env bucket =
     (case (filled_in (env ''AWS_ACCESS_KEY_ID''), filled_in (env ''AWS_SECRET_ACCESS_KEY'')) of
        (Some accessKeyId, Some secretAccessKey) \<Rightarrow>
          Inr \<lparr>s3_bucket = bucket, s3_region = or_default ''ap-northeast-2'' (env ''AWS_REGION''), s3_accessKeyId = accessKeyId,
            s3_secretAccessKey = secretAccessKey, s3_sessionToken = filled_in (env ''AWS_SESSION_TOKEN'')\<rparr>
      | _ \<Rightarrow> Inl (Other ''AWS_ACCESS_KEY_ID / AWS_SECRET_ACCESS_KEY are not set''))"

text \<open>Everything before the first batch, the same for a dry run.\<close>

definition archive_preflight :: "environment \<Rightarrow> archive_world \<Rightarrow> (s3_client \<times> archive_settings) result" where
  "archive_preflight env w =
     (case filled_in (env ''DATABASE_URL'') of
        None \<Rightarrow> Inl (Other ''DATABASE_URL is not set'')
      | Some databaseUrl \<Rightarrow>
     (case filled_in (env ''MESSAGES_LOG_ARCHIVE_BUCKET'') of
        None \<Rightarrow> Inl (Other ''MESSAGES_LOG_ARCHIVE_BUCKET is not set'')
      | Some bucket \<Rightarrow>
     (case archive_settings_of env of
        Inl e \<Rightarrow> Inl e
      | Inr sg \<Rightarrow>
     (case archive_client env bucket of
        Inl e \<Rightarrow> Inl e
      | Inr s3 \<Rightarrow>
     (case aw_list w s3 of
        Some e \<Rightarrow> Inl e
      | None \<Rightarrow> (case aw_connect w databaseUrl of Some e \<Rightarrow> Inl e | None \<Rightarrow> Inr (s3, sg)))))))"

definition command_env :: "archive_env \<Rightarrow> archive_settings \<Rightarrow> bool \<Rightarrow> archive_env" where
  "command_env base sg dryRun =
     base\<lparr>ae_cutoffDays := of_nat (sg_cutoffDays sg), ae_batchSize := sg_batchSize sg, ae_dryRun := dryRun\<rparr>"

text \<open>The exit code, the number of rows reported, and the table and the bucket afterwards.\<close>

definition archive_main ::
  "environment \<Rightarrow> bool \<Rightarrow> archive_world \<Rightarrow> archive_env \<Rightarrow> archive_state \<Rightarrow> nat \<times> nat \<times> archive_state" where
  "archive_main env dryRun w base st =
     (case archive_preflight env w of
        Inl e \<Rightarrow> (1, 0, st)
      | Inr (s3, sg) \<Rightarrow>
          (case archive_loop (command_env base sg dryRun) (map (aw_turns w) [0..<sg_maxBatches sg]) st of
             (ok, n, st') \<Rightarrow> (if ok then 0 else 1, n, st')))"

subsection \<open>Rehearsal\<close>

lemma dry_parts:
  "ae_dryRun env \<Longrightarrow> archive_parts env e io seq days st = (True, length (rows_of days), st)"
  by (induction days arbitrary: seq) (auto simp: put_object_def mark_rows_def rows_of_def)

text \<open>The rows the first batch selects.\<close>

definition first_rows :: "archive_world \<Rightarrow> archive_settings \<Rightarrow> archive_state \<Rightarrow> nat" where
  "first_rows w sg st =
     length (selectBatch (cutoffFrom (of_nat (fst (aw_turns w 0))) (of_nat (sg_cutoffDays sg))) (sg_batchSize sg) (as_rows st))"

lemma dry_batch: "archiveBatch (command_env base sg True) (fst (aw_turns w 0)) io st = (True, first_rows w sg st, st)"
  by (simp add: archiveBatch_def dry_parts command_env_def length_byDay first_rows_def)

lemma real_batch:
  "fst (snd (archiveBatch (command_env base sg False) (fst (aw_turns w 0)) (\<lambda>_. (Done, Done)) st)) = first_rows w sg st"
  using parts_succeed [of "command_env base sg False" "\<lambda>_. (Done, Done)"]
  by (simp add: archiveBatch_def command_env_def length_byDay first_rows_def)

lemma dry_loop:
  "archive_loop (command_env base sg True) (map (aw_turns w) [0..<sg_maxBatches sg]) st =
     (True, if sg_maxBatches sg = 0 then 0 else first_rows w sg st, st)"
proof (cases "sg_maxBatches sg")
  case (Suc n)
  obtain now io where t: "aw_turns w 0 = (now, io)" by fastforce
  have "[0..<Suc n] = 0 # [1..<Suc n]" by (simp add: upt_conv_Cons)
  then show ?thesis using dry_batch [of base sg w io st]
    by (simp add: Suc t command_env_def del: upt_Suc)
qed simp

text \<open>A rehearsal changes nothing and tells what the run would meet. A dry run leaves rows and objects as
  they are. It ends with 1 exactly when the environment, the credentials or the database fail, and then the
  real command ends with 1 before it has changed anything either; otherwise it reports the rows that the
  real command's first batch moves when its uploads succeed. Variables of the other identity (\<open>S3_\<close>) have
  no influence on either.\<close>

theorem rehearsal_predicts_the_run:
  assumes "\<And>k. \<not> starts_with k ''S3_'' \<Longrightarrow> env' k = env k"
  shows "archive_main env' dry w base st = archive_main env dry w base st \<and>
    (case archive_preflight env w of
       Inl e \<Rightarrow> archive_main env True w base st = (1, 0, st) \<and> archive_main env False w base st = (1, 0, st)
     | Inr (s3, sg) \<Rightarrow>
         \<exists>n. archive_main env True w base st = (0, n, st) \<and>
           (sg_maxBatches sg = 0 \<or>
            fst (snd (archiveBatch (command_env base sg False) (fst (aw_turns w 0)) (\<lambda>_. (Done, Done)) st)) = n))"
proof
  have k: "env' ''DATABASE_URL'' = env ''DATABASE_URL''" "env' ''MESSAGES_LOG_ARCHIVE_BUCKET'' = env ''MESSAGES_LOG_ARCHIVE_BUCKET''"
    "env' ''MESSAGES_LOG_ARCHIVE_AFTER_DAYS'' = env ''MESSAGES_LOG_ARCHIVE_AFTER_DAYS''"
    "env' ''MESSAGES_LOG_ARCHIVE_BATCH'' = env ''MESSAGES_LOG_ARCHIVE_BATCH''"
    "env' ''MESSAGES_LOG_ARCHIVE_MAX_BATCHES'' = env ''MESSAGES_LOG_ARCHIVE_MAX_BATCHES''"
    "env' ''AWS_ACCESS_KEY_ID'' = env ''AWS_ACCESS_KEY_ID''" "env' ''AWS_SECRET_ACCESS_KEY'' = env ''AWS_SECRET_ACCESS_KEY''"
    "env' ''AWS_REGION'' = env ''AWS_REGION''" "env' ''AWS_SESSION_TOKEN'' = env ''AWS_SESSION_TOKEN''"
    by (rule assms, simp add: starts_with_def)+
  have "archive_preflight env' w = archive_preflight env w"
    unfolding archive_preflight_def archive_settings_of_def archive_client_def k by (rule refl)
  then show "archive_main env' dry w base st = archive_main env dry w base st" by (simp add: archive_main_def)
  show "case archive_preflight env w of
       Inl e \<Rightarrow> archive_main env True w base st = (1, 0, st) \<and> archive_main env False w base st = (1, 0, st)
     | Inr (s3, sg) \<Rightarrow>
         \<exists>n. archive_main env True w base st = (0, n, st) \<and>
           (sg_maxBatches sg = 0 \<or>
            fst (snd (archiveBatch (command_env base sg False) (fst (aw_turns w 0)) (\<lambda>_. (Done, Done)) st)) = n)"
    by (cases "archive_preflight env w") (auto simp: archive_main_def dry_loop real_batch split: prod.split)
qed

text \<open>An environment with both identities, and one with the injected one only.\<close>

definition demo_environment :: environment where
  "demo_environment = map_of [(''DATABASE_URL'', ''db''), (''MESSAGES_LOG_ARCHIVE_BUCKET'', ''b''),
     (''AWS_ACCESS_KEY_ID'', ''id''), (''AWS_SECRET_ACCESS_KEY'', ''key'')]"

definition demo_world :: archive_world where
  "demo_world = \<lparr>aw_list = (\<lambda>_. None), aw_connect = (\<lambda>_. None), aw_turns = (\<lambda>_. (10, \<lambda>_. (Done, Done)))\<rparr>"

theorem rehearsal_predicts_the_run_witness:
  "archive_main (demo_environment(''S3_ACCESS_KEY_ID'' \<mapsto> ''other'')) True demo_world demo_env \<lparr>as_rows = [demo_row], as_objects = []\<rparr> =
     archive_main demo_environment True demo_world demo_env \<lparr>as_rows = [demo_row], as_objects = []\<rparr>"
proof (rule rehearsal_predicts_the_run [THEN conjunct1])
  fix k
  assume "\<not> starts_with k ''S3_''"
  then have "k \<noteq> ''S3_ACCESS_KEY_ID''" by (auto simp: starts_with_def)
  then show "(demo_environment(''S3_ACCESS_KEY_ID'' \<mapsto> ''other'')) k = demo_environment k" by (rule fun_upd_other)
qed

end
