(* ===== verification/HostWatch.thy ===== *)
theory HostWatch
  imports Alerts Values
begin

text \<open>
  \<open>src/src/memory-alerts.ts\<close>, \<open>src/src/tls-expiry.ts\<close> and \<open>src/src/run-marker.ts\<close>: what watches the host.
  A file is read as its text (\<open>None\<close>: the read throws), a certificate check is its \<open>notAfter\<close> or the
  error; the result of a tick is the message handed to the sink. A sink that throws is swallowed by
  the tick after the state has changed, so its outcome plays no part. The wording of the messages is
  shortened to the facts in them; timers are not modelled, a tick is an event.
\<close>

subsection \<open>A latch\<close>

text \<open>The interface of the watches: a signal at \<open>hi\<close> fires if the latch is armed and disarms it, a
  signal at \<open>lo\<close> arms it again.\<close>

fun latch_run :: "('e \<Rightarrow> 's \<Rightarrow> 'o option \<times> 's) \<Rightarrow> 'e list \<Rightarrow> 's \<Rightarrow> 'o option list \<times> 's" where
  "latch_run f [] s = ([], s)"
| "latch_run f (e # es) s =
     (let (r, s1) = f e s; (rs, s2) = latch_run f es s1 in (r # rs, s2))"

lemma length_latch_run [simp]: "length (fst (latch_run f es s)) = length es"
  by (induction es arbitrary: s) (auto simp: split_beta)

lemma latch_run_append:
  "latch_run f (xs @ ys) s =
     (fst (latch_run f xs s) @ fst (latch_run f ys (snd (latch_run f xs s))),
      snd (latch_run f ys (snd (latch_run f xs s))))"
  by (induction xs arbitrary: s) (auto simp: split_beta)

lemma latch_run_nth:
  assumes "j < length es"
  shows "fst (latch_run f es s) ! j = fst (f (es ! j) (snd (latch_run f (take j es) s)))"
proof -
  let ?s = "snd (latch_run f (take j es) s)"
  have es: "es = take j es @ es ! j # drop (Suc j) es" using assms by (rule id_take_nth_drop)
  have "fst (latch_run f es s) =
      fst (latch_run f (take j es) s) @ fst (latch_run f (es ! j # drop (Suc j) es) ?s)"
    by (subst es) (simp add: latch_run_append)
  moreover have "fst (latch_run f (es ! j # drop (Suc j) es) ?s) =
      fst (f (es ! j) ?s) # fst (latch_run f (drop (Suc j) es) (snd (f (es ! j) ?s)))"
    by (simp add: split_beta)
  ultimately show ?thesis using assms by (simp add: nth_append)
qed

locale alert_latch =
  fixes tick :: "'e \<Rightarrow> 's \<Rightarrow> 'o option \<times> 's"
    and armed :: "'s \<Rightarrow> bool"
    and hi :: "'e \<Rightarrow> bool"
    and lo :: "'e \<Rightarrow> bool"
  assumes fires: "fst (tick e s) \<noteq> None \<longleftrightarrow> armed s \<and> hi e"
    and armed_after: "armed (snd (tick e s)) \<longleftrightarrow> lo e \<or> armed s \<and> \<not> hi e"
begin

lemma armed_run:
  "armed s \<Longrightarrow> armed (snd (latch_run tick es s)) \<longleftrightarrow>
     (\<forall>i<length es. hi (es ! i) \<longrightarrow> (\<exists>k\<ge>i. k < length es \<and> lo (es ! k)))"
proof (induction es rule: rev_induct)
  case Nil
  then show ?case by simp
next
  case (snoc e es)
  have now: "armed (snd (latch_run tick (es @ [e]) s)) \<longleftrightarrow>
      lo e \<or> armed (snd (latch_run tick es s)) \<and> \<not> hi e"
    by (simp add: latch_run_append split_beta armed_after)
  show ?case
  proof (cases "lo e")
    case True
    then have "(es @ [e]) ! length es = e \<and> lo e" by simp
    then have "\<exists>k\<ge>i. k < length (es @ [e]) \<and> lo ((es @ [e]) ! k)" if "i < length (es @ [e])" for i
      using that by (intro exI [of _ "length es"]) auto
    with True now show ?thesis by blast
  next
    case False
    have "(\<forall>i<length (es @ [e]). hi ((es @ [e]) ! i) \<longrightarrow>
            (\<exists>k\<ge>i. k < length (es @ [e]) \<and> lo ((es @ [e]) ! k))) \<longleftrightarrow>
          \<not> hi e \<and> (\<forall>i<length es. hi (es ! i) \<longrightarrow> (\<exists>k\<ge>i. k < length es \<and> lo (es ! k)))"
      (is "?all \<longleftrightarrow> _ \<and> ?old")
    proof
      assume ?all
      moreover have "\<exists>k\<ge>i. k < length es \<and> lo (es ! k)" if "?all" "i \<le> length es" "hi ((es @ [e]) ! i)" for i
      proof -
        have "i < length (es @ [e])" using that(2) by simp
        with that(1,3) obtain k where "k \<ge> i" "k < length (es @ [e])" "lo ((es @ [e]) ! k)" by blast
        with False show ?thesis by (intro exI [of _ k]) (auto simp: nth_append split: if_splits)
      qed
      ultimately show "\<not> hi e \<and> ?old" by (fastforce simp: nth_append)
    next
      assume "\<not> hi e \<and> ?old"
      then show ?all by (fastforce simp: nth_append less_Suc_eq)
    qed
    with False now snoc show ?thesis by blast
  qed
qed

text \<open>A latch that starts armed fires exactly at the signals that no earlier one covers.\<close>

lemma fires_at:
  assumes "armed s" "j < length es"
  shows "fst (latch_run tick es s) ! j \<noteq> None \<longleftrightarrow>
    hi (es ! j) \<and> (\<forall>i<j. hi (es ! i) \<longrightarrow> (\<exists>k\<ge>i. k < j \<and> lo (es ! k)))"
proof -
  have "armed (snd (latch_run tick (take j es) s)) \<longleftrightarrow>
      (\<forall>i<j. hi (es ! i) \<longrightarrow> (\<exists>k\<ge>i. k < j \<and> lo (es ! k)))"
    using assms armed_run [of s "take j es"] by (simp cong: conj_cong)
  then show ?thesis by (simp only: latch_run_nth [OF assms(2)] fires) blast
qed

end

subsection \<open>Memory pressure\<close>

definition ALERT_RATIO :: rat where "ALERT_RATIO = 85 / 100"
definition REARM_RATIO :: rat where "REARM_RATIO = 70 / 100"

record pressure_state = ps_armed :: bool

definition INITIAL_PRESSURE_STATE :: pressure_state where
  "INITIAL_PRESSURE_STATE = \<lparr>ps_armed = True\<rparr>"

definition evaluatePressure :: "pressure_state \<Rightarrow> rat \<Rightarrow> pressure_state \<times> bool" where
  "evaluatePressure state ratio =
     (if ps_armed state \<and> ratio \<ge> ALERT_RATIO then (\<lparr>ps_armed = False\<rparr>, True)
      else if \<not> ps_armed state \<and> ratio < REARM_RATIO then (\<lparr>ps_armed = True\<rparr>, False)
      else (state, False))"

definition readNumber :: "string option \<Rightarrow> rat option" where
  "readNumber file =
     (case file of None \<Rightarrow> None
      | Some s \<Rightarrow> (case js_Number (trim s) of Num n \<Rightarrow> if n \<ge> 0 then Some n else None | _ \<Rightarrow> None))"

definition readCgroupMemoryLimit :: "string option \<Rightarrow> rat option" where
  "readCgroupMemoryLimit memory_max =
     (case readNumber memory_max of Some n \<Rightarrow> if n > 0 then Some n else None | None \<Rightarrow> None)"

text \<open>\<open>/^inactive_file (\d+)$/m\<close>: the first line that is this name, a blank and digits.\<close>

definition INACTIVE_FILE :: string where "INACTIVE_FILE = ''inactive_file ''"

definition inactive_line :: "string \<Rightarrow> bool" where
  "inactive_line line =
     (starts_with line INACTIVE_FILE \<and>
      (let d = drop (length INACTIVE_FILE) line in d \<noteq> [] \<and> list_all is_digit d))"

text \<open>With the flag \<open>m\<close> the anchors also match at a carriage return.\<close>

definition js_lines :: "string \<Rightarrow> string list" where
  "js_lines s = concat (map (split_str [CHR 0x0D]) (split_str [CHR 0x0A] s))"

definition inactive_file :: "string option \<Rightarrow> rat" where
  "inactive_file memory_stat =
     (case memory_stat of None \<Rightarrow> 0
      | Some s \<Rightarrow> (case find inactive_line (js_lines s) of None \<Rightarrow> 0
          | Some line \<Rightarrow> of_nat (digits_val (drop (length INACTIVE_FILE) line))))"

definition readWorkingSet :: "string option \<Rightarrow> string option \<Rightarrow> rat \<Rightarrow> rat" where
  "readWorkingSet memory_current memory_stat rss =
     (case readNumber memory_current of None \<Rightarrow> rss
      | Some current \<Rightarrow> max 0 (current - inactive_file memory_stat))"

text \<open>The message: the working set, the limit and the percentage; \<open>Math.round\<close> rounds halves up.\<close>

datatype memory_warning = Memory int int int

definition js_round :: "rat \<Rightarrow> int" where "js_round q = \<lfloor>q + 1 / 2\<rfloor>"

definition MiB :: rat where "MiB = 1024 * 1024"

definition memory_tick ::
  "rat \<Rightarrow> rat result \<Rightarrow> pressure_state \<Rightarrow> memory_warning option \<times> pressure_state" where
  "memory_tick limitBytes readUsage state =
     (case readUsage of
        Inl e \<Rightarrow> (None, state)
      | Inr used \<Rightarrow>
          (let (s', alert) = evaluatePressure state (used / limitBytes)
           in (if alert then Some (Memory (js_round (used / MiB)) (js_round (limitBytes / MiB))
                                    (js_round (used / limitBytes * 100)))
               else None, s')))"

definition pressure_high :: "rat \<Rightarrow> rat result \<Rightarrow> bool" where
  "pressure_high limit e = (case e of Inl _ \<Rightarrow> False | Inr used \<Rightarrow> ALERT_RATIO \<le> used / limit)"

definition pressure_low :: "rat \<Rightarrow> rat result \<Rightarrow> bool" where
  "pressure_low limit e = (case e of Inl _ \<Rightarrow> False | Inr used \<Rightarrow> used / limit < REARM_RATIO)"

lemma ratios: "REARM_RATIO < ALERT_RATIO"
  by (simp add: REARM_RATIO_def ALERT_RATIO_def)

interpretation mw: alert_latch "memory_tick limit" ps_armed "pressure_high limit" "pressure_low limit"
  for limit
  by unfold_locales
     (use ratios in \<open>auto simp: memory_tick_def evaluatePressure_def pressure_high_def pressure_low_def
        split: sum.splits if_splits\<close>)

subsection \<open>Certificate expiry\<close>

definition WARN_BEFORE_MS :: rat where "WARN_BEFORE_MS = 48 * 60 * 60 * 1000"
definition FAILURES_BEFORE_ALERT :: nat where "FAILURES_BEFORE_ALERT = 3"
definition HOUR_MS :: rat where "HOUR_MS = 60 * 60 * 1000"

record tls_state =
  tl_expiryAlerted :: bool
  tl_failures :: nat
  tl_failureAlerted :: bool

definition tls_init :: tls_state where
  "tls_init = \<lparr>tl_expiryAlerted = False, tl_failures = 0, tl_failureAlerted = False\<rparr>"

datatype tls_warning = ChecksFailed nat string | Expires int rat

definition tls_tick ::
  "(string + rat) \<times> rat \<Rightarrow> tls_state \<Rightarrow> tls_warning option \<times> tls_state" where
  "tls_tick ev s =
     (case ev of
        (Inl reason, now) \<Rightarrow>
          (let s1 = s\<lparr>tl_failures := tl_failures s + 1\<rparr> in
           if tl_failures s1 \<ge> FAILURES_BEFORE_ALERT \<and> \<not> tl_failureAlerted s1
           then (Some (ChecksFailed (tl_failures s1) reason), s1\<lparr>tl_failureAlerted := True\<rparr>)
           else (None, s1))
      | (Inr notAfter, now) \<Rightarrow>
          (let s1 = s\<lparr>tl_failures := 0, tl_failureAlerted := False\<rparr>; leftMs = notAfter - now in
           if leftMs \<ge> WARN_BEFORE_MS then (None, s1\<lparr>tl_expiryAlerted := False\<rparr>)
           else if tl_expiryAlerted s1 then (None, s1)
           else (Some (Expires (max 0 \<lfloor>leftMs / HOUR_MS\<rfloor>) notAfter), s1\<lparr>tl_expiryAlerted := True\<rparr>)))"

text \<open>The two kinds of warning, each seen on its own.\<close>

definition is_expiry :: "tls_warning \<Rightarrow> bool" where
  "is_expiry w = (case w of Expires _ _ \<Rightarrow> True | ChecksFailed _ _ \<Rightarrow> False)"

definition expiry_tick ::
  "(string + rat) \<times> rat \<Rightarrow> tls_state \<Rightarrow> tls_warning option \<times> tls_state" where
  "expiry_tick ev s =
     (case tls_tick ev s of (Some w, s1) \<Rightarrow> (if is_expiry w then Some w else None, s1) | (None, s1) \<Rightarrow> (None, s1))"

definition expires_soon :: "(string + rat) \<times> rat \<Rightarrow> bool" where
  "expires_soon ev = (case ev of (Inr notAfter, now) \<Rightarrow> notAfter - now < WARN_BEFORE_MS | _ \<Rightarrow> False)"

definition renewed :: "(string + rat) \<times> rat \<Rightarrow> bool" where
  "renewed ev = (case ev of (Inr notAfter, now) \<Rightarrow> notAfter - now \<ge> WARN_BEFORE_MS | _ \<Rightarrow> False)"

definition check_failed :: "(string + rat) \<times> rat \<Rightarrow> bool" where
  "check_failed ev = (case fst ev of Inl _ \<Rightarrow> True | Inr _ \<Rightarrow> False)"

interpretation ex: alert_latch expiry_tick "\<lambda>s. \<not> tl_expiryAlerted s" expires_soon renewed
  by unfold_locales
     (auto simp: expiry_tick_def tls_tick_def expires_soon_def renewed_def is_expiry_def Let_def
        split: sum.splits prod.splits if_splits option.splits)

lemma expiry_run: "snd (latch_run expiry_tick es s) = snd (latch_run tls_tick es s)"
proof (induction es arbitrary: s)
  case (Cons e es)
  have "snd (expiry_tick e s) = snd (tls_tick e s)"
    by (auto simp: expiry_tick_def split: prod.splits option.splits)
  with Cons [of "snd (tls_tick e s)"] show ?case by (simp add: split_beta)
qed simp

text \<open>The number of failed checks in a row, read off the events.\<close>

definition failure_streak :: "((string + rat) \<times> rat) list \<Rightarrow> nat" where
  "failure_streak es = length (takeWhile check_failed (rev es))"

definition streak_ok :: "nat \<Rightarrow> tls_state \<Rightarrow> bool" where
  "streak_ok n s = (tl_failures s = n \<and> tl_failureAlerted s = (FAILURES_BEFORE_ALERT \<le> n))"

lemma streak_step:
  "streak_ok n s \<Longrightarrow> streak_ok (if check_failed e then Suc n else 0) (snd (tls_tick e s))"
  by (auto simp: streak_ok_def tls_tick_def check_failed_def Let_def FAILURES_BEFORE_ALERT_def
        split: sum.splits prod.splits if_splits)

lemma streak_run: "streak_ok (failure_streak es) (snd (latch_run tls_tick es tls_init))"
proof (induction es rule: rev_induct)
  case Nil
  then show ?case by (simp add: streak_ok_def failure_streak_def tls_init_def FAILURES_BEFORE_ALERT_def)
next
  case (snoc e es)
  from streak_step [OF snoc, of e] show ?case
    by (simp add: latch_run_append split_beta failure_streak_def split: if_splits)
qed

lemma failure_fires:
  "streak_ok n s \<Longrightarrow>
     (\<exists>r. fst (tls_tick e s) = Some (ChecksFailed FAILURES_BEFORE_ALERT r)) \<longleftrightarrow> check_failed e \<and> Suc n = FAILURES_BEFORE_ALERT"
  by (auto simp: streak_ok_def tls_tick_def check_failed_def Let_def FAILURES_BEFORE_ALERT_def
        split: sum.splits prod.splits if_splits)

lemma fires_failure_is_third:
  "streak_ok n s \<Longrightarrow> fst (tls_tick e s) = Some (ChecksFailed k r) \<Longrightarrow> k = FAILURES_BEFORE_ALERT"
  by (auto simp: streak_ok_def tls_tick_def Let_def FAILURES_BEFORE_ALERT_def
        split: sum.splits prod.splits if_splits)


lemma tls_nth:
  "j < length es \<Longrightarrow> fst (latch_run tls_tick es tls_init) ! j =
     fst (tls_tick (es ! j) (snd (latch_run tls_tick (take j es) tls_init)))"
  by (rule latch_run_nth)

lemma expiry_nth:
  assumes "j < length es"
  shows "(\<exists>h t. fst (latch_run tls_tick es tls_init) ! j = Some (Expires h t)) \<longleftrightarrow>
    fst (latch_run expiry_tick es tls_init) ! j \<noteq> None"
proof -
  let ?s = "snd (latch_run tls_tick (take j es) tls_init)"
  have "fst (latch_run expiry_tick es tls_init) ! j = fst (expiry_tick (es ! j) ?s)"
    using latch_run_nth [OF assms, of expiry_tick tls_init] by (simp add: expiry_run)
  moreover have "fst (expiry_tick e s) \<noteq> None \<longleftrightarrow> (\<exists>h t. fst (tls_tick e s) = Some (Expires h t))" for e s
    by (auto simp: expiry_tick_def is_expiry_def split: prod.splits option.splits tls_warning.splits)
  ultimately show ?thesis using tls_nth [OF assms] by simp
qed

lemma failure_nth:
  assumes "j < length es"
  shows "(\<exists>k r. fst (latch_run tls_tick es tls_init) ! j = Some (ChecksFailed k r)) \<longleftrightarrow>
    failure_streak (take (Suc j) es) = FAILURES_BEFORE_ALERT"
proof -
  let ?s = "snd (latch_run tls_tick (take j es) tls_init)"
  have k: "streak_ok (failure_streak (take j es)) ?s" by (rule streak_run)
  have "(\<exists>k r. fst (tls_tick (es ! j) ?s) = Some (ChecksFailed k r)) \<longleftrightarrow>
      check_failed (es ! j) \<and> Suc (failure_streak (take j es)) = FAILURES_BEFORE_ALERT"
    using failure_fires [OF k] fires_failure_is_third [OF k] by metis
  moreover have "failure_streak (take (Suc j) es) =
      (if check_failed (es ! j) then Suc (failure_streak (take j es)) else 0)"
    using assms by (simp add: take_Suc_conv_app_nth failure_streak_def)
  ultimately show ?thesis using tls_nth [OF assms] by (auto simp: FAILURES_BEFORE_ALERT_def)
qed

subsection \<open>The run marker\<close>

text \<open>\<open>/^\d{4}-\d{2}-\d{2}T\d{2}:\d{2}:\d{2}(\.\d+)?Z$/\<close>\<close>

fun digits_as :: "string \<Rightarrow> string \<Rightarrow> string option" where
  "digits_as [] s = Some s"
| "digits_as (p # ps) (c # cs) =
     (if (if p = CHR ''d'' then is_digit c else p = c) then digits_as ps cs else None)"
| "digits_as (p # ps) [] = None"

definition ISO_RE :: "string \<Rightarrow> bool" where
  "ISO_RE s =
     (case digits_as ''dddd-dd-ddTdd:dd:dd'' s of
        Some (c # cs) \<Rightarrow>
          c = CHR ''Z'' \<and> cs = [] \<or>
          c = CHR ''.'' \<and> takeWhile is_digit cs \<noteq> [] \<and> dropWhile is_digit cs = ''Z''
      | _ \<Rightarrow> False)"

definition parseStartedAt :: "(string \<Rightarrow> json option) \<Rightarrow> string \<Rightarrow> string option" where
  "parseStartedAt parse raw =
     (case as_str (jprop (parse raw) ''startedAt'') of
        Some t \<Rightarrow> if ISO_RE t then Some t else None | None \<Rightarrow> None)"

definition started_json :: "string \<Rightarrow> string" where
  "started_json moment = [CHR 0x7B, CHR 0x22] @ ''startedAt'' @ [CHR 0x22, CHR '':'', CHR 0x22] @ moment @ [CHR 0x22, CHR 0x7D]"

text \<open>
  \<open>checkUncleanRestart\<close> between two awaits, with what it has read so far. One step is one call of the
  file system, \<open>ok\<close> says that it succeeded; \<open>writeFile\<close> with \<open>wx\<close> is two, the exclusive creation and
  the write. The disk is the text of the marker, the result the report handed to the sink: the start
  of the previous run, if it is known. Killing the process is stopping after some step.
\<close>

datatype check_pc = Reading | Making "string option" | Removing "string option" | Creating "string option"
  | Filling "string option" | Reporting string | Up

definition check_step ::
  "(string \<Rightarrow> json option) \<Rightarrow> string \<Rightarrow> bool \<Rightarrow>
   check_pc \<times> string option \<times> string option option \<Rightarrow> check_pc \<times> string option \<times> string option option" where
  "check_step parse nowIso ok st =
     (case st of (pc, disk, sent) \<Rightarrow>
       (case pc of
          Reading \<Rightarrow> (if ok then Making disk else Up, disk, sent)
        | Making previous \<Rightarrow> (if ok then Removing previous else Up, disk, sent)
        | Removing previous \<Rightarrow> if ok then (Creating previous, None, sent) else (Up, disk, sent)
        | Creating previous \<Rightarrow> if ok \<and> disk = None then (Filling previous, Some [], sent) else (Up, disk, sent)
        | Filling previous \<Rightarrow>
            if ok then (case previous of None \<Rightarrow> Up | Some raw \<Rightarrow> Reporting raw, Some (started_json nowIso), sent)
            else (Up, disk, sent)
        | Reporting raw \<Rightarrow> (Up, disk, Some (parseStartedAt parse raw))
        | Up \<Rightarrow> (Up, disk, sent)))"

definition clearRunMarker :: "bool \<Rightarrow> string option \<Rightarrow> string option" where
  "clearRunMarker ok disk = (if ok then None else disk)"

text \<open>A run of the program: when it started, the outcomes of the steps of its check that took place,
  and how it ended: killed, or stopped by a signal, where \<open>dispose\<close> awaits the check and then removes
  the marker (a stop that comes while the check hangs ends in a kill).\<close>

datatype run_end = Killed | Stopped bool

record program_run =
  pr_start :: string
  pr_steps :: "bool list"
  pr_end :: run_end

definition run_program ::
  "(string \<Rightarrow> json option) \<Rightarrow> program_run \<Rightarrow> string option \<Rightarrow> string option option \<times> string option" where
  "run_program parse r disk =
     (case fold (check_step parse (pr_start r)) (pr_steps r) (Reading, disk, None) of
        (pc, disk', sent) \<Rightarrow>
          (sent, (case pr_end r of Killed \<Rightarrow> disk'
                  | Stopped ok \<Rightarrow> if pc = Up then clearRunMarker ok disk' else disk')))"

definition marker_after :: "(string \<Rightarrow> json option) \<Rightarrow> program_run list \<Rightarrow> string option" where
  "marker_after parse rs = fold (\<lambda>r disk. snd (run_program parse r disk)) rs None"

text \<open>A run on a disk that works: nothing fails, and a stop waits for the check.\<close>

definition healthy_run :: "program_run \<Rightarrow> bool" where
  "healthy_run r =
     (list_all (\<lambda>ok. ok) (pr_steps r) \<and>
      (pr_end r = Killed \<or> pr_end r = Stopped True \<and> 6 \<le> length (pr_steps r)))"

definition killed_within :: "nat \<Rightarrow> nat \<Rightarrow> program_run \<Rightarrow> bool" where
  "killed_within lo hi r = (pr_end r = Killed \<and> lo \<le> length (pr_steps r) \<and> length (pr_steps r) \<le> hi)"

lemma Up_stays: "fold (check_step parse t) oks (Up, disk, sent) = (Up, disk, sent)"
  by (induction oks) (simp_all add: check_step_def)

lemma check_steps:
  "list_all (\<lambda>ok. ok) oks \<Longrightarrow>
   fold (check_step parse t) oks (Reading, disk, None) =
     (if length oks = 0 then (Reading, disk, None)
      else if length oks = 1 then (Making disk, disk, None)
      else if length oks = 2 then (Removing disk, disk, None)
      else if length oks = 3 then (Creating disk, None, None)
      else if length oks = 4 then (Filling disk, Some [], None)
      else if length oks = 5 then (case disk of None \<Rightarrow> Up | Some raw \<Rightarrow> Reporting raw, Some (started_json t), None)
      else (Up, Some (started_json t), map_option (parseStartedAt parse) disk))"
proof (induction oks rule: rev_induct)
  case (snoc ok oks)
  then have "ok" "list_all (\<lambda>ok. ok) oks" by simp_all
  from snoc.IH [OF this(2)] \<open>ok\<close> show ?case
    by (cases disk; cases "length oks < 6"; force simp: check_step_def)
qed simp

lemma healthy_disk:
  assumes "healthy_run r"
  shows "snd (run_program parse r disk) =
    (if killed_within 0 2 r then disk
     else if killed_within 4 4 r then Some []
     else if \<exists>n. killed_within 5 n r then Some (started_json (pr_start r)) else None)"
proof (cases "pr_end r")
  case Killed
  have ok: "list_all (\<lambda>ok. ok) (pr_steps r)" using assms by (simp add: healthy_run_def)
  define n where "n = length (pr_steps r)"
  have disk: "snd (run_program parse r disk) =
      (if n \<le> 2 then disk else if n = 3 then None else if n = 4 then Some [] else Some (started_json (pr_start r)))"
    using check_steps [OF ok, of parse "pr_start r" disk, folded n_def] Killed
    by (auto simp: run_program_def)
  have "killed_within 0 2 r = (n \<le> 2)" "killed_within 4 4 r = (n = 4)" "(\<exists>m. killed_within 5 m r) = (5 \<le> n)"
    using Killed by (auto simp: killed_within_def n_def)
  then show ?thesis unfolding disk by simp
next
  case (Stopped ok)
  with assms have "pr_end r = Stopped True" "6 \<le> length (pr_steps r)" "list_all (\<lambda>ok. ok) (pr_steps r)"
    by (auto simp: healthy_run_def)
  moreover from this(2) have "length (pr_steps r) \<notin> {0, 1, 2, 3, 4, 5}" by auto
  ultimately show ?thesis
    using check_steps [of "pr_steps r" parse "pr_start r" disk]
    by (simp add: run_program_def killed_within_def clearRunMarker_def)
qed

lemma healthy_report:
  assumes "healthy_run r" "6 \<le> length (pr_steps r)"
  shows "fst (run_program parse r disk) = map_option (parseStartedAt parse) disk"
proof -
  have "list_all (\<lambda>ok. ok) (pr_steps r)" using assms by (simp add: healthy_run_def)
  moreover from assms(2) have "length (pr_steps r) \<notin> {0, 1, 2, 3, 4, 5}" by auto
  ultimately show ?thesis
    using check_steps [of "pr_steps r" parse "pr_start r" disk]
    by (simp add: run_program_def)
qed

text \<open>What the marker says after a history: the last run that was killed once its marker existed,
  if only runs killed before they touched the disk came after it.\<close>

definition marked_by :: "program_run list \<Rightarrow> program_run \<Rightarrow> bool" where
  "marked_by rs r =
     (\<exists>before after. rs = before @ r # after \<and> (\<exists>n. killed_within 4 n r) \<and> list_all (killed_within 0 2) after)"

lemma marked_snoc:
  "marked_by (rs @ [q]) r \<longleftrightarrow> (if killed_within 0 2 q then marked_by rs r else q = r \<and> (\<exists>n. killed_within 4 n r))"
proof
  assume "marked_by (rs @ [q]) r"
  then obtain bs as n where eq: "rs @ [q] = bs @ r # as" and r: "killed_within 4 n r"
    and as: "list_all (killed_within 0 2) as"
    by (auto simp: marked_by_def)
  show "if killed_within 0 2 q then marked_by rs r else q = r \<and> (\<exists>n. killed_within 4 n r)"
  proof (cases as rule: rev_cases)
    case Nil
    with eq r show ?thesis by (auto simp: killed_within_def)
  next
    case (snoc as' x)
    with eq r as show ?thesis by (auto simp: marked_by_def)
  qed
next
  assume a: "if killed_within 0 2 q then marked_by rs r else q = r \<and> (\<exists>n. killed_within 4 n r)"
  show "marked_by (rs @ [q]) r"
  proof (cases "killed_within 0 2 q")
    case True
    with a obtain bs as where rs: "rs = bs @ r # as" and k: "\<exists>n. killed_within 4 n r"
      and as: "list_all (killed_within 0 2) as"
      by (auto simp: marked_by_def)
    have "rs @ [q] = bs @ r # (as @ [q])" "list_all (killed_within 0 2) (as @ [q])"
      using rs as True by simp_all
    with k show ?thesis unfolding marked_by_def by blast
  next
    case False
    with a have "rs @ [q] = rs @ r # []" "\<exists>n. killed_within 4 n r" "list_all (killed_within 0 2) []"
      by simp_all
    then show ?thesis unfolding marked_by_def by blast
  qed
qed

definition marker_text :: "program_run \<Rightarrow> string" where
  "marker_text r = (if killed_within 4 4 r then [] else started_json (pr_start r))"

lemma marker_says:
  "list_all healthy_run rs \<Longrightarrow>
     marker_after parse rs = Some contents \<longleftrightarrow> (\<exists>r. marked_by rs r \<and> contents = marker_text r)"
proof (induction rs arbitrary: contents rule: rev_induct)
  case Nil
  then show ?case by (simp add: marker_after_def marked_by_def)
next
  case (snoc q rs)
  then have h: "healthy_run q" and rs: "list_all healthy_run rs" by simp_all
  have step: "marker_after parse (rs @ [q]) = snd (run_program parse q (marker_after parse rs))"
    by (simp add: marker_after_def)
  show ?case
    using healthy_disk [OF h, of parse "marker_after parse rs"] snoc.IH [OF rs, of contents]
    by (auto simp: step marked_snoc marker_text_def killed_within_def)
qed

subsection \<open>Properties\<close>

text \<open>A memory warning goes out exactly at the samples at or above 85 % of the limit such that since
  every earlier sample that high one has been under 70 %; failed samples change nothing.\<close>

theorem pressure_warns_once_per_climb:
  assumes "j < length samples"
  shows "fst (latch_run (memory_tick limit) samples INITIAL_PRESSURE_STATE) ! j \<noteq> None \<longleftrightarrow>
    pressure_high limit (samples ! j) \<and>
    (\<forall>i<j. pressure_high limit (samples ! i) \<longrightarrow>
       (\<exists>k\<ge>i. k < j \<and> pressure_low limit (samples ! k)))"
  by (rule mw.fires_at [OF _ assms]) (simp add: INITIAL_PRESSURE_STATE_def)

theorem pressure_warns_once_per_climb_witness:
  "fst (latch_run (memory_tick 100) [Inr 90, Inr 80, Inr 95, Inr 69, Inl (Other []), Inr 85] INITIAL_PRESSURE_STATE) ! 2 = None \<and>
   fst (latch_run (memory_tick 100) [Inr 90, Inr 80, Inr 95, Inr 69, Inl (Other []), Inr 85] INITIAL_PRESSURE_STATE) ! 5 \<noteq> None"
proof
  let ?es = "[Inr 90, Inr 80, Inr 95, Inr 69, Inl (Other []), Inr 85] :: rat result list"
  show "fst (latch_run (memory_tick 100) ?es INITIAL_PRESSURE_STATE) ! 2 = None"
  proof (rule ccontr)
    assume "fst (latch_run (memory_tick 100) ?es INITIAL_PRESSURE_STATE) ! 2 \<noteq> None"
    then have "\<forall>i<2. pressure_high 100 (?es ! i) \<longrightarrow> (\<exists>k\<ge>i. k < 2 \<and> pressure_low 100 (?es ! k))"
      by (subst (asm) pressure_warns_once_per_climb) simp_all
    moreover have "pressure_high 100 (?es ! 0)" by (simp add: pressure_high_def ALERT_RATIO_def)
    ultimately have "\<exists>k\<ge>0. k < 2 \<and> pressure_low 100 (?es ! k)" by (metis zero_less_numeral)
    then show False by (auto simp: pressure_low_def REARM_RATIO_def less_2_cases_iff)
  qed
  have low: "pressure_low 100 (?es ! 3)" by (simp add: pressure_low_def REARM_RATIO_def)
  have "\<not> pressure_high 100 (?es ! 4)" by (simp add: pressure_high_def)
  then have "\<exists>k\<ge>i. k < 5 \<and> pressure_low 100 (?es ! k)" if "i < 5" "pressure_high 100 (?es ! i)" for i
    using that low by (intro exI [of _ 3]) (cases "i = 4"; auto)
  then show "fst (latch_run (memory_tick 100) ?es INITIAL_PRESSURE_STATE) ! 5 \<noteq> None"
    by (subst pressure_warns_once_per_climb) (simp_all add: pressure_high_def ALERT_RATIO_def)
qed

text \<open>Of the certificate checks exactly the third failure in a row is reported as an outage, and a
  certificate is reported exactly when it has less than 48 hours left for the first time since it had
  more; failed checks in between do not repeat the report.\<close>

theorem certificate_alerts_once:
  assumes "j < length checks"
  shows "((\<exists>n r. fst (latch_run tls_tick checks tls_init) ! j = Some (ChecksFailed n r)) \<longleftrightarrow>
      failure_streak (take (Suc j) checks) = 3) \<and>
    ((\<exists>h t. fst (latch_run tls_tick checks tls_init) ! j = Some (Expires h t)) \<longleftrightarrow>
      expires_soon (checks ! j) \<and>
      (\<forall>i<j. expires_soon (checks ! i) \<longrightarrow> (\<exists>k\<ge>i. k < j \<and> renewed (checks ! k))))"
proof
  show "(\<exists>n r. fst (latch_run tls_tick checks tls_init) ! j = Some (ChecksFailed n r)) \<longleftrightarrow>
      failure_streak (take (Suc j) checks) = 3"
    using failure_nth [OF assms] by (simp add: FAILURES_BEFORE_ALERT_def)
  show "(\<exists>h t. fst (latch_run tls_tick checks tls_init) ! j = Some (Expires h t)) \<longleftrightarrow>
      expires_soon (checks ! j) \<and>
      (\<forall>i<j. expires_soon (checks ! i) \<longrightarrow> (\<exists>k\<ge>i. k < j \<and> renewed (checks ! k)))"
    unfolding expiry_nth [OF assms] by (rule ex.fires_at [OF _ assms]) (simp add: tls_init_def)
qed

theorem certificate_alerts_once_witness:
  "\<exists>n r. fst (latch_run tls_tick [(Inl ''a'', 0), (Inl ''b'', 1), (Inl ''c'', 2), (Inl ''d'', 3)] tls_init) ! 2 =
     Some (ChecksFailed n r)"
  using certificate_alerts_once
    [of 2 "[(Inl ''a'', 0), (Inl ''b'', 1), (Inl ''c'', 2), (Inl ''d'', 3)]"]
  by (simp add: failure_streak_def check_failed_def)


definition demo_start :: string where "demo_start = ''2026-07-30T01:02:03.004Z''"

definition demo_parse :: "string \<Rightarrow> json option" where
  "demo_parse s =
     (if starts_with s (take 14 (started_json []))
      then Some (JObj [(''startedAt'', JStr (take (length s - 16) (drop 14 s)))]) else None)"


end
