(* ===== verification/Process.thy ===== *)
theory Process
  imports HostWatch Config
begin

text \<open>
  The process around the application: \<open>src/src/server.ts\<close>, which boots it and turns signals into its
  disposal, \<open>dispose\<close> of \<open>src/src/app.ts\<close>, and the lines of \<open>src/src/lib/logger.ts\<close>. The awaits are the
  events: the application is composed or its composition fails, the marker's check makes a step
  (\<open>check_step\<close>), the removal of the marker and the two closings settle, signals arrive. The socket is
  left out.
\<close>

subsection \<open>Booting and stopping\<close>

datatype boot_pc = Composing | Composed | BootFailed

datatype stop_pc = Running | AwaitingApp | AwaitingCheck | Clearing | ClosingTracker | ClosingLog | Exited nat

record process =
  po_boot :: boot_pc
  po_stop :: stop_pc
  po_check :: check_pc
  po_disk :: "string option"
  po_sent :: "string option option"
  po_watching :: bool
  po_cleared :: "bool option"
  po_trackerClosed :: bool
  po_logClosed :: bool

datatype process_event = ComposeSettles bool | CheckStep bool | Signal | ClearSettles bool | TrackerSettles bool | LogSettles bool

definition process_init :: "string option \<Rightarrow> process" where
  "process_init disk =
     \<lparr>po_boot = Composing, po_stop = Running, po_check = Reading, po_disk = disk, po_sent = None, po_watching = True,
      po_cleared = None, po_trackerClosed = False, po_logClosed = False\<rparr>"

text \<open>\<open>dispose\<close> up to its first await, the check of the marker.\<close>

definition dispose_starts :: "process \<Rightarrow> process" where
  "dispose_starts s = s\<lparr>po_stop := (if po_check s = Up then Clearing else AwaitingCheck)\<rparr>"

definition dispose_cleared :: "bool \<Rightarrow> process \<Rightarrow> process" where
  "dispose_cleared ok s =
     s\<lparr>po_disk := clearRunMarker ok (po_disk s), po_cleared := Some ok, po_watching := False, po_stop := ClosingTracker\<rparr>"

text \<open>\<open>shutdown\<close>: only the first signal has an effect.\<close>

definition shutdown :: "process \<Rightarrow> process" where
  "shutdown s =
     (if po_stop s \<noteq> Running then s
      else if po_boot s = Composed then dispose_starts s else s\<lparr>po_stop := AwaitingApp\<rparr>)"

definition compose_settles :: "bool \<Rightarrow> process \<Rightarrow> process" where
  "compose_settles ok s =
     (if \<not> ok then s\<lparr>po_boot := BootFailed, po_stop := Exited 1\<rparr>
      else let s1 = s\<lparr>po_boot := Composed\<rparr> in if po_stop s1 = AwaitingApp then dispose_starts s1 else s1)"

definition check_settles :: "(string \<Rightarrow> json option) \<Rightarrow> string \<Rightarrow> bool \<Rightarrow> process \<Rightarrow> process" where
  "check_settles parse nowIso ok s =
     (case check_step parse nowIso ok (po_check s, po_disk s, po_sent s) of
        (pc, disk, sent) \<Rightarrow>
          s\<lparr>po_check := pc, po_disk := disk, po_sent := sent,
            po_stop := (if pc = Up \<and> po_stop s = AwaitingCheck then Clearing else po_stop s)\<rparr>)"

text \<open>\<open>None\<close>: there is no such event now; an exited process has none.\<close>

definition process_step :: "(string \<Rightarrow> json option) \<Rightarrow> string \<Rightarrow> process_event \<Rightarrow> process \<Rightarrow> process option" where
  "process_step parse nowIso ev s =
     (if (case po_stop s of Exited _ \<Rightarrow> True | _ \<Rightarrow> False) then None
      else case ev of
        Signal \<Rightarrow> Some (shutdown s)
      | ComposeSettles ok \<Rightarrow> if po_boot s = Composing then Some (compose_settles ok s) else None
      | CheckStep ok \<Rightarrow> if po_check s = Up then None else Some (check_settles parse nowIso ok s)
      | ClearSettles ok \<Rightarrow> if po_stop s = Clearing then Some (dispose_cleared ok s) else None
      | TrackerSettles ok \<Rightarrow> if po_stop s = ClosingTracker then Some (s\<lparr>po_trackerClosed := True, po_stop := ClosingLog\<rparr>) else None
      | LogSettles ok \<Rightarrow> if po_stop s = ClosingLog then Some (s\<lparr>po_logClosed := True, po_stop := Exited 0\<rparr>) else None)"

fun process_run :: "(string \<Rightarrow> json option) \<Rightarrow> string \<Rightarrow> process_event list \<Rightarrow> process \<Rightarrow> process option" where
  "process_run parse t [] s = Some s"
| "process_run parse t (ev # evs) s =
     (case process_step parse t ev s of None \<Rightarrow> None | Some s' \<Rightarrow> process_run parse t evs s')"

subsection \<open>A stop completes\<close>

definition exited :: "process \<Rightarrow> bool" where
  "exited s = (case po_stop s of Exited _ \<Rightarrow> True | _ \<Rightarrow> False)"

text \<open>In every stage before the last the part that is awaited has not settled.\<close>

definition process_inv :: "process \<Rightarrow> bool" where
  "process_inv s =
     (case po_stop s of
        Running \<Rightarrow> po_boot s \<noteq> BootFailed
      | AwaitingApp \<Rightarrow> po_boot s = Composing
      | AwaitingCheck \<Rightarrow> po_boot s = Composed \<and> po_check s \<noteq> Up
      | Clearing \<Rightarrow> po_boot s = Composed \<and> po_check s = Up
      | ClosingTracker \<Rightarrow> po_boot s = Composed \<and> po_check s = Up \<and> \<not> po_watching s \<and> (po_cleared s = Some True \<longrightarrow> po_disk s = None) \<and> po_cleared s \<noteq> None
      | ClosingLog \<Rightarrow> po_boot s = Composed \<and> po_check s = Up \<and> \<not> po_watching s \<and> (po_cleared s = Some True \<longrightarrow> po_disk s = None) \<and> po_cleared s \<noteq> None \<and> po_trackerClosed s
      | Exited n \<Rightarrow> n = 0 \<and> po_boot s = Composed \<and> po_check s = Up \<and> \<not> po_watching s \<and> (po_cleared s = Some True \<longrightarrow> po_disk s = None) \<and>
          po_cleared s \<noteq> None \<and> po_trackerClosed s \<and> po_logClosed s \<or> n = 1 \<and> po_boot s = BootFailed)"

lemma inv_start: "process_inv (process_init disk)"
  by (simp add: process_inv_def process_init_def)

lemma step_inv: "process_inv s \<Longrightarrow> process_step parse t ev s = Some s' \<Longrightarrow> process_inv s'"
  by (cases ev; cases "po_stop s"; cases "po_boot s")
     (auto simp: process_inv_def process_step_def shutdown_def dispose_starts_def dispose_cleared_def compose_settles_def
        check_settles_def clearRunMarker_def Let_def split: if_splits prod.splits)

lemma process_run_inv: "process_inv s \<Longrightarrow> process_run parse t evs s = Some s' \<Longrightarrow> process_inv s'"
  by (induction evs arbitrary: s) (auto split: option.splits dest: step_inv)

text \<open>How many events other than signals are still to come at most.\<close>

definition check_rank :: "check_pc \<Rightarrow> nat" where
  "check_rank pc = (case pc of Reading \<Rightarrow> 6 | Making _ \<Rightarrow> 5 | Removing _ \<Rightarrow> 4 | Creating _ \<Rightarrow> 3 | Filling _ \<Rightarrow> 2 | Reporting _ \<Rightarrow> 1 | Up \<Rightarrow> 0)"

definition stop_rank :: "process \<Rightarrow> nat" where
  "stop_rank s =
     (case po_stop s of Exited _ \<Rightarrow> 0
      | stop \<Rightarrow> check_rank (po_check s) + (if po_boot s = Composing then 1 else 0) +
          (case stop of ClosingLog \<Rightarrow> 1 | ClosingTracker \<Rightarrow> 2 | _ \<Rightarrow> 3))"

lemma check_rank_less: "pc \<noteq> Up \<Longrightarrow> check_rank (fst (check_step parse t ok (pc, disk, sent))) < check_rank pc"
  by (cases pc) (auto simp: check_rank_def check_step_def split: option.split)

lemma check_rank_zero: "(check_rank pc = 0) = (pc = Up)"
  by (cases pc) (simp_all add: check_rank_def)

lemma step_rank:
  assumes "process_inv s" "process_step parse t ev s = Some s'"
  shows "stop_rank s' + (if ev = Signal then 0 else 1) \<le> stop_rank s"
proof (cases ev)
  case (CheckStep ok)
  then have up: "po_check s \<noteq> Up" and s': "s' = check_settles parse t ok s" and ex: "\<not> exited s"
    using assms(2) by (auto simp: process_step_def exited_def split: if_splits)
  note less = check_rank_less [OF up, of parse t ok "po_disk s" "po_sent s"]
  show ?thesis using less assms(1) up ex unfolding s' check_settles_def
    by (cases "po_stop s") (auto simp: stop_rank_def CheckStep process_inv_def exited_def split: prod.split)
qed (use assms in \<open>cases "po_stop s"; auto simp: process_step_def process_inv_def stop_rank_def shutdown_def dispose_starts_def dispose_cleared_def
       compose_settles_def check_rank_zero Let_def split: if_splits\<close>)+

lemma run_rank:
  "process_inv s \<Longrightarrow> process_run parse t evs s = Some s' \<Longrightarrow> stop_rank s' + length (filter (\<lambda>ev. ev \<noteq> Signal) evs) \<le> stop_rank s"
proof (induction evs arbitrary: s)
  case (Cons ev evs)
  then obtain s1 where s1: "process_step parse t ev s = Some s1" "process_run parse t evs s1 = Some s'"
    by (auto split: option.splits)
  from step_rank [OF Cons.prems(1) s1(1)] Cons.IH [OF step_inv [OF Cons.prems(1) s1(1)] s1(2)] show ?case
    by (auto split: if_splits)
qed simp

lemma stop_stays: "po_stop s \<noteq> Running \<Longrightarrow> process_step parse t ev s = Some s' \<Longrightarrow> po_stop s' \<noteq> Running"
  by (cases ev)
     (auto simp: process_step_def shutdown_def dispose_starts_def dispose_cleared_def compose_settles_def check_settles_def Let_def
        split: if_splits prod.splits)

lemma run_stays: "po_stop s \<noteq> Running \<Longrightarrow> process_run parse t evs s = Some s' \<Longrightarrow> po_stop s' \<noteq> Running"
  by (induction evs arbitrary: s) (auto split: option.splits dest: stop_stays)

lemma stop_proceeds:
  assumes "process_inv s" "po_stop s \<noteq> Running"
  shows "exited s \<or> (\<exists>ev. ev \<noteq> Signal \<and> process_step parse t ev s \<noteq> None)"
proof (cases "po_stop s")
  case AwaitingApp
  then have "process_step parse t (ComposeSettles True) s \<noteq> None" using assms by (simp add: process_step_def process_inv_def)
  then show ?thesis by blast
next
  case AwaitingCheck
  then have "process_step parse t (CheckStep True) s \<noteq> None" using assms by (simp add: process_step_def process_inv_def)
  then show ?thesis by blast
next
  case Clearing
  then have "process_step parse t (ClearSettles True) s \<noteq> None" by (simp add: process_step_def)
  then show ?thesis by blast
next
  case ClosingTracker
  then have "process_step parse t (TrackerSettles True) s \<noteq> None" by (simp add: process_step_def)
  then show ?thesis by blast
next
  case ClosingLog
  then have "process_step parse t (LogSettles True) s \<noteq> None" by (simp add: process_step_def)
  then show ?thesis by blast
qed (use assms in \<open>simp_all add: exited_def\<close>)


lemmas process_eval = process_step_def process_init_def check_settles_def check_step_def shutdown_def compose_settles_def
  dispose_starts_def dispose_cleared_def clearRunMarker_def Let_def

definition demo_stop :: "process_event list" where
  "demo_stop = [ComposeSettles True, CheckStep True, CheckStep True, CheckStep True, CheckStep True, Signal, CheckStep True,
     ClearSettles True, TrackerSettles False, LogSettles True]"


text \<open>A boot that fails leaves the marker of its check behind, also when a signal had asked it to stop.\<close>

lemma failed_boot_keeps_marker:
  "\<exists>s. process_run parse t [CheckStep True, CheckStep True, CheckStep True, CheckStep True, CheckStep True, Signal, ComposeSettles False]
      (process_init None) = Some s \<and> po_stop s = Exited 1 \<and> po_disk s = Some (started_json t)"
  by (simp add: process_step_def process_init_def check_settles_def check_step_def shutdown_def compose_settles_def)

end
