(* ===== verification/Logger.thy ===== *)
theory Logger
  imports Redact Config
begin

text \<open>
  \<open>src/src/lib/logger.ts\<close>: which lines are written, where, and what of them was redacted. A context is an
  object; \<open>stringify\<close> and \<open>parse\<close> are \<open>JSON.stringify\<close> and \<open>JSON.parse\<close>, \<open>None\<close> where they throw;
  \<open>show\<close> is \<open>String\<close>.
\<close>

datatype log_stream = Stdout | Stderr

record log_env =
  lg_stringify :: "json \<Rightarrow> string option"
  lg_parse :: "string \<Rightarrow> json option"
  lg_show :: "json \<Rightarrow> string"
  lg_time :: string

definition LEVELS :: "log_level \<Rightarrow> nat" where
  "LEVELS l = (case l of Debug \<Rightarrow> 10 | Info \<Rightarrow> 20 | Warn \<Rightarrow> 30 | LogError \<Rightarrow> 40)"

definition level_name :: "log_level \<Rightarrow> string" where
  "level_name l = (case l of Debug \<Rightarrow> ''debug'' | Info \<Rightarrow> ''info'' | Warn \<Rightarrow> ''warn'' | LogError \<Rightarrow> ''error'')"

definition stringifySafe :: "log_env \<Rightarrow> json \<Rightarrow> string" where
  "stringifySafe env v =
     (case v of JStr s \<Rightarrow> s | _ \<Rightarrow> (case lg_stringify env v of Some t \<Rightarrow> t | None \<Rightarrow> lg_show env v))"

definition log_stream_of :: "log_level \<Rightarrow> log_stream" where
  "log_stream_of l = (if l = LogError \<or> l = Warn then Stderr else Stdout)"

text \<open>The line written, \<open>Inr None\<close> below the threshold, or what \<open>emit\<close> throws.\<close>

definition emit_line :: "log_env \<Rightarrow> log_level \<Rightarrow> bool \<Rightarrow> log_level \<Rightarrow> string \<Rightarrow> obj option \<Rightarrow> (log_stream \<times> string) option result" where
  "emit_line env threshold pretty level message ctx =
     (if LEVELS level < LEVELS threshold then Inr None
      else
        let safeMessage = redact message; stream = log_stream_of level; nl = [CHR 0x0A];
            context = (case ctx of Some (kv # kvs) \<Rightarrow> Some (JObj (kv # kvs)) | _ \<Rightarrow> None)
        in
        if pretty then
          let ctxStr = (case context of Some c \<Rightarrow> '' '' @ redact (stringifySafe env c) | None \<Rightarrow> [])
          in Inr (Some (stream, lg_time env @ '' ['' @ level_name level @ ''] '' @ safeMessage @ ctxStr @ nl))
        else
          let record = [(''time'', JStr (lg_time env)), (''level'', JStr (level_name level)), (''msg'', JStr safeMessage)] in
          case context of
            None \<Rightarrow> (case lg_stringify env (JObj record) of Some t \<Rightarrow> Inr (Some (stream, t @ nl)) | None \<Rightarrow> Inl (Other ''not serialisable''))
          | Some c \<Rightarrow>
              (case lg_parse env (redact (stringifySafe env c)) of
                 None \<Rightarrow> Inl (Other ''not JSON'')
               | Some v \<Rightarrow> (case lg_stringify env (JObj (record @ [(''ctx'', v)])) of
                   Some t \<Rightarrow> Inr (Some (stream, t @ nl)) | None \<Rightarrow> Inl (Other ''not serialisable''))))"

text \<open>A line is a function of the redacted message and the redacted context.\<close>

lemma line_by_redaction:
  "redact m = redact m' \<Longrightarrow> emit_line env th pretty l m ctx = emit_line env th pretty l m' ctx"
  by (simp add: emit_line_def)

end
