(* ===== verification/AdminViews.thy ===== *)
theory AdminViews
  imports AdminApi ArchiveSafe Redact
begin

text \<open>
  The reading half of the admin interface: \<open>src/src/admin/messages.ts\<close> (list, detail and archived page of
  the message log) and \<open>src/src/admin/snapshot.ts\<close> (the candidate snapshot). A page is the data its
  renderer gets. \<open>date\<close> is \<open>new Date(text)\<close> with \<open>None\<close> for an invalid date, \<open>fmt\<close> is \<open>toISOString\<close>; a
  query parameter is \<open>None\<close> when absent. The store answers as MessagesLog says, or throws.
\<close>

datatype 'a admin_page = Page 'a | Unavailable string | PlainText nat string

subsection \<open>The list\<close>

definition PAGE_LIMIT :: int where "PAGE_LIMIT = 100"

record list_query =
  lq_q :: "string option"
  lq_user :: "string option"
  lq_model :: "string option"
  lq_status :: "string option"
  lq_source :: "string option"
  lq_before :: "string option"

definition parseStatusClass :: "string option \<Rightarrow> status_class" where
  "parseStatusClass raw =
     (if raw = Some ''success'' then Success else if raw = Some ''error'' then Error else All)"

text \<open>\<open>None\<close> is \<open>all\<close>.\<close>

definition parseSource :: "string option \<Rightarrow> msg_source option" where
  "parseSource raw =
     (if raw = Some ''client'' then Some Client else if raw = Some ''proxy'' then Some Proxy
      else if raw = Some ''upstream'' then Some Upstream else None)"

definition parseBefore :: "(string \<Rightarrow> rat option) \<Rightarrow> string option \<Rightarrow> rat option" where
  "parseBefore date raw = (case raw of None \<Rightarrow> None | Some s \<Rightarrow> if s = [] then None else date s)"

definition trimmed :: "string option \<Rightarrow> string" where
  "trimmed v = trim (case v of Some s \<Rightarrow> s | None \<Rightarrow> [])"

definition query_filters :: "(string \<Rightarrow> rat option) \<Rightarrow> list_query \<Rightarrow> list_filters" where
  "query_filters date query =
     (let status = parseStatusClass (lq_status query) in
      \<lparr>lf_userName = nonempty (trimmed (lq_user query)), lf_model = nonempty (trimmed (lq_model query)),
       lf_statusClass = (if status \<noteq> All then Some status else None), lf_source = parseSource (lq_source query),
       lf_search = nonempty (trimmed (lq_q query)), lf_before = parseBefore date (lq_before query),
       lf_limit = PAGE_LIMIT\<rparr>)"

record list_page =
  lp_rows :: "log_row list"
  lp_filters :: "string \<times> string \<times> string \<times> status_class \<times> msg_source option"
  lp_nextCursor :: "string option"
  lp_hasPrev :: bool

definition messages_list ::
  "(string \<Rightarrow> rat option) \<Rightarrow> (rat \<Rightarrow> string) \<Rightarrow> (list_filters \<Rightarrow> log_row list result) \<Rightarrow> list_query
     \<Rightarrow> list_page admin_page" where
  "messages_list date fmt store query =
     (let filters = query_filters date query in
      case attempt (store filters) of
        Failed reason \<Rightarrow> Unavailable reason
      | Ok rows \<Rightarrow>
          Page \<lparr>lp_rows = rows,
            lp_filters = (trimmed (lq_q query), trimmed (lq_user query), trimmed (lq_model query),
              parseStatusClass (lq_status query), parseSource (lq_source query)),
            lp_nextCursor = (if int (length rows) \<ge> PAGE_LIMIT \<and> rows \<noteq> [] then Some (fmt (ml_ts (last rows))) else None),
            lp_hasPrev = (lf_before filters \<noteq> None)\<rparr>)"

subsection \<open>One message\<close>

definition is_hex :: "char \<Rightarrow> bool" where
  "is_hex c = (radix_digit 16 c \<noteq> None)"

definition UUID_RE :: "string \<Rightarrow> bool" where
  "UUID_RE i =
     (let ps = split_str ''-'' i in
      map length ps = [8, 4, 4, 4, 12] \<and> list_all (list_all is_hex) ps)"

datatype detail_page = DetailPage log_row bool | RestoredPage obj string

definition message_detail ::
  "(string \<Rightarrow> log_row option result) \<Rightarrow> bool \<Rightarrow> string \<Rightarrow> detail_page admin_page" where
  "message_detail store canReadArchive i =
     (if i = [] \<or> \<not> UUID_RE i then PlainText 400 ''invalid id''
      else case attempt (store i) of
        Failed reason \<Rightarrow> Unavailable reason
      | Ok None \<Rightarrow> PlainText 404 ''not found''
      | Ok (Some record) \<Rightarrow> Page (DetailPage record canReadArchive))"

definition archived_message ::
  "(string \<Rightarrow> json option) \<Rightarrow> (string \<Rightarrow> string) \<Rightarrow> (string \<Rightarrow> string result) option
     \<Rightarrow> (string \<Rightarrow> log_row option result) \<Rightarrow> string \<Rightarrow> detail_page admin_page" where
  "archived_message parse gunzip readArchive store i =
     (if i = [] \<or> \<not> UUID_RE i then PlainText 400 ''invalid id''
      else case readArchive of
        None \<Rightarrow> PlainText 501 ''archive reads are not configured on this instance (no S3 read credentials)''
      | Some read \<Rightarrow>
          (case attempt (store i) of
             Failed reason \<Rightarrow> Unavailable reason
           | Ok None \<Rightarrow> PlainText 404 ''not found''
           | Ok (Some record) \<Rightarrow>
               (case lr_archiveKey record of
                  Some (c # cs) \<Rightarrow>
                    (case attempt (read (c # cs)) of
                       Failed reason \<Rightarrow> Unavailable reason
                     | Ok object \<Rightarrow>
                         (case parseArchivedRow parse gunzip object i of
                            None \<Rightarrow> PlainText 502 (''archived object '' @ (c # cs) @ '' does not contain row '' @ i)
                          | Some archived \<Rightarrow> Page (RestoredPage archived (c # cs))))
                | _ \<Rightarrow> PlainText 404 ''this message is not archived'')))"

subsection \<open>The candidate snapshot\<close>

text \<open>The files are their contents; \<open>io\<close> is what the rename or the deletion throws, if it does.\<close>

record snapshot_files =
  sf_stable :: "string option"
  sf_candidate :: "string option"

definition snapshot_status :: "snapshot_files \<Rightarrow> bool \<times> bool" where
  "snapshot_status f = (sf_stable f \<noteq> None, sf_candidate f \<noteq> None)"

definition promote :: "exn option \<Rightarrow> snapshot_files \<Rightarrow> json result \<times> snapshot_files" where
  "promote io f =
     (if sf_candidate f = None then (Inl (Conflict ''no candidate snapshot to promote'' ''no_candidate''), f)
      else case io of Some e \<Rightarrow> (Inl e, f)
        | None \<Rightarrow> (Inr (JObj [(''promoted'', JBool True), (''restartRequired'', JBool True)]),
            \<lparr>sf_stable = sf_candidate f, sf_candidate = None\<rparr>))"

definition rollback :: "exn option \<Rightarrow> snapshot_files \<Rightarrow> json result \<times> snapshot_files" where
  "rollback io f =
     (if sf_candidate f = None then (Inl (Conflict ''no candidate snapshot to rollback'' ''no_candidate''), f)
      else case io of Some e \<Rightarrow> (Inl e, f)
        | None \<Rightarrow> (Inr (JObj [(''rolledBack'', JBool True), (''restartRequired'', JBool True)]),
            f\<lparr>sf_candidate := None\<rparr>))"

subsection \<open>Following the cursors\<close>

text \<open>A reader who starts at a query and follows \<open>nextCursor\<close> to the end; \<open>table k\<close> is the table when
  page \<open>k\<close> is asked for. The result is what the pages showed, \<open>None\<close> if it has not come to the end after
  \<open>fuel\<close> pages or a page failed.\<close>

fun crawl ::
  "(string \<Rightarrow> rat option) \<Rightarrow> (rat \<Rightarrow> string) \<Rightarrow> (nat \<Rightarrow> log_row list) \<Rightarrow> nat \<Rightarrow> nat \<Rightarrow> list_query
     \<Rightarrow> log_row list option" where
  "crawl date fmt table 0 k query = None"
| "crawl date fmt table (Suc fuel) k query =
     (case messages_list date fmt (\<lambda>f. Inr (store_list f (table k))) query of
        Page p \<Rightarrow>
          (case lp_nextCursor p of
             None \<Rightarrow> Some (lp_rows p)
           | Some cursor \<Rightarrow>
               map_option (\<lambda>later. lp_rows p @ later)
                 (crawl date fmt table fuel (Suc k) (query\<lparr>lq_before := Some cursor\<rparr>)))
      | _ \<Rightarrow> None)"

lemma attempt_Inr [simp]: "attempt (Inr v) = Ok v"
  by (simp add: attempt_def)

text \<open>The matching rows regardless of the cursor, newest first.\<close>

definition matching :: "(string \<Rightarrow> rat option) \<Rightarrow> list_query \<Rightarrow> log_row list \<Rightarrow> log_row list" where
  "matching date query rows =
     newest_first (filter (row_matches ((query_filters date query)\<lparr>lf_before := None\<rparr>)) rows)"

definition before_cursor :: "rat option \<Rightarrow> log_row \<Rightarrow> bool" where
  "before_cursor b r = (case b of None \<Rightarrow> True | Some t \<Rightarrow> ml_ts r < t)"

lemma row_matches_before:
  "row_matches f r \<longleftrightarrow> row_matches (f\<lparr>lf_before := None\<rparr>) r \<and> before_cursor (lf_before f) r"
  by (auto simp: row_matches_def before_cursor_def)

lemma newest_first_filter: "newest_first (filter P rows) = filter P (newest_first rows)"
  by (simp add: newest_first_def rev_filter flip: filter_sort)

lemma page_rows:
  "store_list (query_filters date query) rows =
     take 100 (filter (before_cursor (parseBefore date (lq_before query))) (matching date query rows))"
proof -
  let ?f = "query_filters date query"
  have "filter (row_matches ?f) rows =
      filter (before_cursor (lf_before ?f)) (filter (row_matches (?f\<lparr>lf_before := None\<rparr>)) rows)"
    unfolding filter_filter by (rule filter_cong [OF refl]) (rule row_matches_before)
  moreover have "lf_before ?f = parseBefore date (lq_before query)" "list_limit (lf_limit ?f) = 100"
    by (simp_all add: query_filters_def Let_def PAGE_LIMIT_def list_limit_def)
  ultimately show ?thesis
    unfolding store_list_def matching_def by (simp only: newest_first_filter)
qed

lemma matching_cursor [simp]: "matching date (query\<lparr>lq_before := b\<rparr>) rows = matching date query rows"
  by (simp add: matching_def query_filters_def Let_def)

lemma matching_newer:
  assumes "\<forall>r \<in> set new. t \<le> ml_ts r"
  shows "filter (before_cursor (Some t)) (matching date query (rows @ new)) =
    filter (before_cursor (Some t)) (matching date query rows)"
proof -
  let ?P = "row_matches ((query_filters date query)\<lparr>lf_before := None\<rparr>)"
  have "filter (before_cursor (Some t)) (filter ?P new) = []"
    using assms by (auto simp: filter_empty_conv before_cursor_def)
  then have "filter (before_cursor (Some t)) (filter ?P (rows @ new)) = filter (before_cursor (Some t)) (filter ?P rows)"
    by simp
  then show ?thesis unfolding matching_def newest_first_filter [symmetric] by (rule arg_cong)
qed

lemma newest_first_strict:
  assumes "distinct (map ml_ts rows)"
  shows "sorted_wrt (\<lambda>a b. ml_ts b < ml_ts a) (newest_first rows)"
proof -
  have "distinct (map ml_ts (sort_key ml_ts rows))" using assms by (simp add: distinct_map)
  then have "sorted_wrt (<) (map ml_ts (sort_key ml_ts rows))" by (simp add: strict_sorted_iff)
  then show ?thesis by (simp add: newest_first_def sorted_wrt_rev sorted_wrt_map)
qed

lemma rest_after:
  assumes "sorted_wrt (\<lambda>a b. ml_ts b < ml_ts a) (xs @ ys)" "xs \<noteq> []"
  shows "filter (before_cursor (Some (ml_ts (last xs)))) (xs @ ys) = ys"
proof -
  have "\<not> before_cursor (Some (ml_ts (last xs))) r" if "r \<in> set xs" for r
  proof -
    obtain zs where xs: "xs = zs @ [last xs]" using assms(2) by (metis append_butlast_last_id)
    from assms(1) have "sorted_wrt (\<lambda>a b. ml_ts b < ml_ts a) xs" by (simp add: sorted_wrt_append)
    then have "\<forall>z \<in> set zs. ml_ts (last xs) < ml_ts z" by (subst (asm) xs) (simp add: sorted_wrt_append)
    moreover from that have "r \<in> set zs \<or> r = last xs" by (subst (asm) xs) auto
    ultimately show ?thesis by (auto simp: before_cursor_def)
  qed
  moreover have "before_cursor (Some (ml_ts (last xs))) r" if "r \<in> set ys" for r
    using assms that by (auto simp: sorted_wrt_append before_cursor_def)
  ultimately have "filter (before_cursor (Some (ml_ts (last xs)))) xs = []"
    "filter (before_cursor (Some (ml_ts (last xs)))) ys = ys"
    by (auto simp: filter_empty_conv filter_id_conv)
  then show ?thesis by simp
qed

lemma crawl_rest:
  assumes strict: "sorted_wrt (\<lambda>a b. ml_ts b < ml_ts a) (matching date query rows)"
    and dates: "\<And>r. r \<in> set rows \<Longrightarrow> fmt (ml_ts r) \<noteq> [] \<and> date (fmt (ml_ts r)) = Some (ml_ts r)"
    and newer: "\<And>k. \<exists>new. table k = rows @ new \<and> (\<forall>r \<in> set new. \<forall>r0 \<in> set rows. ml_ts r0 < ml_ts r)"
  shows "matching date query rows = xs @ ys \<Longrightarrow> length ys div 100 < fuel \<Longrightarrow>
    filter (before_cursor (parseBefore date b)) (matching date query (table k)) = ys \<Longrightarrow>
    crawl date fmt table fuel k (query\<lparr>lq_before := b\<rparr>) = Some ys"
proof (induction fuel arbitrary: xs ys b k)
  case 0
  then show ?case by simp
next
  case (Suc fuel)
  let ?page = "take 100 ys"
  have rows: "store_list (query_filters date (query\<lparr>lq_before := b\<rparr>)) (table k) = ?page"
    using Suc.prems(3) by (simp add: page_rows)
  show ?case
  proof (cases "length ys < 100")
    case True
    then show ?thesis by (simp add: messages_list_def rows Let_def PAGE_LIMIT_def)
  next
    case False
    then have ne: "?page \<noteq> []" by auto
    define t where "t = ml_ts (last ?page)"
    have "last ?page \<in> set (matching date query rows)" using ne Suc.prems(1)
      by (metis Un_iff in_set_takeD last_in_set set_append)
    then have r: "last ?page \<in> set rows" by (simp add: matching_def newest_first_def)
    obtain new where new: "table (Suc k) = rows @ new" "\<forall>r \<in> set new. \<forall>r0 \<in> set rows. ml_ts r0 < ml_ts r"
      using newer by blast
    have "parseBefore date (Some (fmt t)) = Some t" using dates [OF r] by (simp add: parseBefore_def t_def)
    moreover have "filter (before_cursor (Some t)) (matching date query (table (Suc k))) =
        filter (before_cursor (Some t)) (matching date query rows)"
      unfolding new(1) using new(2) r by (intro matching_newer) (force simp: t_def)
    moreover have split: "matching date query rows = (xs @ ?page) @ drop 100 ys" using Suc.prems(1) by simp
    moreover have "filter (before_cursor (Some t)) ((xs @ ?page) @ drop 100 ys) = drop 100 ys"
      using rest_after [of "xs @ ?page" "drop 100 ys"] strict ne by (simp add: split t_def del: append_assoc append_take_drop_id)
    ultimately have rest: "filter (before_cursor (parseBefore date (Some (fmt t)))) (matching date query (table (Suc k))) = drop 100 ys"
      by simp
    have "length (drop 100 ys) div 100 < fuel" using Suc.prems(2) False by (simp add: div_le_mono)
    from Suc.IH [OF split this rest]
    have "crawl date fmt table fuel (Suc k) (query\<lparr>lq_before := Some (fmt t)\<rparr>) = Some (drop 100 ys)" .
    with False ne show ?thesis
      by (simp add: messages_list_def rows Let_def PAGE_LIMIT_def t_def)
  qed
qed


definition demo_query :: list_query where
  "demo_query = \<lparr>lq_q = None, lq_user = Some '' u '', lq_model = None, lq_status = None, lq_source = None, lq_before = None\<rparr>"

definition demo_rows :: "nat \<Rightarrow> log_row list" where
  "demo_rows n = map (\<lambda>k. demo_row\<lparr>ml_ts := of_nat k\<rparr>) [0..<n]"

definition demo_date :: "string \<Rightarrow> rat option" where
  "demo_date s = Some (of_nat (digits_val s))"

definition demo_fmt :: "rat \<Rightarrow> string" where
  "demo_fmt t = nat_str (nat \<lfloor>t\<rfloor>)"


subsection \<open>Archived messages stay readable\<close>

definition table_get :: "archive_state \<Rightarrow> string \<Rightarrow> log_row option result" where
  "table_get st i = Inr (store_get i (as_rows st))"

definition bucket_get :: "archive_state \<Rightarrow> string \<Rightarrow> string result" where
  "bucket_get st key = (case map_of (as_objects st) key of Some body \<Rightarrow> Inr body | None \<Rightarrow> Inl (Other ''NoSuchKey''))"

lemma store_get_distinct: "distinct (map ml_id rows) \<Longrightarrow> r \<in> set rows \<Longrightarrow> store_get (ml_id r) rows = Some r"
  unfolding store_get_def by (induction rows) auto

text \<open>C28: whatever the archiver and the proxy do after a row is in the log, with failing, half-done or
  repeated uploads and updates, its page shows its bodies: the detail page the row as it was stored or,
  once it is archived, the archived page the request and the response it was stored with. The rows' JSON
  texts must be single lines that parse back, compression must be undone by its inverse and no two
  batches may share a clock reading.\<close>

theorem logged_rows_stay_readable:
  assumes "distinct (map ml_id (as_rows st))" and "as_objects st = []" and "distinct (epochs (ops1 @ ops2))"
    and "\<forall>r \<in> set (as_rows st). lr_archivedAt r = None \<longrightarrow> clean_line env parse r"
    and "\<forall>m. WriteRow m \<in> set (ops1 @ ops2) \<longrightarrow> clean_line env parse (stored_row m)"
    and "\<And>x. gunzip (ae_gzip env x) = x"
    and "r \<in> set (as_rows (archive_run env ops1 st))" and "UUID_RE (ml_id r)"
  shows "let now = archive_run env (ops1 @ ops2) st in
    message_detail (table_get now) True (ml_id r) = Page (DetailPage r True) \<or>
    (\<exists>kvs key. archived_message parse gunzip (Some (bucket_get now)) (table_get now) (ml_id r) = Page (RestoredPage kvs key) \<and>
       get kvs ''requestBody'' = Some (opt_json id (lr_request r)) \<and>
       get kvs ''responseBody'' = Some (opt_json id (lr_response r)))"
proof -
  define now where "now = archive_run env (ops1 @ ops2) st"
  note keeps = run_keeps [where W = "clean_line env parse", OF assms(1-5,7), folded now_def]
  have uuid: "ml_id r \<noteq> []" using assms(8) by (auto simp: UUID_RE_def split_str_def)
  from keeps(1) consider "r \<in> set (as_rows now)"
    | key t rs where "archive_row key t r \<in> set (as_rows now)" "r \<in> set rs" "list_all (clean_line env parse) rs"
        "distinct (map ml_id rs)" "map_of (as_objects now) key = Some (object_of env rs)"
    by (auto simp: kept_row_def)
  then have "message_detail (table_get now) True (ml_id r) = Page (DetailPage r True) \<or>
    (\<exists>kvs key. archived_message parse gunzip (Some (bucket_get now)) (table_get now) (ml_id r) = Page (RestoredPage kvs key) \<and>
       get kvs ''requestBody'' = Some (opt_json id (lr_request r)) \<and>
       get kvs ''responseBody'' = Some (opt_json id (lr_response r)))"
  proof cases
    case 1
    with store_get_distinct [OF keeps(2)] have "message_detail (table_get now) True (ml_id r) = Page (DetailPage r True)"
      using assms(8) uuid by (simp add: message_detail_def table_get_def)
    then show ?thesis ..
  next
    case 2
    obtain c cs where key: "key = c # cs" using 2(5) keeps(3) by (cases key) auto
    have row: "table_get now (ml_id r) = Inr (Some (archive_row key t r))"
      using store_get_distinct [OF keeps(2) 2(1)] by (simp add: table_get_def)
    have "gunzip (object_of env rs) = serializeJsonl (ae_stringify env) (ae_fmt env) rs"
      by (simp add: object_of_def assms(6))
    from row_reads_back [where gunzip = gunzip and env = env and rows = rs, OF this 2(3,4,2) uuid] obtain kvs where
      kvs: "parseArchivedRow parse gunzip (object_of env rs) (ml_id r) = Some kvs"
        "get kvs ''requestBody'' = Some (opt_json id (lr_request r))"
        "get kvs ''responseBody'' = Some (opt_json id (lr_response r))" by blast
    have "archived_message parse gunzip (Some (bucket_get now)) (table_get now) (ml_id r) = Page (RestoredPage kvs key)"
      using assms(8) uuid 2(5) kvs(1) by (simp add: archived_message_def row archive_row_def key bucket_get_def)
    with kvs(2,3) show ?thesis by blast
  qed
  then show ?thesis by (simp only: now_def [symmetric] Let_def)
qed

definition demo_uuid :: string where "demo_uuid = ''01234567-89ab-cdef-0123-456789abcdef''"

definition uuid_row :: log_row where "uuid_row = demo_row\<lparr>ml_id := demo_uuid\<rparr>"

definition uuid_env :: archive_env where "uuid_env = demo_env\<lparr>ae_stringify := (\<lambda>v. demo_uuid)\<rparr>"

theorem logged_rows_stay_readable_witness:
  "let now = archive_run uuid_env demo_ops \<lparr>as_rows = [uuid_row], as_objects = []\<rparr>;
       parse = (\<lambda>s. Some (row_json (ae_fmt uuid_env) uuid_row)) in
    message_detail (table_get now) True demo_uuid = Page (DetailPage uuid_row True) \<or>
    (\<exists>kvs key. archived_message parse id (Some (bucket_get now)) (table_get now) demo_uuid = Page (RestoredPage kvs key) \<and>
       get kvs ''requestBody'' = Some (opt_json id (lr_request uuid_row)) \<and>
       get kvs ''responseBody'' = Some (opt_json id (lr_response uuid_row)))"
proof -
  let ?parse = "\<lambda>s. Some (row_json (ae_fmt uuid_env) uuid_row)"
  let ?st = "\<lparr>as_rows = [uuid_row], as_objects = []\<rparr> :: archive_state"
  have i: "ml_id uuid_row = demo_uuid" by (simp add: uuid_row_def)
  have "clean_line uuid_env ?parse uuid_row"
    by (simp add: clean_line_def uuid_env_def i includes_str_def) (simp add: demo_uuid_def)
  moreover have "\<not> (\<exists>m. WriteRow m \<in> set ([] @ demo_ops))" by (simp add: demo_ops_def)
  moreover have "UUID_RE demo_uuid"
    by (simp add: UUID_RE_def demo_uuid_def split_str_def is_hex_def radix_digit_def)
  moreover have "distinct (epochs ([] @ demo_ops))" by (simp add: demo_ops_def)
  moreover have "id (ae_gzip uuid_env x) = x" for x by (simp add: uuid_env_def demo_env_def)
  ultimately show ?thesis
    using logged_rows_stay_readable [of ?st "[]" demo_ops uuid_env ?parse id uuid_row]
    by (simp add: i)
qed

end
