(* ===== verification/Boot.thy ===== *)
theory Boot
  imports Config App AdminApi
begin

text \<open>
  The wiring of \<open>src/src/app.ts\<close>: which account pool, limits, keys and templates a configuration boots
  with, when the boot fails, and which middlewares stand before which endpoint. The files read at boot
  and the answers of the account endpoints are in \<open>boot_io\<close>. The parts of the model compute with
  rationals where the program has numbers, so \<open>composeApp\<close> is \<open>None\<close> for a configuration that makes
  one of these numbers \<open>NaN\<close> or infinite. The usage tracker is the one in memory.
\<close>

subsection \<open>From the configuration to the parts\<close>

record boot_io =
  bo_alerts :: "json option"
  bo_accounts :: accounts_read
  bo_memberTokens :: "string \<Rightarrow> json option"
  bo_tokens :: "json option"
  bo_learned :: "json option list"
  bo_snapshot :: snapshot_read
  bo_candidate :: snapshot_read
  bo_keys :: file_read

definition buildPool :: "settings \<Rightarrow> rat \<Rightarrow> boot_io \<Rightarrow> oauth pool result" where
  "buildPool c expiresAt bo =
     (case tryLoadAccountPool (se_accountsPath c) (bo_memberTokens bo) (bo_accounts bo) of
        Inl e \<Rightarrow> Inl e
      | Inr (Some P) \<Rightarrow> Inr P
      | Inr None \<Rightarrow>
          if length (se_refreshToken c) = 0
          then Inl (ConfigError (''No auth source: set ANTHROPIC_OAUTH_REFRESH_TOKEN, or provide '' @ se_accountsPath c))
          else (case createOAuthManager
                   \<lparr>ts_access = or_default [] (se_accessToken c), ts_refresh = se_refreshToken c, ts_expires = expiresAt\<rparr>
                   (bo_tokens bo) of
                  Inl e \<Rightarrow> Inl e
                | Inr m \<Rightarrow> singleAccountPool m))"

definition rat_of :: "jsnum \<Rightarrow> rat option" where
  "rat_of n = (case n of Num q \<Rightarrow> Some q | _ \<Rightarrow> None)"

definition config_expiry :: "settings \<Rightarrow> rat option" where
  "config_expiry c = (case se_expiresAt c of None \<Rightarrow> Some 0 | Some n \<Rightarrow> rat_of n)"

definition effectivePacing :: "settings \<Rightarrow> boot_io \<Rightarrow> rat option" where
  "effectivePacing c bo =
     (if js_gt (se_pacingMinGapMs c) (Num 0) then rat_of (se_pacingMinGapMs c)
      else Some (case recommendedMinGapMs (bo_snapshot bo) of Some g \<Rightarrow> g | None \<Rightarrow> 0))"

text \<open>The account id: configured, or asked for with a token of the pool; a failure leaves it open.\<close>

definition boot_learner ::
  "(string \<Rightarrow> string \<Rightarrow> int) \<Rightarrow> (oauth \<Rightarrow> string result \<times> oauth) \<Rightarrow> settings \<Rightarrow> boot_io \<Rightarrow> oauth pool
     \<Rightarrow> string option \<times> oauth pool" where
  "boot_learner lc get_token c bo P =
     (case se_accountUuidOverride c of
        Some u \<Rightarrow> (Some u, P)
      | None \<Rightarrow>
          (case pool_getAccessToken lc get_token None P of
             (Inl e, P') \<Rightarrow> (None, P')
           | (Inr _, P') \<Rightarrow> (snd (learner_bootstrap (bo_learned bo) None), P')))"

definition boot_keys :: "settings \<Rightarrow> boot_io \<Rightarrow> key_record list result" where
  "boot_keys c bo =
     (case createApiKeyStore \<lparr>ksp_envKeys = se_apiKeys c, ksp_filePath = se_apiKeysFilePath c\<rparr> (bo_keys bo) of
        Inl e \<Rightarrow> Inl e
      | Inr st \<Rightarrow>
          let keys = compose (se_apiKeys c) (ks_file st) in
          if length keys = 0 then Inl (ConfigError ''api-key store is empty - set API_KEYS env or populate API_KEYS_PATH file'')
          else Inr keys)"

definition boot_config ::
  "(string \<Rightarrow> json option) \<Rightarrow> (json \<Rightarrow> string) \<Rightarrow> (string \<Rightarrow> string \<Rightarrow> int) \<Rightarrow> settings \<Rightarrow> rat \<Rightarrow> rat
     \<Rightarrow> snapshot \<Rightarrow> snapshot option \<Rightarrow> app_config" where
  "boot_config parse stringify lc c gap perSecond template candidate =
     \<lparr>ac_handler = \<lparr>hc_threshold = se_globalSubscriptionThresholdTokens c, hc_limit = se_dailyTokenLimitPerKey c,
        hc_gap = gap, hc_template = template, hc_candidateTemplate = candidate,
        hc_parse = parse, hc_stringify = stringify, hc_locale = lc\<rparr>,
      ac_rate = \<lparr>rp_perSecond = perSecond, rp_burst = None\<rparr>,
      ac_perKey = se_maxConcurrentRequestsPerKey c, ac_global = se_maxConcurrentRequests c\<rparr>"

definition boot_state ::
  "rat \<Rightarrow> key_record list \<Rightarrow> oauth pool \<Rightarrow> string option \<Rightarrow> bool \<Rightarrow> rat \<Rightarrow> oauth app" where
  "boot_state now keys P learned candidate percent =
     \<lparr>ap_keys = keys, ap_rate = [], ap_limits = cl_init, ap_observer = createOutcomeObserver now,
      ap_proxy = \<lparr>px_guard = gg_init, px_usage = [], px_pool = P, px_learner = learned,
        px_canary = createCanaryController candidate percent, px_drift = [], px_billing = createBillingMonitor,
        px_rows = [], px_alarms = [], px_logErrors = []\<rparr>,
      ap_serverErrors = []\<rparr>"

definition composeApp ::
  "(string \<Rightarrow> json option) \<Rightarrow> (json \<Rightarrow> string) \<Rightarrow> (string \<Rightarrow> string \<Rightarrow> int)
     \<Rightarrow> (oauth \<Rightarrow> string result \<times> oauth) \<Rightarrow> rat \<Rightarrow> settings \<Rightarrow> boot_io
     \<Rightarrow> (app_config \<times> oauth app \<times> alert_config) result option" where
  "composeApp parse stringify lc get_token now c bo =
     (case (config_expiry c, effectivePacing c bo, rat_of (se_perIpRateLimitPerSecond c), rat_of (se_canaryPercent c)) of
        (Some expiresAt, Some gap, Some perSecond, Some percent) \<Rightarrow> Some
          (case createAlertStore (bo_alerts bo) (se_discordWebhookUrl c) (se_slackWebhookUrl c) of
             Inl e \<Rightarrow> Inl e
           | Inr alerts \<Rightarrow>
          (case buildPool c expiresAt bo of
             Inl e \<Rightarrow> Inl e
           | Inr P \<Rightarrow>
          (case boot_learner lc get_token c bo P of (learned, P') \<Rightarrow>
          (case loadSnapshot (bo_snapshot bo) of
             Inl e \<Rightarrow> Inl e
           | Inr template \<Rightarrow>
               let candidate = tryCreateCandidateTemplate (bo_candidate bo) in
          (case boot_keys c bo of
             Inl e \<Rightarrow> Inl e
           | Inr keys \<Rightarrow>
               Inr (boot_config parse stringify lc c gap perSecond template candidate,
                    boot_state now keys P' learned (candidate \<noteq> None) percent, alerts))))))
      | _ \<Rightarrow> None)"

subsection \<open>Routes\<close>

datatype middleware = Auth | Capture | Observer | BodyLimit | IpLimit | KeyLimit | GlobalLimit | AdminRole | Csrf

datatype endpoint =
    Healthz | Messages | ModelsList | Stats | AdminPage | Events
  | OAuthProbe | SelfPing | KeyInvoke | UpstreamDirect | VerifyEntitlement
  | KeysList | KeysCreate | KeysUpdate | KeysRevoke
  | SnapshotStatus | SnapshotPromote | SnapshotRollback
  | MessagesList | MessageDetail | ArchivedMessage
  | OAuthReplace | AlertsDiscord | AlertsSlack

datatype registration = Use string middleware | On string string endpoint

definition inference_limits :: "string \<Rightarrow> registration list" where
  "inference_limits p = [Use p IpLimit, Use p KeyLimit, Use p GlobalLimit]"

text \<open>In the order of the calls; the request log of the debug level, which lets everything pass, is left out.\<close>

definition admin_routes :: "registration list" where
  "admin_routes =
     [On ''GET'' ''/admin/stats'' Stats, On ''GET'' ''/admin'' AdminPage, On ''GET'' ''/admin/'' AdminPage,
      On ''GET'' ''/admin/events'' Events,
      On ''POST'' ''/admin/test/oauth-probe'' OAuthProbe, On ''POST'' ''/admin/test/self-ping'' SelfPing,
      On ''POST'' ''/admin/test/key-invoke'' KeyInvoke, On ''POST'' ''/admin/test/upstream-direct'' UpstreamDirect,
      On ''POST'' ''/admin/test/verify-entitlement'' VerifyEntitlement,
      On ''GET'' ''/admin/keys'' KeysList, On ''POST'' ''/admin/keys'' KeysCreate,
      On ''PATCH'' ''/admin/keys/:name'' KeysUpdate, On ''DELETE'' ''/admin/keys/:name'' KeysRevoke,
      On ''POST'' ''/admin/keys/:name/revoke'' KeysRevoke, On ''POST'' ''/admin/keys/:name/update'' KeysUpdate,
      On ''GET'' ''/admin/snapshot'' SnapshotStatus, On ''POST'' ''/admin/snapshot/promote'' SnapshotPromote,
      On ''POST'' ''/admin/snapshot/rollback'' SnapshotRollback,
      On ''GET'' ''/admin/messages'' MessagesList, On ''GET'' ''/admin/messages/:id'' MessageDetail,
      On ''GET'' ''/admin/messages/:id/archived'' ArchivedMessage,
      On ''POST'' ''/admin/oauth/replace'' OAuthReplace,
      On ''POST'' ''/admin/alerts/discord'' AlertsDiscord, On ''POST'' ''/admin/alerts/slack'' AlertsSlack]"

definition routes :: "registration list" where
  "routes =
     [On ''GET'' ''/healthz'' Healthz, Use ''/v1/*'' Auth, Use ''/v1/*'' Capture,
      Use ''/v1/messages'' Observer, Use ''/v1/messages'' BodyLimit] @
     inference_limits ''/v1/messages'' @ inference_limits ''/v1/models'' @
     [On ''POST'' ''/v1/messages'' Messages, On ''GET'' ''/v1/models'' ModelsList,
      Use ''/admin/*'' Auth, Use ''/admin/*'' AdminRole, Use ''/admin/*'' Csrf] @
     admin_routes"

text \<open>How the framework runs them: what matches runs in the order of registration, each middleware calling
  the next, up to the first endpoint. Which path a pattern matches is the framework's, \<open>matches\<close>.\<close>

fun dispatch ::
  "(string \<Rightarrow> string \<Rightarrow> bool) \<Rightarrow> string \<Rightarrow> string \<Rightarrow> registration list \<Rightarrow> middleware list \<times> endpoint option" where
  "dispatch matches m path [] = ([], None)"
| "dispatch matches m path (Use p w # rs) =
     (case dispatch matches m path rs of (ws, e) \<Rightarrow> (if matches p path then w # ws else ws, e))"
| "dispatch matches m path (On m' p e # rs) =
     (if m = m' \<and> matches p path then ([], Some e) else dispatch matches m path rs)"

subsection \<open>The booted state\<close>

lemma pool_token_ok:
  assumes "pool_ok P"
  shows "pool_ok (snd (pool_getAccessToken lc get_token sid P))"
proof (cases "pick lc sid None P")
  case (Pair x P')
  show ?thesis
  proof (cases x)
    case None
    with Pair have "P' = P" by (auto simp: pick_def Let_def split: option.splits)
    with None Pair assms show ?thesis by (simp add: pool_getAccessToken_def)
  next
    case (Some i)
    note p = pick_Some(1-3) [OF assms Pair [unfolded Some]]
    then have "pool_ok (snd (member_token get_token i P'))"
      by (auto simp: member_token_def Let_def split_beta intro: set_member_ok)
    with Some Pair show ?thesis by (simp add: pool_getAccessToken_def)
  qed
qed

lemma single_pool_ok: "singleAccountPool m = Inr P \<Longrightarrow> pool_ok P"
  by (auto simp: singleAccountPool_def createAccountPool_def pool_ok_def)

lemma buildPool_ok: "buildPool c ex bo = Inr P \<Longrightarrow> pool_ok P"
  by (auto simp: buildPool_def split: sum.splits option.splits if_splits intro: loaded_pool_ok single_pool_ok)

lemma boot_learner_ok: "pool_ok P \<Longrightarrow> boot_learner lc gt c bo P = (learned, P') \<Longrightarrow> pool_ok P'"
  using pool_token_ok [of P lc gt None]
  by (auto simp: boot_learner_def split: option.splits prod.splits sum.splits)

lemma composed:
  assumes "composeApp parse stringify lc gt now c bo = Some (Inr (cfg, s, alerts))"
  obtains gap ps pc ex P P' learned template keys where
    "buildPool c ex bo = Inr P" "boot_learner lc gt c bo P = (learned, P')" "boot_keys c bo = Inr keys"
    "cfg = boot_config parse stringify lc c gap ps template (tryCreateCandidateTemplate (bo_candidate bo))"
    "s = boot_state now keys P' learned (tryCreateCandidateTemplate (bo_candidate bo) \<noteq> None) pc"
  using assms by (auto simp: composeApp_def Let_def split: option.splits sum.splits prod.splits)

lemma boot_keys_compose: "boot_keys c bo = Inr keys \<Longrightarrow> keys \<noteq> [] \<and> (\<exists>f. keys = compose (se_apiKeys c) f)"
  by (auto simp: boot_keys_def Let_def split: sum.splits if_splits)

text \<open>What a boot that succeeds establishes: a pool that the run-time invariants hold for, limiters in
  their first reachable state, at least one key and no name listed twice, a canary that has not
  tripped and signals that have seen nothing.\<close>

theorem boot_establishes_invariants:
  assumes "composeApp parse stringify lc gt now c bo = Some (Inr (cfg, s, alerts))"
  shows "pool_ok (px_pool (ap_proxy s)) \<and> conc_reach (ac_perKey cfg) (ac_global cfg) (ap_limits s) \<and>
    ap_keys s \<noteq> [] \<and> distinct (map kr_name (ap_keys s)) \<and> \<not> ca_tripped (px_canary (ap_proxy s)) \<and>
    gg_remaining (px_guard (ap_proxy s)) = None \<and> px_rows (ap_proxy s) = []"
proof -
  obtain gap ps pc ex P P' learned template keys where
    b: "buildPool c ex bo = Inr P" "boot_learner lc gt c bo P = (learned, P')" "boot_keys c bo = Inr keys"
    "cfg = boot_config parse stringify lc c gap ps template (tryCreateCandidateTemplate (bo_candidate bo))"
    "s = boot_state now keys P' learned (tryCreateCandidateTemplate (bo_candidate bo) \<noteq> None) pc"
    using composed [OF assms] .
  have "pool_ok P'" using boot_learner_ok [OF buildPool_ok [OF b(1)] b(2)] .
  moreover have "keys \<noteq> [] \<and> distinct (map kr_name keys)"
    using boot_keys_compose [OF b(3)] kd.names_once by auto
  moreover have "conc_reach (ac_perKey cfg) (ac_global cfg) cl_init" by (rule conc_reach.init)
  ultimately show ?thesis
    by (simp add: b(5) boot_state_def createCanaryController_def gg_init_def)
qed

lemma key_of_env: "kr_key (env_record e) = ek_key e"
  by (simp add: env_record_def)

lemma boot_lists_configured:
  assumes "list_all plain_entry es" "env ''API_KEYS'' = Some (join_str '','' (map show_entry es))" "loadConfig env = Inr c"
    "composeApp parse stringify lc gt now c bo = Some (Inr (cfg, s, alerts))"
  obtains f where "ap_keys s = compose es f"
proof -
  have "se_apiKeys c = es"
    using assms(3) parse_joined [OF assms(1)] assms(2)
    by (auto simp: loadConfig_def Let_def split: sum.splits if_splits)
  then show ?thesis
    using that composed [OF assms(4)] boot_keys_compose [of c bo] by (metis (no_types, lifting) app.select_convs(1) boot_state_def)
qed

lemma admin_is_configured:
  assumes u: "apiKeyMiddleware (compose es f) h = Inr u" "requireAdmin u = None"
  shows "\<exists>e \<in> set es. au_name u = ek_name e \<and> extractKey h = Some (ek_key e)"
proof -
  obtain r where r: "find_record (au_name u) (compose es f) = Some r" "extractKey h = Some (kr_key r)"
      "requireAdmin u = None \<longleftrightarrow> kr_source r = EnvSource"
    using kd.authenticated_record [OF u(1)] by (elim exE conjE) (rule that)
  have "kr_source r = EnvSource" using r(3) u(2) by simp
  then obtain e where e: "find (\<lambda>e. ek_name e = au_name u) es = Some e" "r = env_record e"
    using r(1) by (auto simp: find_compose file_record_def split: if_splits option.splits)
  from find_SomeD [OF e(1)] have "e \<in> set es" "au_name u = ek_name e" by auto
  moreover have "extractKey h = Some (ek_key e)" using r(2) e(2) by (simp add: env_record_def)
  ultimately show ?thesis by blast
qed

lemma configured_key_passes:
  assumes once: "distinct (map ek_name es)" and e: "e \<in> set es" "ek_name e \<in> kr_name ` set (compose es f)"
      "extractKey h = Some (ek_key e)" "\<not> looksLikeOAuthToken (ek_key e)"
      "{r \<in> set (compose es f). kr_key r = ek_key e \<and> kr_name r \<noteq> ek_name e} = {}"
  shows "apiKeyMiddleware (compose es f) h = Inr (user_of (env_record e))"
proof -
  have found: "find (\<lambda>x. ek_name x = ek_name e) es = Some e" using e(1) once by (induction es) auto
  obtain r where r: "r \<in> set (compose es f)" "kr_name r = ek_name e" using e(2) by auto
  from kd.find_listed [OF r(1)] r(2) have fr: "find_record (ek_name e) (compose es f) = Some r" by simp
  then have re: "r = env_record e" using found by (auto simp: find_compose split: if_splits)
  have last: "q = env_record e" if "q \<in> set (compose es f)" "kr_key q = ek_key e" for q
  proof -
    have "kr_name q = ek_name e" using e(5) that by blast
    with kd.find_listed [of q es f] that(1) fr re show ?thesis by simp
  qed
  have "\<exists>x \<in> set (compose es f). kr_key x = ek_key e" using r(1) re key_of_env by blast
  from split_list_last_prop [OF this] obtain pre q post where
    "compose es f = pre @ q # post" "kr_key q = ek_key e" "\<forall>x \<in> set post. kr_key x \<noteq> ek_key e" by blast
  then have "compose es f = pre @ q # post \<and> kr_key q = ek_key e \<and> ek_key e \<notin> kr_key ` set post \<and>
      user_of (env_record e) = user_of q"
    using last [of q] by auto
  then have "match_loop (ek_key e) None (compose es f) = Some (user_of (env_record e))" unfolding match_loop_Some by blast
  with e(3,4) show ?thesis by (auto simp: middleware_Inr)
qed


subsection \<open>What stands before an endpoint\<close>

text \<open>What the framework documents of its patterns: a literal matches itself, \<open>/x/*\<close> whatever lies under
  \<open>/x\<close> and \<open>/x\<close> itself.\<close>

definition documented_matching :: "(string \<Rightarrow> string \<Rightarrow> bool) \<Rightarrow> bool" where
  "documented_matching matches \<longleftrightarrow>
     (\<forall>path. \<forall>p \<in> {''/healthz'', ''/v1/messages'', ''/v1/models''}. matches p path \<longleftrightarrow> path = p) \<and>
     (\<forall>x \<in> {''/v1'', ''/admin''}. \<forall>path. matches (x @ ''/*'') path \<longrightarrow> starts_with path x) \<and>
     (\<forall>x \<in> {''/v1'', ''/admin''}. \<forall>p path. starts_with p x \<and> matches p path \<longrightarrow> matches (x @ ''/*'') path)"

lemma dispatch_routes_only:
  "list_all (\<lambda>r. case r of On m p e \<Rightarrow> starts_with p x \<and> e \<notin> E | Use _ _ \<Rightarrow> False) rs \<Longrightarrow>
     dispatch matches m path rs = (ws, Some e) \<Longrightarrow> ws = [] \<and> e \<notin> E \<and> (\<exists>p. starts_with p x \<and> matches p path)"
  by (induction rs) (auto split: registration.splits if_splits)

lemma admin_routes_admin:
  "list_all (\<lambda>r. case r of On m p e \<Rightarrow> starts_with p ''/admin'' \<and> e \<notin> {Healthz, Messages, ModelsList} | Use _ _ \<Rightarrow> False) admin_routes"
  by (simp add: admin_routes_def)


definition simple_matches :: "string \<Rightarrow> string \<Rightarrow> bool" where
  "simple_matches p path =
     (if p = ''/v1/*'' then starts_with path ''/v1''
      else if p = ''/admin/*'' then starts_with path ''/admin'' else p = path)"

definition demo_env_vars :: environment where
  "demo_env_vars = [''API_KEYS'' \<mapsto> ''ann:0123456789abcdef,bob:fedcba9876543210'', ''ANTHROPIC_OAUTH_REFRESH_TOKEN'' \<mapsto> ''rt'']"

definition demo_boot :: boot_io where
  "demo_boot = \<lparr>bo_alerts = None, bo_accounts = NoAccounts, bo_memberTokens = (\<lambda>_. None), bo_tokens = None, bo_learned = [],
     bo_snapshot = SnapFile \<lparr>sf_schemaVersion = Some (JNum SUPPORTED_SCHEMA_VERSION), sf_headerOrder = Some [],
       sf_headerValues = Some [], sf_bodyKeyOrder = None, sf_p50Ms = None\<rparr>,
     bo_candidate = SnapMissing, bo_keys = Absent\<rparr>"

definition demo_settings :: settings where
  "demo_settings = projr (loadConfig demo_env_vars)"

definition demo_keys :: "env_key list" where
  "demo_keys = [\<lparr>ek_name = ''ann'', ek_key = ''0123456789abcdef''\<rparr>, \<lparr>ek_name = ''bob'', ek_key = ''fedcba9876543210''\<rparr>]"

lemma demo_keys_plain: "list_all plain_entry demo_keys" "distinct (map ek_name demo_keys)"
  by (simp_all add: demo_keys_def plain_entry_def trim_def is_ws_def)

lemma demo_api_keys: "demo_env_vars ''API_KEYS'' = Some (join_str '','' (map show_entry demo_keys))"
  by (simp add: demo_env_vars_def demo_keys_def show_entry_def)

lemma number_zero: "js_Number ''0'' = Num 0"
proof -
  have "parse_unsigned ''0'' = Some 0"
    by (simp add: parse_unsigned_def is_digit_def digits_val_def digit_val_def Let_def)
  moreover have "0 < max_double" by (simp add: max_double_def)
  ultimately show ?thesis by (simp add: js_Number_def trim_def is_ws_def js_fin_def Let_def)
qed

lemma demo_loads:
  "loadConfig demo_env_vars = Inr demo_settings" "se_expiresAt demo_settings = None"
  "se_perIpRateLimitPerSecond demo_settings = Num 0" "se_canaryPercent demo_settings = Num 0"
  "se_pacingMinGapMs demo_settings = Num 0" "se_refreshToken demo_settings = ''rt''" "se_apiKeys demo_settings = demo_keys"
  "se_apiKeysFilePath demo_settings = None" "se_discordWebhookUrl demo_settings = None" "se_slackWebhookUrl demo_settings = None"
proof -
  have k: "parseApiKeys (demo_env_vars ''API_KEYS'') = Inr demo_keys"
    unfolding demo_api_keys by (rule parse_joined [OF demo_keys_plain(1)])
  have l: "parseLogLevel None = Inr Info"
    by (simp add: parseLogLevel_def or_default_def to_lower_def lower_char_def Let_def)
  have none: "demo_env_vars v = None" if "v \<noteq> ''API_KEYS''" "v \<noteq> ''ANTHROPIC_OAUTH_REFRESH_TOKEN''" for v
    using that by (simp add: demo_env_vars_def)
  have rt: "demo_env_vars ''ANTHROPIC_OAUTH_REFRESH_TOKEN'' = Some ''rt''" by (simp add: demo_env_vars_def)
  have "\<exists>c. loadConfig demo_env_vars = Inr c \<and> se_expiresAt c = None \<and> se_perIpRateLimitPerSecond c = Num 0 \<and>
      se_canaryPercent c = Num 0 \<and> se_pacingMinGapMs c = Num 0 \<and> se_refreshToken c = ''rt'' \<and> se_apiKeys c = demo_keys \<and>
      se_apiKeysFilePath c = None \<and> se_discordWebhookUrl c = None \<and> se_slackWebhookUrl c = None"
    by (simp add: loadConfig_def k l none rt present_def or_default_def number_zero Let_def) (simp add: demo_keys_def)
  then show "loadConfig demo_env_vars = Inr demo_settings" "se_expiresAt demo_settings = None"
    "se_perIpRateLimitPerSecond demo_settings = Num 0" "se_canaryPercent demo_settings = Num 0"
    "se_pacingMinGapMs demo_settings = Num 0" "se_refreshToken demo_settings = ''rt''" "se_apiKeys demo_settings = demo_keys"
    "se_apiKeysFilePath demo_settings = None" "se_discordWebhookUrl demo_settings = None" "se_slackWebhookUrl demo_settings = None"
    by (auto simp: demo_settings_def)
qed

lemma demo_boots:
  "\<exists>cfg s al. composeApp (\<lambda>_. None) (\<lambda>_. []) (\<lambda>_ _. 0) (\<lambda>m. (Inl (Other []), m)) 5 demo_settings demo_boot = Some (Inr (cfg, s, al)) \<and>
     ap_keys s = map env_record demo_keys"
proof -
  have "boot_keys demo_settings demo_boot = Inr (map env_record demo_keys)"
    by (simp add: boot_keys_def createApiKeyStore_def demo_loads compose_def demo_keys_def emptyFile_def)
  moreover have "\<exists>P. buildPool demo_settings 0 demo_boot = Inr P"
    by (simp add: buildPool_def tryLoadAccountPool_def demo_boot_def demo_loads createOAuthManager_def
        singleAccountPool_def createAccountPool_def)
  moreover have "\<exists>t. loadSnapshot (bo_snapshot demo_boot) = Inr t" by (simp add: demo_boot_def loadSnapshot_def)
  moreover have "\<exists>a. createAlertStore (bo_alerts demo_boot) None None = Inr a"
    by (simp add: demo_boot_def createAlertStore_def jprop_def choose_url_def)
  moreover have "config_expiry demo_settings = Some 0" "rat_of (se_perIpRateLimitPerSecond demo_settings) = Some 0"
    "rat_of (se_canaryPercent demo_settings) = Some 0" "\<exists>g. effectivePacing demo_settings demo_boot = Some g"
    by (simp_all add: config_expiry_def demo_loads rat_of_def effectivePacing_def js_gt_def)
  ultimately show ?thesis
    by (auto simp: composeApp_def demo_loads boot_state_def Let_def split: prod.splits)
qed

theorem boot_establishes_invariants_witness:
  "\<exists>cfg s al. composeApp (\<lambda>_. None) (\<lambda>_. []) (\<lambda>_ _. 0) (\<lambda>m. (Inl (Other []), m)) 5 demo_settings demo_boot = Some (Inr (cfg, s, al)) \<and>
     pool_ok (px_pool (ap_proxy s))"
  using demo_boots boot_establishes_invariants by metis



end
