(* ===== verification/TestRunners.thy ===== *)
theory TestRunners
  imports AdminApi Upstream SystemPrompt
begin

text \<open>
  \<open>src/src/admin/test-runners.ts\<close>: the probes behind the test buttons of the admin page and the store of
  their last results. A probe's clock readings are \<open>tk 0, tk 1, ...\<close> in the order the code reads them,
  \<open>num\<close> prints a number and \<open>stringify\<close> is \<open>JSON.stringify\<close>. The loopback fetch and the direct call answer
  through arguments, a response or what they throw. The middle dot between the parts of a summary is the
  stand-in \<open>dot\<close>, dashes are hyphens.
\<close>

datatype test_kind = OAuthProbeTest | SelfPingTest | KeyInvokeTest | UpstreamDirectTest | VerifyEntitlementTest

record test_result =
  tr_kind :: test_kind
  tr_ok :: bool
  tr_at :: rat
  tr_latencyMs :: rat
  tr_summary :: string
  tr_detail :: string

type_synonym test_store = "test_kind \<Rightarrow> test_result option"

definition createTestResultStore :: test_store where
  "createTestResultStore = (\<lambda>_. None)"

definition record_result :: "test_result \<Rightarrow> test_store \<Rightarrow> test_store" where
  "record_result r st = st(tr_kind r := Some r)"

definition dot :: string where "dot = '' '' @ [CHR 0xB7] @ '' ''"

definition excerpt :: "string \<Rightarrow> nat \<Rightarrow> string" where
  "excerpt s n =
     (if length s \<le> n then s else take n s @ ellipsis @ '' (+'' @ nat_str (length s - n) @ '' chars)'')"

datatype test_answer = ResultJson test_result | RedirectAdmin

definition wantsJson :: "admin_request \<Rightarrow> bool" where
  "wantsJson r = includes_str (case hget (ar_headers r) ''accept'' of Some a \<Rightarrow> a | None \<Rightarrow> []) ''application/json''"

definition respond :: "admin_request \<Rightarrow> test_result \<Rightarrow> test_answer" where
  "respond r res = (if wantsJson r then ResultJson res else RedirectAdmin)"

definition or_text :: "string \<Rightarrow> string \<Rightarrow> string" where
  "or_text s d = (if s = [] then d else s)"

definition is_text_block :: "json \<Rightarrow> bool" where
  "is_text_block b = (jprop (Some b) ''type'' = Some (JStr ''text'') \<and> as_str (jprop (Some b) ''text'') \<noteq> None)"

definition summarizeMessageBody :: "(json \<Rightarrow> string) \<Rightarrow> json \<Rightarrow> string" where
  "summarizeMessageBody stringify body =
     (if \<not> is_object body then ''<non-object body>''
      else case jprop (Some body) ''error'' of
        Some (JObj kvs) \<Rightarrow>
          ''error: '' @ or_text (asString (get kvs ''type'')) ''?'' @ '' - '' @ or_text (asString (get kvs ''message'')) ''?''
      | Some (JArr _) \<Rightarrow> ''error: ? - ?''
      | _ \<Rightarrow>
          (case jprop (Some body) ''content'' of
             Some (JArr bs) \<Rightarrow>
               (case find is_text_block bs of
                  Some b \<Rightarrow> ''text: '' @ excerpt (case as_str (jprop (Some b) ''text'') of Some t \<Rightarrow> t | None \<Rightarrow> []) 80
                | None \<Rightarrow> excerpt (stringify body) 120)
           | _ \<Rightarrow> excerpt (stringify body) 120))"

text \<open>The body of a probe, with the marker of the system prompt or without.\<close>

definition ping_message :: json where
  "ping_message = JObj [(''role'', JStr ''user''), (''content'', JStr ''reply with the single word: pong'')]"

definition PING_BODY :: "string \<Rightarrow> json" where
  "PING_BODY model = JObj [(''model'', JStr model), (''max_tokens'', JNum 16), (''system'', JStr CC_SYSTEM_PREFIX),
     (''messages'', JArr [ping_message])]"

definition PING_BODY_WITHOUT_MARKER :: "string \<Rightarrow> json" where
  "PING_BODY_WITHOUT_MARKER model = JObj [(''model'', JStr model), (''max_tokens'', JNum 16), (''messages'', JArr [ping_message])]"

definition DEFAULT_MODEL :: string where "DEFAULT_MODEL = ''claude-sonnet-4-6''"

definition chosen_model :: "json option \<Rightarrow> string" where
  "chosen_model raw = or_text (asString (jprop raw ''model'')) DEFAULT_MODEL"

subsection \<open>Refreshing a member\<close>

definition oauth_probe ::
  "(rat \<Rightarrow> string) \<Rightarrow> (nat \<Rightarrow> rat) \<Rightarrow> ('m \<Rightarrow> string result \<times> 'm) \<Rightarrow> admin_request \<Rightarrow> test_store \<Rightarrow> 'm pool
     \<Rightarrow> test_answer result \<times> test_store \<times> 'm pool" where
  "oauth_probe num tk force r st P =
     (let raw = parseFormOrJson r in
      if \<not> truthy raw then (Inl (InvalidRequest0 ''invalid request body''), st, P)
      else
        let memberName = or_text (asString (jprop raw ''memberName'')) ''default'' in
        case pool_forceRefresh force memberName P of
          (Inr token, P') \<Rightarrow>
            let latencyMs = tk 1 - tk 0; suffix = (if length token \<ge> 4 then slice_last 4 token else token);
                res = \<lparr>tr_kind = OAuthProbeTest, tr_ok = True, tr_at = tk 2, tr_latencyMs = latencyMs,
                  tr_summary = ''refreshed'' @ dot @ memberName @ dot @ num latencyMs @ ''ms'' @ dot @ ellipsis @ suffix,
                  tr_detail = ''member='' @ memberName @ '' new access token suffix='' @ ellipsis @ suffix\<rparr>
            in (Inr (respond r res), record_result res st, P')
        | (Inl e, P') \<Rightarrow>
            let reason = redact (exn_message e);
                res = \<lparr>tr_kind = OAuthProbeTest, tr_ok = False, tr_at = tk 1, tr_latencyMs = tk 2 - tk 0,
                  tr_summary = ''failed'' @ dot @ memberName @ dot @ excerpt reason 60, tr_detail = reason\<rparr>
            in (Inr (respond r res), record_result res st, P'))"

subsection \<open>Through this proxy\<close>

definition DIAG_HEADERS :: "string list" where
  "DIAG_HEADERS = [''retry-after'', ''x-should-retry'', ''request-id'', ''cf-ray'', ''cf-cache-status'',
     ''x-envoy-upstream-service-time'', ''anthropic-organization-id'', ''content-length'', ''content-type'']"

definition header_line :: "string \<times> string \<Rightarrow> string" where
  "header_line nv = fst nv @ '': '' @ snd nv"

definition captureDiagHeaders :: "headers \<Rightarrow> string" where
  "captureDiagHeaders h =
     join_str [CHR 0x0A]
       (concat (map (\<lambda>k. case hget h k of Some v \<Rightarrow> [header_line (k, v)] | None \<Rightarrow> []) DIAG_HEADERS) @
        map header_line (filter (\<lambda>nv. starts_with (to_lower (fst nv)) ''anthropic-ratelimit-'') h))"

record ping =
  pg_ok :: bool
  pg_status :: nat
  pg_latencyMs :: rat
  pg_bodyText :: string
  pg_diagHeaders :: string

text \<open>The request a loopback ping makes of the program itself: the key and the body.\<close>

definition runLoopbackPing ::
  "(string \<times> json \<Rightarrow> response result) \<Rightarrow> rat \<Rightarrow> string \<Rightarrow> string \<Rightarrow> ping" where
  "runLoopbackPing fetcher latencyMs apiKey model =
     (let failed = (\<lambda>e. \<lparr>pg_ok = False, pg_status = 0, pg_latencyMs = latencyMs,
            pg_bodyText = ''<transport error> '' @ redact (exn_message e), pg_diagHeaders = []\<rparr>) in
      case fetcher (apiKey, PING_BODY model) of
        Inl e \<Rightarrow> failed e
      | Inr res \<Rightarrow>
          (case rp_readError res of
             Some e \<Rightarrow> failed e
           | None \<Rightarrow> \<lparr>pg_ok = (200 \<le> rp_status res \<and> rp_status res < 300), pg_status = rp_status res,
               pg_latencyMs = latencyMs, pg_bodyText = concat (case rp_body res of Some cs \<Rightarrow> cs | None \<Rightarrow> []),
               pg_diagHeaders = captureDiagHeaders (rp_headers res)\<rparr>))"

definition body_summary :: "(string \<Rightarrow> json option) \<Rightarrow> (json \<Rightarrow> string) \<Rightarrow> string \<Rightarrow> string" where
  "body_summary parse stringify bodyText =
     (case parse bodyText of Some v \<Rightarrow> summarizeMessageBody stringify v | None \<Rightarrow> excerpt bodyText 80)"

definition headers_block :: "string \<Rightarrow> string" where
  "headers_block diag =
     (if length diag > 0 then [CHR 0x0A] @ ''--- response headers ---'' @ [CHR 0x0A] @ diag else [])"

definition body_block :: "string \<Rightarrow> string" where
  "body_block bodyText =
     (if length bodyText > 0 then [CHR 0x0A] @ ''--- body ---'' @ [CHR 0x0A] @ excerpt bodyText 600 else [])"

definition status_or_net :: "nat \<Rightarrow> string" where
  "status_or_net s = (if s = 0 then ''NET'' else nat_str s)"

definition ping_result ::
  "(string \<Rightarrow> json option) \<Rightarrow> (json \<Rightarrow> string) \<Rightarrow> (rat \<Rightarrow> string) \<Rightarrow> rat \<Rightarrow> test_kind \<Rightarrow> string \<Rightarrow> ping \<Rightarrow> test_result" where
  "ping_result parse stringify num now kind label res =
     \<lparr>tr_kind = kind, tr_ok = (pg_ok res \<and> pg_status res = 200), tr_at = now, tr_latencyMs = pg_latencyMs res,
      tr_summary = status_or_net (pg_status res) @ dot @ num (pg_latencyMs res) @ ''ms'' @ dot @ label @ dot @
        body_summary parse stringify (pg_bodyText res),
      tr_detail = ''status='' @ nat_str (pg_status res) @ '' latency='' @ num (pg_latencyMs res) @ ''ms'' @
        headers_block (pg_diagHeaders res) @ body_block (pg_bodyText res)\<rparr>"

definition pickFirstKey :: "key_record list \<Rightarrow> string option" where
  "pickFirstKey entries = (case entries of [] \<Rightarrow> None | e # _ \<Rightarrow> Some (kr_key e))"

definition self_ping ::
  "(string \<Rightarrow> json option) \<Rightarrow> (json \<Rightarrow> string) \<Rightarrow> (rat \<Rightarrow> string) \<Rightarrow> (nat \<Rightarrow> rat) \<Rightarrow> (string \<times> json \<Rightarrow> response result)
     \<Rightarrow> key_record list \<Rightarrow> admin_request \<Rightarrow> test_store \<Rightarrow> test_answer \<times> (string \<times> json) list \<times> test_store" where
  "self_ping parse stringify num tk fetcher entries r st =
     (let model = chosen_model (parseFormOrJson r) in
      case pickFirstKey entries of
        Some (c # cs) \<Rightarrow>
          let res = ping_result parse stringify num (tk 2) SelfPingTest (''model='' @ model)
                (runLoopbackPing fetcher (tk 1 - tk 0) (c # cs) model)
          in (respond r res, [(c # cs, PING_BODY model)], record_result res st)
      | _ \<Rightarrow>
          let res = \<lparr>tr_kind = SelfPingTest, tr_ok = False, tr_at = tk 0, tr_latencyMs = 0,
                tr_summary = ''failed'' @ dot @ ''no api keys configured'',
                tr_detail = ''apiKeyStore is empty - cannot self-authenticate.''\<rparr>
          in (respond r res, [], record_result res st))"

definition key_invoke ::
  "(string \<Rightarrow> json option) \<Rightarrow> (json \<Rightarrow> string) \<Rightarrow> (rat \<Rightarrow> string) \<Rightarrow> (nat \<Rightarrow> rat) \<Rightarrow> (string \<times> json \<Rightarrow> response result)
     \<Rightarrow> key_record list \<Rightarrow> admin_request \<Rightarrow> test_store \<Rightarrow> test_answer result \<times> (string \<times> json) list \<times> test_store" where
  "key_invoke parse stringify num tk fetcher entries r st =
     (let raw = parseFormOrJson r; name = asString (jprop raw ''keyName''); model = chosen_model raw in
      if \<not> truthy raw then (Inl (InvalidRequest0 ''invalid request body''), [], st)
      else if length name = 0 then (Inl (InvalidRequest0 ''keyName is required''), [], st)
      else case find_record name entries of
        None \<Rightarrow>
          let res = \<lparr>tr_kind = KeyInvokeTest, tr_ok = False, tr_at = tk 0, tr_latencyMs = 0,
                tr_summary = ''failed'' @ dot @ ''key '' @ name @ '' not found'',
                tr_detail = ''apiKeyStore has no entry named '' @ name @ '' (revoked or removed).''\<rparr>
          in (Inl (NotFound (''api key '' @ name @ '' not found'') ''not_found''), [], record_result res st)
      | Some entry \<Rightarrow>
          let res = ping_result parse stringify num (tk 2) KeyInvokeTest (''key='' @ kr_name entry)
                (runLoopbackPing fetcher (tk 1 - tk 0) (kr_key entry) model)
          in (Inr (respond r res), [(kr_key entry, PING_BODY model)], record_result res st))"

subsection \<open>Straight to upstream\<close>

record direct_call =
  dc_status :: nat
  dc_bodyText :: string
  dc_headers :: "headers option"
  dc_error :: "string option"

definition direct_headers :: "string \<Rightarrow> (string \<times> string) list" where
  "direct_headers token =
     [(''authorization'', ''Bearer '' @ token), (''anthropic-version'', ''2023-06-01''),
      (''content-type'', ''application/json''), (''anthropic-beta'', ''oauth-2025-04-20'')]"

type_synonym direct_request = "(string \<times> string) list \<times> json"

definition callAnthropicDirect :: "(direct_request \<Rightarrow> response result) \<Rightarrow> string \<Rightarrow> json \<Rightarrow> direct_call" where
  "callAnthropicDirect net token body =
     (let failed = (\<lambda>e. \<lparr>dc_status = 0, dc_bodyText = [], dc_headers = None, dc_error = Some (redact (exn_message e))\<rparr>) in
      case net (direct_headers token, body) of
        Inl e \<Rightarrow> failed e
      | Inr res \<Rightarrow>
          (case rp_readError res of
             Some e \<Rightarrow> failed e
           | None \<Rightarrow> \<lparr>dc_status = rp_status res, dc_bodyText = concat (case rp_body res of Some cs \<Rightarrow> cs | None \<Rightarrow> []),
               dc_headers = Some (rp_headers res), dc_error = None\<rparr>))"

definition token_failed :: "test_kind \<Rightarrow> rat \<Rightarrow> rat \<Rightarrow> exn \<Rightarrow> test_result" where
  "token_failed kind now latencyMs e =
     (let reason = redact (exn_message e) in
      \<lparr>tr_kind = kind, tr_ok = False, tr_at = now, tr_latencyMs = latencyMs,
       tr_summary = ''NET'' @ dot @ ''phase=token-fetch'' @ dot @ excerpt reason 80,
       tr_detail = ''phase=token-fetch error='' @ reason\<rparr>)"

definition upstream_direct ::
  "(string \<Rightarrow> json option) \<Rightarrow> (json \<Rightarrow> string) \<Rightarrow> (rat \<Rightarrow> string) \<Rightarrow> (nat \<Rightarrow> rat) \<Rightarrow> (string \<Rightarrow> string \<Rightarrow> int)
     \<Rightarrow> ('m \<Rightarrow> string result \<times> 'm) \<Rightarrow> (direct_request \<Rightarrow> response result) \<Rightarrow> admin_request \<Rightarrow> test_store \<Rightarrow> 'm pool
     \<Rightarrow> test_answer \<times> direct_request list \<times> test_store \<times> 'm pool" where
  "upstream_direct parse stringify num tk lc get_token net r st P =
     (let model = chosen_model (parseFormOrJson r) in
      case pool_getAccessToken lc get_token None P of
        (Inl e, P') \<Rightarrow>
          let res = token_failed UpstreamDirectTest (tk 1) (tk 2 - tk 0) e in (respond r res, [], record_result res st, P')
      | (Inr (servedBy, token), P') \<Rightarrow>
          let c = callAnthropicDirect net token (PING_BODY model); latencyMs = tk 1 - tk 0;
              res = (case dc_error c of
                Some e \<Rightarrow> \<lparr>tr_kind = UpstreamDirectTest, tr_ok = False, tr_at = tk 2, tr_latencyMs = latencyMs,
                  tr_summary = ''NET'' @ dot @ ''phase=fetch'' @ dot @ excerpt e 80,
                  tr_detail = ''phase=fetch member='' @ servedBy @ '' error='' @ e\<rparr>
              | None \<Rightarrow> \<lparr>tr_kind = UpstreamDirectTest, tr_ok = (dc_status c = 200), tr_at = tk 2, tr_latencyMs = latencyMs,
                  tr_summary = nat_str (dc_status c) @ dot @ num latencyMs @ ''ms'' @ dot @ ''model='' @ model @ '' (member='' @
                    servedBy @ '', no template)'' @ dot @ body_summary parse stringify (dc_bodyText c),
                  tr_detail = ''status='' @ nat_str (dc_status c) @ '' latency='' @ num latencyMs @ ''ms'' @
                    headers_block (case dc_headers c of Some h \<Rightarrow> captureDiagHeaders h | None \<Rightarrow> []) @
                    body_block (dc_bodyText c)\<rparr>)
          in (respond r res, [(direct_headers token, PING_BODY model)], record_result res st, P'))"

subsection \<open>The entitlement probe\<close>

datatype entitlement_verdict = VerdictOk | MarkerDrift | AccountIssue | Reversed | Inconclusive

definition classifyEntitlement :: "nat \<Rightarrow> nat \<Rightarrow> string option \<Rightarrow> string option \<Rightarrow> entitlement_verdict \<times> bool" where
  "classifyEntitlement statusA statusB errorA errorB =
     (if errorA \<noteq> None \<or> errorB \<noteq> None \<or> statusA = 0 \<or> statusB = 0 then (Inconclusive, False)
      else if statusA = 200 \<and> statusB = 429 then (VerdictOk, True)
      else if statusA = 200 \<and> statusB = 200 then (MarkerDrift, False)
      else if statusA = 429 \<and> statusB = 429 then (AccountIssue, False)
      else if statusA = 429 \<and> statusB = 200 then (Reversed, False)
      else (Inconclusive, False))"

definition verdict_name :: "entitlement_verdict \<Rightarrow> string" where
  "verdict_name v = (case v of VerdictOk \<Rightarrow> ''ok'' | MarkerDrift \<Rightarrow> ''marker-drift'' | AccountIssue \<Rightarrow> ''account-issue''
     | Reversed \<Rightarrow> ''reversed'' | Inconclusive \<Rightarrow> ''inconclusive'')"

text \<open>\<open>/^claude-(sonnet|opus)-[a-z0-9-]{1,40}$/i\<close>\<close>

definition tail_char :: "char \<Rightarrow> bool" where
  "tail_char c = (let n = (of_char c :: nat) in is_digit c \<or> 97 \<le> n \<and> n \<le> 122 \<or> n = 45)"

definition isEntitlementModelAllowed :: "string \<Rightarrow> bool" where
  "isEntitlementModelAllowed model =
     (let m = to_lower model in
      list_ex (\<lambda>p. starts_with m p \<and> 1 \<le> length (drop (length p) m) \<and> length (drop (length p) m) \<le> 40 \<and>
         list_all tail_char (drop (length p) m)) [''claude-sonnet-'', ''claude-opus-''])"

definition summarizeSide :: "string \<Rightarrow> direct_call \<Rightarrow> string" where
  "summarizeSide label side =
     (case dc_error side of Some e \<Rightarrow> label @ '': NET error='' @ excerpt e 120
      | None \<Rightarrow> label @ '': status='' @ nat_str (dc_status side)) @
     (if length (dc_bodyText side) > 0 then [CHR 0x0A] @ excerpt (dc_bodyText side) 240 else [])"

definition verify_entitlement ::
  "(rat \<Rightarrow> string) \<Rightarrow> (nat \<Rightarrow> rat) \<Rightarrow> (string \<Rightarrow> string \<Rightarrow> int)
     \<Rightarrow> ('m \<Rightarrow> string result \<times> 'm) \<Rightarrow> (direct_request \<Rightarrow> response result) \<Rightarrow> admin_request \<Rightarrow> test_store \<Rightarrow> 'm pool
     \<Rightarrow> test_answer result \<times> direct_request list \<times> test_store \<times> 'm pool" where
  "verify_entitlement num tk lc get_token net r st P =
     (let model = chosen_model (parseFormOrJson r) in
      if \<not> isEntitlementModelAllowed model then
        let reason = ''verify-entitlement only accepts sonnet/opus models (got '' @ excerpt model 60 @ '')'';
            res = \<lparr>tr_kind = VerifyEntitlementTest, tr_ok = False, tr_at = tk 0, tr_latencyMs = 0,
              tr_summary = ''rejected'' @ dot @ ''model '' @ excerpt model 40 @ '' not in allowlist'',
              tr_detail = ''phase=model-guard'' @ [CHR 0x0A] @ reason\<rparr>
        in (Inl (InvalidRequest0 reason), [], record_result res st, P)
      else case pool_getAccessToken lc get_token None P of
        (Inl e, P') \<Rightarrow>
          let res = token_failed VerifyEntitlementTest (tk 1) (tk 2 - tk 0) e in (Inr (respond r res), [], record_result res st, P')
      | (Inr (servedBy, token), P') \<Rightarrow>
          let a = callAnthropicDirect net token (PING_BODY model);
              b = callAnthropicDirect net token (PING_BODY_WITHOUT_MARKER model);
              (verdict, ok) = classifyEntitlement (dc_status a) (dc_status b) (dc_error a) (dc_error b);
              latencyMs = tk 1 - tk 0; sa = status_or_net (dc_status a); sb = status_or_net (dc_status b);
              res = \<lparr>tr_kind = VerifyEntitlementTest, tr_ok = ok, tr_at = tk 2, tr_latencyMs = latencyMs,
                tr_summary = verdict_name verdict @ dot @ ''A='' @ sa @ '' B='' @ sb @ dot @ num latencyMs @ ''ms'' @ dot @
                  ''model='' @ model @ '' (member='' @ servedBy @ '')'',
                tr_detail = join_str [CHR 0x0A]
                  [''verdict='' @ verdict_name verdict @ '' (A,B)=('' @ sa @ '','' @ sb @ '')'',
                   ''latency='' @ num latencyMs @ ''ms member='' @ servedBy @ '' phase=fetch'', [],
                   summarizeSide ''A (with marker)'' a, [], summarizeSide ''B (without marker)'' b]\<rparr>
          in (Inr (respond r res), [(direct_headers token, PING_BODY model), (direct_headers token, PING_BODY_WITHOUT_MARKER model)],
              record_result res st, P'))"

subsection \<open>Properties\<close>

lemma classify_ok: "snd (classifyEntitlement a b ea eb) \<longleftrightarrow> a = 200 \<and> b = 429 \<and> ea = None \<and> eb = None"
  by (simp add: classifyEntitlement_def)

definition answered :: "(direct_request \<Rightarrow> response result) \<Rightarrow> direct_request \<Rightarrow> nat \<Rightarrow> bool" where
  "answered net rq status = (\<exists>res. net rq = Inr res \<and> rp_readError res = None \<and> rp_status res = status)"

lemma direct_answered:
  "dc_error (callAnthropicDirect net t b) = None \<and> dc_status (callAnthropicDirect net t b) = n \<longleftrightarrow>
     answered net (direct_headers t, b) n"
  by (auto simp: callAnthropicDirect_def answered_def Let_def split: sum.splits option.splits)

text \<open>What the entitlement probe spends and when it says ok. For a model outside the allowlist it takes
  no token and asks upstream nothing; otherwise it sends nothing, if there is no token, or exactly two
  requests under one token that differ in the marker of the system prompt. It records one result of its
  own kind, and that is ok exactly when upstream answered 200 with the marker and 429 without.\<close>

theorem entitlement_probe_outcome:
  "case verify_entitlement num tk lc get_token net r st P of (ans, sent, st', P') \<Rightarrow>
     (let model = chosen_model (parseFormOrJson r);
          marked = (\<lambda>t. (direct_headers t, PING_BODY model)); bare = (\<lambda>t. (direct_headers t, PING_BODY_WITHOUT_MARKER model)) in
      {k. st' k \<noteq> st k} \<subseteq> {VerifyEntitlementTest} \<and>
      (if isEntitlementModelAllowed model then isl ans = False \<and> P' = snd (pool_getAccessToken lc get_token None P)
       else exn_status (projl ans) = Some 400 \<and> isl ans \<and> sent = [] \<and> P' = P) \<and>
      (sent = [] \<or> (\<exists>n t. fst (pool_getAccessToken lc get_token None P) = Inr (n, t) \<and> sent = [marked t, bare t])) \<and>
      (\<exists>res. st' VerifyEntitlementTest = Some res \<and> tr_kind res = VerifyEntitlementTest \<and>
         (tr_ok res \<longleftrightarrow> (\<exists>t. sent = [marked t, bare t] \<and> answered net (marked t) 200 \<and> answered net (bare t) 429))))"
proof -
  define model where "model = chosen_model (parseFormOrJson r)"
  show ?thesis
  proof (cases "isEntitlementModelAllowed model")
    case False
    then show ?thesis
      by (simp add: verify_entitlement_def model_def [symmetric] Let_def record_result_def) auto
  next
    case allowed: True
    obtain x P' where pool: "pool_getAccessToken lc get_token None P = (x, P')" by fastforce
    show ?thesis
    proof (cases x)
      case (Inl e)
      with allowed pool show ?thesis
        by (simp add: verify_entitlement_def model_def [symmetric] Let_def record_result_def token_failed_def) auto
    next
      case (Inr nt)
      obtain n t where nt: "nt = (n, t)" by fastforce
      define a where "a = callAnthropicDirect net t (PING_BODY model)"
      define b where "b = callAnthropicDirect net t (PING_BODY_WITHOUT_MARKER model)"
      obtain v ok where c: "classifyEntitlement (dc_status a) (dc_status b) (dc_error a) (dc_error b) = (v, ok)" by fastforce
      have "ok \<longleftrightarrow> answered net (direct_headers t, PING_BODY model) 200 \<and>
          answered net (direct_headers t, PING_BODY_WITHOUT_MARKER model) 429"
        using classify_ok [of "dc_status a" "dc_status b" "dc_error a" "dc_error b"] c
          direct_answered [of net t "PING_BODY model" 200] direct_answered [of net t "PING_BODY_WITHOUT_MARKER model" 429]
        by (auto simp: a_def b_def)
      moreover have "direct_headers t = direct_headers t' \<longleftrightarrow> t = t'" for t' by (simp add: direct_headers_def)
      ultimately show ?thesis using allowed pool Inr nt
        by (simp add: verify_entitlement_def model_def [symmetric] Let_def record_result_def a_def [symmetric] b_def [symmetric] c) auto
    qed
  qed
qed

text \<open>The refresh probe shows no credential. Two refreshes that yield tokens with the same last four
  characters give the same answer and the same stored result, and what it stores of a failure contains
  no credential.\<close>

theorem oauth_probe_shows_no_token:
  assumes "pool_forceRefresh force (or_text (asString (jprop (parseFormOrJson r) ''memberName'')) ''default'') P = (Inr t, Q)"
    and "pool_forceRefresh force' (or_text (asString (jprop (parseFormOrJson r) ''memberName'')) ''default'') P' = (Inr t', Q')"
    and "slice_last 4 t = slice_last 4 t'" and "4 \<le> length t" and "4 \<le> length t'"
  shows "fst (oauth_probe num tk force r st P) = fst (oauth_probe num tk force' r st P') \<and>
    fst (snd (oauth_probe num tk force r st P)) = fst (snd (oauth_probe num tk force' r st P')) \<and>
    \<not> (\<exists>w e res Q''. pool_forceRefresh force'' (or_text (asString (jprop (parseFormOrJson r) ''memberName'')) ''default'') P'' = (Inl e, Q'') \<and>
         fst (snd (oauth_probe num tk force'' r createTestResultStore P'')) OAuthProbeTest = Some res \<and>
         secret w \<and> sublist w (tr_detail res))"
proof -
  have same: "fst (oauth_probe num tk force r st P) = fst (oauth_probe num tk force' r st P')"
    "fst (snd (oauth_probe num tk force r st P)) = fst (snd (oauth_probe num tk force' r st P'))"
    using assms by (simp_all add: oauth_probe_def Let_def)
  have "\<not> sublist w (tr_detail res)"
    if "pool_forceRefresh force'' (or_text (asString (jprop (parseFormOrJson r) ''memberName'')) ''default'') P'' = (Inl e, Q'')"
      "fst (snd (oauth_probe num tk force'' r createTestResultStore P'')) OAuthProbeTest = Some res" "secret w" for w e res Q''
    using that secret_removed [OF that(3), of "exn_message e"]
    by (auto simp: oauth_probe_def Let_def record_result_def createTestResultStore_def split: if_splits)
  with same show ?thesis by blast
qed

theorem oauth_probe_shows_no_token_witness:
  "let r = \<lparr>ar_method = ''POST'', ar_headers = [(''content-type'', ''application/json'')], ar_protocol = [], ar_host = [],
        ar_name = [], ar_json = Some (JObj []), ar_form = None\<rparr>;
       P = \<lparr>pl_members = [\<lparr>pm_name = ''default'', pm_oauth = (), pm_remaining = None, pm_observedAt = None\<rparr>], pl_sessions = []\<rparr>
   in fst (oauth_probe (\<lambda>_. []) (\<lambda>_. 0) (\<lambda>u. (Inr ''secret-abcd'', u)) r createTestResultStore P) =
      fst (oauth_probe (\<lambda>_. []) (\<lambda>_. 0) (\<lambda>u. (Inr ''hidden-token-abcd'', u)) r createTestResultStore P)"
proof -
  let ?P = "\<lparr>pl_members = [\<lparr>pm_name = ''default'', pm_oauth = (), pm_remaining = None, pm_observedAt = None\<rparr>], pl_sessions = []\<rparr>"
  let ?r = "\<lparr>ar_method = ''POST'', ar_headers = [(''content-type'', ''application/json'')], ar_protocol = [], ar_host = [],
        ar_name = [], ar_json = Some (JObj []), ar_form = None\<rparr>"
  have n: "or_text (asString (jprop (parseFormOrJson ?r) ''memberName'')) ''default'' = ''default''"
    by (simp add: parseFormOrJson_def is_json_def hget_def to_lower_def lower_char_def includes_str_def jprop_def get_def
        asString_def as_str_def or_text_def)
  have f: "pool_forceRefresh (\<lambda>u. (Inr t, u)) ''default'' ?P = (Inr t, ?P)" for t :: string
    by (simp add: pool_forceRefresh_def member_by_name_def set_member_def)
  have g: "pool_forceRefresh (\<lambda>u. (Inr t, u)) (or_text (asString (jprop (parseFormOrJson ?r) ''memberName'')) ''default'') ?P = (Inr t, ?P)"
    for t :: string by (simp only: n f)
  note probe = oauth_probe_shows_no_token [OF g [of "''secret-abcd''"] g [of "''hidden-token-abcd''"]]
  have "slice_last 4 ''secret-abcd'' = slice_last 4 ''hidden-token-abcd''" by (simp add: slice_last_def)
  then show ?thesis unfolding Let_def by (intro conjunct1 [OF probe]) simp_all
qed

end
