(* ===== verification/MessagesRender.thy ===== *)
theory MessagesRender
  imports ArchiveSafe
begin

text \<open>
  \<open>src/src/admin/messages-render.ts\<close>: the pages of the message log as HTML text. Number and date
  formatting, \<open>JSON\<close>, \<open>String\<close> and \<open>localeCompare\<close> are in the environment. The dashes, arrows and dots of
  the prose are hyphens; the style sheet is \<open>rn_style\<close>. The renderer gets a row, its request body (\<open>null\<close>
  when it was archived) and its response body.
\<close>

record render_env =
  rn_style :: string
  rn_fmt :: "rat \<Rightarrow> string"
  rn_num :: "rat \<Rightarrow> string"
  rn_fixed1 :: "rat \<Rightarrow> string"
  rn_locale :: "rat \<Rightarrow> string"
  rn_stringify :: "json \<Rightarrow> string"
  rn_stringify2 :: "json \<Rightarrow> string"
  rn_String :: "json option \<Rightarrow> string"
  rn_parse :: "string \<Rightarrow> json option"
  rn_compare :: "string \<Rightarrow> string \<Rightarrow> int"
  rn_now :: string

abbreviation nl :: string where "nl \<equiv> [CHR 0x0A]"

subsection \<open>Escaping and badges\<close>

text \<open>The five replacements, one after the other as in the code.\<close>

definition esc :: "string \<Rightarrow> string" where
  "esc s =
     replace_str [CHR 0x27] ''&#39;'' (replace_str [CHR 0x22] ''&quot;'' (replace_str ''>'' ''&gt;''
       (replace_str ''<'' ''&lt;'' (replace_str ''&'' ''&amp;'' s))))"

definition or_dash :: "string option \<Rightarrow> string" where
  "or_dash v = (case v of Some s \<Rightarrow> s | None \<Rightarrow> ''-'')"

definition fmtDurMs :: "render_env \<Rightarrow> rat \<Rightarrow> string" where
  "fmtDurMs env ms =
     (if ms < 1000 then rn_num env ms @ ''ms''
      else if ms < 60000 then rn_fixed1 env (ms / 1000) @ ''s''
      else let m = \<lfloor>ms / 60000\<rfloor> in int_str m @ ''m '' @ int_str \<lfloor>(ms - of_int m * 60000) / 1000\<rfloor> @ ''s'')"

fun replace_first :: "char \<Rightarrow> string \<Rightarrow> string \<Rightarrow> string" where
  "replace_first c r [] = []"
| "replace_first c r (x # xs) = (if x = c then r @ xs else x # replace_first c r xs)"

definition fmtTs :: "render_env \<Rightarrow> rat \<Rightarrow> string" where
  "fmtTs env d = replace_first (CHR ''Z'') [] (replace_first (CHR ''T'') '' '' (rn_fmt env d))"

definition statusBadge :: "nat \<Rightarrow> string" where
  "statusBadge status =
     (if status \<ge> 200 \<and> status < 300 then ''<span class=\"badge b-good\">'' @ nat_str status @ ''</span>''
      else if status \<ge> 400 then ''<span class=\"badge b-bad\">'' @ nat_str status @ ''</span>''
      else ''<span class=\"badge b-mute\">'' @ nat_str status @ ''</span>'')"

definition tierBadge :: "string option \<Rightarrow> string" where
  "tierBadge tier =
     (case tier of
        Some (c # cs) \<Rightarrow>
          if c # cs = ''standard'' then ''<span class=\"badge b-good\">'' @ esc (c # cs) @ ''</span>''
          else ''<span class=\"badge b-bad\">'' @ esc (c # cs) @ ''</span>''
      | _ \<Rightarrow> ''<span class=\"badge b-mute\">-</span>'')"

definition sourceBadge :: "msg_source option \<Rightarrow> string" where
  "sourceBadge source =
     (case source of
        Some Proxy \<Rightarrow> ''<span class=\"badge b-warn\" title=\"our infra rejected/failed before or around upstream (429 cap, 5xx, 502)\">proxy</span>''
      | Some Upstream \<Rightarrow> ''<span class=\"badge b-info\" title=\"reached Anthropic - it returned this (any status, incl. 2xx)\">upstream</span>''
      | Some Client \<Rightarrow> ''<span class=\"badge b-mute\" title=\"caller's request rejected on its merits (400/413)\">client</span>''
      | None \<Rightarrow> ''<span class=\"badge b-mute\" title=\"no source recorded (legacy row)\">-</span>'')"

text \<open>\<open>URLSearchParams\<close>: the form encoding of UTF-8.\<close>

definition hex_digit :: "nat \<Rightarrow> char" where
  "hex_digit n = (if n < 10 then char_of (48 + n) else char_of (55 + n))"

definition percent :: "nat \<Rightarrow> string" where
  "percent b = [CHR 0x25, hex_digit (b div 16), hex_digit (b mod 16)]"

definition url_safe :: "char \<Rightarrow> bool" where
  "url_safe c = (let n = (of_char c :: nat) in
     is_digit c \<or> 65 \<le> n \<and> n \<le> 90 \<or> 97 \<le> n \<and> n \<le> 122 \<or> c \<in> {CHR ''*'', CHR ''-'', CHR ''.'', CHR ''_''})"

definition url_char :: "char \<Rightarrow> string" where
  "url_char c = (let n = (of_char c :: nat) in
     if url_safe c then [c] else if c = CHR '' '' then ''+''
     else if n < 128 then percent n else percent (192 + n div 64) @ percent (128 + n mod 64))"

definition url_encode :: "string \<Rightarrow> string" where
  "url_encode s = concat (map url_char s)"

definition qs :: "(string \<times> string option) list \<Rightarrow> string" where
  "qs params =
     (let out = concat (map (\<lambda>(k, v). case v of Some (c # cs) \<Rightarrow> [url_encode k @ ''='' @ url_encode (c # cs)] | _ \<Rightarrow> []) params)
      in if out = [] then [] else ''?'' @ join_str ''&'' out)"

subsection \<open>The list\<close>

definition page_head :: "render_env \<Rightarrow> string \<Rightarrow> string" where
  "page_head env title =
     ''<!doctype html>'' @ nl @ ''<html lang=\"en\">'' @ nl @ ''<head>'' @ nl @ ''<meta charset=\"utf-8\">'' @ nl @ ''<meta name=\"viewport\" content=\"width=device-width,initial-scale=1\">'' @ nl @ ''<title>'' @ title @ ''</title>'' @ nl @ ''<style>'' @ rn_style env @ ''</style>'' @ nl @ ''</head>'' @ nl @ ''<body>'' @ nl @ ''  <header>''"

definition renderStoreUnavailable :: "render_env \<Rightarrow> string \<Rightarrow> string" where
  "renderStoreUnavailable env reason =
     page_head env ''claude-for-you - messages (unavailable)'' @
     nl @ ''    <h1>messages</h1>'' @ nl @ ''    <span class=\"tag\">log store unavailable</span>'' @ nl @ ''    <span style=\"margin-left:auto\"><a href=\"/admin\">- dashboard</a></span>'' @ nl @ ''  </header>'' @ nl @ ''  <section style=\"background:var(--surface);border:1px solid var(--bad);border-radius:6px;padding:1rem 1.1rem\">'' @ nl @ ''    <h2 style=\"color:var(--bad)\">store unavailable</h2>'' @ nl @ ''    <p>The messages log could not be read: <code>'' @ esc reason @ ''</code></p>'' @ nl @ ''    <p class=\"tag\">This log lives in Postgres. Writes from the proxy are'' @ nl @ ''    fire-and-forget, so log rows are being dropped for as long as the failure'' @ nl @ ''    lasts but the log itself does not reject traffic. Proxy requests survive a'' @ nl @ ''    DB outage only while <code>DAILY_TOKEN_LIMIT_PER_KEY</code> is unset - with'' @ nl @ ''    a limit configured, the per-key quota check queries this same database on'' @ nl @ ''    every request and an outage becomes a full 5xx outage. Check'' @ nl @ ''    <code>docker logs claude-for-you</code> and the RDS instance state'' @ nl @ ''    (<code>storage-full</code> is the known cause).</p>'' @ nl @ ''  </section>'' @ nl @ ''</body>'' @ nl @ ''</html>''"

definition row_html :: "render_env \<Rightarrow> log_row \<Rightarrow> string" where
  "row_html env r =
     ''    <tr>'' @ nl @ ''      <td><a href=\"/admin/messages/'' @ esc (ml_id r) @ ''\">'' @ esc (fmtTs env (ml_ts r)) @ ''</a></td>'' @ nl @ ''      <td>'' @ esc (ml_userName r) @ ''</td>'' @ nl @ ''      <td>'' @ esc (or_dash (ml_model r)) @ ''</td>'' @ nl @ ''      <td>'' @ statusBadge (ml_status r) @ ''</td>'' @ nl @ ''      <td>'' @ sourceBadge (ml_source r) @ ''</td>'' @ nl @ ''      <td>'' @ (if ml_streaming r then ''<span class=\"badge b-mute\">sse</span>'' else ''<span class=\"badge b-mute\">json</span>'') @ ''</td>'' @ nl @ ''      <td class=\"num\">'' @ esc (fmtDurMs env (ml_durationMs r)) @ ''</td>'' @ nl @ ''      <td class=\"num\">'' @ esc (rn_locale env (me_input (ml_meta r))) @ ''/'' @ esc (rn_locale env (me_output (ml_meta r))) @ ''</td>'' @ nl @ ''      <td>'' @ tierBadge (me_serviceTier (ml_meta r)) @ ''</td>'' @ nl @ ''      <td class=\"preview\" title=\"'' @ esc (lr_preview r) @ ''\">'' @ esc (lr_preview r) @ ''</td>'' @ nl @ ''    </tr>''"

definition table_html :: "render_env \<Rightarrow> log_row list \<Rightarrow> string" where
  "table_html env rows =
     (if length rows = 0 then ''<div class=\"empty\">no matching messages</div>''
      else ''<table>'' @ nl @ ''  <thead>'' @ nl @ ''    <tr>'' @ nl @ ''      <th>time (utc)</th><th>user</th><th>model</th><th>status</th><th>source</th>'' @ nl @ ''      <th>stream</th><th class=\"num\">dur</th><th class=\"num\">in/out</th>'' @ nl @ ''      <th>tier</th><th>preview</th>'' @ nl @ ''    </tr>'' @ nl @ ''  </thead>'' @ nl @ ''  <tbody>'' @ nl @ join_str nl (map (row_html env) rows) @ nl @ ''  </tbody>'' @ nl @ ''</table>'')"

record page_filters =
  pf_q :: string
  pf_user :: string
  pf_model :: string
  pf_status :: status_class
  pf_source :: "msg_source option"

definition status_param :: "status_class \<Rightarrow> string option" where
  "status_param s = (case s of All \<Rightarrow> None | Success \<Rightarrow> Some ''success'' | Error \<Rightarrow> Some ''error'')"

definition source_param :: "msg_source \<Rightarrow> string" where
  "source_param s = (case s of Client \<Rightarrow> ''client'' | Proxy \<Rightarrow> ''proxy'' | Upstream \<Rightarrow> ''upstream'')"

definition older_cursor :: "string option \<Rightarrow> string option" where
  "older_cursor nextCursor = (case nextCursor of Some (c # cs) \<Rightarrow> Some (c # cs) | _ \<Rightarrow> None)"

definition older_link :: "page_filters \<Rightarrow> string option \<Rightarrow> string" where
  "older_link f older =
     (case older of
        None \<Rightarrow> []
      | Some cursor \<Rightarrow> ''<a href=\"/admin/messages'' @
          qs [(''q'', Some (pf_q f)), (''user'', Some (pf_user f)), (''model'', Some (pf_model f)),
              (''status'', status_param (pf_status f)), (''source'', map_option source_param (pf_source f)),
              (''before'', Some cursor)] @ ''\">older -</a>'')"

definition pager_html :: "page_filters \<Rightarrow> string option \<Rightarrow> bool \<Rightarrow> string" where
  "pager_html f nextCursor hasPrev =
     (let older = older_cursor nextCursor in
      if older \<noteq> None \<or> hasPrev then
        ''<div class=\"pager\">'' @ nl @ ''  '' @ (if hasPrev then ''<a href=\"/admin/messages\">- newest</a>'' else []) @ nl @ ''  '' @ older_link f older @ nl @ ''</div>''
      else [])"

definition selected :: "bool \<Rightarrow> string" where
  "selected b = (if b then '' selected'' else [])"

definition form_html :: "page_filters \<Rightarrow> string" where
  "form_html f =
     nl @ nl @ ''  <form class=\"toolbar\" method=\"get\" action=\"/admin/messages\">'' @ nl @ ''    <label>search<input type=\"text\" name=\"q\" value=\"'' @ esc (pf_q f) @ ''\" placeholder=\"substring of last user message\"></label>'' @ nl @ ''    <label>user<input type=\"text\" name=\"user\" value=\"'' @ esc (pf_user f) @ ''\" placeholder=\"exact\"></label>'' @ nl @ ''    <label>model<input type=\"text\" name=\"model\" value=\"'' @ esc (pf_model f) @ ''\" placeholder=\"exact\"></label>'' @ nl @ ''    <label>status'' @ nl @ ''      <select name=\"status\">'' @ nl @ ''        <option value=\"all\"'' @ selected (pf_status f = All) @ ''>all</option>'' @ nl @ ''        <option value=\"success\"'' @ selected (pf_status f = Success) @ ''>2xx</option>'' @ nl @ ''        <option value=\"error\"'' @ selected (pf_status f = Error) @ ''>4xx/5xx</option>'' @ nl @ ''      </select>'' @ nl @ ''    </label>'' @ nl @ ''    <label title=\"upstream = reached Anthropic (any status); proxy = our own limit/failure (429 cap, 5xx, 502); client = caller rejected (400/413)\">source'' @ nl @ ''      <select name=\"source\">'' @ nl @ ''        <option value=\"all\"'' @ selected (pf_source f = None) @ ''>all</option>'' @ nl @ ''        <option value=\"upstream\"'' @ selected (pf_source f = Some Upstream) @ ''>upstream (Anthropic)</option>'' @ nl @ ''        <option value=\"proxy\"'' @ selected (pf_source f = Some Proxy) @ ''>proxy (our infra)</option>'' @ nl @ ''        <option value=\"client\"'' @ selected (pf_source f = Some Client) @ ''>client (caller)</option>'' @ nl @ ''      </select>'' @ nl @ ''    </label>'' @ nl @ ''    <button type=\"submit\">filter</button>'' @ nl @ ''    <a class=\"clear\" href=\"/admin/messages\">clear</a>'' @ nl @ ''  </form>'' @ nl @ nl @ ''  ''"

definition renderMessagesList :: "render_env \<Rightarrow> log_row list \<Rightarrow> page_filters \<Rightarrow> string option \<Rightarrow> bool \<Rightarrow> string" where
  "renderMessagesList env rows f nextCursor hasPrev =
     page_head env ''claude-for-you - messages'' @
     nl @ ''    <h1>messages</h1>'' @ nl @ ''    <span class=\"tag\">full-content request/response log</span>'' @ nl @ ''    <span style=\"margin-left:auto\"><a href=\"/admin\">- dashboard</a></span>'' @ nl @ ''  </header>'' @
     form_html f @ table_html env rows @ nl @ ''  '' @ pager_html f nextCursor hasPrev @ nl @ nl @ ''  <footer>'' @ esc (nat_str (length rows)) @ '' rows - server time '' @ esc (rn_now env) @ ''</footer>'' @ nl @ ''</body>'' @ nl @ ''</html>''"

subsection \<open>Streamed answers\<close>

record tool_use =
  tu_name :: string
  tu_id :: string
  tu_input :: string

definition or_question :: "string option \<Rightarrow> string" where
  "or_question v = (case v of Some s \<Rightarrow> s | None \<Rightarrow> ''?'')"

definition event_index :: "json \<Rightarrow> rat" where
  "event_index ev = (case as_num (jprop (Some ev) ''index'') of Some n \<Rightarrow> n | None \<Rightarrow> -1)"

definition sse_event :: "json \<Rightarrow> string \<times> (rat \<times> tool_use) list \<Rightarrow> string \<times> (rat \<times> tool_use) list" where
  "sse_event ev st =
     (case st of (txt, tools) \<Rightarrow>
       let idx = event_index ev in
       if jprop (Some ev) ''type'' = Some (JStr ''content_block_start'') then
         let block = jprop (Some ev) ''content_block'' in
         if jprop block ''type'' = Some (JStr ''tool_use'') \<and> idx \<ge> 0
         then (txt, AList.update idx
            \<lparr>tu_name = or_question (as_str (jprop block ''name'')), tu_id = or_question (as_str (jprop block ''id'')), tu_input = []\<rparr> tools)
         else st
       else if jprop (Some ev) ''type'' = Some (JStr ''content_block_delta'') then
         let delta = jprop (Some ev) ''delta'' in
         (case (jprop delta ''type'' = Some (JStr ''text_delta''), as_str (jprop delta ''text'')) of
            (True, Some t) \<Rightarrow> (txt @ t, tools)
          | _ \<Rightarrow>
              (case (jprop delta ''type'' = Some (JStr ''input_json_delta''), as_str (jprop delta ''partial_json'')) of
                 (True, Some p) \<Rightarrow>
                   (case map_of tools idx of
                      Some tu \<Rightarrow> (txt, AList.update idx (tu\<lparr>tu_input := tu_input tu @ p\<rparr>) tools)
                    | None \<Rightarrow> st)
               | _ \<Rightarrow> st))
       else st)"

text \<open>A falsy \<open>content_block\<close> or \<open>delta\<close> that is \<open>null\<close> is skipped by \<open>?.\<close> like an absent one.\<close>

definition sse_line ::
  "(string \<Rightarrow> json option) \<Rightarrow> string \<Rightarrow> string \<times> (rat \<times> tool_use) list \<Rightarrow> string \<times> (rat \<times> tool_use) list" where
  "sse_line parse line st =
     (if \<not> starts_with line ''data: '' then st
      else case parse (drop 6 line) of
        Some ev \<Rightarrow> if is_object ev then sse_event ev st else st
      | None \<Rightarrow> st)"

definition reassembleSseAssistant :: "(string \<Rightarrow> json option) \<Rightarrow> string \<Rightarrow> string \<times> tool_use list" where
  "reassembleSseAssistant parse raw =
     (case fold (sse_line parse) (split_str nl raw) ([], []) of (txt, tools) \<Rightarrow> (txt, map snd tools))"

subsection \<open>Bodies\<close>

definition pre :: "string \<Rightarrow> string" where
  "pre s = ''<pre>'' @ esc s @ ''</pre>''"

definition system_text :: "render_env \<Rightarrow> json \<Rightarrow> string" where
  "system_text env b = (case as_str (jprop (Some b) ''text'') of Some t \<Rightarrow> t | None \<Rightarrow> rn_stringify env b)"

definition system_html :: "render_env \<Rightarrow> json option \<Rightarrow> string" where
  "system_html env sys =
     (case sys of
        Some (JStr (c # cs)) \<Rightarrow>
          ''<details><summary>system ('' @ esc (nat_str (length (c # cs))) @ '' chars)</summary>'' @ pre (c # cs) @ ''</details>''
      | Some (JArr (b # bs)) \<Rightarrow>
          ''<details><summary>system (array, '' @ nat_str (length (b # bs)) @ '' blocks)</summary>'' @
            pre (join_str (nl @ nl @ ''---'' @ nl @ nl) (map (system_text env) (b # bs))) @ ''</details>''
      | _ \<Rightarrow> [])"

definition role_class :: "string \<Rightarrow> string" where
  "role_class role = (if role = ''user'' then ''role-user'' else if role = ''assistant'' then ''role-assistant'' else ''role-system'')"

definition message_html :: "render_env \<Rightarrow> nat \<Rightarrow> nat \<times> json \<Rightarrow> string" where
  "message_html env n im =
     (case im of (i, m) \<Rightarrow>
        if \<not> is_object m then []
        else
          let role = or_question (as_str (jprop (Some m) ''role''));
              c = jprop (Some m) ''content'';
              body = (case c of
                 Some (JStr s) \<Rightarrow> pre s
               | Some (JArr xs) \<Rightarrow> pre (rn_stringify2 env (JArr xs))
               | _ \<Rightarrow> pre (rn_String env c))
          in ''<details'' @ (if Suc i = n then '' open'' else []) @ ''><summary><span class=\"'' @ role_class role @ ''\">['' @
               esc (nat_str i) @ ''] '' @ esc role @ ''</span></summary>'' @ body @ ''</details>'')"

definition request_messages :: "json \<Rightarrow> json list" where
  "request_messages body = (case jprop (Some body) ''messages'' of Some (JArr ms) \<Rightarrow> ms | _ \<Rightarrow> [])"

definition renderRequestPreview :: "render_env \<Rightarrow> json \<Rightarrow> string" where
  "renderRequestPreview env body =
     (if \<not> is_object body then pre (rn_stringify2 env body)
      else let ms = request_messages body in
        system_html env (jprop (Some body) ''system'') @
        concat (map (message_html env (length ms)) (zip [0..<length ms] ms)))"

definition tool_html :: "tool_use \<Rightarrow> string" where
  "tool_html t =
     ''<div style=\"margin-bottom:.5rem\"><strong>'' @ esc (tu_name t) @ ''</strong> <span class=\"tag\">'' @ esc (tu_id t) @ ''</span>'' @
       pre (tu_input t) @ ''</div>''"

definition renderResponseBody :: "render_env \<Rightarrow> response_body option \<Rightarrow> string" where
  "renderResponseBody env rb =
     (case rb of
        None \<Rightarrow> ''<div class=\"tag\">no body</div>''
      | Some (RJson body) \<Rightarrow> pre (case body of JStr s \<Rightarrow> s | _ \<Rightarrow> rn_stringify2 env body)
      | Some (RText raw) \<Rightarrow>
          ''<div class=\"tag\">non-JSON body ('' @ esc (rn_locale env (of_nat (length raw))) @ '' bytes)</div>'' @ pre raw
      | Some (RSse raw) \<Rightarrow>
          (case reassembleSseAssistant (rn_parse env) raw of (txt, tools) \<Rightarrow>
             (if length txt > 0
              then ''<details open><summary>assistant text (reassembled, '' @ esc (nat_str (length txt)) @ '' chars)</summary>'' @ pre txt @ ''</details>''
              else []) @
             (if length tools > 0
              then ''<details><summary>tool_use ('' @ nat_str (length tools) @ '')</summary>'' @ concat (map tool_html tools) @ ''</details>''
              else []) @
             ''<details><summary>raw SSE ('' @ esc (rn_locale env (of_nat (length raw))) @ '' bytes)</summary>'' @ pre raw @ ''</details>''))"

subsection \<open>The bypass metadata\<close>

fun insert_cmp :: "(string \<Rightarrow> string \<Rightarrow> int) \<Rightarrow> string \<times> 'a \<Rightarrow> (string \<times> 'a) list \<Rightarrow> (string \<times> 'a) list" where
  "insert_cmp cmp x [] = [x]"
| "insert_cmp cmp x (y # ys) = (if cmp (fst x) (fst y) \<le> 0 then x # y # ys else y # insert_cmp cmp x ys)"

definition sort_cmp :: "(string \<Rightarrow> string \<Rightarrow> int) \<Rightarrow> (string \<times> 'a) list \<Rightarrow> (string \<times> 'a) list" where
  "sort_cmp cmp xs = foldr (insert_cmp cmp) xs []"

definition header_row :: "string \<times> string \<Rightarrow> string" where
  "header_row kv = ''<tr><td><code>'' @ esc (fst kv) @ ''</code></td><td><code>'' @ esc (snd kv) @ ''</code></td></tr>''"

definition renderHeaderTable :: "render_env \<Rightarrow> string \<Rightarrow> (string \<times> string) list \<Rightarrow> string" where
  "renderHeaderTable env title headers =
     (let entries = sort_cmp (rn_compare env) headers in
      if length entries = 0 then ''<details><summary>'' @ esc title @ '' (empty)</summary></details>''
      else ''<details><summary>'' @ esc title @ '' ('' @ nat_str (length entries) @ '')</summary>'' @ nl @ ''    <table><thead><tr><th>header</th><th>value</th></tr></thead>'' @ nl @ ''    <tbody>'' @ concat (map header_row entries) @ ''</tbody></table></details>'')"

text \<open>The entries of a value all of whose properties are strings, and none of any other.\<close>

definition string_record :: "json option \<Rightarrow> (string \<times> string) list" where
  "string_record v =
     (case v of
        Some w \<Rightarrow>
          if is_object w \<and> list_all (\<lambda>kv. as_str (Some (snd kv)) \<noteq> None) (spread w)
          then map (\<lambda>kv. (fst kv, case as_str (Some (snd kv)) of Some s \<Rightarrow> s | None \<Rightarrow> [])) (spread w) else []
      | None \<Rightarrow> [])"

definition is_fingerprint :: "json \<Rightarrow> bool" where
  "is_fingerprint v = (is_object v \<and> as_str (jprop (Some v) ''name'') \<noteq> None \<and> as_num (jprop (Some v) ''length'') \<noteq> None)"

definition fingerprint_list :: "json option \<Rightarrow> json list" where
  "fingerprint_list v = (case v of Some (JArr xs) \<Rightarrow> if list_all is_fingerprint xs then xs else [] | _ \<Rightarrow> [])"

definition unknown_row :: "render_env \<Rightarrow> json \<Rightarrow> string" where
  "unknown_row env h =
     ''<tr><td><code>'' @ esc (or_question (as_str (jprop (Some h) ''name''))) @ ''</code></td><td>'' @
       esc (case as_num (jprop (Some h) ''length'') of Some n \<Rightarrow> rn_locale env n | None \<Rightarrow> []) @ '' bytes</td></tr>''"

definition renderUnknownHeaders :: "render_env \<Rightarrow> string \<Rightarrow> json list \<Rightarrow> string" where
  "renderUnknownHeaders env title xs =
     (if length xs = 0 then ''<details><summary>'' @ esc title @ '' (none)</summary></details>''
      else ''<details><summary>'' @ esc title @ '' ('' @ nat_str (length xs) @ '')</summary>'' @ nl @ ''    <p style=\"color:var(--muted);font-size:.75rem;margin:.4rem 0\">'' @ nl @ ''      values NOT stored - name + byte-length only. Use this to detect new SDK'' @ nl @ ''      headers rolling out (length jumps) or unexpected clients without leaking'' @ nl @ ''      cookies / auth / forwarded-IP chains.'' @ nl @ ''    </p>'' @ nl @ ''    <table><thead><tr><th>header</th><th>length</th></tr></thead>'' @ nl @ ''    <tbody>'' @ concat (map (unknown_row env) xs) @ ''</tbody></table></details>'')"

definition renderBypassMetadata :: "render_env \<Rightarrow> json option \<Rightarrow> string" where
  "renderBypassMetadata env m =
     (if m = None \<or> \<not> is_object (the m) then []
      else ''<section class=\"detail\">'' @ nl @ ''    <h2>proxy bypass metadata</h2>'' @ nl @ ''    <dl class=\"kv\">'' @ nl @ ''      <dt>canary</dt><dd>'' @
        (if jprop (jprop m ''canary'') ''useCandidate'' = Some (JBool True)
         then ''<span class=\"badge b-warn\">candidate</span>'' else ''<span class=\"badge b-mute\">stable</span>'') @ ''</dd>'' @ nl @ ''    </dl>'' @ nl @ ''    '' @ renderHeaderTable env ''inbound headers (client - proxy)'' (string_record (jprop m ''inboundHeaders'')) @ nl @ ''    '' @ renderHeaderTable env ''outbound headers (proxy - anthropic)'' (string_record (jprop m ''outboundHeaders'')) @ nl @ ''    '' @ renderHeaderTable env ''upstream response headers (anthropic - proxy)'' (string_record (jprop m ''upstreamHeaders'')) @ nl @ ''    '' @ renderUnknownHeaders env ''unknown inbound headers'' (fingerprint_list (jprop m ''unknownInboundHeaders'')) @ nl @ ''    '' @ renderUnknownHeaders env ''unknown outbound headers'' (fingerprint_list (jprop m ''unknownOutboundHeaders'')) @ nl @ ''    '' @ renderUnknownHeaders env ''unknown upstream headers'' (fingerprint_list (jprop m ''unknownUpstreamHeaders'')) @ nl @ ''  </section>'')"

subsection \<open>The detail page\<close>

definition renderArchiveBanner :: "render_env \<Rightarrow> log_row \<Rightarrow> bool \<Rightarrow> string option \<Rightarrow> string" where
  "renderArchiveBanner env r canReadArchive restoredFrom =
     (case restoredFrom of
        Some (c # cs) \<Rightarrow>
          ''<section class=\"detail\" style=\"border-color:var(--accent)\">'' @ nl @ ''    <h2>restored from cold storage</h2>'' @ nl @ ''    <div>Bodies below were read from <code>'' @ esc (c # cs) @ ''</code>.</div>'' @ nl @ ''    <div class=\"tag\">The Postgres row keeps only its metadata; this view reassembles the full payload from S3.</div>'' @ nl @ ''  </section>''
      | _ \<Rightarrow>
          (case (lr_archivedAt r, lr_archiveKey r) of
             (Some archivedAt, Some (c # cs)) \<Rightarrow>
               if canReadArchive then
                 ''<section class=\"detail\" style=\"border-color:var(--warn)\">'' @ nl @ ''    <h2>archived to cold storage</h2>'' @ nl @ ''    <div>Request and response bodies were moved to S3 on '' @ esc (fmtTs env archivedAt) @ '' UTC.</div>'' @ nl @ ''    <div style=\"margin-top:.5rem\"><a href=\"/admin/messages/'' @ esc (ml_id r) @ ''/archived\">open archived bodies -</a></div>'' @ nl @ ''    <div class=\"tag\">Object: <code>'' @ esc (c # cs) @ ''</code></div>'' @ nl @ ''  </section>''
               else
                 ''<section class=\"detail\" style=\"border-color:var(--warn)\">'' @ nl @ ''    <h2>archived to cold storage</h2>'' @ nl @ ''    <div>Request and response bodies were moved to S3 on '' @ esc (fmtTs env archivedAt) @ '' UTC.'' @ nl @ ''    This instance has no S3 read credentials, so they cannot be shown here.</div>'' @ nl @ ''    <div class=\"tag\" style=\"margin-top:.5rem\">Fetch it from a machine with access:</div>'' @ nl @ ''    <pre>aws s3 cp s3://&lt;archive-bucket&gt;/'' @ esc (c # cs) @ '' - | gunzip | grep '' @ esc (ml_id r) @ '' | jq .</pre>'' @ nl @ ''  </section>''
           | _ \<Rightarrow> []))"

definition error_row :: "string option \<Rightarrow> string" where
  "error_row e =
     (case e of Some (c # cs) \<Rightarrow> ''<dt>error</dt><dd><span class=\"badge b-bad\">error</span> '' @ esc (c # cs) @ ''</dd>'' | _ \<Rightarrow> [])"

definition meta_html :: "render_env \<Rightarrow> log_row \<Rightarrow> string" where
  "meta_html env r =
     nl @ nl @ ''  <section class=\"detail\">'' @ nl @ ''    <h2>meta</h2>'' @ nl @ ''    <dl class=\"kv\">'' @ nl @ ''      <dt>timestamp</dt><dd>'' @ esc (fmtTs env (ml_ts r)) @ '' UTC</dd>'' @ nl @ ''      <dt>user</dt><dd>'' @ esc (ml_userName r) @ ''</dd>'' @ nl @ ''      <dt>model</dt><dd>'' @ esc (or_dash (ml_model r)) @ ''</dd>'' @ nl @ ''      <dt>status</dt><dd>'' @ statusBadge (ml_status r) @ ''</dd>'' @ nl @ ''      <dt>source</dt><dd>'' @ sourceBadge (ml_source r) @ ''</dd>'' @ nl @ ''      <dt>streaming</dt><dd>'' @ (if ml_streaming r then ''sse'' else ''json'') @ ''</dd>'' @ nl @ ''      <dt>duration</dt><dd>'' @ esc (fmtDurMs env (ml_durationMs r)) @ ''</dd>'' @ nl @ ''      <dt>tokens (in / out)</dt><dd>'' @ esc (rn_locale env (me_input (ml_meta r))) @ '' / '' @ esc (rn_locale env (me_output (ml_meta r))) @ ''</dd>'' @ nl @ ''      <dt>cache (read / create)</dt><dd>'' @ esc (rn_locale env (me_cacheRead (ml_meta r))) @ '' / '' @ esc (rn_locale env (me_cacheCreation (ml_meta r))) @ ''</dd>'' @ nl @ ''      <dt>service_tier</dt><dd>'' @ tierBadge (me_serviceTier (ml_meta r)) @ ''</dd>'' @ nl @ ''      <dt>stop_reason</dt><dd>'' @ esc (or_dash (me_stopReason (ml_meta r))) @ ''</dd>'' @ nl @ ''      <dt>client ip</dt><dd>'' @ esc (or_dash (ml_clientIp r)) @ ''</dd>'' @ nl @ ''      <dt>user agent</dt><dd>'' @ esc (or_dash (ml_userAgent r)) @ ''</dd>'' @ nl @ ''      <dt>served by</dt><dd>'' @ esc (or_dash (ml_servedBy r)) @ ''</dd>'' @ nl @ ''      '' @ error_row (ml_errorMessage r) @ nl @ ''    </dl>'' @ nl @ ''  </section>'' @ nl @ nl @ ''  ''"

definition renderMessageDetail ::
  "render_env \<Rightarrow> log_row \<Rightarrow> json \<Rightarrow> response_body option \<Rightarrow> bool \<Rightarrow> string option \<Rightarrow> string" where
  "renderMessageDetail env r request response canReadArchive restoredFrom =
     page_head env (''claude-for-you - message '' @ esc (ml_id r)) @
     nl @ ''    <h1>message detail</h1>'' @ nl @ ''    <span class=\"tag\">'' @ esc (ml_id r) @ ''</span>'' @ nl @ ''    <span style=\"margin-left:auto\"><a href=\"/admin/messages\">- list</a></span>'' @ nl @ ''  </header>'' @
     meta_html env r @ renderArchiveBanner env r canReadArchive restoredFrom @ nl @ nl @ ''  '' @ renderBypassMetadata env (ml_bypassMetadata r) @ nl @ nl @ ''  <section class=\"detail\">'' @ nl @ ''    <h2>request</h2>'' @ nl @ ''    '' @ renderRequestPreview env request @ nl @ ''    <details><summary>raw request JSON</summary>'' @ pre (rn_stringify2 env request) @ ''</details>'' @ nl @ ''  </section>'' @ nl @ nl @ ''  <section class=\"detail\">'' @ nl @ ''    <h2>response</h2>'' @ nl @ ''    '' @ renderResponseBody env response @ nl @ ''  </section>'' @ nl @ nl @ ''  <footer>server time '' @ esc (rn_now env) @ ''</footer>'' @ nl @ ''</body>'' @ nl @ ''</html>''"

subsection \<open>No text becomes markup\<close>

text \<open>The characters of a page that a browser reads as markup or as the end of an attribute.\<close>

definition markup :: "string \<Rightarrow> string" where
  "markup s = filter (\<lambda>c. c \<in> {CHR ''<'', CHR ''>'', CHR 0x22, CHR 0x27}) s"

named_theorems markup_rules "markup of the parts of a page"

lemma markup_append [markup_rules]: "markup (s @ t) = markup s @ markup t"
  by (simp add: markup_def)

lemma markup_Nil [markup_rules]: "markup [] = []"
  by (simp add: markup_def)

lemma markup_concat: "markup (concat xs) = concat (map markup xs)"
  by (induction xs) (simp_all add: markup_rules)

lemma replace_char: "replace_str [c] r s = concat (map (\<lambda>x. if x = c then r else [x]) s)"
proof -
  have "join_str r (split_go [c] 0 acc s) = rev acc @ concat (map (\<lambda>x. if x = c then r else [x]) s)" for acc
    by (induction s arbitrary: acc) (auto simp: join_Cons)
  from this [of "[]"] show ?thesis by (simp add: replace_str_def split_str_def)
qed

definition esc_char :: "char \<Rightarrow> string" where
  "esc_char c =
     (if c = CHR ''&'' then ''&amp;'' else if c = CHR ''<'' then ''&lt;'' else if c = CHR ''>'' then ''&gt;''
      else if c = CHR 0x22 then ''&quot;'' else if c = CHR 0x27 then ''&#39;'' else [c])"

lemma esc_concat: "esc s = concat (map esc_char s)"
  by (induction s) (simp_all add: esc_def replace_char esc_char_def)

lemma markup_esc [markup_rules]: "markup (esc s) = []"
  by (induction s) (auto simp: esc_concat esc_char_def markup_def)

lemma markup_digits [markup_rules]: "markup (nat_str n) = []"
proof -
  have "\<not> is_digit c" if "c \<in> {CHR ''<'', CHR ''>'', CHR 0x22, CHR 0x27}" for c
    using that by (auto simp: is_digit_def)
  then show ?thesis using nat_str_digits [of _ n] unfolding markup_def filter_empty_conv by blast
qed

lemma markup_join: "markup (join_str sep xs) = join_str (markup sep) (map markup xs)"
  by (induction sep xs rule: join_str.induct) (simp_all add: markup_append markup_Nil)

lemma markup_url [markup_rules]: "markup (url_encode s) = []"
proof -
  have safe: "c \<notin> {CHR ''<'', CHR ''>'', CHR 0x22, CHR 0x27}" if "url_safe c" for c
    using that by (auto simp: url_safe_def is_digit_def)
  have "hex_digit k \<notin> {CHR ''<'', CHR ''>'', CHR 0x22, CHR 0x27}" if "k < 16" for k
  proof -
    have n: "(of_char (hex_digit k) :: nat) = (if k < 10 then 48 + k else 55 + k)"
      using that by (simp add: hex_digit_def of_char_of)
    have "c \<noteq> hex_digit k" if "(of_char c :: nat) \<in> {60, 62, 34, 39}" for c
      using n that \<open>k < 16\<close> by (auto split: if_splits)
    from this [of "CHR ''<''"] this [of "CHR ''>''"] this [of "CHR 0x22"] this [of "CHR 0x27"] show ?thesis by auto
  qed
  then have percent: "markup (percent b) = []" if "b < 256" for b
    using that by (simp add: percent_def markup_def)
  have b: "(192::nat) + n div 64 < 256" "(128::nat) + n mod 64 < 256" if "n < 256" for n
  proof -
    have "n div 64 < 4" by (rule less_mult_imp_div_less) (use that in simp)
    then show "(192::nat) + n div 64 < 256" by simp
    have "n mod 64 < 64" by simp
    then show "(128::nat) + n mod 64 < 256" by linarith
  qed
  have "(of_char c :: nat) < 256" for c using nat_of_char_less_256 [of c] by simp
  then have "192 + (of_char c :: nat) div 64 < 256" "128 + (of_char c :: nat) mod 64 < 256" for c
    by (rule b)+
  then have "markup (url_char c) = []" for c
    using safe [of c] percent by (auto simp: url_char_def Let_def markup_append) (auto simp: markup_def)
  then show ?thesis by (induction s) (simp_all add: url_encode_def markup_rules)
qed

lemma markup_qs [markup_rules]: "markup (qs ps) = []"
proof -
  define out where "out = concat (map (\<lambda>(k, v). case v of Some (c # cs) \<Rightarrow> [url_encode k @ ''='' @ url_encode (c # cs)] | _ \<Rightarrow> []) ps)"
  have eq: "markup ''='' = []" "markup ''?'' = []" "markup ''&'' = []" by (simp_all add: markup_def)
  have "markup (url_encode k @ ''='' @ url_encode v) = []" for k v
    unfolding markup_append markup_url eq by (rule append.left_neutral [THEN trans]) (rule append.left_neutral)
  then have all: "\<forall>x \<in> set out. markup x = []"
    by (auto simp: out_def simp del: append.simps split: option.splits list.splits)
  have "join_str [] (map markup xs) = []" if "\<forall>x \<in> set xs. markup x = []" for xs :: "string list"
    using that by (induction xs rule: induct_list012) auto
  from this [OF all] have "markup (''?'' @ join_str ''&'' out) = []"
    unfolding markup_append markup_join eq by simp
  then show ?thesis unfolding qs_def out_def [symmetric] Let_def by (simp add: markup_Nil del: append.simps)
qed

lemma markup_status [markup_rules]: "markup (statusBadge n) = [CHR ''<'', CHR 0x22, CHR 0x22, CHR ''>'', CHR ''<'', CHR ''>'']"
  by (simp add: statusBadge_def markup_append markup_digits del: append.simps) (simp add: markup_def)

lemma markup_tier [markup_rules]: "markup (tierBadge t) = [CHR ''<'', CHR 0x22, CHR 0x22, CHR ''>'', CHR ''<'', CHR ''>'']"
proof -
  have "markup (tierBadge (Some (c # cs))) = [CHR ''<'', CHR 0x22, CHR 0x22, CHR ''>'', CHR ''<'', CHR ''>'']" for c cs
    by (simp add: tierBadge_def markup_append markup_esc del: append.simps) (simp add: markup_def)
  moreover have "markup (tierBadge None) = [CHR ''<'', CHR 0x22, CHR 0x22, CHR ''>'', CHR ''<'', CHR ''>'']"
    "markup (tierBadge (Some [])) = [CHR ''<'', CHR 0x22, CHR 0x22, CHR ''>'', CHR ''<'', CHR ''>'']"
    by (simp_all add: tierBadge_def markup_def)
  ultimately show ?thesis by (cases t; cases "the t") auto
qed

lemma markup_selected [markup_rules]: "markup (selected b) = []"
  by (simp add: selected_def markup_def)

lemma markup_row: "ml_source r = ml_source r' \<Longrightarrow> markup (row_html env r) = markup (row_html env r')"
proof -
  assume s: "ml_source r = ml_source r'"
  have stream: "markup (if b then ''<span class=\"badge b-mute\">sse</span>'' else ''<span class=\"badge b-mute\">json</span>'') =
      [CHR ''<'', CHR 0x22, CHR 0x22, CHR ''>'', CHR ''<'', CHR ''>'']" for b
    by (simp add: markup_def)
  show ?thesis unfolding row_html_def markup_rules stream s by (rule refl)
qed

lemma markup_rows:
  "map ml_source rows = map ml_source rows' \<Longrightarrow> map (\<lambda>r. markup (row_html env r)) rows = map (\<lambda>r. markup (row_html env r)) rows'"
proof (induction rows arbitrary: rows')
  case (Cons r rows)
  show ?case
  proof (cases rows')
    case Nil
    then show ?thesis using Cons.prems by simp
  next
    case (Cons y ys)
    then have "ml_source r = ml_source y" "map ml_source rows = map ml_source ys" using Cons.prems by simp_all
    then show ?thesis unfolding Cons list.map using markup_row [of r y] Cons.IH [of ys] by (simp only:)
  qed
qed simp

lemma markup_form: "markup (form_html f) = markup (form_html f')"
  unfolding form_html_def markup_rules by (rule refl)

lemma markup_table: "map ml_source rows = map ml_source rows' \<Longrightarrow> markup (table_html env rows) = markup (table_html env rows')"
proof -
  assume s: "map ml_source rows = map ml_source rows'"
  then have l: "length rows = length rows'" by (rule map_eq_imp_length_eq)
  have m: "map markup (map (row_html env) rows) = map markup (map (row_html env) rows')"
    using markup_rows [OF s, of env] by (simp add: comp_def)
  show ?thesis
  proof (cases "length rows' = 0")
    case True
    then show ?thesis unfolding table_html_def l by (simp only: simp_thms if_True)
  next
    case False
    then show ?thesis unfolding table_html_def l by (simp only: simp_thms if_False markup_append markup_join m)
  qed
qed

lemma markup_older:
  assumes "(older_cursor c = None) = (older_cursor c' = None)"
  shows "markup (older_link f (older_cursor c)) = markup (older_link f' (older_cursor c'))"
proof (cases "older_cursor c")
  case None
  then have "older_cursor c = None" "older_cursor c' = None" using assms by simp_all
  then show ?thesis by (simp only: older_link_def option.case)
next
  case (Some x)
  with assms obtain y where "older_cursor c' = Some y" by (cases "older_cursor c'") simp_all
  with Some show ?thesis by (simp only: older_link_def option.case markup_rules)
qed

lemma markup_pager:
  assumes "(older_cursor c = None) = (older_cursor c' = None)"
  shows "markup (pager_html f c b) = markup (pager_html f' c' b)"
proof (cases "older_cursor c \<noteq> None \<or> b")
  case True
  then have "older_cursor c' \<noteq> None \<or> b" using assms by simp
  with True show ?thesis
    by (simp only: pager_html_def Let_def simp_thms if_True markup_append markup_older [OF assms, of f f'])
next
  case False
  then have "\<not> (older_cursor c' \<noteq> None \<or> b)" using assms by simp
  with False show ?thesis by (simp only: pager_html_def Let_def simp_thms if_False)
qed

text \<open>Nothing in the log list can add markup to the page. Two lists of rows that agree in length and in
  the rows' sources, under any texts in their ids, users, models, tiers, previews and numbers, and any
  filter texts and cursors, give pages with the same sequence of angle brackets and quotes.\<close>

theorem list_page_markup_is_fixed:
  assumes "map ml_source rows = map ml_source rows'" and "(older_cursor c = None) = (older_cursor c' = None)"
  shows "markup (renderMessagesList env rows f c b) = markup (renderMessagesList env rows' f' c' b)"
  unfolding renderMessagesList_def page_head_def markup_rules markup_table [OF assms(1)] markup_form [of f f']
    markup_pager [OF assms(2), of f b f'] by (rule refl)

text \<open>Two lists of one row, one of which tries to close the cell and open a script.\<close>

definition plain_render :: render_env where
  "plain_render =
     \<lparr>rn_style = [], rn_fmt = (\<lambda>_. []), rn_num = (\<lambda>_. []), rn_fixed1 = (\<lambda>_. []), rn_locale = (\<lambda>_. []),
      rn_stringify = (\<lambda>_. []), rn_stringify2 = (\<lambda>_. []), rn_String = (\<lambda>_. []), rn_parse = (\<lambda>_. None),
      rn_compare = (\<lambda>_ _. 0), rn_now = []\<rparr>"

definition no_page_filters :: page_filters where
  "no_page_filters = \<lparr>pf_q = [], pf_user = [], pf_model = [], pf_status = All, pf_source = None\<rparr>"

definition scripted_row :: log_row where
  "scripted_row = demo_row\<lparr>ml_userName := ''</td><script>'', lr_preview := ''\" onclick=''\<rparr>"

theorem list_page_markup_is_fixed_witness:
  "markup (renderMessagesList plain_render [demo_row] no_page_filters None False) =
   markup (renderMessagesList plain_render [scripted_row] (no_page_filters\<lparr>pf_q := ''\">''\<rparr>) (Some []) False)"
proof (rule list_page_markup_is_fixed)
  show "map ml_source [demo_row] = map ml_source [scripted_row]" by (simp add: scripted_row_def)
  show "(older_cursor None = None) = (older_cursor (Some []) = None)" by (simp add: older_cursor_def)
qed

end
