(* ===== verification/Dashboard.thy ===== *)
theory Dashboard
  imports MessagesRender TestRunners AdminViews Boot
begin

text \<open>
  \<open>src/src/admin/render.ts\<close>, \<open>page.ts\<close>, \<open>events.ts\<close> and \<open>stats.ts\<close>: the dashboard as HTML text, the
  stream that refreshes it, and the same figures as JSON. Number and date formatting, the clock, the
  style sheet and the script are in the environment; dashes, arrows and signs of the prose are ASCII.
  What the script does is in Toast and EditForm.
\<close>

record dash_env =
  de_style :: string
  de_script :: string
  de_now :: rat
  de_num :: "rat \<Rightarrow> string"
  de_locale :: "rat \<Rightarrow> string"
  de_day :: "int \<Rightarrow> string"
  de_time :: "rat \<Rightarrow> string"
  de_iso :: "rat \<Rightarrow> string"

record api_key_row =
  kw_name :: string
  kw_source :: key_source
  kw_key :: string
  kw_createdAt :: string
  kw_allowed :: "string list option"

type_synonym pool_view = "(string \<times> rat option \<times> rat option \<times> token_meta) list \<times> (string \<times> string) list"

record dash_snapshot =
  ds_pool :: pool_view
  ds_billing :: billing
  ds_guard :: global_guard
  ds_usage :: "(string \<times> (int \<times> rat)) list degradable"
  ds_canary :: canary
  ds_alerts :: alert_config
  ds_keys :: "api_key_row list"
  ds_orgId :: "string option"
  ds_candidate :: "string option"
  ds_candidatePresent :: bool
  ds_template :: string
  ds_bun :: string
  ds_uptime :: int
  ds_time :: rat
  ds_tests :: test_store

subsection \<open>Text and badges\<close>

definition esc_opt :: "string option \<Rightarrow> string" where
  "esc_opt v = esc (or_dash v)"

definition fmtDur :: "int \<Rightarrow> string" where
  "fmtDur s =
     (if s < 60 then int_str s @ ''s''
      else if s < 3600 then int_str (s div 60) @ ''m''
      else if s < 86400 then int_str (s div 3600) @ ''h '' @ int_str ((s mod 3600) div 60) @ ''m''
      else int_str (s div 86400) @ ''d '' @ int_str ((s mod 86400) div 3600) @ ''h'')"

definition fmtAgo :: "dash_env \<Rightarrow> rat option \<Rightarrow> string" where
  "fmtAgo env epochMs =
     (case epochMs of None \<Rightarrow> ''-'' | Some t \<Rightarrow> fmtDur \<lfloor>(de_now env - t) / 1000\<rfloor> @ '' ago'')"

definition muted :: "string \<Rightarrow> string" where
  "muted s = ''<span class=\"badge b-mute\">'' @ s @ ''</span>''"

definition unifiedBadge :: "string option \<Rightarrow> string" where
  "unifiedBadge st =
     (case st of
        Some (c # cs) \<Rightarrow>
          if c # cs = ''allowed'' then ''<span class=\"badge b-good\">'' @ esc (c # cs) @ ''</span>''
          else if c # cs = ''allowed_warning'' then ''<span class=\"badge b-warn\">'' @ esc (c # cs) @ ''</span>''
          else ''<span class=\"badge b-bad\">'' @ esc (c # cs) @ ''</span>''
      | _ \<Rightarrow> muted ''-'')"

definition webhookStatus :: "string option \<Rightarrow> string" where
  "webhookStatus url =
     (case url of
        Some (c # cs) \<Rightarrow> ''<span class=\"badge b-good\">configured</span> <span class=\"tag\">('' @ esc (nat_str (length (c # cs))) @ '' chars)</span>''
      | _ \<Rightarrow> muted ''not set'')"

definition text_or :: "string \<Rightarrow> string option \<Rightarrow> string" where
  "text_or none v = (case v of Some (c # cs) \<Rightarrow> esc (c # cs) | _ \<Rightarrow> muted none)"

subsection \<open>The live region\<close>

definition canaryBadge :: "dash_env \<Rightarrow> canary \<Rightarrow> string" where
  "canaryBadge env c =
     (if \<not> canary_active c then muted ''inactive''
      else if ca_tripped c then ''<span class=\"badge b-bad\">tripped</span>''
      else ''<span class=\"badge b-good\">'' @ esc (de_num env (canary_percent c)) @ ''%</span>'')"

definition usage_row :: "dash_env \<Rightarrow> string \<times> (int \<times> rat) \<Rightarrow> string" where
  "usage_row env u =
     ''<dt>'' @ esc (fst u) @ ''</dt><dd>'' @ esc (de_locale env (snd (snd u))) @ '' tok <span class=\"badge b-mute\">'' @
       esc (de_day env (fst (snd u))) @ ''</span></dd>''"

definition or_else :: "string \<Rightarrow> string \<Rightarrow> string" where
  "or_else d s = (if s = [] then d else s)"

definition usageRows :: "dash_env \<Rightarrow> (string \<times> (int \<times> rat)) list degradable \<Rightarrow> string" where
  "usageRows env u =
     (case u of
        Failed reason \<Rightarrow>
          ''<dt><span class=\"badge b-bad\">unavailable</span></dt><dd>'' @ esc reason @
            ''<div class=\"tag\">per-user usage is the only DB-backed panel; everything else on this page is in-memory and still current.</div></dd>''
      | Ok rows \<Rightarrow>
          or_else ''<dt class=\"tag\" style=\"grid-column:span 2\">no usage yet today</dt><dd></dd>''
            (concat (map (usage_row env) rows)))"

definition modelsBadge :: "string list option \<Rightarrow> string" where
  "modelsBadge allowed =
     (case allowed of
        Some (m # ms) \<Rightarrow>
          '' <span class=\"badge b-warn\" title=\"'' @ esc (join_str '', '' (m # ms)) @ ''\">models: '' @ esc (join_str '', '' (m # ms)) @ ''</span>''
      | _ \<Rightarrow> '' <span class=\"badge b-mute\">any model</span>'')"

definition source_text :: "key_source \<Rightarrow> string" where
  "source_text s = (case s of EnvSource \<Rightarrow> ''env'' | FileSource \<Rightarrow> ''file'')"

definition key_row :: "api_key_row \<Rightarrow> string" where
  "key_row k =
     ''<dt>'' @ esc (kw_name k) @ '' <span class=\"badge b-mute\">'' @ esc (source_text (kw_source k)) @ ''</span></dt><dd>'' @
       esc (take 4 (kw_key k)) @ ellipsis @ esc (slice_last 4 (kw_key k)) @ '' <span class=\"tag\">'' @ esc (kw_createdAt k) @ ''</span>'' @
       modelsBadge (kw_allowed k) @ '' <form action=\"/admin/keys/'' @ esc (kw_name k) @
       ''/revoke\" method=\"post\" style=\"display:inline;margin-left:.5rem\"><button class=\"logout\" type=\"submit\">revoke</button></form></dd>''"

definition keyRows :: "api_key_row list \<Rightarrow> string" where
  "keyRows ks =
     or_else ''<dt class=\"tag\" style=\"grid-column:span 2\">no keys configured</dt><dd></dd>'' (concat (map key_row ks))"

definition snapshotControls :: "bool \<Rightarrow> string" where
  "snapshotControls candidate =
     (if candidate then ''<form action=\"/admin/snapshot/promote\" method=\"post\" style=\"display:inline\"><button type=\"submit\">promote candidate - stable</button></form> <form action=\"/admin/snapshot/rollback\" method=\"post\" style=\"display:inline\"><button type=\"submit\" class=\"logout\">rollback (delete candidate)</button></form>''
      else muted ''no candidate snapshot present'')"

definition fmtExpiresAt :: "dash_env \<Rightarrow> rat \<Rightarrow> string" where
  "fmtExpiresAt env epochMs =
     (if epochMs \<le> 0 then ''<span class=\"badge b-warn\">force on next call</span>''
      else
        let remainingSec = \<lfloor>(epochMs - de_now env) / 1000\<rfloor> in
        if remainingSec \<le> 0 then ''<span class=\"badge b-bad\">expired '' @ fmtDur (- remainingSec) @ '' ago</span>''
        else ''<span class=\"badge b-good\">'' @ esc (fmtDur remainingSec) @ '' left</span>'')"

definition access_suffix :: "string option \<Rightarrow> string" where
  "access_suffix v = (case v of Some (c # cs) \<Rightarrow> ellipsis @ esc (c # cs) | _ \<Rightarrow> muted ''not minted'')"

definition token_row :: "dash_env \<Rightarrow> string \<times> rat option \<times> rat option \<times> token_meta \<Rightarrow> string" where
  "token_row env m =
     (case m of (name, remaining, seenAt, meta) \<Rightarrow>
       ''<dt>'' @ esc name @ ''</dt><dd>rt: '' @ ellipsis @ esc (tm_refreshSuffix meta) @ '' - at: '' @ access_suffix (tm_accessSuffix meta) @
         '' <span class=\"tag\">'' @ fmtExpiresAt env (tm_expiresAt meta) @ ''</span></dd>'')"

definition renderTestResult :: "dash_env \<Rightarrow> string \<Rightarrow> test_result option \<Rightarrow> string" where
  "renderTestResult env label r =
     (case r of
        None \<Rightarrow> ''<dt>'' @ esc label @ ''</dt><dd><span class=\"badge b-mute\">not run</span></dd>''
      | Some t \<Rightarrow>
          ''<dt>'' @ esc label @ ''</dt><dd>'' @
            (if tr_ok t then ''<span class=\"badge b-good\">ok</span>'' else ''<span class=\"badge b-bad\">fail</span>'') @
            '' <span class=\"tag\">'' @ esc (fmtAgo env (Some (tr_at t))) @ ''</span><br><code>'' @ esc (tr_summary t) @
            ''</code><br><details><summary class=\"tag\">detail</summary><pre style=\"white-space:pre-wrap;margin:.4rem 0 0 0;font-size:.72rem\">'' @
            esc (tr_detail t) @ ''</pre></details></dd>'')"

definition degradedBanner :: "(string \<times> (int \<times> rat)) list degradable \<Rightarrow> string" where
  "degradedBanner u =
     (case u of
        Ok rows \<Rightarrow> []
      | Failed reason \<Rightarrow>
          ''<section style=\"grid-column:1/-1;border-color:var(--bad)\">'' @ nl @ ''    <h2 style=\"color:var(--bad)\">degraded</h2>'' @ nl @ ''    <div>database-backed panels are unavailable - <code>'' @ esc reason @ ''</code></div>'' @ nl @ ''    <div class=\"tag\">Proxy traffic may also be affected: per-key quota checks and the'' @ nl @ ''    messages log share this database. Check <code>docker logs claude-for-you</code> and the'' @ nl @ ''    RDS instance state.</div>'' @ nl @ ''  </section>'')"

definition billing_panel :: "dash_env \<Rightarrow> billing \<Rightarrow> string" where
  "billing_panel env b =
     (let lastObs = bm_lastObservation b in
      nl @ ''  <section>'' @ nl @ ''    <h2>billing health</h2>'' @ nl @ ''    <dl class=\"kv\">'' @ nl @ ''      <dt>service_tier</dt><dd>'' @ tierBadge (Option.bind lastObs bo_serviceTier) @ ''</dd>'' @ nl @ ''      <dt>unified-status</dt><dd>'' @ unifiedBadge (Option.bind lastObs bo_unifiedStatus) @ ''</dd>'' @ nl @ ''      <dt>representative claim</dt><dd>'' @ esc_opt (Option.bind lastObs bo_representativeClaim) @ ''</dd>'' @ nl @ ''      <dt>last observation</dt><dd>'' @ esc (fmtAgo env (map_option bo_observedAt lastObs)) @ ''</dd>'' @ nl @ ''      <dt>non-standard count</dt><dd>'' @ esc (nat_str (bm_nonStandardCount b)) @ ''</dd>'' @ nl @ ''      <dt>last alarm</dt><dd>'' @ esc (fmtAgo env (bm_lastAlarmAt b)) @ ''</dd>'' @ nl @ ''    </dl>'' @ nl @ ''  </section>'')"

definition member_row :: "dash_env \<Rightarrow> string \<times> rat option \<times> rat option \<times> token_meta \<Rightarrow> string" where
  "member_row env m =
     (case m of (name, remaining, seenAt, meta) \<Rightarrow>
       ''<dt>'' @ esc name @ ''</dt><dd>remaining: '' @
         (case remaining of Some n \<Rightarrow> esc (de_locale env n) | None \<Rightarrow> muted ''unknown'') @
         '' <span class=\"tag\">'' @ esc (fmtAgo env seenAt) @ ''</span></dd>'')"

definition pool_panel :: "dash_env \<Rightarrow> pool_view \<Rightarrow> string" where
  "pool_panel env p =
     nl @ ''  <section>'' @ nl @ ''    <h2>account pool</h2>'' @ nl @ ''    <dl class=\"kv\">'' @ nl @ ''      '' @ concat (map (member_row env) (fst p)) @ nl @ ''      <dt>session sticks</dt><dd>'' @ esc (nat_str (length (snd p))) @ '' active</dd>'' @ nl @ ''    </dl>'' @ nl @ ''  </section>''"

definition guard_panel :: "dash_env \<Rightarrow> global_guard \<Rightarrow> string" where
  "guard_panel env g =
     nl @ ''  <section>'' @ nl @ ''    <h2>subscription headroom</h2>'' @ nl @ ''    <dl class=\"kv\">'' @ nl @ ''      <dt>remaining tokens</dt><dd>'' @ esc_opt (map_option (de_locale env) (gg_remaining g)) @ ''</dd>'' @ nl @ ''      <dt>observed</dt><dd>'' @ esc (fmtAgo env (gg_observedAt g)) @ ''</dd>'' @ nl @ ''    </dl>'' @ nl @ ''  </section>''"

definition learner_panel :: "string option \<Rightarrow> string" where
  "learner_panel orgId =
     nl @ ''  <section>'' @ nl @ ''    <h2>account learner</h2>'' @ nl @ ''    <dl class=\"kv\">'' @ nl @ ''      <dt>org id</dt>'' @ nl @ ''      <dd>'' @ text_or ''not learned yet'' orgId @ ''</dd>'' @ nl @ ''    </dl>'' @ nl @ ''  </section>''"

definition canary_panel :: "dash_env \<Rightarrow> canary \<Rightarrow> string option \<Rightarrow> string" where
  "canary_panel env c candidate =
     nl @ ''  <section>'' @ nl @ ''    <h2>canary</h2>'' @ nl @ ''    <dl class=\"kv\">'' @ nl @ ''      <dt>status</dt><dd>'' @ canaryBadge env c @ ''</dd>'' @ nl @ ''      <dt>candidate</dt><dd>'' @ text_or ''none'' candidate @ ''</dd>'' @ nl @ ''      <dt>candidate reqs</dt><dd>'' @ esc (nat_str (ca_candidateRequests c)) @ ''</dd>'' @ nl @ ''      <dt>stable reqs</dt><dd>'' @ esc (nat_str (ca_stableRequests c)) @ ''</dd>'' @ nl @ ''      <dt>tripped at</dt><dd>'' @ esc (fmtAgo env (ca_trippedAt c)) @ ''</dd>'' @ nl @ ''      <dt>tripped reason</dt><dd>'' @ esc_opt (ca_trippedReason c) @ ''</dd>'' @ nl @ ''    </dl>'' @ nl @ ''  </section>''"

definition keys_panel :: "api_key_row list \<Rightarrow> string" where
  "keys_panel ks =
     nl @ ''  <section>'' @ nl @ ''    <h2>api keys</h2>'' @ nl @ ''    <dl class=\"kv\">'' @ keyRows ks @ ''</dl>'' @ nl @ ''    <p class=\"tag\" style=\"margin-top:.7rem\">Create with: <code>curl -u admin:KEY -H 'content-type: application/json' -X POST /admin/keys -d '{\"name\":\"newuser\"}'</code></p>'' @ nl @ ''  </section>''"

definition snapshot_panel :: "bool \<Rightarrow> string" where
  "snapshot_panel candidate =
     nl @ ''  <section>'' @ nl @ ''    <h2>snapshot promote/rollback</h2>'' @ nl @ ''    <p class=\"tag\">'' @ snapshotControls candidate @ ''</p>'' @ nl @ ''    <p class=\"tag\" style=\"margin-top:.7rem\">! Both actions require <code>docker compose restart app</code> to take effect.</p>'' @ nl @ ''  </section>''"

definition token_panel :: "dash_env \<Rightarrow> pool_view \<Rightarrow> string" where
  "token_panel env p =
     nl @ ''  <section>'' @ nl @ ''    <h2>token store</h2>'' @ nl @ ''    <dl class=\"kv\">'' @ concat (map (token_row env) (fst p)) @ ''</dl>'' @ nl @ ''    <p class=\"tag\" style=\"margin-top:.7rem\">Suffix-only - paste a fresh RT via the rotation form below if a row looks stale.</p>'' @ nl @ ''  </section>''"

definition tests_panel :: "dash_env \<Rightarrow> test_store \<Rightarrow> string" where
  "tests_panel env t =
     nl @ ''  <section>'' @ nl @ ''    <h2>self-test results</h2>'' @ nl @ ''    <dl class=\"kv\">'' @ nl @ ''      '' @ renderTestResult env ''oauth refresh'' (t OAuthProbeTest) @ nl @ ''      '' @ renderTestResult env ''self-ping'' (t SelfPingTest) @ nl @ ''      '' @ renderTestResult env ''key invoke'' (t KeyInvokeTest) @ nl @ ''      '' @ renderTestResult env ''upstream direct'' (t UpstreamDirectTest) @ nl @ ''      '' @ renderTestResult env ''verify entitlement'' (t VerifyEntitlementTest) @ nl @ ''    </dl>'' @ nl @ ''  </section>''"

definition usage_panel :: "dash_env \<Rightarrow> (string \<times> (int \<times> rat)) list degradable \<Rightarrow> string" where
  "usage_panel env u =
     nl @ ''  <section style=\"grid-column: 1 / -1\">'' @ nl @ ''    <h2>per-user usage (UTC today)</h2>'' @ nl @ ''    <dl class=\"kv\">'' @ usageRows env u @ ''</dl>'' @ nl @ ''  </section>''"

definition renderLiveSections :: "dash_env \<Rightarrow> dash_snapshot \<Rightarrow> string" where
  "renderLiveSections env s =
     degradedBanner (ds_usage s) @ billing_panel env (ds_billing s) @ pool_panel env (ds_pool s) @ guard_panel env (ds_guard s) @
     learner_panel (ds_orgId s) @ canary_panel env (ds_canary s) (ds_candidate s) @ keys_panel (ds_keys s) @
     snapshot_panel (ds_candidatePresent s) @ token_panel env (ds_pool s) @ tests_panel env (ds_tests s) @ usage_panel env (ds_usage s)"

subsection \<open>The forms\<close>

definition name_option :: "nat \<times> string \<Rightarrow> string" where
  "name_option im =
     ''<option value=\"'' @ esc (snd im) @ ''\"'' @ selected (fst im = 0) @ ''>'' @ esc (snd im) @ ''</option>''"

definition name_options :: "string list \<Rightarrow> string" where
  "name_options ns = concat (map name_option (zip [0..<length ns] ns))"

definition selectStyle :: string where
  "selectStyle = ''font-family:inherit;font-size:.8rem;padding:.4rem .55rem;background:var(--bg);color:var(--text);border:1px solid var(--border);border-radius:3px''"

definition invoke_form :: "api_key_row list \<Rightarrow> string" where
  "invoke_form ks =
     (let keyOptions = name_options (map kw_name ks) in
      if length keyOptions > 0
      then ''<form class=\"stack\" action=\"/admin/test/key-invoke\" method=\"post\">'' @ nl @ ''      <label for=\"invoke-key\">key invoke <span class=\"tag\">(authenticates as the chosen key)</span></label>'' @ nl @ ''      <select id=\"invoke-key\" name=\"keyName\" style=\"'' @ selectStyle @ ''\">'' @ keyOptions @ ''</select>'' @ nl @ ''      <input id=\"invoke-model\" type=\"text\" name=\"model\" placeholder=\"claude-sonnet-4-6\" value=\"claude-sonnet-4-6\">'' @ nl @ ''      <button type=\"submit\">invoke as key</button>'' @ nl @ ''    </form>''
      else ''<p class=\"tag\" style=\"margin-top:.5rem\">No keys to invoke - add one via <code>/admin/keys</code> first.</p>'')"

definition test_forms :: "dash_snapshot \<Rightarrow> string" where
  "test_forms s =
     nl @ ''  <section>'' @ nl @ ''    <h2>self-test</h2>'' @ nl @ ''    <p class=\"tag\">Operator-triggered probes. Results appear in the live region above.</p>'' @ nl @ ''    <form class=\"stack\" action=\"/admin/test/oauth-probe\" method=\"post\">'' @ nl @ ''      <label for=\"probe-member\">oauth refresh probe</label>'' @ nl @ ''      <select id=\"probe-member\" name=\"memberName\" style=\"'' @ selectStyle @ ''\">'' @ name_options (map fst (fst (ds_pool s))) @ ''</select>'' @ nl @ ''      <button type=\"submit\">forceRefresh</button>'' @ nl @ ''    </form>'' @ nl @ ''    <form class=\"stack\" action=\"/admin/test/self-ping\" method=\"post\">'' @ nl @ ''      <label for=\"ping-model\">self-ping <span class=\"tag\">(loops through this proxy)</span></label>'' @ nl @ ''      <input id=\"ping-model\" type=\"text\" name=\"model\" placeholder=\"claude-sonnet-4-6\" value=\"claude-sonnet-4-6\">'' @ nl @ ''      <button type=\"submit\">send pong</button>'' @ nl @ ''    </form>'' @ nl @ ''    '' @ invoke_form (ds_keys s) @ nl @ ''    <form class=\"stack\" action=\"/admin/test/upstream-direct\" method=\"post\">'' @ nl @ ''      <label for=\"direct-model\">upstream direct <span class=\"tag\">(bypasses proxy template - minimal headers)</span></label>'' @ nl @ ''      <input id=\"direct-model\" type=\"text\" name=\"model\" placeholder=\"claude-sonnet-4-6\" value=\"claude-sonnet-4-6\">'' @ nl @ ''      <button type=\"submit\">call api.anthropic.com</button>'' @ nl @ ''    </form>'' @ nl @ ''    <form class=\"stack\" action=\"/admin/test/verify-entitlement\" method=\"post\">'' @ nl @ ''      <label for=\"verify-model\">verify entitlement <span class=\"tag\">(sonnet/opus only - id form claude-(sonnet|opus)-X-Y, e.g. claude-sonnet-4-6. 2 calls compare with/without CC identity marker, see docs/cc-wire-reference.md section 8)</span></label>'' @ nl @ ''      <input id=\"verify-model\" type=\"text\" name=\"model\" placeholder=\"claude-sonnet-4-6\" value=\"claude-sonnet-4-6\">'' @ nl @ ''      <button type=\"submit\">probe marker</button>'' @ nl @ ''    </form>'' @ nl @ ''  </section>''"

definition issue_form :: string where
  "issue_form =
     nl @ ''  <section>'' @ nl @ ''    <h2>issue api key</h2>'' @ nl @ ''    <p class=\"tag\">Server-generated key shown ONCE on success - copy it to the user before the panel re-renders.</p>'' @ nl @ ''    <form class=\"stack\" action=\"/admin/keys\" method=\"post\">'' @ nl @ ''      <label for=\"newkey-name\">name <span class=\"tag\">(no spaces/colons/commas)</span></label>'' @ nl @ ''      <input id=\"newkey-name\" type=\"text\" name=\"name\" required minlength=\"1\" autocomplete=\"off\">'' @ nl @ ''      <label for=\"newkey-models\">allowedModels <span class=\"tag\">(optional, comma-separated; empty = no restriction; max '' @ nat_str MAX_ALLOWED_MODELS_PER_KEY @ '' entries, each pattern at most '' @ nat_str MAX_MODEL_PATTERN_LENGTH @ '' chars)</span></label>'' @ nl @ ''      <input id=\"newkey-models\" type=\"text\" name=\"allowedModels\" placeholder=\"claude-haiku-*, claude-sonnet-4-6\" autocomplete=\"off\">'' @ nl @ ''      <button type=\"submit\">issue key</button>'' @ nl @ ''    </form>'' @ nl @ ''  </section>''"

definition edit_form_html :: "api_key_row list \<Rightarrow> string" where
  "edit_form_html ks =
     (case filter (\<lambda>k. kw_source k = FileSource) ks of
        [] \<Rightarrow>
          nl @ ''  <section>'' @ nl @ ''    <h2>edit api key</h2>'' @ nl @ ''    <p class=\"tag\">No file-issued keys to edit. Env-baked keys cannot be modified here - change <code>API_KEYS</code> (format: <code>name1:key1,name2:key2</code>) and restart the proxy so the new env is read (Docker Compose: <code>docker compose restart app</code> - systemd: <code>systemctl restart claude-for-you</code> - Kubernetes: <code>kubectl rollout restart deploy/claude-for-you</code> - bare bun: restart the process). To avoid env redeploys, set <code>API_KEYS_PATH</code> and issue file-backed keys via the form above. See <a href=\"https://github.com/jaeyeonling/claude-for-you/blob/main/docs/user-guide.md#api-keys\" style=\"color:var(--accent)\">docs/user-guide.md</a> for the full key layout.</p>'' @ nl @ ''  </section>''
      | first # editable \<Rightarrow>
          nl @ ''  <section>'' @ nl @ ''    <h2>edit api key</h2>'' @ nl @ ''    <p class=\"tag\">Rename or change <code>allowedModels</code> on a file-issued key. An empty <code>allowedModels</code> field removes the restriction (any model allowed).</p>'' @ nl @ ''    <noscript><p class=\"tag\" style=\"color:var(--bad)\">! JavaScript is required to edit keys safely - the selector and prefilled inputs stay in sync via JS. Enable JS, or edit the keystore file on disk directly (path = whatever <code>API_KEYS_PATH</code> points to; no default - operator-supplied).</p></noscript>'' @ nl @ ''    <form id=\"edit-key-form\" class=\"stack\" action=\"/admin/keys/'' @ esc (kw_name first) @ ''/update\" method=\"post\">'' @ nl @ ''      <label for=\"edit-key-target\">key</label>'' @ nl @ ''      <select id=\"edit-key-target\" style=\"'' @ selectStyle @ ''\">'' @ name_options (map kw_name (first # editable)) @ ''</select>'' @ nl @ ''      <label for=\"edit-key-name\">name <span class=\"tag\">(locked - tick the <strong style=\"color:var(--accent)\">rename</strong> checkbox on the right to edit)</span></label>'' @ nl @ ''      <div style=\"display:flex;align-items:center;gap:.6rem\">'' @ nl @ ''        <input id=\"edit-key-name\" type=\"text\" name=\"name\" value=\"'' @ esc (kw_name first) @ ''\" autocomplete=\"off\" readonly style=\"flex:1\">'' @ nl @ ''        <label style=\"display:flex;align-items:center;gap:.3rem;font-size:.72rem;color:var(--muted);text-transform:uppercase;letter-spacing:.06em;cursor:pointer\">'' @ nl @ ''          <input id=\"edit-key-rename-toggle\" type=\"checkbox\" style=\"margin:0\">'' @ nl @ ''          rename'' @ nl @ ''        </label>'' @ nl @ ''      </div>'' @ nl @ ''      <label for=\"edit-key-models\">allowedModels <span class=\"tag\">(comma-separated; empty = no restriction; max '' @ nat_str MAX_ALLOWED_MODELS_PER_KEY @ '' entries, each pattern at most '' @ nat_str MAX_MODEL_PATTERN_LENGTH @ '' chars)</span></label>'' @ nl @ ''      <input id=\"edit-key-models\" type=\"text\" name=\"allowedModels\" value=\"'' @ esc (case kw_allowed first of Some ms \<Rightarrow> join_str '', '' ms | None \<Rightarrow> []) @ ''\" placeholder=\"claude-haiku-*, claude-sonnet-4-6\" autocomplete=\"off\">'' @ nl @ ''      <div style=\"display:flex;align-items:center;gap:.6rem\">'' @ nl @ ''        <button id=\"edit-key-save\" type=\"submit\" disabled>save</button>'' @ nl @ ''        <span id=\"edit-key-status\" class=\"tag\" aria-live=\"polite\">loading key data...</span>'' @ nl @ ''      </div>'' @ nl @ ''    </form>'' @ nl @ ''  </section>'')"

definition oauth_form :: "pool_view \<Rightarrow> string" where
  "oauth_form p =
     nl @ ''  <section>'' @ nl @ ''    <h2>oauth token rotation</h2>'' @ nl @ ''    <p class=\"tag\">Paste a fresh refresh token. The next request triggers a refresh and writes a new access token to disk.</p>'' @ nl @ ''    <form class=\"stack\" action=\"/admin/oauth/replace\" method=\"post\">'' @ nl @ ''      <label for=\"oauth-member\">pool member</label>'' @ nl @ ''      <select id=\"oauth-member\" name=\"memberName\" style=\"font-family:inherit;font-size:.8rem;padding:.4rem .55rem;background:var(--bg);color:var(--text);border:1px solid var(--border);border-radius:3px\">'' @ name_options (map fst (fst p)) @ ''</select>'' @ nl @ ''      <label for=\"oauth-refresh\">refresh token <span class=\"tag\">(required)</span></label>'' @ nl @ ''      <input id=\"oauth-refresh\" type=\"password\" name=\"refreshToken\" placeholder=\"sk-ant-ort01-...\" autocomplete=\"off\" required minlength=\"32\">'' @ nl @ ''      <label for=\"oauth-access\">access token <span class=\"tag\">(optional - leave blank to mint via next request)</span></label>'' @ nl @ ''      <input id=\"oauth-access\" type=\"password\" name=\"accessToken\" placeholder=\"sk-ant-oat01-...\" autocomplete=\"off\">'' @ nl @ ''      <button type=\"submit\">replace tokens</button>'' @ nl @ ''    </form>'' @ nl @ ''  </section>''"

definition webhook_forms :: "alert_config \<Rightarrow> string" where
  "webhook_forms a =
     nl @ ''  <section>'' @ nl @ ''    <h2>alert webhooks</h2>'' @ nl @ ''    <dl class=\"kv\">'' @ nl @ ''      <dt>discord</dt><dd>'' @ webhookStatus (ac_discord a) @ ''</dd>'' @ nl @ ''      <dt>slack</dt><dd>'' @ webhookStatus (ac_slack a) @ ''</dd>'' @ nl @ ''    </dl>'' @ nl @ ''    <form class=\"stack\" action=\"/admin/alerts/discord\" method=\"post\">'' @ nl @ ''      <label for=\"discord-url\">discord webhook url <span class=\"tag\">(empty = clear)</span></label>'' @ nl @ ''      <input id=\"discord-url\" type=\"url\" name=\"url\" placeholder=\"https://discord.com/api/webhooks/...\">'' @ nl @ ''      <button type=\"submit\">update discord</button>'' @ nl @ ''    </form>'' @ nl @ ''    <form class=\"stack\" action=\"/admin/alerts/slack\" method=\"post\">'' @ nl @ ''      <label for=\"slack-url\">slack webhook url <span class=\"tag\">(empty = clear)</span></label>'' @ nl @ ''      <input id=\"slack-url\" type=\"url\" name=\"url\" placeholder=\"https://hooks.slack.com/services/...\">'' @ nl @ ''      <button type=\"submit\">update slack</button>'' @ nl @ ''    </form>'' @ nl @ ''  </section>''"

definition renderFormSections :: "dash_snapshot \<Rightarrow> string" where
  "renderFormSections s =
     test_forms s @ issue_form @ edit_form_html (ds_keys s) @ oauth_form (ds_pool s) @ webhook_forms (ds_alerts s)"

definition renderAdminError :: "dash_env \<Rightarrow> rat \<Rightarrow> string" where
  "renderAdminError env now =
     ''<!doctype html>'' @ nl @ ''<html lang=\"en\"><head>'' @ nl @ ''<meta charset=\"utf-8\">'' @ nl @ ''<title>claude-for-you - admin (error)</title>'' @ nl @ ''<style>'' @ de_style env @ ''</style>'' @ nl @ ''</head><body>'' @ nl @ ''<header><h1>claude-for-you - admin</h1><span class=\"tag\">unhandled error</span></header>'' @ nl @ ''<main>'' @ nl @ ''  <section style=\"grid-column:1/-1;border-color:var(--bad)\">'' @ nl @ ''    <h2 style=\"color:var(--bad)\">this page failed to render</h2>'' @ nl @ ''    <p>The proxy itself may still be serving traffic - this failure is scoped to the'' @ nl @ ''    admin surface.</p>'' @ nl @ ''    <p class=\"tag\">Timestamp: <code>'' @ esc (de_iso env now) @ ''</code>. The redacted'' @ nl @ ''    message and stack trace were written to the container log; find them with'' @ nl @ ''    <code>docker logs --since 5m claude-for-you</code>. Known cause from'' @ nl @ ''    2026-07-30: the database ran out of storage'' @ nl @ ''    (<code>docs/operational-pitfalls.md</code> section 22).</p>'' @ nl @ ''    <p><a href=\"/admin\" style=\"color:var(--accent)\">retry</a></p>'' @ nl @ ''  </section>'' @ nl @ ''</main>'' @ nl @ ''</body></html>''"

definition renderAdminHtml :: "dash_env \<Rightarrow> dash_snapshot \<Rightarrow> string" where
  "renderAdminHtml env s =
     ''<!doctype html>'' @ nl @ ''<html lang=\"en\"><head>'' @ nl @ ''<meta charset=\"utf-8\">'' @ nl @ ''<title>claude-for-you - admin</title>'' @ nl @ ''<style>'' @ de_style env @ ''</style>'' @ nl @ ''</head><body>'' @ nl @ ''<header>'' @ nl @ ''  <h1>claude-for-you - admin</h1>'' @ nl @ ''  <span class=\"tag\">bun '' @ esc (ds_bun s) @ '' - uptime '' @ esc (fmtDur (ds_uptime s)) @ ''</span>'' @ nl @ ''  <span class=\"tag\" style=\"flex:1\">'' @ esc (ds_template s) @ ''</span>'' @ nl @ ''  <a href=\"/admin/messages\" style=\"color:var(--accent);text-decoration:none;font-size:.82rem\">messages -</a>'' @ nl @ ''</header>'' @ nl @ ''<main>'' @ nl @ ''  <div id=\"live-region\" style=\"display:contents\">'' @ renderLiveSections env s @ ''</div>'' @ nl @ ''  '' @ renderFormSections s @ nl @ ''</main>'' @ nl @ ''<footer>'' @ nl @ ''  <span><span id=\"live-status\" class=\"badge b-mute\">connecting...</span></span>'' @ nl @ ''  <span>'' @ esc (de_time env (ds_time s)) @ ''</span>'' @ nl @ ''</footer>'' @ nl @ ''<script>'' @ de_script env @ ''</script>'' @ nl @ ''</body></html>''"

subsection \<open>The handlers\<close>

text \<open>What the handlers read: the parts of the program, and the outcome of the tracker's \<open>snapshot\<close>.\<close>

record 'm dash_parts =
  dp_snapshot :: "'m \<Rightarrow> token_state"
  dp_pool :: "'m pool"
  dp_billing :: billing
  dp_guard :: global_guard
  dp_usage :: "(string \<times> (int \<times> rat)) list result"
  dp_canary :: canary
  dp_alerts :: alert_config
  dp_keys :: "key_record list"
  dp_orgId :: "string option"
  dp_candidate :: "string option"
  dp_candidatePresent :: bool
  dp_template :: string
  dp_bun :: string
  dp_startedAt :: rat
  dp_now :: rat
  dp_tests :: test_store

definition key_row_of :: "key_record \<Rightarrow> api_key_row" where
  "key_row_of e =
     \<lparr>kw_name = kr_name e, kw_source = kr_source e, kw_key = kr_key e, kw_createdAt = kr_createdAt e, kw_allowed = kr_allowed e\<rparr>"

definition uptime_sec :: "'m dash_parts \<Rightarrow> int" where
  "uptime_sec p = \<lfloor>(dp_now p - dp_startedAt p) / 1000\<rfloor>"

definition page_snapshot :: "'m dash_parts \<Rightarrow> dash_snapshot" where
  "page_snapshot p =
     \<lparr>ds_pool = pool_snapshot (dp_snapshot p) (dp_pool p), ds_billing = dp_billing p, ds_guard = dp_guard p,
      ds_usage = attempt (dp_usage p), ds_canary = dp_canary p, ds_alerts = dp_alerts p,
      ds_keys = map key_row_of (dp_keys p), ds_orgId = dp_orgId p, ds_candidate = dp_candidate p,
      ds_candidatePresent = dp_candidatePresent p, ds_template = dp_template p, ds_bun = dp_bun p,
      ds_uptime = uptime_sec p, ds_time = dp_now p, ds_tests = dp_tests p\<rparr>"

definition admin_html :: "dash_env \<Rightarrow> 'm dash_parts \<Rightarrow> string" where
  "admin_html env p = renderAdminHtml env (page_snapshot p)"

text \<open>One turn of the stream's loop per element: the parts as this turn finds them, until the first turn
  at which the stream is aborted or closed.\<close>

definition live_message :: "dash_env \<Rightarrow> 'm dash_parts \<Rightarrow> json" where
  "live_message env p = JObj [(''html'', JStr (renderLiveSections env (page_snapshot p)))]"

fun admin_events :: "(bool \<times> dash_env \<times> 'm dash_parts) list \<Rightarrow> json list" where
  "admin_events [] = []"
| "admin_events ((ended, env, p) # turns) = (if ended then [] else live_message env p # admin_events turns)"

definition num_or_null :: "rat option \<Rightarrow> json" where
  "num_or_null v = (case v of Some n \<Rightarrow> JNum n | None \<Rightarrow> JNull)"

definition text_or_null :: "string option \<Rightarrow> json" where
  "text_or_null v = (case v of Some s \<Rightarrow> JStr s | None \<Rightarrow> JNull)"

definition member_json :: "string \<times> rat option \<times> rat option \<times> token_meta \<Rightarrow> json" where
  "member_json m =
     (case m of (name, remaining, seenAt, meta) \<Rightarrow>
       JObj [(''name'', JStr name), (''remainingTokens'', num_or_null remaining), (''remainingObservedAt'', num_or_null seenAt),
             (''tokenMeta'', JObj [(''refreshTokenSuffix'', JStr (tm_refreshSuffix meta)),
               (''accessTokenSuffix'', text_or_null (tm_accessSuffix meta)), (''accessTokenExpiresAt'', JNum (tm_expiresAt meta))])])"

definition observation_json :: "billing_observation option \<Rightarrow> json" where
  "observation_json ob =
     (case ob of
        None \<Rightarrow> JNull
      | Some b \<Rightarrow> JObj [(''serviceTier'', text_or_null (bo_serviceTier b)), (''unifiedStatus'', text_or_null (bo_unifiedStatus b)),
          (''representativeClaim'', text_or_null (bo_representativeClaim b)), (''observedAt'', JNum (bo_observedAt b))])"

definition usage_json :: "dash_env \<Rightarrow> string \<times> (int \<times> rat) \<Rightarrow> string \<times> json" where
  "usage_json env u = (fst u, JObj [(''day'', JStr (de_day env (fst (snd u)))), (''tokens'', JNum (snd (snd u)))])"

definition stats_json :: "dash_env \<Rightarrow> 'm dash_parts \<Rightarrow> obj" where
  "stats_json env p =
     (let pool = pool_snapshot (dp_snapshot p) (dp_pool p); c = dp_canary p; usage = attempt (dp_usage p) in
      [(''server'', JObj [(''uptimeSec'', JNum (of_int (uptime_sec p))), (''runtime'', JStr (''bun '' @ dp_bun p)),
         (''template'', JStr (dp_template p))]),
       (''accountPool'', JObj [(''members'', JArr (map member_json (fst pool))),
         (''sessionAssignments'', JObj (map (\<lambda>sm. (fst sm, JStr (snd sm))) (snd pool)))]),
       (''billing'', JObj [(''lastObservation'', observation_json (bm_lastObservation (dp_billing p))),
         (''nonStandardCount'', JNum (of_nat (bm_nonStandardCount (dp_billing p)))),
         (''lastAlarmAt'', num_or_null (bm_lastAlarmAt (dp_billing p)))]),
       (''subscriptionHeadroom'', JObj [(''remainingTokens'', num_or_null (gg_remaining (dp_guard p))),
         (''observedAt'', num_or_null (gg_observedAt (dp_guard p)))]),
       (''accountLearner'', JObj [(''currentOrgId'', text_or_null (dp_orgId p))]),
       (''canary'', JObj [(''active'', JBool (canary_active c)), (''percent'', JNum (canary_percent c)), (''tripped'', JBool (ca_tripped c)),
         (''trippedAt'', num_or_null (ca_trippedAt c)), (''trippedReason'', text_or_null (ca_trippedReason c)),
         (''candidateRequests'', JNum (of_nat (ca_candidateRequests c))), (''stableRequests'', JNum (of_nat (ca_stableRequests c))),
         (''candidateDescription'', text_or_null (dp_candidate p))]),
       (''perUserUsage'', case usage of Ok rows \<Rightarrow> JObj (map (usage_json env) rows) | Failed _ \<Rightarrow> JNull),
       (''degraded'', case usage of Ok rows \<Rightarrow> JArr []
         | Failed reason \<Rightarrow> JArr [JObj [(''dependency'', JStr ''perUserUsage''), (''reason'', JStr reason)]])])"

subsection \<open>What the dashboard shows of a secret\<close>

text \<open>Two states that an operator may not tell apart: the keys agree in everything but the middle of their
  text, the members' tokens in their last four characters and expiry, the alert addresses in their length.\<close>

definition same_key :: "key_record \<Rightarrow> key_record \<Rightarrow> bool" where
  "same_key e e' =
     (kr_name e = kr_name e' \<and> kr_source e = kr_source e' \<and> kr_createdAt e = kr_createdAt e' \<and> kr_allowed e = kr_allowed e' \<and>
      take 4 (kr_key e) = take 4 (kr_key e') \<and> slice_last 4 (kr_key e) = slice_last 4 (kr_key e'))"

definition same_tokens :: "token_state \<Rightarrow> token_state \<Rightarrow> bool" where
  "same_tokens t t' =
     (token_suffix (ts_refresh t) = token_suffix (ts_refresh t') \<and> token_suffix (ts_access t) = token_suffix (ts_access t') \<and>
      (ts_access t = []) = (ts_access t' = []) \<and> ts_expires t = ts_expires t')"

definition same_member :: "'m dash_parts \<Rightarrow> 'm dash_parts \<Rightarrow> 'm pool_member \<Rightarrow> 'm pool_member \<Rightarrow> bool" where
  "same_member p p' m m' =
     (pm_name m = pm_name m' \<and> pm_remaining m = pm_remaining m' \<and> pm_observedAt m = pm_observedAt m' \<and>
      same_tokens (dp_snapshot p (pm_oauth m)) (dp_snapshot p' (pm_oauth m')))"

definition same_address :: "string option \<Rightarrow> string option \<Rightarrow> bool" where
  "same_address u u' = (map_option length u = map_option length u')"

definition same_shown :: "'m dash_parts \<Rightarrow> 'm dash_parts \<Rightarrow> bool" where
  "same_shown p p' =
     (list_all2 same_key (dp_keys p) (dp_keys p') \<and>
      list_all2 (same_member p p') (pl_members (dp_pool p)) (pl_members (dp_pool p')) \<and>
      pl_sessions (dp_pool p) = pl_sessions (dp_pool p') \<and>
      same_address (ac_discord (dp_alerts p)) (ac_discord (dp_alerts p')) \<and>
      same_address (ac_slack (dp_alerts p)) (ac_slack (dp_alerts p')) \<and>
      (dp_billing p, dp_guard p, dp_usage p, dp_canary p, dp_orgId p, dp_candidate p, dp_candidatePresent p) =
      (dp_billing p', dp_guard p', dp_usage p', dp_canary p', dp_orgId p', dp_candidate p', dp_candidatePresent p') \<and>
      (dp_template p, dp_bun p, dp_startedAt p, dp_now p, dp_tests p) =
      (dp_template p', dp_bun p', dp_startedAt p', dp_now p', dp_tests p'))"

lemma webhook_by_length: "same_address u u' \<Longrightarrow> webhookStatus u = webhookStatus u'"
proof -
  have sized: "webhookStatus u = (if u = None \<or> u = Some [] then muted ''not set''
      else webhookStatus (Some (replicate (length (the u)) CHR ''x'')))" for u
    unfolding webhookStatus_def by (cases u; cases "the u") simp_all
  assume "same_address u u'"
  then have "(u = None) = (u' = None)" "(u = Some []) = (u' = Some [])" "u \<noteq> None \<longrightarrow> length (the u) = length (the u')"
    by (cases u; cases u'; auto simp: same_address_def)+
  then show ?thesis unfolding sized [of u] sized [of u'] by simp
qed

lemma key_row_by_excerpt: "same_key e e' \<Longrightarrow> key_row (key_row_of e) = key_row (key_row_of e')"
  unfolding key_row_def key_row_of_def by (simp only: same_key_def api_key_row.select_convs)

lemma rows_by_excerpt:
  "list_all2 same_key es es' \<Longrightarrow>
     map key_row (map key_row_of es) = map key_row (map key_row_of es') \<and>
     map (\<lambda>k. (kw_name k, kw_source k, kw_allowed k)) (map key_row_of es) =
     map (\<lambda>k. (kw_name k, kw_source k, kw_allowed k)) (map key_row_of es')"
proof (induction rule: list_all2_induct)
  case (Cons e es e' es')
  have "(kw_name (key_row_of e), kw_source (key_row_of e), kw_allowed (key_row_of e)) =
      (kw_name (key_row_of e'), kw_source (key_row_of e'), kw_allowed (key_row_of e'))"
    using Cons(1) by (simp add: same_key_def key_row_of_def)
  then show ?case unfolding list.map using key_row_by_excerpt [OF Cons(1)] Cons(3) by (simp only: simp_thms)
qed simp

lemma pool_by_suffix:
  assumes "list_all2 (same_member p p') ms ms'"
  shows "map (\<lambda>m. (pm_name m, pm_remaining m, pm_observedAt m, token_meta_of (dp_snapshot p (pm_oauth m)))) ms =
    map (\<lambda>m. (pm_name m, pm_remaining m, pm_observedAt m, token_meta_of (dp_snapshot p' (pm_oauth m)))) ms'"
  using assms by (induction rule: list_all2_induct) (auto simp: same_member_def same_tokens_def token_meta_of_def)

definition key_facts :: "api_key_row \<Rightarrow> string \<times> key_source \<times> string list option" where
  "key_facts k = (kw_name k, kw_source k, kw_allowed k)"

lemma names_of_facts: "map key_facts ks = map key_facts ks' \<Longrightarrow> map kw_name ks = map kw_name ks'"
proof -
  assume "map key_facts ks = map key_facts ks'"
  then have "map fst (map key_facts ks) = map fst (map key_facts ks')" by simp
  then show ?thesis by (simp add: key_facts_def comp_def)
qed

lemma filter_by_facts:
  assumes "\<And>k k'. g k = g k' \<Longrightarrow> P k = P k'"
  shows "map g ks = map g ks' \<Longrightarrow> map g (filter P ks) = map g (filter P ks')"
proof (induction ks arbitrary: ks')
  case (Cons k ks)
  obtain k' ks'' where k: "ks' = k' # ks''" "g k = g k'" "map g ks = map g ks''" using Cons.prems by (cases ks') auto
  have "P k = P k'" by (rule assms [OF k(2)])
  then show ?case using Cons.IH [OF k(3)] k(2) by (simp add: k(1))
qed simp

lemma edit_form_by_facts: "map key_facts ks = map key_facts ks' \<Longrightarrow> edit_form_html ks = edit_form_html ks'"
proof -
  assume "map key_facts ks = map key_facts ks'"
  then have f: "map key_facts (filter (\<lambda>k. kw_source k = FileSource) ks) = map key_facts (filter (\<lambda>k. kw_source k = FileSource) ks')"
    by (rule filter_by_facts [rotated]) (simp add: key_facts_def)
  show ?thesis
  proof (cases "filter (\<lambda>k. kw_source k = FileSource) ks")
    case Nil
    then have "filter (\<lambda>k. kw_source k = FileSource) ks' = []" using f by simp
    with Nil show ?thesis by (simp only: edit_form_html_def list.case)
  next
    case (Cons k es)
    with f obtain k' es' where c': "filter (\<lambda>k. kw_source k = FileSource) ks' = k' # es'" "key_facts k = key_facts k'"
        "map key_facts es = map key_facts es'"
      by (cases "filter (\<lambda>k. kw_source k = FileSource) ks'") auto
    have n: "map kw_name (k # es) = map kw_name (k' # es')" using c' by (intro names_of_facts) simp
    have "kw_name k = kw_name k'" "kw_allowed k = kw_allowed k'" using c'(2) by (simp_all add: key_facts_def)
    then show ?thesis unfolding edit_form_html_def Cons c'(1) list.case n by (simp only:)
  qed
qed

text \<open>The dashboard withholds secrets. The page, the stream that refreshes it and the JSON figures show of
  an API key its first and last four characters, of a token its last four, of an alert address its length:
  two states of the program that agree in these, and in everything that is no secret, give the same page,
  the same messages and the same figures.\<close>

theorem dashboard_withholds_secrets:
  assumes "same_shown p p'"
  shows "admin_html env p = admin_html env p' \<and> live_message env p = live_message env p' \<and> stats_json env p = stats_json env p'"
proof -
  note s = assms [unfolded same_shown_def prod.inject]
  have keys: "map key_row (map key_row_of (dp_keys p)) = map key_row (map key_row_of (dp_keys p'))"
    and facts: "map key_facts (map key_row_of (dp_keys p)) = map key_facts (map key_row_of (dp_keys p'))"
    using rows_by_excerpt [of "dp_keys p" "dp_keys p'"] s unfolding key_facts_def by blast+
  have pool: "pool_snapshot (dp_snapshot p) (dp_pool p) = pool_snapshot (dp_snapshot p') (dp_pool p')"
    using s pool_by_suffix [of p p' "pl_members (dp_pool p)" "pl_members (dp_pool p')"] unfolding pool_snapshot_def by simp
  have up: "uptime_sec p = uptime_sec p'" using s by (simp add: uptime_sec_def)
  have hooks: "webhookStatus (ac_discord (dp_alerts p)) = webhookStatus (ac_discord (dp_alerts p'))"
    "webhookStatus (ac_slack (dp_alerts p)) = webhookStatus (ac_slack (dp_alerts p'))"
    using s by (blast intro: webhook_by_length)+
  have live: "renderLiveSections env (page_snapshot p) = renderLiveSections env (page_snapshot p')"
    unfolding renderLiveSections_def page_snapshot_def dash_snapshot.select_convs keys_panel_def keyRows_def
    using s by (simp only: keys pool)
  have forms: "renderFormSections (page_snapshot p) = renderFormSections (page_snapshot p')"
    unfolding renderFormSections_def page_snapshot_def dash_snapshot.select_convs test_forms_def invoke_form_def webhook_forms_def
    by (simp only: pool hooks names_of_facts [OF facts] edit_form_by_facts [OF facts])
  have "admin_html env p = admin_html env p'"
    unfolding admin_html_def renderAdminHtml_def live forms
    unfolding page_snapshot_def dash_snapshot.select_convs using s by (simp only: up)
  moreover have "stats_json env p = stats_json env p'"
    unfolding stats_json_def Let_def using s by (simp only: up pool)
  ultimately show ?thesis unfolding live_message_def live by blast
qed

definition demo_env :: dash_env where
  "demo_env =
     \<lparr>de_style = [], de_script = [], de_now = 0, de_num = (\<lambda>_. []), de_locale = (\<lambda>_. []), de_day = (\<lambda>_. []),
      de_time = (\<lambda>_. []), de_iso = (\<lambda>_. [])\<rparr>"

definition demo_parts :: "string \<Rightarrow> string \<Rightarrow> token_state dash_parts" where
  "demo_parts key token =
     \<lparr>dp_snapshot = (\<lambda>t. t),
      dp_pool = \<lparr>pl_members = [\<lparr>pm_name = ''main'', pm_oauth = \<lparr>ts_access = [], ts_refresh = token, ts_expires = 0\<rparr>,
        pm_remaining = None, pm_observedAt = None\<rparr>], pl_sessions = []\<rparr>,
      dp_billing = createBillingMonitor, dp_guard = gg_init, dp_usage = Inr [], dp_canary = createCanaryController False 0,
      dp_alerts = \<lparr>ac_discord = Some token, ac_slack = None\<rparr>,
      dp_keys = [\<lparr>kr_name = ''al'', kr_key = key, kr_createdAt = [], kr_allowed = None, kr_source = FileSource, kr_role = User\<rparr>],
      dp_orgId = None, dp_candidate = None, dp_candidatePresent = False, dp_template = [], dp_bun = [], dp_startedAt = 0,
      dp_now = 0, dp_tests = createTestResultStore\<rparr>"

theorem dashboard_withholds_secrets_witness:
  "admin_html demo_env (demo_parts ''sk-aAAAAzzzz'' ''ort-AAAAzzzz'') = admin_html demo_env (demo_parts ''sk-aBBBBzzzz'' ''ort-BBBBzzzz'')"
  by (rule dashboard_withholds_secrets [THEN conjunct1])
     (simp add: same_shown_def demo_parts_def same_key_def same_member_def same_tokens_def same_address_def slice_last_def token_suffix_def)

subsection \<open>When the usage cannot be read\<close>

definition panels :: "dash_env \<Rightarrow> dash_snapshot \<Rightarrow> string" where
  "panels env s =
     billing_panel env (ds_billing s) @ pool_panel env (ds_pool s) @ guard_panel env (ds_guard s) @ learner_panel (ds_orgId s) @
     canary_panel env (ds_canary s) (ds_candidate s) @ keys_panel (ds_keys s) @ snapshot_panel (ds_candidatePresent s) @
     token_panel env (ds_pool s) @ tests_panel env (ds_tests s)"

lemma live_panels:
  "renderLiveSections env s = degradedBanner (ds_usage s) @ panels env s @ usage_panel env (ds_usage s)"
  unfolding renderLiveSections_def panels_def by (simp only: append_assoc)

lemma panels_without_usage: "panels env (page_snapshot (p\<lparr>dp_usage := u\<rparr>)) = panels env (page_snapshot p)"
  unfolding panels_def page_snapshot_def uptime_sec_def by simp

lemma usage_of_page: "ds_usage (page_snapshot (p\<lparr>dp_usage := u\<rparr>)) = attempt u"
  by (simp add: page_snapshot_def)

lemma attempt_Inl: "attempt (Inl e :: 'a result) = Failed (take REASON_MAX_LENGTH (trim (collapse_ws False (redact (exn_message e)))))"
  by (simp add: attempt_def)

lemma one_message_per_turn: "length (admin_events turns) = length (takeWhile (\<lambda>t. \<not> fst t) turns)"
  by (induction turns rule: admin_events.induct) simp_all

text \<open>A database outage costs the dashboard one panel. When the usage cannot be read the live region is the
  same text as before, with a banner in front and the reason in the place of the usage rows; the reason is
  at most 200 characters of the redacted message. The figures name the failed dependency and agree in the
  rest, and the stream goes on: it sends one message per turn until it is closed, whatever the reads give.\<close>

theorem usage_outage_costs_one_panel:
  fixes e :: exn
  defines "reason \<equiv> take 200 (trim (collapse_ws False (redact (exn_message e))))"
  shows "renderLiveSections env (page_snapshot (p\<lparr>dp_usage := Inl e\<rparr>)) =
      degradedBanner (Failed reason) @ panels env (page_snapshot p) @ usage_panel env (Failed reason) \<and>
    renderLiveSections env (page_snapshot (p\<lparr>dp_usage := Inr rows\<rparr>)) = panels env (page_snapshot p) @ usage_panel env (Ok rows) \<and>
    filter (\<lambda>kv. fst kv \<notin> {''perUserUsage'', ''degraded''}) (stats_json env (p\<lparr>dp_usage := Inl e\<rparr>)) =
      filter (\<lambda>kv. fst kv \<notin> {''perUserUsage'', ''degraded''}) (stats_json env (p\<lparr>dp_usage := Inr rows\<rparr>)) \<and>
    get (stats_json env (p\<lparr>dp_usage := Inl e\<rparr>)) ''perUserUsage'' = Some JNull \<and>
    get (stats_json env (p\<lparr>dp_usage := Inl e\<rparr>)) ''degraded'' =
      Some (JArr [JObj [(''dependency'', JStr ''perUserUsage''), (''reason'', JStr reason)]]) \<and>
    get (stats_json env (p\<lparr>dp_usage := Inr rows\<rparr>)) ''degraded'' = Some (JArr []) \<and>
    length (admin_events turns) = length (takeWhile (\<lambda>t. \<not> fst t) turns)"
proof (intro conjI)
  have failed: "attempt (Inl e :: (string \<times> (int \<times> rat)) list result) = Failed reason"
    by (simp add: attempt_Inl reason_def REASON_MAX_LENGTH_def)
  show "renderLiveSections env (page_snapshot (p\<lparr>dp_usage := Inl e\<rparr>)) =
      degradedBanner (Failed reason) @ panels env (page_snapshot p) @ usage_panel env (Failed reason)"
    unfolding live_panels usage_of_page failed panels_without_usage by (rule refl)
  show "renderLiveSections env (page_snapshot (p\<lparr>dp_usage := Inr rows\<rparr>)) = panels env (page_snapshot p) @ usage_panel env (Ok rows)"
    unfolding live_panels usage_of_page attempt_Inr panels_without_usage degradedBanner_def by simp
  show "filter (\<lambda>kv. fst kv \<notin> {''perUserUsage'', ''degraded''}) (stats_json env (p\<lparr>dp_usage := Inl e\<rparr>)) =
      filter (\<lambda>kv. fst kv \<notin> {''perUserUsage'', ''degraded''}) (stats_json env (p\<lparr>dp_usage := Inr rows\<rparr>))"
    by (simp add: stats_json_def Let_def uptime_sec_def)
  show "get (stats_json env (p\<lparr>dp_usage := Inl e\<rparr>)) ''perUserUsage'' = Some JNull"
    "get (stats_json env (p\<lparr>dp_usage := Inl e\<rparr>)) ''degraded'' =
      Some (JArr [JObj [(''dependency'', JStr ''perUserUsage''), (''reason'', JStr reason)]])"
    "get (stats_json env (p\<lparr>dp_usage := Inr rows\<rparr>)) ''degraded'' = Some (JArr [])"
    by (simp_all add: stats_json_def Let_def get_def failed)
  show "length (admin_events turns) = length (takeWhile (\<lambda>t. \<not> fst t) turns)" by (rule one_message_per_turn)
qed

subsection \<open>No shown text becomes markup\<close>

text \<open>What of a snapshot decides the page's markup.\<close>

definition filled :: "string option \<Rightarrow> bool" where
  "filled v = (case v of Some (_ # _) \<Rightarrow> True | _ \<Rightarrow> False)"

definition member_shape :: "string \<times> rat option \<times> rat option \<times> token_meta \<Rightarrow> bool \<times> bool" where
  "member_shape m = (case m of (name, remaining, seenAt, meta) \<Rightarrow> (remaining = None, filled (tm_accessSuffix meta)))"

definition key_shape :: "api_key_row \<Rightarrow> key_source \<times> bool" where
  "key_shape k = (kw_source k, case kw_allowed k of Some (_ # _) \<Rightarrow> True | _ \<Rightarrow> False)"

definition usage_shape :: "(string \<times> (int \<times> rat)) list degradable \<Rightarrow> nat option" where
  "usage_shape u = (case u of Ok rows \<Rightarrow> Some (length rows) | Failed _ \<Rightarrow> None)"

definition test_shape :: "test_store \<Rightarrow> bool list" where
  "test_shape t = map (\<lambda>k. t k = None) [OAuthProbeTest, SelfPingTest, KeyInvokeTest, UpstreamDirectTest, VerifyEntitlementTest]"

definition dash_shape :: "dash_snapshot \<Rightarrow> (bool \<times> bool) list \<times> (key_source \<times> bool) list \<times> nat option \<times> bool list \<times> bool list" where
  "dash_shape s =
     (map member_shape (fst (ds_pool s)), map key_shape (ds_keys s), usage_shape (ds_usage s), test_shape (ds_tests s),
      [filled (ds_orgId s), filled (ds_candidate s), ds_candidatePresent s, filled (ac_discord (ds_alerts s)), filled (ac_slack (ds_alerts s))])"

abbreviation badge_markup :: string where
  "badge_markup \<equiv> [CHR ''<'', CHR 0x22, CHR 0x22, CHR ''>'', CHR ''<'', CHR ''>'']"

lemma markup_int [markup_rules]: "markup (int_str i) = []"
proof -
  have "markup (CHR ''-'' # s) = markup s" for s by (simp add: markup_def)
  then show ?thesis by (simp add: int_str_def markup_digits)
qed

lemma markup_dur [markup_rules]: "markup (fmtDur s) = []"
  unfolding fmtDur_def by (simp add: markup_append markup_int del: append.simps) (simp add: markup_def)

lemma markup_esc_opt [markup_rules]: "markup (esc_opt v) = []"
  by (simp add: esc_opt_def markup_esc)

lemma markup_ellipsis [markup_rules]: "markup ellipsis = []"
  by (simp add: ellipsis_def markup_def)

lemma badge_text: "markup s = [] \<Longrightarrow> markup (muted s) = badge_markup"
  by (simp add: muted_def markup_append del: append.simps) (simp add: markup_def)

lemma markup_unified [markup_rules]: "markup (unifiedBadge st) = badge_markup"
proof -
  have "markup (unifiedBadge (Some (c # cs))) = badge_markup" for c cs
    by (simp add: unifiedBadge_def markup_append markup_esc del: append.simps) (simp add: markup_def)
  moreover have "markup (unifiedBadge None) = badge_markup" "markup (unifiedBadge (Some [])) = badge_markup"
    unfolding unifiedBadge_def option.case list.case by (rule badge_text, simp add: markup_def)+
  ultimately show ?thesis by (cases st; cases "the st") auto
qed

lemma markup_canary [markup_rules]: "markup (canaryBadge env c) = badge_markup"
  unfolding canaryBadge_def
  by (simp add: muted_def markup_append markup_esc del: append.simps) (simp add: markup_def)

lemma markup_expires [markup_rules]: "markup (fmtExpiresAt env t) = badge_markup"
  unfolding fmtExpiresAt_def Let_def
  by (simp add: markup_append markup_esc markup_dur del: append.simps) (simp add: markup_def)

lemma text_or_shape: "filled v = filled v' \<Longrightarrow> markup n = [] \<Longrightarrow> markup (text_or n v) = markup (text_or n v')"
proof -
  assume f: "filled v = filled v'" and n: "markup n = []"
  have "markup (text_or n v) = (if filled v then [] else badge_markup)" for v
    using badge_text [OF n] by (simp add: text_or_def filled_def markup_esc split: option.split list.split)
  with f show ?thesis by simp
qed

lemma access_shape: "filled v = filled v' \<Longrightarrow> markup (access_suffix v) = markup (access_suffix v')"
proof -
  assume f: "filled v = filled v'"
  have n: "markup ''not minted'' = []" by (simp add: markup_def)
  have "markup (access_suffix v) = (if filled v then [] else badge_markup)" for v
    using badge_text [OF n] by (simp add: access_suffix_def filled_def markup_rules split: option.split list.split)
  with f show ?thesis by simp
qed

lemma webhook_shape: "filled v = filled v' \<Longrightarrow> markup (webhookStatus v) = markup (webhookStatus v')"
proof -
  assume f: "filled v = filled v'"
  have n: "markup ''not set'' = []" by (simp add: markup_def)
  have "markup (webhookStatus v) = (if filled v then markup (webhookStatus (Some ''x'')) else badge_markup)" for v
  proof (cases v)
    case None
    then show ?thesis using badge_text [OF n] by (simp add: webhookStatus_def filled_def)
  next
    case (Some u)
    have "markup (webhookStatus (Some (c # cs))) = markup (webhookStatus (Some ''x''))" for c cs
      unfolding webhookStatus_def option.case list.case markup_rules by (rule refl)
    then show ?thesis using Some badge_text [OF n] by (cases u) (simp_all add: webhookStatus_def filled_def)
  qed
  with f show ?thesis by simp
qed

lemma or_else_shape:
  "(s = []) = (s' = []) \<Longrightarrow> markup s = markup s' \<Longrightarrow> markup (or_else d s) = markup (or_else d s')"
  by (simp add: or_else_def)

lemma concat_shape:
  "map g xs = map g ys \<Longrightarrow> (\<And>x y. g x = g y \<Longrightarrow> markup (f x) = markup (f y)) \<Longrightarrow>
     markup (concat (map f xs)) = markup (concat (map f ys))"
proof (induction xs arbitrary: ys)
  case (Cons x xs)
  obtain y ys' where y: "ys = y # ys'" "g x = g y" "map g xs = map g ys'" using Cons.prems(1) by (cases ys) auto
  have "markup (concat (map f xs)) = markup (concat (map f ys'))" by (rule Cons.IH [OF y(3) Cons.prems(2)])
  then show ?case using Cons.prems(2) [OF y(2)] by (simp add: y(1) markup_append)
qed (simp add: markup_def)

lemma nonempty_rows: "(\<And>x. f x \<noteq> []) \<Longrightarrow> (concat (map f xs) = []) = (xs = [])"
  by (cases xs) auto

lemma rows_not_empty: "usage_row env u \<noteq> []" "key_row k \<noteq> []" "name_option im \<noteq> []"
  by (simp_all add: usage_row_def key_row_def name_option_def)

lemma usage_shape_markup: "usage_shape u = usage_shape u' \<Longrightarrow> markup (usageRows env u) = markup (usageRows env u')"
proof (cases u; cases u')
  fix r r'
  assume "usage_shape u = usage_shape u'" and u: "u = Ok r" "u' = Ok r'"
  then have len: "length r = length r'" by (simp add: usage_shape_def)
  have "markup (concat (map (usage_row env) r)) = markup (concat (map (usage_row env) r'))"
  proof (rule concat_shape)
    show "map (\<lambda>_. ()) r = map (\<lambda>_. ()) r'" using len by (simp add: map_replicate_const)
    show "markup (usage_row env x) = markup (usage_row env y)" for x y
      unfolding usage_row_def markup_rules by (rule refl)
  qed
  moreover have "(concat (map (usage_row env) r) = []) = (concat (map (usage_row env) r') = [])"
    unfolding nonempty_rows [OF rows_not_empty(1)] using len by (cases r; cases r') simp_all
  ultimately show ?thesis unfolding u usageRows_def degradable.case by (intro or_else_shape)
next
  fix e e'
  assume u: "u = Failed e" "u' = Failed e'"
  show ?thesis unfolding u usageRows_def degradable.case markup_rules by (rule refl)
qed (simp_all add: usage_shape_def)

lemma banner_shape_markup: "usage_shape u = usage_shape u' \<Longrightarrow> markup (degradedBanner u) = markup (degradedBanner u')"
proof (cases u; cases u')
  fix e e'
  assume u: "u = Failed e" "u' = Failed e'"
  show ?thesis unfolding u degradedBanner_def degradable.case markup_rules by (rule refl)
qed (simp_all add: usage_shape_def degradedBanner_def)

lemma models_shape:
  assumes "(case a of Some (_ # _) \<Rightarrow> True | _ \<Rightarrow> False) = (case b of Some (_ # _) \<Rightarrow> True | _ \<Rightarrow> False)"
  shows "markup (modelsBadge a) = markup (modelsBadge b)"
proof -
  have some: "markup (modelsBadge (Some (m # ms))) = markup (modelsBadge (Some (m' # ms')))" for m ms m' ms'
    unfolding modelsBadge_def option.case list.case markup_rules by (rule refl)
  have none: "modelsBadge (Some []) = modelsBadge None" by (simp add: modelsBadge_def)
  show ?thesis
  proof (cases "case a of Some (_ # _) \<Rightarrow> True | _ \<Rightarrow> False")
    case True
    then obtain m ms m' ms' where "a = Some (m # ms)" "b = Some (m' # ms')"
      using assms by (auto split: option.splits list.splits)
    then show ?thesis by (simp only: some)
  next
    case False
    then have "a = None \<or> a = Some []" "b = None \<or> b = Some []"
      using assms by (auto split: option.splits list.splits)
    then show ?thesis using none by metis
  qed
qed

lemma keys_shape_markup: "map key_shape ks = map key_shape ks' \<Longrightarrow> markup (keyRows ks) = markup (keyRows ks')"
proof -
  assume s: "map key_shape ks = map key_shape ks'"
  have row: "markup (key_row k) = markup (key_row k')" if "key_shape k = key_shape k'" for k k'
  proof -
    have "markup (modelsBadge (kw_allowed k)) = markup (modelsBadge (kw_allowed k'))"
      using that by (intro models_shape) (simp add: key_shape_def)
    then show ?thesis unfolding key_row_def markup_rules by (simp only:)
  qed
  have "(ks = []) = (ks' = [])" using s by (cases ks; cases ks') simp_all
  then have "(concat (map key_row ks) = []) = (concat (map key_row ks') = [])"
    unfolding nonempty_rows [OF rows_not_empty(2)] .
  moreover have "markup (concat (map key_row ks)) = markup (concat (map key_row ks'))" using s row by (rule concat_shape)
  ultimately show ?thesis unfolding keyRows_def by (rule or_else_shape)
qed

lemma member_rows_shape:
  assumes "map member_shape ms = map member_shape ms'"
  shows "markup (concat (map (member_row env) ms)) = markup (concat (map (member_row env) ms'))"
    and "markup (concat (map (token_row env) ms)) = markup (concat (map (token_row env) ms'))"
proof -
  have n: "markup ''unknown'' = []" by (simp add: markup_def)
  have rem: "markup (case r of Some n \<Rightarrow> esc (de_locale env n) | None \<Rightarrow> muted ''unknown'') = (if r = None then badge_markup else [])" for r
    using badge_text [OF n] by (cases r) (simp_all add: markup_esc)
  show "markup (concat (map (member_row env) ms)) = markup (concat (map (member_row env) ms'))"
  proof (rule concat_shape [OF assms])
    fix x y :: "string \<times> rat option \<times> rat option \<times> token_meta"
    obtain a b c d a' b' c' d' where xy: "x = (a, b, c, d)" "y = (a', b', c', d')" by (cases x; cases y)
    assume "member_shape x = member_shape y"
    then have "(b = None) = (b' = None)" by (simp add: member_shape_def xy)
    then show "markup (member_row env x) = markup (member_row env y)"
      unfolding xy member_row_def prod.case markup_rules rem by (simp only:)
  qed
  show "markup (concat (map (token_row env) ms)) = markup (concat (map (token_row env) ms'))"
  proof (rule concat_shape [OF assms])
    fix x y :: "string \<times> rat option \<times> rat option \<times> token_meta"
    obtain a b c d a' b' c' d' where xy: "x = (a, b, c, d)" "y = (a', b', c', d')" by (cases x; cases y)
    assume "member_shape x = member_shape y"
    then have "filled (tm_accessSuffix d) = filled (tm_accessSuffix d')" by (simp add: member_shape_def xy)
    from access_shape [OF this] show "markup (token_row env x) = markup (token_row env y)"
      unfolding xy token_row_def prod.case markup_rules by (simp only:)
  qed
qed

lemma test_row_shape: "(r = None) = (r' = None) \<Longrightarrow> markup (renderTestResult env l r) = markup (renderTestResult env l r')"
proof (cases r; cases r')
  fix t t'
  assume r: "r = Some t" "r' = Some t'"
  have ok: "markup (if b then ''<span class=\"badge b-good\">ok</span>'' else ''<span class=\"badge b-bad\">fail</span>'') = badge_markup" for b
    by (simp add: markup_def)
  show ?thesis unfolding r renderTestResult_def option.case markup_rules ok by (rule refl)
qed simp_all

lemma names_shape: "length ns = length ns' \<Longrightarrow> markup (name_options ns) = markup (name_options ns')"
proof -
  assume len: "length ns = length ns'"
  show ?thesis unfolding name_options_def
  proof (rule concat_shape)
    show "map fst (zip [0..<length ns] ns) = map fst (zip [0..<length ns'] ns')" using len by simp
    fix x y :: "nat \<times> string"
    show "markup (name_option x) = markup (name_option y)" if "fst x = fst y"
      unfolding name_option_def markup_rules by (rule refl)
  qed
qed

lemma live_shape:
  assumes "dash_shape s = dash_shape s'"
  shows "markup (renderLiveSections env s) = markup (renderLiveSections env s')"
proof -
  note sh = assms [unfolded dash_shape_def prod.inject list.inject]
  have texts: "markup ''not learned yet'' = []" "markup ''none'' = []" by (simp_all add: markup_def)
  have "map member_shape (fst (ds_pool s)) = map member_shape (fst (ds_pool s'))" using sh by blast
  note members = member_rows_shape [OF this, of env]
  have tests: "(ds_tests s k = None) = (ds_tests s' k = None)" for k
    using sh by (cases k) (simp_all add: test_shape_def)
  have test: "markup (renderTestResult env l (ds_tests s k)) = markup (renderTestResult env l (ds_tests s' k))" for l k
    by (rule test_row_shape [OF tests])
  have "markup (degradedBanner (ds_usage s)) = markup (degradedBanner (ds_usage s'))" using sh by (blast intro: banner_shape_markup)
  moreover have "markup (billing_panel env (ds_billing s)) = markup (billing_panel env (ds_billing s'))"
    unfolding billing_panel_def Let_def markup_rules by (rule refl)
  moreover have "markup (pool_panel env (ds_pool s)) = markup (pool_panel env (ds_pool s'))"
    unfolding pool_panel_def markup_rules members(1) by (rule refl)
  moreover have "markup (guard_panel env (ds_guard s)) = markup (guard_panel env (ds_guard s'))"
    unfolding guard_panel_def markup_rules by (rule refl)
  moreover have "markup (learner_panel (ds_orgId s)) = markup (learner_panel (ds_orgId s'))"
    unfolding learner_panel_def markup_append using text_or_shape [OF _ texts(1), of "ds_orgId s" "ds_orgId s'"] sh by (simp only: simp_thms)
  moreover have "markup (canary_panel env (ds_canary s) (ds_candidate s)) = markup (canary_panel env (ds_canary s') (ds_candidate s'))"
    unfolding canary_panel_def markup_rules using text_or_shape [OF _ texts(2), of "ds_candidate s" "ds_candidate s'"] sh by (simp only: simp_thms)
  moreover have "markup (keys_panel (ds_keys s)) = markup (keys_panel (ds_keys s'))"
    unfolding keys_panel_def markup_append using keys_shape_markup [of "ds_keys s" "ds_keys s'"] sh by (simp only: simp_thms)
  moreover have "snapshot_panel (ds_candidatePresent s) = snapshot_panel (ds_candidatePresent s')" using sh by (simp only: simp_thms)
  moreover have "markup (token_panel env (ds_pool s)) = markup (token_panel env (ds_pool s'))"
    unfolding token_panel_def markup_append members(2) by (rule refl)
  moreover have "markup (tests_panel env (ds_tests s)) = markup (tests_panel env (ds_tests s'))"
    unfolding tests_panel_def markup_append test by (rule refl)
  moreover have "markup (usage_panel env (ds_usage s)) = markup (usage_panel env (ds_usage s'))"
    unfolding usage_panel_def markup_append using usage_shape_markup [of "ds_usage s" "ds_usage s'"] sh by (simp only: simp_thms)
  ultimately show ?thesis unfolding renderLiveSections_def markup_append by (simp only:)
qed

lemma forms_shape:
  assumes "dash_shape s = dash_shape s'"
  shows "markup (renderFormSections s) = markup (renderFormSections s')"
proof -
  note sh = assms [unfolded dash_shape_def prod.inject list.inject]
  have keys: "map key_shape (ds_keys s) = map key_shape (ds_keys s')" using sh by blast
  have nk: "length (ds_keys s) = length (ds_keys s')" by (rule map_eq_imp_length_eq [OF keys])
  have "map member_shape (fst (ds_pool s)) = map member_shape (fst (ds_pool s'))" using sh by blast
  from map_eq_imp_length_eq [OF this]
  have members: "markup (name_options (map fst (fst (ds_pool s)))) = markup (name_options (map fst (fst (ds_pool s'))))"
    by (intro names_shape) simp
  have names: "markup (name_options (map kw_name (ds_keys s))) = markup (name_options (map kw_name (ds_keys s')))"
    using nk by (intro names_shape) simp
  have some: "(length (name_options ns) > 0) = (ns \<noteq> [])" for ns
    using nonempty_rows [where f = name_option and xs = "zip [0..<length ns] ns", OF rows_not_empty(3)] by (cases ns) (simp_all add: name_options_def del: upt_Suc)
  have invoke: "markup (invoke_form (ds_keys s)) = markup (invoke_form (ds_keys s'))"
  proof (cases "ds_keys s = []")
    case True
    then have "ds_keys s' = []" using nk by simp
    with True show ?thesis by (simp only:)
  next
    case False
    then have "map kw_name (ds_keys s) \<noteq> []" "map kw_name (ds_keys s') \<noteq> []" using nk by (cases "ds_keys s'"; simp)+
    then show ?thesis unfolding invoke_form_def Let_def some by (simp only: if_True simp_thms markup_append names)
  qed
  have "markup (test_forms s) = markup (test_forms s')"
    unfolding test_forms_def markup_append members invoke by (rule refl)
  moreover have "markup (edit_form_html (ds_keys s)) = markup (edit_form_html (ds_keys s'))"
  proof -
    have "map key_shape (filter (\<lambda>k. kw_source k = FileSource) (ds_keys s)) =
        map key_shape (filter (\<lambda>k. kw_source k = FileSource) (ds_keys s'))"
      using keys by (rule filter_by_facts [rotated]) (simp add: key_shape_def)
    from map_eq_imp_length_eq [OF this]
    have len: "length (filter (\<lambda>k. kw_source k = FileSource) (ds_keys s)) = length (filter (\<lambda>k. kw_source k = FileSource) (ds_keys s'))" by simp
    show ?thesis
    proof (cases "filter (\<lambda>k. kw_source k = FileSource) (ds_keys s)")
      case Nil
      then have "filter (\<lambda>k. kw_source k = FileSource) (ds_keys s') = []" using len by simp
      with Nil show ?thesis by (simp only: edit_form_html_def list.case)
    next
      case (Cons k es)
      with len obtain k' es' where c': "filter (\<lambda>k. kw_source k = FileSource) (ds_keys s') = k' # es'" "length es = length es'"
        by (cases "filter (\<lambda>k. kw_source k = FileSource) (ds_keys s')") auto
      have n: "markup (name_options (map kw_name (k # es))) = markup (name_options (map kw_name (k' # es')))"
        using c'(2) by (intro names_shape) simp
      show ?thesis unfolding edit_form_html_def Cons c'(1) list.case markup_rules n by (rule refl)
    qed
  qed
  moreover have "markup (oauth_form (ds_pool s)) = markup (oauth_form (ds_pool s'))"
    unfolding oauth_form_def markup_append members by (rule refl)
  moreover have "markup (webhook_forms (ds_alerts s)) = markup (webhook_forms (ds_alerts s'))"
  proof -
    have "filled (ac_discord (ds_alerts s)) = filled (ac_discord (ds_alerts s'))"
      "filled (ac_slack (ds_alerts s)) = filled (ac_slack (ds_alerts s'))" using sh by blast+
    note hooks = this [THEN webhook_shape]
    show ?thesis unfolding webhook_forms_def markup_append hooks by (rule refl)
  qed
  ultimately show ?thesis unfolding renderFormSections_def markup_append by (simp only:)
qed

text \<open>C39: nothing the dashboard shows can add markup to it. Two snapshots of the same shape (as many members,
  keys, usage rows; the same fields present) give pages with the same sequence of angle brackets and quotes,
  whatever the names, upstream texts, failure reasons, test details, descriptions and numbers are.\<close>

theorem dashboard_markup_is_fixed:
  assumes "dash_shape s = dash_shape s'"
  shows "markup (renderAdminHtml env s) = markup (renderAdminHtml env s')"
  unfolding renderAdminHtml_def markup_rules live_shape [OF assms, of env] forms_shape [OF assms] by (rule refl)

theorem dashboard_markup_is_fixed_witness:
  "markup (renderAdminHtml demo_env (page_snapshot (demo_parts ''k'' ''t''\<lparr>dp_orgId := Some ''o'', dp_usage := Inl (Other ''down'')\<rparr>))) =
   markup (renderAdminHtml demo_env (page_snapshot (demo_parts ''k'' ''t''\<lparr>dp_orgId := Some ''<script>'', dp_usage := Inl (Other ''\"><b>'')\<rparr>)))"
  by (rule dashboard_markup_is_fixed)
     (simp add: dash_shape_def page_snapshot_def attempt_def usage_shape_def filled_def)

end
