(* ===== verification/Toast.thy ===== *)
theory Toast
  imports TestRunners
begin

text \<open>
  The part of the dashboard's script (\<open>LIVE_SCRIPT\<close> in \<open>src/src/admin/render.ts\<close>) that shows the answer
  to a submitted form: \<open>safeText\<close>, \<open>paintResult\<close> and \<open>shouldIntercept\<close>. Text is the list of its code points
  (a lone surrogate counts as one), with the ranges of the Unicode categories Cf, Co and Cs written out;
  \<open>points\<close> embeds the model's strings. \<open>show\<close> is \<open>String\<close>, \<open>stringify\<close> is \<open>JSON.stringify\<close>.
\<close>

type_synonym points = "nat list"

definition points :: "string \<Rightarrow> points" where
  "points s = map of_char s"

definition hellip :: points where "hellip = [0x2026]"

subsection \<open>Text that is safe to paste\<close>

definition in_ranges :: "(nat \<times> nat) list \<Rightarrow> nat \<Rightarrow> bool" where
  "in_ranges rs c = list_ex (\<lambda>(lo, hi). lo \<le> c \<and> c \<le> hi) rs"

definition format_chars :: "(nat \<times> nat) list" where
  "format_chars =
     [(0xAD, 0xAD), (0x600, 0x605), (0x61C, 0x61C), (0x6DD, 0x6DD), (0x70F, 0x70F), (0x890, 0x891), (0x8E2, 0x8E2),
      (0x180E, 0x180E), (0x200B, 0x200F), (0x202A, 0x202E), (0x2060, 0x2064), (0x2066, 0x206F), (0xFEFF, 0xFEFF),
      (0xFFF9, 0xFFFB), (0x110BD, 0x110BD), (0x110CD, 0x110CD), (0x13430, 0x1343F), (0x1BCA0, 0x1BCA3),
      (0x1D173, 0x1D17A), (0xE0001, 0xE0001), (0xE0020, 0xE007F)]"

definition private_use :: "(nat \<times> nat) list" where
  "private_use = [(0xE000, 0xF8FF), (0xF0000, 0xFFFFD), (0x100000, 0x10FFFD)]"

definition surrogates :: "(nat \<times> nat) list" where
  "surrogates = [(0xD800, 0xDFFF)]"

text \<open>\<open>[\u0000-\u0008\u000B-\u001F\u007F-\u009F\p{Cf}\p{Co}\p{Cs}]\<close>\<close>

definition stripped :: "nat \<Rightarrow> bool" where
  "stripped c = in_ranges ([(0, 8), (0xB, 0x1F), (0x7F, 0x9F)] @ format_chars @ private_use @ surrogates) c"

fun normalize_eol :: "points \<Rightarrow> points" where
  "normalize_eol [] = []"
| "normalize_eol [c] = [if c = 13 then 10 else c]"
| "normalize_eol (c # d # cs) =
     (if c = 13 then 10 # normalize_eol (if d = 10 then cs else d # cs) else c # normalize_eol (d # cs))"

text \<open>\<open>replace(/\n{3,}/g, '\n\n')\<close>: \<open>n\<close> newlines are pending.\<close>

fun collapse_lines :: "nat \<Rightarrow> points \<Rightarrow> points" where
  "collapse_lines n [] = replicate (if n \<ge> 3 then 2 else n) 10"
| "collapse_lines n (c # cs) =
     (if c = 10 then collapse_lines (Suc n) cs
      else replicate (if n \<ge> 3 then 2 else n) 10 @ c # collapse_lines 0 cs)"

definition trim_lines :: "points \<Rightarrow> points" where
  "trim_lines s = rev (dropWhile (\<lambda>c. c = 10) (rev (dropWhile (\<lambda>c. c = 10) s)))"

fun split_lines :: "points \<Rightarrow> points list" where
  "split_lines [] = [[]]"
| "split_lines (c # cs) =
     (if c = 10 then [] # split_lines cs
      else case split_lines cs of [] \<Rightarrow> [[c]] | l # ls \<Rightarrow> (c # l) # ls)"

fun join_lines :: "points list \<Rightarrow> points" where
  "join_lines [] = []"
| "join_lines [l] = l"
| "join_lines (l # m # ls) = l @ 10 # join_lines (m # ls)"

definition MAX_LINES :: nat where "MAX_LINES = 6"

definition safe_points :: "points \<Rightarrow> nat \<Rightarrow> points" where
  "safe_points s mx =
     (let normalized = normalize_eol s;
          cleaned = filter (\<lambda>c. \<not> stripped c) normalized;
          collapsed = collapse_lines 0 cleaned;
          trimmed = trim_lines collapsed;
          ls = split_lines trimmed;
          lineCapped = (if length ls > MAX_LINES then join_lines (take MAX_LINES ls) @ hellip else trimmed)
      in if length lineCapped > mx then take mx lineCapped @ hellip else lineCapped)"

definition safeText :: "json option \<Rightarrow> nat \<Rightarrow> points" where
  "safeText v mx = (case v of Some (JStr s) \<Rightarrow> safe_points (points s) mx | _ \<Rightarrow> [])"

subsection \<open>Painting an answer\<close>

datatype tone = MutedTone | GoodTone | BadTone

text \<open>\<open>allowedModels && allowedModels.length\<close>, then \<open>join\<close>, which only arrays have.\<close>

definition joined_models :: "(json option \<Rightarrow> string) \<Rightarrow> json option \<Rightarrow> string option result" where
  "joined_models show v =
     (case v of
        Some (JArr (x # xs)) \<Rightarrow> Inr (Some (join_str '', '' (map (\<lambda>y. if y = JNull then [] else show (Some y)) (x # xs))))
      | Some (JStr (c # cs)) \<Rightarrow> Inl (Other ''join is not a function'')
      | Some (JObj kvs) \<Rightarrow> if truthy (get kvs ''length'') then Inl (Other ''join is not a function'') else Inr None
      | _ \<Rightarrow> Inr None)"

definition check_mark :: points where "check_mark = 0x2713 # points '' ''"
definition cross_mark :: points where "cross_mark = 0x2717 # points '' ''"

definition key_not_found_hint :: points where
  "key_not_found_hint = points '' '' @ [0x2014] @ points '' another edit may have renamed or revoked this key; reload and retry''"

definition error_text :: "json option \<Rightarrow> points" where
  "error_text e =
     (let sanitizedType = safeText (jprop e ''type'') 40;
          type = (if sanitizedType = [] then points ''error'' else sanitizedType);
          message = safeText (jprop e ''message'') 200;
          base = (if message \<noteq> [] then cross_mark @ type @ points '': '' @ message else cross_mark @ type)
      in base @ (if type = points ''key_not_found'' then key_not_found_hint else []))"

definition quoted :: "string \<Rightarrow> points" where
  "quoted s = points ([CHR 0x22] @ s @ [CHR 0x22])"

text \<open>The tone of the slot and the texts of its lines, or what the function throws.\<close>

definition paintResult :: "(json option \<Rightarrow> string) \<Rightarrow> (json \<Rightarrow> string) \<Rightarrow> json option \<Rightarrow> (tone \<times> points list) result" where
  "paintResult show stringify payload =
     (case payload of
        None \<Rightarrow> Inr (MutedTone, [points ''no response body''])
      | Some v \<Rightarrow>
          if \<not> is_object v then Inr (MutedTone, [points ''no response body''])
          else case (as_str (jprop payload ''key''), as_str (jprop payload ''name'')) of
            (Some key, Some name) \<Rightarrow>
              (case joined_models show (jprop payload ''allowedModels'') of
                 Inl e \<Rightarrow> Inl e
               | Inr models \<Rightarrow>
                   Inr (GoodTone,
                     [check_mark @ points ''key for '' @ quoted name @ points '' (shown once '' @ [0x2014] @ points '' copy now)'', points key] @
                     (case models of Some m \<Rightarrow> [points (''allowedModels: '' @ m)] | None \<Rightarrow> [])))
          | (_, updated) \<Rightarrow>
              if (case jprop payload ''error'' of Some e \<Rightarrow> is_object e | None \<Rightarrow> False)
              then Inr (BadTone, [error_text (jprop payload ''error'')])
              else case (jprop payload ''kind'' = Some (JStr ''updated''), updated) of
                (True, Some name) \<Rightarrow>
                  (case joined_models show (jprop payload ''allowedModels'') of
                     Inl e \<Rightarrow> Inl e
                   | Inr models \<Rightarrow>
                       Inr (GoodTone, [check_mark @ points ''updated '' @ quoted name @
                         points ('' ('' @ (case models of Some m \<Rightarrow> ''allowedModels: '' @ m | None \<Rightarrow> ''no model restriction'') @ '')'')]))
              | _ \<Rightarrow>
                  let ok = (jprop payload ''ok'' = Some (JBool True)); summary = jprop payload ''summary'' in
                  Inr (if ok then GoodTone else BadTone,
                    [(if ok then check_mark else cross_mark) @ points (if truthy summary then show summary else stringify v)]))"

text \<open>What the answer to a submission shows: \<open>body\<close> is \<open>null\<close> when it is not JSON. The flag says that the
  handler went on to look at the edit form.\<close>

definition show_reply ::
  "(json option \<Rightarrow> string) \<Rightarrow> (json \<Rightarrow> string) \<Rightarrow> nat \<Rightarrow> json option \<Rightarrow> bool \<times> tone \<times> points list" where
  "show_reply show stringify status body =
     (if \<not> (200 \<le> status \<and> status < 300) \<and> (\<not> truthy body \<or> \<not> is_object (the body) \<or> \<not> truthy (jprop body ''error''))
      then (False, BadTone, [cross_mark @ points (''http '' @ nat_str status)])
      else case paintResult show stringify body of
        Inr (t, ls) \<Rightarrow> (True, t, ls)
      | Inl e \<Rightarrow> (False, BadTone, [cross_mark @ points (exn_message e)]))"

text \<open>\<open>pathname\<close> is the path of the action resolved as a URL, \<open>None\<close> when that throws.\<close>

definition shouldIntercept :: "(string \<Rightarrow> string option) \<Rightarrow> string \<Rightarrow> bool" where
  "shouldIntercept pathname action =
     (if includes_str action ''/admin/test/'' then True
      else case pathname action of
        None \<Rightarrow> False
      | Some path \<Rightarrow>
          path = ''/admin/keys'' \<or> starts_with path ''/admin/keys/'' \<and> ends_with path ''/update'')"

subsection \<open>Bounds of a toast\<close>

lemma split_not_Nil [simp]: "split_lines s \<noteq> []"
  by (induction s) (auto split: list.splits)

lemma length_split: "length (split_lines s) = Suc (count_list s 10)"
proof (induction s)
  case (Cons c cs)
  then show ?case by (cases "split_lines cs") (auto)
qed simp

lemma split_lines_plain: "l \<in> set (split_lines s) \<Longrightarrow> 10 \<notin> set l"
  by (induction s arbitrary: l) (auto split: list.splits if_splits)

lemma join_split_lines [simp]: "join_lines (split_lines s) = s"
proof (induction s)
  case (Cons c cs)
  obtain l ls where "split_lines cs = l # ls" by (cases "split_lines cs") auto
  then show ?case using Cons by (cases ls) auto
qed simp

lemma count_join: "list_all (\<lambda>l. 10 \<notin> set l) ls \<Longrightarrow> count_list (join_lines ls) 10 = length ls - 1"
  by (induction ls rule: join_lines.induct) auto

lemma take_join: "\<exists>r. join_lines ls = join_lines (take n ls) @ r"
proof (induction ls arbitrary: n rule: join_lines.induct)
  case (3 l m ls)
  show ?case
  proof (cases n)
    case 0
    then show ?thesis by simp
  next
    case (Suc k)
    show ?thesis
    proof (cases k)
      case 0
      then show ?thesis using Suc by simp
    next
      case (Suc j)
      obtain r where "join_lines (m # ls) = join_lines (take k (m # ls)) @ r" using 3 by blast
      then have "join_lines (l # m # ls) = join_lines (take n (l # m # ls)) @ r"
        using \<open>n = Suc k\<close> Suc by simp
      then show ?thesis by blast
    qed
  qed
qed (auto simp: take_Cons split: nat.splits)

text \<open>Three newlines in a row, and the same as a scan.\<close>

definition tripled :: "points \<Rightarrow> bool" where
  "tripled s = (\<exists>a b. s = a @ 10 # 10 # 10 # b)"

fun runs_ok :: "nat \<Rightarrow> points \<Rightarrow> bool" where
  "runs_ok n [] = True"
| "runs_ok n (c # cs) = (if c = 10 then n < 2 \<and> runs_ok (Suc n) cs else runs_ok 0 cs)"

lemma tripled_append: "tripled s \<Longrightarrow> tripled (a @ s @ b)"
proof -
  assume "tripled s"
  then obtain x y where "s = x @ 10 # 10 # 10 # y" unfolding tripled_def by blast
  then have "a @ s @ b = (a @ x) @ 10 # 10 # 10 # (y @ b)" by simp
  then show ?thesis unfolding tripled_def by blast
qed

lemma runs_ok_not_tripled: "runs_ok n s \<Longrightarrow> \<not> tripled s"
proof -
  have "\<not> runs_ok n (a @ 10 # 10 # 10 # b)" for a b
    by (induction a arbitrary: n) auto
  then show "runs_ok n s \<Longrightarrow> \<not> tripled s" by (auto simp: tripled_def)
qed

lemma runs_ok_replicate: "m + k \<le> 2 \<Longrightarrow> runs_ok m (replicate k 10 @ s) = runs_ok (m + k) s"
  by (induction k arbitrary: m) auto

lemma collapse_runs: "runs_ok 0 (collapse_lines n s)"
proof (induction s arbitrary: n)
  case Nil
  show ?case using runs_ok_replicate [of 0 "if n \<ge> 3 then 2 else n" "[]"] by simp
next
  case (Cons c s)
  show ?case using Cons runs_ok_replicate [of 0 "if n \<ge> 3 then 2 else n" "c # collapse_lines 0 s"] by simp
qed

lemma collapse_unchanged: "n \<le> 2 \<Longrightarrow> runs_ok n s \<Longrightarrow> collapse_lines n s = replicate n 10 @ s"
proof (induction s arbitrary: n)
  case (Cons c s)
  show ?case
  proof (cases "c = 10")
    case True
    then have "collapse_lines (Suc n) s = replicate (Suc n) 10 @ s" using Cons.IH [of "Suc n"] Cons.prems by simp
    with True show ?thesis by (simp add: replicate_app_Cons_same)
  next
    case False
    then show ?thesis using Cons.IH [of 0] Cons.prems by simp
  qed
qed simp

lemma set_collapse: "set (collapse_lines n s) \<subseteq> insert 10 (set s)"
  by (induction n s rule: collapse_lines.induct) (auto simp: in_set_replicate)

lemma trim_sublist: "\<exists>a b. s = a @ trim_lines s @ b"
proof -
  define t where "t = dropWhile (\<lambda>c. c = 10) s"
  have s: "s = takeWhile (\<lambda>c. c = 10) s @ t" by (simp add: t_def)
  have "rev t = takeWhile (\<lambda>c. c = 10) (rev t) @ dropWhile (\<lambda>c. c = 10) (rev t)" by simp
  then have "t = rev (dropWhile (\<lambda>c. c = 10) (rev t)) @ rev (takeWhile (\<lambda>c. c = 10) (rev t))"
    by (metis rev_append rev_rev_ident)
  with s show ?thesis unfolding trim_lines_def t_def by metis
qed

lemma trim_head: "trim_lines s \<noteq> 10 # b"
proof
  define t where "t = dropWhile (\<lambda>c. c = 10) s"
  assume "trim_lines s = 10 # b"
  moreover have "t = trim_lines s @ rev (takeWhile (\<lambda>c. c = 10) (rev t))"
  proof -
    have "rev t = takeWhile (\<lambda>c. c = 10) (rev t) @ dropWhile (\<lambda>c. c = 10) (rev t)" by simp
    then show ?thesis unfolding trim_lines_def t_def by (metis rev_append rev_rev_ident)
  qed
  ultimately have "t = 10 # b @ rev (takeWhile (\<lambda>c. c = 10) (rev t))" by (metis append_Cons)
  then show False unfolding t_def using dropWhile_eq_Cons_conv [of "\<lambda>c. c = 10" s] by blast
qed

lemmas stripped_simps = stripped_def in_ranges_def format_chars_def private_use_def surrogates_def

lemma not_stripped_marks: "\<not> stripped 10" "\<not> stripped 0x2026" "stripped 13"
  by (simp_all add: stripped_def in_ranges_def format_chars_def private_use_def surrogates_def)

lemma normalize_unchanged: "13 \<notin> set s \<Longrightarrow> normalize_eol s = s"
  by (induction s rule: normalize_eol.induct) auto

definition legible :: "points \<Rightarrow> nat \<Rightarrow> bool" where
  "legible s mx =
     (list_all (\<lambda>c. \<not> stripped c) s \<and> runs_ok 0 s \<and> trim_lines s = s \<and> length (split_lines s) \<le> MAX_LINES \<and> length s \<le> mx)"

lemma legible_unchanged: "legible s mx \<Longrightarrow> safe_points s mx = s"
proof -
  assume l: "legible s mx"
  have "13 \<notin> set s" using l not_stripped_marks(3) by (auto simp: legible_def list_all_iff)
  then have "normalize_eol s = s" by (rule normalize_unchanged)
  moreover have "filter (\<lambda>c. \<not> stripped c) s = s" using l by (simp add: legible_def list_all_iff)
  moreover have "collapse_lines 0 s = s"
    using l collapse_unchanged [of 0 s] by (simp add: legible_def)
  ultimately show ?thesis using l by (simp add: safe_points_def Let_def legible_def)
qed

lemma count_take: "count_list (take n s) x \<le> count_list s x"
  using count_list_append [of "take n s" "drop n s" x] by simp

lemma tripled_take: "tripled (take n s) \<Longrightarrow> tripled s"
  using tripled_append [of "take n s" "[]" "drop n s"] by simp

lemma tripled_dots: "tripled (s @ hellip) \<Longrightarrow> tripled s"
proof -
  assume "tripled (s @ hellip)"
  then obtain a b where ab: "s @ [0x2026] = a @ 10 # 10 # 10 # b" unfolding tripled_def hellip_def by blast
  then obtain b' where "b = b' @ [0x2026]" by (cases b rule: rev_cases) auto
  with ab have "s = a @ 10 # 10 # 10 # b'" by simp
  then show ?thesis unfolding tripled_def by blast
qed

text \<open>What is true of the text before the caps stays true under them.\<close>

definition tame :: "points \<Rightarrow> bool" where
  "tame t = (list_all (\<lambda>c. \<not> stripped c) t \<and> \<not> tripled t \<and> (\<forall>b. t \<noteq> 10 # b))"

lemma tame_dots: "tame (p @ r) \<Longrightarrow> tame (p @ hellip)"
proof -
  assume t: "tame (p @ r)"
  have "\<not> tripled p" using t tripled_append [of p "[]" r] by (auto simp: tame_def)
  then have "\<not> tripled (p @ hellip)" using tripled_dots by blast
  moreover have "p @ hellip \<noteq> 10 # b" for b using t by (cases p) (auto simp: tame_def hellip_def)
  ultimately show ?thesis using t not_stripped_marks(2) by (simp add: tame_def hellip_def)
qed

lemma safe_points_tame:
  "tame (safe_points s mx) \<and> length (split_lines (safe_points s mx)) \<le> MAX_LINES \<and> length (safe_points s mx) \<le> Suc mx"
proof -
  define cleaned where "cleaned = filter (\<lambda>c. \<not> stripped c) (normalize_eol s)"
  define trimmed where "trimmed = trim_lines (collapse_lines 0 cleaned)"
  define ls where "ls = split_lines trimmed"
  define capped where "capped = (if length ls > MAX_LINES then join_lines (take MAX_LINES ls) @ hellip else trimmed)"
  have safe: "safe_points s mx = (if length capped > mx then take mx capped @ hellip else capped)"
    by (simp add: safe_points_def Let_def cleaned_def trimmed_def ls_def capped_def)
  obtain a b where ab: "collapse_lines 0 cleaned = a @ trimmed @ b" using trim_sublist unfolding trimmed_def by blast
  have "\<not> tripled trimmed"
    using tripled_append [of trimmed a b] runs_ok_not_tripled [OF collapse_runs, of 0 cleaned] ab by auto
  moreover have "set trimmed \<subseteq> insert 10 (set cleaned)" using set_collapse [of 0 cleaned] ab by auto
  then have "list_all (\<lambda>c. \<not> stripped c) trimmed" using not_stripped_marks(1) by (auto simp: cleaned_def list_all_iff)
  moreover have "trimmed \<noteq> 10 # b" for b unfolding trimmed_def by (rule trim_head)
  ultimately have t: "tame trimmed" unfolding tame_def by blast
  obtain r where r: "trimmed = join_lines (take MAX_LINES ls) @ r" using take_join [of ls MAX_LINES] by (auto simp: ls_def)
  have "tame (join_lines (take MAX_LINES ls) @ hellip)" using t unfolding r by (rule tame_dots)
  with t have c: "tame capped" by (simp add: capped_def)
  have count: "count_list capped 10 < MAX_LINES"
  proof (cases "length ls > MAX_LINES")
    case True
    have "list_all (\<lambda>l. 10 \<notin> set l) (take MAX_LINES ls)"
      using split_lines_plain [of _ trimmed] by (auto simp: list_all_iff ls_def dest: in_set_takeD)
    from count_join [OF this] True show ?thesis by (simp add: capped_def hellip_def MAX_LINES_def)
  next
    case False
    then show ?thesis using length_split [of trimmed] by (simp add: capped_def ls_def)
  qed
  have "tame (safe_points s mx)"
    using c tame_dots [of "take mx capped" "drop mx capped"] by (simp add: safe)
  moreover have "length (split_lines (safe_points s mx)) \<le> MAX_LINES"
    using count count_take [of mx capped 10] by (simp add: length_split safe hellip_def)
  moreover have "length (safe_points s mx) \<le> Suc mx" by (simp add: safe hellip_def)
  ultimately show ?thesis by blast
qed

text \<open>Text of a failed answer is tame when it is shown: it has at most six lines and one code point more
  than the cap, no control, format, private or surrogate character, no three newlines in a row and none at
  its start; and a legible text within these bounds is shown as it is.\<close>

theorem toast_text_is_tame:
  "length (split_lines (safe_points s mx)) \<le> MAX_LINES \<and> length (safe_points s mx) \<le> Suc mx \<and>
   list_all (\<lambda>c. \<not> stripped c) (safe_points s mx) \<and> \<not> tripled (safe_points s mx) \<and> (\<forall>b. safe_points s mx \<noteq> 10 # b) \<and>
   (legible s mx \<longrightarrow> safe_points s mx = s)"
  using safe_points_tame [of s mx] legible_unchanged [of s mx] unfolding tame_def by blast

theorem toast_text_is_tame_witness:
  "legible (points ''no such key'') 200 \<and> safe_points (points ''no such key'') 200 = points ''no such key''"
proof -
  have "legible (points ''no such key'') 200"
    by (simp add: legible_def points_def trim_lines_def MAX_LINES_def length_split stripped_simps)
  with toast_text_is_tame [of "points ''no such key''" 200] show ?thesis by blast
qed

text \<open>The type is cut to 40 points and the message to 200, so an error toast is short and tame.\<close>

lemma safeText_tame: "tame (safeText v mx)" "length (split_lines (safeText v mx)) \<le> MAX_LINES" "length (safeText v mx) \<le> Suc mx"
proof -
  have "tame [] \<and> length (split_lines []) \<le> MAX_LINES" by (simp add: tame_def tripled_def MAX_LINES_def)
  then show "tame (safeText v mx)" "length (split_lines (safeText v mx)) \<le> MAX_LINES" "length (safeText v mx) \<le> Suc mx"
    using safe_points_tame by (auto simp: safeText_def split: option.split json.split)
qed

lemma error_text_short: "length (error_text e) \<le> 400"
proof -
  have "length (safeText (jprop e ''type'') 40) \<le> 41" "length (safeText (jprop e ''message'') 200) \<le> 201"
    using safeText_tame(3) [of "jprop e ''type''" 40] safeText_tame(3) [of "jprop e ''message''" 200] by simp_all
  then show ?thesis by (simp add: error_text_def Let_def cross_mark_def points_def key_not_found_hint_def)
qed

lemma error_text_plain: "list_all (\<lambda>c. \<not> stripped c) (error_text e)"
proof -
  have t: "list_all (\<lambda>c. \<not> stripped c) (safeText (jprop e k) n)" for k n
    using safeText_tame(1) [of "jprop e k" n] by (simp add: tame_def)
  have "list_all (\<lambda>c. \<not> stripped c) cross_mark" "list_all (\<lambda>c. \<not> stripped c) key_not_found_hint"
    "list_all (\<lambda>c. \<not> stripped c) (points ''error'')" "list_all (\<lambda>c. \<not> stripped c) (points '': '')"
    by (simp_all add: cross_mark_def key_not_found_hint_def points_def stripped_simps)
  with t show ?thesis unfolding error_text_def Let_def by simp
qed

text \<open>Any other answer of a probe is shown with its summary as it is, and a summary repeats what upstream
  said.\<close>

lemma summary_is_shown_verbatim:
  "show (Some (JStr s)) = s \<Longrightarrow> s \<noteq> [] \<Longrightarrow>
     paintResult show stringify (Some (JObj [(''ok'', JBool False), (''summary'', JStr s)])) = Inr (BadTone, [cross_mark @ points s])"
  by (simp add: paintResult_def jprop_def as_str_def truthy_def)

end
