(* ===== verification/EditForm.thy ===== *)
theory EditForm
  imports Toast
begin

text \<open>
  The edit form of the dashboard and the part of its script (\<open>LIVE_SCRIPT\<close> in \<open>src/src/admin/render.ts\<close>)
  that keeps it in step with the selected key, as a state machine of what the operator does and of the
  answers that arrive. Its elements are rendered together (\<open>edit_form_html\<close>), so the branches for a missing
  one are left out; so are colours and the label of the button. The events interleave freely: several
  refreshes and submissions can be under way.
\<close>

record edit_env =
  ev_encode :: "string \<Rightarrow> string"
  ev_show :: "json option \<Rightarrow> string"
  ev_stringify :: "json \<Rightarrow> string"

text \<open>A submission as it was sent, with what was selected and whether the rename box was ticked then.\<close>

record sent_edit =
  st_selected :: string
  st_rename :: bool
  st_action :: string
  st_name :: string
  st_models :: string

text \<open>A refresh under way is the flag of its continuation: after a successful update the box is unticked.\<close>

record edit_form =
  ef_sel :: string
  ef_name :: string
  ef_readonly :: bool
  ef_models :: string
  ef_action :: string
  ef_saveDisabled :: bool
  ef_toggle :: bool
  ef_pristine :: string
  ef_meta :: "(string \<times> json) list"
  ef_ready :: bool
  ef_status :: string
  ef_slot :: "tone \<times> points list"
  ef_refreshes :: "bool list"
  ef_submits :: nat
  ef_sent :: "sent_edit list"

definition setEditStatus :: "string \<Rightarrow> edit_form \<Rightarrow> edit_form" where
  "setEditStatus t s = s\<lparr>ef_status := t\<rparr>"

definition setRenameUnlocked :: "bool \<Rightarrow> edit_form \<Rightarrow> edit_form" where
  "setRenameUnlocked unlocked s =
     (if unlocked then s\<lparr>ef_pristine := ef_name s, ef_readonly := False\<rparr>
      else s\<lparr>ef_readonly := True, ef_name := ef_pristine s\<rparr>)"

subsection \<open>Refreshing the key data\<close>

datatype refresh_answer = FetchFails string | Answers nat "json result"

definition file_key_entry :: "json \<Rightarrow> (string \<times> json) option" where
  "file_key_entry k =
     (if jprop (Some k) ''source'' = Some (JStr ''file'')
      then map_option (\<lambda>n. (n, k)) (as_str (jprop (Some k) ''name'')) else None)"

definition meta_step :: "json \<Rightarrow> (string \<times> json) list \<Rightarrow> (string \<times> json) list" where
  "meta_step k m = (case file_key_entry k of Some (n, v) \<Rightarrow> AList.update n v m | None \<Rightarrow> m)"

definition meta_of_answer :: "refresh_answer \<Rightarrow> (string \<times> json) list result" where
  "meta_of_answer a =
     (case a of
        FetchFails m \<Rightarrow> Inl (Other m)
      | Answers status body \<Rightarrow>
          if \<not> (200 \<le> status \<and> status < 300) then Inl (Other (''http '' @ nat_str status))
          else case body of
            Inl e \<Rightarrow> Inl e
          | Inr v \<Rightarrow> (case jprop (Some v) ''keys'' of
              Some (JArr ks) \<Rightarrow> Inr (fold meta_step ks [])
            | _ \<Rightarrow> Inl (Other ''malformed /admin/keys response'')))"

definition loading :: string where "loading = ''loading key data'' @ ellipsis"

definition refresh_starts :: "bool \<Rightarrow> edit_form \<Rightarrow> edit_form" where
  "refresh_starts k s = (setEditStatus loading s)\<lparr>ef_refreshes := ef_refreshes s @ [k]\<rparr>"

definition refreshEditMeta_settles :: "refresh_answer \<Rightarrow> edit_form \<Rightarrow> edit_form" where
  "refreshEditMeta_settles a s =
     (case meta_of_answer a of
        Inr next_meta \<Rightarrow> s\<lparr>ef_meta := next_meta, ef_ready := True\<rparr>
      | Inl e \<Rightarrow> setEditStatus (''! could not refresh key metadata ('' @ exn_message e @
            ''). Refresh the page (Cmd/Ctrl+R) and try again.'') (s\<lparr>ef_ready := False\<rparr>))"

definition edit_path :: "edit_env \<Rightarrow> string \<Rightarrow> string" where
  "edit_path env sel = ''/admin/keys/'' @ ev_encode env sel @ ''/update''"

definition models_field :: "edit_env \<Rightarrow> json option \<Rightarrow> string" where
  "models_field env v =
     (case v of Some (JArr xs) \<Rightarrow> join_str '', '' (map (\<lambda>y. if y = JNull then [] else ev_show env (Some y)) xs) | _ \<Rightarrow> [])"

definition applyEditSelection :: "edit_env \<Rightarrow> edit_form \<Rightarrow> edit_form" where
  "applyEditSelection env s0 =
     (let sel = ef_sel s0; s = s0\<lparr>ef_action := edit_path env sel\<rparr> in
      case (if ef_ready s then map_of (ef_meta s) sel else None) of
        Some meta \<Rightarrow>
          setEditStatus [] (s\<lparr>ef_name := (case as_str (jprop (Some meta) ''name'') of Some n \<Rightarrow> n | None \<Rightarrow> ''undefined''),
            ef_models := models_field env (jprop (Some meta) ''allowedModels''), ef_saveDisabled := False\<rparr>)
      | None \<Rightarrow> s\<lparr>ef_saveDisabled := True\<rparr>)"

subsection \<open>The events\<close>

datatype submit_answer = SubmitFails string | SubmitAnswers nat "json option"

datatype edit_event =
    SelectKey string
  | TypeName string
  | TypeModels string
  | ToggleRename
  | SubmitEdit
  | SubmitSettles submit_answer
  | KeyIssued
  | RefreshSettles nat refresh_answer

definition is_update_path :: "string \<Rightarrow> bool" where
  "is_update_path action = (includes_str action ''/admin/keys/'' \<and> ends_with action ''/update'')"

text \<open>The answer to the form's own submission; the button is given back in \<open>finally\<close>.\<close>

definition submit_settles :: "edit_env \<Rightarrow> submit_answer \<Rightarrow> edit_form \<Rightarrow> edit_form" where
  "submit_settles env a s =
     (case a of
        SubmitFails m \<Rightarrow> s\<lparr>ef_slot := (BadTone, [cross_mark @ points m]), ef_saveDisabled := False\<rparr>
      | SubmitAnswers status body \<Rightarrow>
          (case show_reply (ev_show env) (ev_stringify env) status body of
             (continues, painted) \<Rightarrow>
               let s1 = s\<lparr>ef_slot := painted\<rparr>;
                   s2 = (if continues \<and> includes_str (ef_action s1) ''/admin/keys''
                         then refresh_starts (200 \<le> status \<and> status < 300 \<and> is_update_path (ef_action s1)) s1 else s1)
               in s2\<lparr>ef_saveDisabled := False\<rparr>))"

definition refresh_continues :: "edit_env \<Rightarrow> bool \<Rightarrow> edit_form \<Rightarrow> edit_form" where
  "refresh_continues env afterUpdate s =
     (let s1 = applyEditSelection env s in
      if afterUpdate \<and> ef_toggle s1 then setRenameUnlocked False (s1\<lparr>ef_toggle := False\<rparr>) else s1)"

text \<open>\<open>None\<close>: the page does not offer this event. A read-only field takes no input, a disabled button submits
  nothing.\<close>

definition edit_step :: "edit_env \<Rightarrow> edit_event \<Rightarrow> edit_form \<Rightarrow> edit_form option" where
  "edit_step env ev s =
     (case ev of
        SelectKey k \<Rightarrow>
          Some (refresh_starts False (setRenameUnlocked False (s\<lparr>ef_sel := k, ef_saveDisabled := True, ef_toggle := False\<rparr>)))
      | TypeName t \<Rightarrow> if ef_readonly s then None else Some (s\<lparr>ef_name := t\<rparr>)
      | TypeModels t \<Rightarrow> Some (s\<lparr>ef_models := t\<rparr>)
      | ToggleRename \<Rightarrow> Some (setRenameUnlocked (\<not> ef_toggle s) (s\<lparr>ef_toggle := \<not> ef_toggle s\<rparr>))
      | SubmitEdit \<Rightarrow>
          if ef_saveDisabled s then None
          else Some (s\<lparr>ef_saveDisabled := True, ef_slot := (MutedTone, [points ''running'' @ hellip]), ef_submits := Suc (ef_submits s),
            ef_sent := ef_sent s @ [\<lparr>st_selected = ef_sel s, st_rename = ef_toggle s, st_action = ef_action s,
              st_name = ef_name s, st_models = ef_models s\<rparr>]\<rparr>)
      | SubmitSettles a \<Rightarrow>
          if ef_submits s = 0 then None else Some (submit_settles env a (s\<lparr>ef_submits := ef_submits s - 1\<rparr>))
      | KeyIssued \<Rightarrow> Some (refresh_starts False s)
      | RefreshSettles i a \<Rightarrow>
          if i < length (ef_refreshes s)
          then Some (refresh_continues env (ef_refreshes s ! i)
            (refreshEditMeta_settles a (s\<lparr>ef_refreshes := take i (ef_refreshes s) @ drop (Suc i) (ef_refreshes s)\<rparr>)))
          else None)"

text \<open>The form as rendered for the first file key, after the script's setup.\<close>

definition edit_init :: "string \<Rightarrow> string \<Rightarrow> edit_form" where
  "edit_init first models =
     refresh_starts False (setRenameUnlocked False
       \<lparr>ef_sel = first, ef_name = first, ef_readonly = True, ef_models = models,
        ef_action = ''/admin/keys/'' @ first @ ''/update'', ef_saveDisabled = True, ef_toggle = False, ef_pristine = first,
        ef_meta = [], ef_ready = False, ef_status = loading, ef_slot = (MutedTone, []), ef_refreshes = [], ef_submits = 0,
        ef_sent = []\<rparr>)"

fun edit_run :: "edit_env \<Rightarrow> edit_event list \<Rightarrow> edit_form \<Rightarrow> edit_form option" where
  "edit_run env [] s = Some s"
| "edit_run env (ev # evs) s = (case edit_step env ev s of None \<Rightarrow> None | Some s' \<Rightarrow> edit_run env evs s')"

subsection \<open>Runs of a patient operator\<close>

text \<open>The operator changes the selection only while no submission is under way, touches the rename box only
  while no refresh is, and issues no key with the box ticked.\<close>

definition patient :: "edit_event \<Rightarrow> edit_form \<Rightarrow> bool" where
  "patient ev s =
     (case ev of
        SelectKey _ \<Rightarrow> ef_submits s = 0
      | ToggleRename \<Rightarrow> ef_refreshes s = []
      | KeyIssued \<Rightarrow> \<not> ef_toggle s
      | _ \<Rightarrow> True)"

inductive edit_reach :: "edit_env \<Rightarrow> edit_form \<Rightarrow> bool" for env where
  start: "edit_reach env (edit_init first models)"
| step: "edit_reach env s \<Longrightarrow> patient ev s \<Longrightarrow> edit_step env ev s = Some s' \<Longrightarrow> edit_reach env s'"

definition aligned :: "edit_env \<Rightarrow> edit_form \<Rightarrow> bool" where
  "aligned env s =
     (ef_action s = edit_path env (ef_sel s) \<and> (if ef_toggle s then ef_pristine s = ef_sel s else ef_name s = ef_sel s))"

definition asleep :: "edit_form \<Rightarrow> bool" where
  "asleep s = (ef_saveDisabled s \<and> ef_submits s = 0 \<and> (ef_toggle s \<longrightarrow> ef_refreshes s = []))"

definition named_meta :: "(string \<times> json) list \<Rightarrow> bool" where
  "named_meta m = (\<forall>n k. map_of m n = Some k \<longrightarrow> as_str (jprop (Some k) ''name'') = Some n)"

definition lock_inv :: "edit_form \<Rightarrow> bool" where
  "lock_inv s = (ef_readonly s = (\<not> ef_toggle s) \<and> named_meta (ef_meta s))"

lemma named_meta_fold: "named_meta m \<Longrightarrow> named_meta (fold meta_step ks m)"
proof (induction ks arbitrary: m)
  case (Cons k ks)
  have "named_meta (meta_step k m)"
    using Cons.prems by (auto simp: named_meta_def meta_step_def file_key_entry_def update_conv' split: if_splits option.splits)
  then show ?case using Cons.IH by simp
qed simp

lemma settles_meta: "named_meta (ef_meta s) \<Longrightarrow> named_meta (ef_meta (refreshEditMeta_settles a s))"
  using named_meta_fold [of "[]"]
  by (auto simp: refreshEditMeta_settles_def setEditStatus_def meta_of_answer_def named_meta_def
      split: sum.split refresh_answer.split option.split json.split if_splits)

text \<open>A refresh changes neither selection nor fields; what follows it aligns the form or disables the button.\<close>

lemma settles_fields [simp]:
  "ef_sel (refreshEditMeta_settles a s) = ef_sel s" "ef_name (refreshEditMeta_settles a s) = ef_name s"
  "ef_readonly (refreshEditMeta_settles a s) = ef_readonly s" "ef_toggle (refreshEditMeta_settles a s) = ef_toggle s"
  "ef_pristine (refreshEditMeta_settles a s) = ef_pristine s" "ef_submits (refreshEditMeta_settles a s) = ef_submits s"
  "ef_refreshes (refreshEditMeta_settles a s) = ef_refreshes s" "ef_sent (refreshEditMeta_settles a s) = ef_sent s"
  by (simp_all add: refreshEditMeta_settles_def setEditStatus_def split: sum.split)

lemma apply_fields [simp]:
  "ef_sel (applyEditSelection env s) = ef_sel s" "ef_readonly (applyEditSelection env s) = ef_readonly s"
  "ef_toggle (applyEditSelection env s) = ef_toggle s" "ef_pristine (applyEditSelection env s) = ef_pristine s"
  "ef_submits (applyEditSelection env s) = ef_submits s" "ef_refreshes (applyEditSelection env s) = ef_refreshes s"
  "ef_sent (applyEditSelection env s) = ef_sent s" "ef_meta (applyEditSelection env s) = ef_meta s"
  "ef_action (applyEditSelection env s) = edit_path env (ef_sel s)"
  by (simp_all add: applyEditSelection_def setEditStatus_def Let_def split: option.split)

lemma apply_found:
  assumes "named_meta (ef_meta s)" "\<not> ef_saveDisabled (applyEditSelection env s)"
  shows "ef_name (applyEditSelection env s) = ef_sel s"
  using assms by (auto simp: applyEditSelection_def setEditStatus_def Let_def named_meta_def split: option.splits if_splits)

lemma apply_missed:
  assumes "ef_saveDisabled (applyEditSelection env s)"
  shows "ef_name (applyEditSelection env s) = ef_name s"
  using assms by (auto simp: applyEditSelection_def setEditStatus_def Let_def split: option.splits if_splits)

definition edit_inv :: "edit_env \<Rightarrow> edit_form \<Rightarrow> bool" where
  "edit_inv env s = (lock_inv s \<and> (aligned env s \<or> asleep s))"

definition well_sent :: "edit_env \<Rightarrow> sent_edit \<Rightarrow> bool" where
  "well_sent env r = (st_action r = edit_path env (st_selected r) \<and> (st_rename r \<or> st_name r = st_selected r))"

lemma inv_init: "edit_inv env (edit_init first models)"
  by (simp add: edit_inv_def lock_inv_def asleep_def named_meta_def edit_init_def refresh_starts_def setEditStatus_def setRenameUnlocked_def)

lemma inv_refresh_starts: "aligned env s \<Longrightarrow> aligned env (refresh_starts k s)" "lock_inv (refresh_starts k s) = lock_inv s"
  by (simp_all add: aligned_def lock_inv_def refresh_starts_def setEditStatus_def)

lemma inv_select:
  assumes "edit_inv env s" "ef_submits s = 0" "edit_step env (SelectKey k) s = Some s'"
  shows "edit_inv env s'"
  using assms by (auto simp: edit_inv_def lock_inv_def asleep_def edit_step_def refresh_starts_def setEditStatus_def setRenameUnlocked_def)

lemma inv_toggle:
  assumes "edit_inv env s" "ef_refreshes s = []" "edit_step env ToggleRename s = Some s'"
  shows "edit_inv env s'"
  using assms by (auto simp: edit_inv_def lock_inv_def asleep_def aligned_def edit_step_def setRenameUnlocked_def split: if_splits)

lemma inv_type:
  assumes "edit_inv env s" "edit_step env (TypeName t) s = Some s'"
  shows "edit_inv env s'"
  using assms by (auto simp: edit_inv_def lock_inv_def asleep_def aligned_def edit_step_def split: if_splits)

lemma inv_models:
  assumes "edit_inv env s" "edit_step env (TypeModels t) s = Some s'"
  shows "edit_inv env s'"
  using assms by (auto simp: edit_inv_def lock_inv_def asleep_def aligned_def edit_step_def split: if_splits)

lemma inv_submit:
  assumes "edit_inv env s" "edit_step env SubmitEdit s = Some s'"
  shows "edit_inv env s'"
proof -
  have "\<not> ef_saveDisabled s" using assms(2) by (simp add: edit_step_def split: if_splits)
  then have "aligned env s" using assms(1) by (simp add: edit_inv_def asleep_def)
  then show ?thesis using assms by (auto simp: edit_inv_def lock_inv_def aligned_def edit_step_def split: if_splits)
qed

lemma inv_issued:
  assumes "edit_inv env s" "\<not> ef_toggle s" "edit_step env KeyIssued s = Some s'"
  shows "edit_inv env s'"
  using assms by (auto simp: edit_inv_def lock_inv_def asleep_def aligned_def edit_step_def refresh_starts_def setEditStatus_def)

lemma inv_answer:
  assumes "edit_inv env s" "edit_step env (SubmitSettles a) s = Some s'"
  shows "edit_inv env s'"
proof -
  have n: "ef_submits s \<noteq> 0" and s': "s' = submit_settles env a (s\<lparr>ef_submits := ef_submits s - 1\<rparr>)"
    using assms(2) by (simp_all add: edit_step_def split: if_splits)
  have "aligned env s" using assms(1) n by (simp add: edit_inv_def asleep_def)
  moreover have "ef_action s' = ef_action s" "ef_sel s' = ef_sel s" "ef_toggle s' = ef_toggle s" "ef_pristine s' = ef_pristine s"
    "ef_name s' = ef_name s" "ef_readonly s' = ef_readonly s" "ef_meta s' = ef_meta s"
    unfolding s' submit_settles_def
    by (simp_all add: refresh_starts_def setEditStatus_def Let_def split: submit_answer.split prod.split)
  ultimately show ?thesis using assms(1) by (simp add: edit_inv_def aligned_def lock_inv_def)
qed

lemma inv_refresh:
  assumes "edit_inv env s" "edit_step env (RefreshSettles i a) s = Some s'"
  shows "edit_inv env s'"
proof -
  have i: "i < length (ef_refreshes s)" using assms(2) by (simp add: edit_step_def split: if_splits)
  define s0 where "s0 = refreshEditMeta_settles a (s\<lparr>ef_refreshes := take i (ef_refreshes s) @ drop (Suc i) (ef_refreshes s)\<rparr>)"
  define s1 where "s1 = applyEditSelection env s0"
  have s': "s' = (if ef_refreshes s ! i \<and> ef_toggle s1 then setRenameUnlocked False (s1\<lparr>ef_toggle := False\<rparr>) else s1)"
    using assms(2) i by (auto simp: edit_step_def refresh_continues_def s1_def s0_def Let_def split: if_splits)
  have toggled: "ef_toggle s \<Longrightarrow> aligned env s" using assms(1) i by (auto simp: edit_inv_def asleep_def)
  have l: "lock_inv s1"
    using assms(1) settles_meta [of "s\<lparr>ef_refreshes := take i (ef_refreshes s) @ drop (Suc i) (ef_refreshes s)\<rparr>" a]
    by (simp add: edit_inv_def lock_inv_def s1_def s0_def)
  have meta: "named_meta (ef_meta s0)" using l by (simp add: lock_inv_def s1_def)
  have "aligned env s1 \<or> asleep s1"
  proof (cases "ef_saveDisabled s1")
    case False
    then have "ef_name s1 = ef_sel s1" using apply_found [OF meta] by (simp add: s1_def)
    then show ?thesis using toggled by (auto simp: aligned_def s1_def s0_def)
  next
    case True
    have name: "ef_name s1 = ef_name s" using apply_missed [of env s0] True by (simp add: s1_def s0_def)
    show ?thesis
    proof (cases "aligned env s")
      case True
      then show ?thesis using name by (auto simp: aligned_def s1_def s0_def)
    next
      case False
      then have "asleep s" "\<not> ef_toggle s" using assms(1) toggled by (auto simp: edit_inv_def)
      then show ?thesis using \<open>ef_saveDisabled s1\<close> by (simp add: asleep_def s1_def s0_def)
    qed
  qed
  moreover have "aligned env s1" if "ef_toggle s1"
  proof -
    have "ef_toggle s" using that by (simp add: s1_def s0_def)
    with toggled have "ef_pristine s = ef_sel s" by (simp add: aligned_def)
    then show ?thesis using that by (simp add: aligned_def s1_def s0_def)
  qed
  ultimately show ?thesis using l unfolding s' edit_inv_def
    by (auto simp: aligned_def lock_inv_def setRenameUnlocked_def)
qed

lemma edit_invariant: "edit_reach env s \<Longrightarrow> edit_inv env s"
proof (induction rule: edit_reach.induct)
  case (start first models)
  show ?case by (rule inv_init)
next
  case (step s ev s')
  then show ?case
    by (cases ev) (auto simp: patient_def intro: inv_select inv_toggle inv_type inv_models inv_submit inv_issued inv_answer inv_refresh)
qed

lemma step_sent:
  assumes "edit_inv env s" "edit_step env ev s = Some s'" "r \<in> set (ef_sent s')"
  shows "r \<in> set (ef_sent s) \<or> well_sent env r"
proof (cases "ev = SubmitEdit")
  case True
  then have d: "\<not> ef_saveDisabled s" and sent: "ef_sent s' = ef_sent s @ [\<lparr>st_selected = ef_sel s, st_rename = ef_toggle s,
      st_action = ef_action s, st_name = ef_name s, st_models = ef_models s\<rparr>]"
    using assms(2) by (auto simp: edit_step_def split: if_splits)
  then have "aligned env s" using assms(1) by (simp add: edit_inv_def asleep_def)
  then show ?thesis using assms(3) by (auto simp: sent aligned_def well_sent_def split: if_splits)
next
  case False
  have "ef_sent s' = ef_sent s"
  proof (cases ev)
    case (SubmitSettles a)
    then show ?thesis using assms(2)
      by (auto simp: edit_step_def submit_settles_def refresh_starts_def setEditStatus_def Let_def
          split: submit_answer.splits prod.splits if_splits)
  next
    case (RefreshSettles i a)
    then show ?thesis using assms(2)
      by (auto simp: edit_step_def refresh_continues_def setRenameUnlocked_def Let_def split: if_splits)
  qed (use assms(2) False in \<open>auto simp: edit_step_def refresh_starts_def setEditStatus_def setRenameUnlocked_def split: if_splits\<close>)
  then show ?thesis using assms(3) by simp
qed


definition key_json :: "string \<Rightarrow> json" where
  "key_json n = JObj [(''name'', JStr n), (''source'', JStr ''file''), (''allowedModels'', JNull)]"

definition listed :: "string list \<Rightarrow> refresh_answer" where
  "listed ns = Answers 200 (Inr (JObj [(''keys'', JArr (map key_json ns))]))"

definition updated_answer :: "string \<Rightarrow> submit_answer" where
  "updated_answer n = SubmitAnswers 200 (Some (JObj [(''kind'', JStr ''updated''), (''name'', JStr n), (''allowedModels'', JNull)]))"

definition edit_demo :: edit_env where
  "edit_demo = \<lparr>ev_encode = (\<lambda>s. s), ev_show = (\<lambda>_. []), ev_stringify = (\<lambda>_. [])\<rparr>"

lemma meta_listed: "meta_of_answer (listed ns) = Inr (fold (\<lambda>n. AList.update n (key_json n)) ns [])"
proof -
  have "meta_step (key_json n) m = AList.update n (key_json n) m" for n m
    by (simp add: meta_step_def file_key_entry_def key_json_def jprop_def as_str_def)
  then have "fold meta_step (map key_json ns) m = fold (\<lambda>n. AList.update n (key_json n)) ns m" for m
    by (induction ns arbitrary: m) simp_all
  then show ?thesis by (simp add: meta_of_answer_def listed_def jprop_def)
qed

lemmas edit_eval = edit_step_def refresh_continues_def refreshEditMeta_settles_def applyEditSelection_def setEditStatus_def
  setRenameUnlocked_def refresh_starts_def submit_settles_def meta_listed Let_def edit_init_def

lemma key_json_fields: "as_str (jprop (Some (key_json n)) ''name'') = Some n" "models_field env (jprop (Some (key_json n)) ''allowedModels'') = []"
  by (simp_all add: key_json_def jprop_def as_str_def models_field_def)


subsection \<open>Runs of an impatient one\<close>

lemma update_shown:
  "show_reply show stringify 200 (Some (JObj [(''kind'', JStr ''updated''), (''name'', JStr n), (''allowedModels'', JNull)])) =
     (True, GoodTone, [check_mark @ points ''updated '' @ quoted n @ points '' (no model restriction)''])"
  by (simp add: show_reply_def paintResult_def jprop_def as_str_def joined_models_def)

lemma edit_path_matches: "includes_str (edit_path env k) ''/admin/keys''" "is_update_path (edit_path env k)"
proof -
  show "includes_str (edit_path env k) ''/admin/keys''"
    unfolding includes_str_def by (rule prefix_imp_sublist) (simp add: edit_path_def)
  have "includes_str (edit_path env k) ''/admin/keys/''"
    unfolding includes_str_def by (rule prefix_imp_sublist) (simp add: edit_path_def)
  moreover have "ends_with (edit_path env k) ''/update''"
    unfolding ends_with_def edit_path_def append_assoc [symmetric] by (rule suffixI [OF refl])
  ultimately show "is_update_path (edit_path env k)" by (simp add: is_update_path_def)
qed

text \<open>The form does not keep its promises without that patience. The button is given back as soon as a
  submission is answered, so after a change of the selection in the meantime the next submission goes to the
  old key; unticking the rename box restores the name it held when ticked, which is another key's when it
  was ticked during a refresh, so an edit with the box unticked asks to rename; and after a successful rename
  the form stays on the old name with the button disabled and the status saying that it is loading.\<close>

theorem impatient_edits_go_astray:
  assumes "a \<noteq> b" "a \<noteq> c" "edit_path env a \<noteq> edit_path env b"
  shows "(\<exists>s r. edit_run env [RefreshSettles 0 (listed [a, b]), SubmitEdit, SelectKey b, SubmitSettles (updated_answer a), SubmitEdit]
        (edit_init a []) = Some s \<and> List.last (ef_sent s) = r \<and> st_selected r = b \<and> st_action r = edit_path env a \<and> \<not> well_sent env r) \<and>
    (\<exists>s r. edit_run env [RefreshSettles 0 (listed [a, b]), SelectKey b, ToggleRename, RefreshSettles 0 (listed [a, b]), ToggleRename, SubmitEdit]
        (edit_init a []) = Some s \<and> List.last (ef_sent s) = r \<and> st_action r = edit_path env b \<and> \<not> st_rename r \<and> st_name r = a) \<and>
    (\<exists>s. edit_run env [RefreshSettles 0 (listed [a]), ToggleRename, TypeName c, SubmitEdit, SubmitSettles (updated_answer c), RefreshSettles 0 (listed [c])]
        (edit_init a []) = Some s \<and> ef_refreshes s = [] \<and> ef_submits s = 0 \<and> ef_saveDisabled s \<and> ef_name s = a \<and> ef_status s = loading)"
proof (intro conjI)
  show "\<exists>s r. edit_run env [RefreshSettles 0 (listed [a, b]), SubmitEdit, SelectKey b, SubmitSettles (updated_answer a), SubmitEdit]
        (edit_init a []) = Some s \<and> List.last (ef_sent s) = r \<and> st_selected r = b \<and> st_action r = edit_path env a \<and> \<not> well_sent env r"
    using assms by (simp add: edit_eval key_json_fields updated_answer_def update_shown edit_path_matches well_sent_def)
  show "\<exists>s r. edit_run env [RefreshSettles 0 (listed [a, b]), SelectKey b, ToggleRename, RefreshSettles 0 (listed [a, b]), ToggleRename, SubmitEdit]
        (edit_init a []) = Some s \<and> List.last (ef_sent s) = r \<and> st_action r = edit_path env b \<and> \<not> st_rename r \<and> st_name r = a"
    using assms by (simp add: edit_eval key_json_fields)
  show "\<exists>s. edit_run env [RefreshSettles 0 (listed [a]), ToggleRename, TypeName c, SubmitEdit, SubmitSettles (updated_answer c), RefreshSettles 0 (listed [c])]
        (edit_init a []) = Some s \<and> ef_refreshes s = [] \<and> ef_submits s = 0 \<and> ef_saveDisabled s \<and> ef_name s = a \<and> ef_status s = loading"
    using assms by (simp add: edit_eval key_json_fields updated_answer_def update_shown edit_path_matches)
qed

theorem impatient_edits_go_astray_witness:
  "\<exists>s r. edit_run edit_demo [RefreshSettles 0 (listed [''al'', ''bo'']), SubmitEdit, SelectKey ''bo'', SubmitSettles (updated_answer ''al''), SubmitEdit]
        (edit_init ''al'' []) = Some s \<and> List.last (ef_sent s) = r \<and> st_selected r = ''bo'' \<and> st_action r = edit_path edit_demo ''al'' \<and> \<not> well_sent edit_demo r"
  by (rule impatient_edits_go_astray [of "''al''" "''bo''" "''cy''" edit_demo, THEN conjunct1])
     (simp_all add: edit_path_def edit_demo_def)

end
