(* ===== verification/Capture.thy ===== *)
theory Capture
  imports Config
begin

text \<open>
  \<open>src/src/capture.ts\<close>: in capture mode every authenticated request below \<open>/v1/messages\<close> is dumped to a
  file of its own. The dumps are written one after the other in the background; a write may fail or leave
  a truncated file. The clock's ISO text and the random id are arguments of a request's arrival,
  \<open>stringify\<close> is \<open>JSON.stringify\<close>. The header pairs are the wire order under the node adapter and the
  sorted \<open>Headers\<close> otherwise; a wire header without a value is dropped.
\<close>

record capture_config =
  cc_enabled :: bool
  cc_dir :: string

definition loadCaptureConfig :: "environment \<Rightarrow> capture_config" where
  "loadCaptureConfig env =
     \<lparr>cc_enabled = (env ''CAPTURE_MODE'' = Some ''true''), cc_dir = or_default ''./captures'' (env ''CAPTURE_DIR'')\<rparr>"

record capture_request =
  cq_method :: string
  cq_path :: string
  cq_rawHeaders :: "string list option"
  cq_headers :: headers
  cq_text :: "string result"

fun pair_headers :: "string list \<Rightarrow> (string \<times> string) list" where
  "pair_headers (name # value # rest) = (name, value) # pair_headers rest"
| "pair_headers _ = []"

definition wireOrderAvailable :: "capture_request \<Rightarrow> bool" where
  "wireOrderAvailable q = (case cq_rawHeaders q of Some raw \<Rightarrow> length raw > 0 | None \<Rightarrow> False)"

definition headersInOrder :: "capture_request \<Rightarrow> (string \<times> string) list" where
  "headersInOrder q =
     (case cq_rawHeaders q of
        Some (x # xs) \<Rightarrow> pair_headers (x # xs)
      | _ \<Rightarrow> cq_headers q)"

definition capture_dump :: "string \<Rightarrow> capture_request \<Rightarrow> string \<Rightarrow> json" where
  "capture_dump now q body =
     JObj [(''capturedAt'', JStr now), (''method'', JStr (cq_method q)), (''path'', JStr (cq_path q)),
           (''wireOrderAvailable'', JBool (wireOrderAvailable q)),
           (''headersInOrder'', JArr (map (\<lambda>nv. JArr [JStr (fst nv), JStr (snd nv)]) (headersInOrder q))),
           (''bodyBytes'', JNum (of_nat (length body))), (''body'', JStr body)]"

definition padStart :: "nat \<Rightarrow> string \<Rightarrow> string" where
  "padStart n s = replicate (n - length s) (CHR ''0'') @ s"

definition dump_file :: "string \<Rightarrow> nat \<Rightarrow> string \<Rightarrow> string" where
  "dump_file now seq uuid =
     map (\<lambda>c. if c = CHR '':'' \<or> c = CHR ''.'' then CHR ''-'' else c) now @ ''_'' @ padStart 4 (nat_str seq) @ ''_'' @
       take 8 uuid @ ''.json''"

datatype write_outcome = Written | NotWritten | Truncated string

record capture_state =
  ct_seq :: nat
  ct_queue :: "(nat \<times> string \<times> json) list"
  ct_files :: "(string \<times> string) list"

definition capture_init :: capture_state where
  "capture_init = \<lparr>ct_seq = 0, ct_queue = [], ct_files = []\<rparr>"

text \<open>The middleware up to its call of \<open>next\<close>: what it throws, and the write it has queued.\<close>

definition capture_mw ::
  "capture_config \<Rightarrow> string \<Rightarrow> string \<Rightarrow> capture_request \<Rightarrow> capture_state \<Rightarrow> exn option \<times> capture_state" where
  "capture_mw cfg now uuid q s =
     (if \<not> cc_enabled cfg then (None, s)
      else if \<not> starts_with (cq_path q) ''/v1/messages'' then (None, s)
      else case cq_text q of
        Inl e \<Rightarrow> (Some e, s)
      | Inr body \<Rightarrow>
          let n = Suc (ct_seq s) in
          (None, s\<lparr>ct_seq := n, ct_queue := ct_queue s @ [(n, dump_file now n uuid, capture_dump now q body)]\<rparr>))"

text \<open>The oldest queued write settles; \<open>io n\<close> is the outcome of the write of the \<open>n\<close>th dump.\<close>

definition write_settles :: "(json \<Rightarrow> string) \<Rightarrow> (nat \<Rightarrow> write_outcome) \<Rightarrow> capture_state \<Rightarrow> capture_state" where
  "write_settles stringify io s =
     (case ct_queue s of
        [] \<Rightarrow> s
      | (n, file, dump) # queue \<Rightarrow>
          s\<lparr>ct_queue := queue,
            ct_files := (case io n of
              Written \<Rightarrow> AList.update file (stringify dump) (ct_files s)
            | NotWritten \<Rightarrow> ct_files s
            | Truncated part \<Rightarrow> AList.update file part (ct_files s))\<rparr>)"

datatype capture_event = Arrives string string capture_request | Settles

definition capture_step ::
  "capture_config \<Rightarrow> (json \<Rightarrow> string) \<Rightarrow> (nat \<Rightarrow> write_outcome) \<Rightarrow> capture_event \<Rightarrow> capture_state \<Rightarrow> capture_state" where
  "capture_step cfg stringify io ev s =
     (case ev of
        Arrives now uuid q \<Rightarrow> snd (capture_mw cfg now uuid q s)
      | Settles \<Rightarrow> write_settles stringify io s)"

definition capture_run ::
  "capture_config \<Rightarrow> (json \<Rightarrow> string) \<Rightarrow> (nat \<Rightarrow> write_outcome) \<Rightarrow> capture_event list \<Rightarrow> capture_state \<Rightarrow> capture_state" where
  "capture_run cfg stringify io evs s = fold (capture_step cfg stringify io) evs s"

subsection \<open>File names\<close>

lemma padStart_inject: "padStart 4 (nat_str m) = padStart 4 (nat_str n) \<Longrightarrow> m = n"
proof -
  have zeros: "digits_val (replicate k (CHR ''0'') @ s) = digits_val s" for k s
    by (induction k) (simp_all add: digits_val_def digit_val_def)
  assume "padStart 4 (nat_str m) = padStart 4 (nat_str n)"
  then have "digits_val (padStart 4 (nat_str m)) = digits_val (padStart 4 (nat_str n))" by simp
  then show "m = n" unfolding padStart_def zeros by (simp add: digits_val_nat_str)
qed

lemma padStart_digits: "c \<in> set (padStart 4 (nat_str n)) \<Longrightarrow> is_digit c"
  by (auto simp: padStart_def is_digit_def dest: nat_str_digits)

lemma dump_file_inject:
  assumes "dump_file t m u = dump_file t' m' u'" and "CHR ''_'' \<notin> set t" and "CHR ''_'' \<notin> set t'"
  shows "m = m'"
proof -
  let ?d = "\<lambda>c. if c = CHR '':'' \<or> c = CHR ''.'' then CHR ''-'' else c"
  have cut: "takeWhile (\<lambda>c. c \<noteq> CHR ''_'') (map ?d t @ CHR ''_'' # r) = map ?d t"
    "dropWhile (\<lambda>c. c \<noteq> CHR ''_'') (map ?d t @ CHR ''_'' # r) = CHR ''_'' # r" if "CHR ''_'' \<notin> set t" for t r
    using that by (auto simp: takeWhile_append dropWhile_append)
  have num: "takeWhile (\<lambda>c. c \<noteq> CHR ''_'') (padStart 4 (nat_str n) @ CHR ''_'' # r) = padStart 4 (nat_str n)" for n r
    by (auto simp: takeWhile_append is_digit_def dest: padStart_digits)
  have "padStart 4 (nat_str n) = takeWhile (\<lambda>c. c \<noteq> CHR ''_'') (tl (dropWhile (\<lambda>c. c \<noteq> CHR ''_'') (dump_file t n u)))"
    if "CHR ''_'' \<notin> set t" for t n u
    using cut(2) [OF that, of "padStart 4 (nat_str n) @ CHR ''_'' # take 8 u @ ''.json''"] num [of n]
    by (simp add: dump_file_def)
  from this [OF assms(2), of m u] this [OF assms(3), of m' u'] have "padStart 4 (nat_str m) = padStart 4 (nat_str m')"
    using assms(1) by simp
  then show ?thesis by (rule padStart_inject)
qed

subsection \<open>What the files hold\<close>

text \<open>The dumps a run of events queues, numbered as the middleware numbers them.\<close>

fun arrived :: "capture_config \<Rightarrow> nat \<Rightarrow> capture_event list \<Rightarrow> (nat \<times> string \<times> json) list" where
  "arrived cfg n [] = []"
| "arrived cfg n (Settles # evs) = arrived cfg n evs"
| "arrived cfg n (Arrives now uuid q # evs) =
     (if cc_enabled cfg \<and> starts_with (cq_path q) ''/v1/messages'' \<and> \<not> isl (cq_text q)
      then (Suc n, dump_file now (Suc n) uuid, capture_dump now q (projr (cq_text q))) # arrived cfg (Suc n) evs
      else arrived cfg n evs)"

definition stored_text :: "(json \<Rightarrow> string) \<Rightarrow> (nat \<Rightarrow> write_outcome) \<Rightarrow> nat \<times> string \<times> json \<Rightarrow> (string \<times> string) list" where
  "stored_text stringify io w =
     (case w of (n, file, dump) \<Rightarrow>
       (case io n of Written \<Rightarrow> [(file, stringify dump)] | NotWritten \<Rightarrow> [] | Truncated part \<Rightarrow> [(file, part)]))"

definition file_names :: "(nat \<times> string \<times> json) list \<Rightarrow> string list" where
  "file_names ws = map (\<lambda>w. fst (snd w)) ws"

lemma arrived_numbers: "map fst (arrived cfg n evs) = [Suc n..<Suc n + length (arrived cfg n evs)]"
  by (induction cfg n evs rule: arrived.induct) (auto simp: upt_conv_Cons simp del: upt_Suc)

lemma arrived_files:
  assumes "\<forall>ev \<in> set evs. \<forall>now uuid q. ev = Arrives now uuid q \<longrightarrow> CHR ''_'' \<notin> set now"
  shows "w \<in> set (arrived cfg n evs) \<Longrightarrow> \<exists>now uuid. CHR ''_'' \<notin> set now \<and> fst (snd w) = dump_file now (fst w) uuid"
  using assms
proof (induction cfg n evs rule: arrived.induct)
  case (3 cfg n now uuid q evs)
  then have t: "CHR ''_'' \<notin> set now" by simp
  show ?case
  proof (cases "w = (Suc n, dump_file now (Suc n) uuid, capture_dump now q (projr (cq_text q)))")
    case True
    with t show ?thesis by (intro exI [of _ now] exI [of _ uuid]) simp
  next
    case False
    with 3 show ?thesis by (auto split: if_splits)
  qed
qed simp_all

lemma arrived_distinct:
  assumes "\<forall>ev \<in> set evs. \<forall>now uuid q. ev = Arrives now uuid q \<longrightarrow> CHR ''_'' \<notin> set now"
  shows "distinct (file_names (arrived cfg n evs))"
proof -
  have d: "distinct (map fst (arrived cfg n evs))" unfolding arrived_numbers by (rule distinct_upt)
  have inj: "fst v = fst w" if "v \<in> set (arrived cfg n evs)" "w \<in> set (arrived cfg n evs)" "fst (snd v) = fst (snd w)" for v w
  proof -
    note vw = that
    obtain t u where t: "CHR ''_'' \<notin> set t" "fst (snd v) = dump_file t (fst v) u"
      using arrived_files [OF assms vw(1)] by (elim exE conjE) (rule that)
    obtain t' u' where t': "CHR ''_'' \<notin> set t'" "fst (snd w) = dump_file t' (fst w) u'"
      using arrived_files [OF assms vw(2)] by (elim exE conjE) (rule that)
    have "dump_file t (fst v) u = dump_file t' (fst w) u'" using vw(3) unfolding t(2) t'(2) .
    from dump_file_inject [OF this t(1) t'(1)] show ?thesis .
  qed
  have "inj_on (\<lambda>w. fst (snd w)) (set (arrived cfg n evs))"
  proof (rule inj_onI)
    fix v w assume vw: "v \<in> set (arrived cfg n evs)" "w \<in> set (arrived cfg n evs)" "fst (snd v) = fst (snd w)"
    have "inj_on fst (set (arrived cfg n evs))" using d by (simp only: distinct_map)
    from inj_onD [OF this inj [OF vw] vw(1,2)] show "v = w" .
  qed
  then show ?thesis using d by (simp add: file_names_def distinct_map)
qed

lemma stored_names: "fst ` set (concat (map (stored_text stringify io) ws)) \<subseteq> set (file_names ws)"
proof (induction ws)
  case (Cons w ws)
  have "fst ` set (stored_text stringify io w) \<subseteq> {fst (snd w)}"
    by (cases w) (simp add: stored_text_def split: write_outcome.splits)
  with Cons show ?case by (auto simp: file_names_def)
qed (simp add: file_names_def)

text \<open>At any moment the queue is the tail of the arrived dumps and the files hold the rest.\<close>

lemma run_state:
  assumes "distinct (file_names (ws @ arrived cfg (ct_seq s) evs))" "ws = pre @ ct_queue s"
    "ct_files s = concat (map (stored_text stringify io) pre)"
  shows "\<exists>done. ws @ arrived cfg (ct_seq s) evs = done @ ct_queue (capture_run cfg stringify io evs s) \<and>
    ct_files (capture_run cfg stringify io evs s) = concat (map (stored_text stringify io) done)"
  using assms
proof (induction evs arbitrary: s ws pre)
  case Nil
  then show ?case by (auto simp: capture_run_def)
next
  case (Cons ev evs)
  let ?s = "capture_step cfg stringify io ev s"
  have run: "capture_run cfg stringify io (ev # evs) s = capture_run cfg stringify io evs ?s" by (simp add: capture_run_def)
  show ?case
  proof (cases ev)
    case (Arrives now uuid q)
    show ?thesis
    proof (cases "cc_enabled cfg \<and> starts_with (cq_path q) ''/v1/messages'' \<and> \<not> isl (cq_text q)")
      case True
      then obtain body where b: "cq_text q = Inr body" by (cases "cq_text q") auto
      let ?w = "(Suc (ct_seq s), dump_file now (Suc (ct_seq s)) uuid, capture_dump now q body)"
      have s': "?s = s\<lparr>ct_seq := Suc (ct_seq s), ct_queue := ct_queue s @ [?w]\<rparr>"
        using True b by (simp add: Arrives capture_step_def capture_mw_def Let_def)
      have arr: "arrived cfg (ct_seq s) (ev # evs) = ?w # arrived cfg (Suc (ct_seq s)) evs"
        using True b by (simp add: Arrives)
      show ?thesis
        using Cons.IH [of "ws @ [?w]" ?s pre] Cons.prems unfolding run arr s' by simp
    next
      case False
      then have s': "?s = s"
        by (auto simp: Arrives capture_step_def capture_mw_def split: sum.splits)
      have arr: "arrived cfg (ct_seq s) (ev # evs) = arrived cfg (ct_seq s) evs"
        by (simp only: Arrives arrived.simps False if_False)
      show ?thesis using Cons.IH [OF _ Cons.prems(2,3)] Cons.prems(1) unfolding run arr s' by simp
    qed
  next
    case Settles
    show ?thesis
    proof (cases "ct_queue s")
      case Nil
      then have "?s = s" by (simp add: Settles capture_step_def write_settles_def)
      then show ?thesis using Cons.IH [OF _ Cons.prems(2,3)] Cons.prems(1) unfolding run by (simp add: Settles)
    next
      case (Cons w queue)
      obtain n nm dump where w: "w = (n, nm, dump)" by (cases w)
      have "distinct (file_names ((pre @ w # queue) @ arrived cfg (ct_seq s) (ev # evs)))"
        using Cons.prems(1) unfolding Cons.prems(2) Cons .
      then have "distinct (file_names (pre @ w # queue))"
        unfolding file_names_def map_append [of _ "pre @ w # queue"] distinct_append [of "map _ (pre @ w # queue)"] by (rule conjunct1)
      then have "nm \<notin> set (file_names pre)" by (auto simp: file_names_def w)
      moreover have "fst ` set (ct_files s) \<subseteq> set (file_names pre)"
        unfolding Cons.prems(3) by (rule stored_names)
      ultimately have "nm \<notin> fst ` set (ct_files s)" by blast
      then have new: "AList.update nm v (ct_files s) = ct_files s @ [(nm, v)]" for v by (rule update_new)
      have "stored_text stringify io w = (case io n of Written \<Rightarrow> [(nm, stringify dump)] | NotWritten \<Rightarrow> [] | Truncated part \<Rightarrow> [(nm, part)])"
        by (simp add: stored_text_def w)
      then have f: "ct_files ?s = concat (map (stored_text stringify io) (pre @ [w]))"
        using Cons.prems(3) Cons
        by (simp add: Settles capture_step_def write_settles_def w new [unfolded Cons.prems(3)] split: write_outcome.splits)
      have "ct_queue ?s = queue" "ct_seq ?s = ct_seq s"
        using Cons by (simp_all add: Settles capture_step_def write_settles_def w)
      then show ?thesis
        using Cons.IH [of ws ?s "pre @ [w]"] Cons.prems(1,2) f unfolding run by (simp add: Settles Cons)
    qed
  qed
qed

lemma files_after_run:
  assumes "\<forall>ev \<in> set evs. \<forall>now uuid q. ev = Arrives now uuid q \<longrightarrow> CHR ''_'' \<notin> set now"
    and "ct_queue (capture_run cfg stringify io evs capture_init) = []"
  shows "ct_files (capture_run cfg stringify io evs capture_init) =
    concat (map (stored_text stringify io) (arrived cfg 0 evs))"
  using run_state [of "[]" cfg capture_init evs "[]" stringify io] arrived_distinct [OF assms(1), of cfg 0] assms(2)
  by (auto simp: capture_init_def)

end
