(* ===== verification/Synthesis.thy ===== *)
theory Synthesis
  imports Capture Template "HOL-Library.List_Lexorder" "HOL-Library.Char_ord" "HOL-Library.Multiset"
begin

text \<open>
  \<open>scripts/synthesize-snapshot.mjs\<close>: from the dumps of the capture mode to the snapshot the template replays.
  A directory is a list of file names with their contents; a dump is the parsed JSON value. A dump whose
  headers are not pairs of texts makes the script throw (the middleware writes no such dump). \<open>date\<close> is
  \<open>new Date(text).getTime()\<close>, \<open>None\<close> for \<open>NaN\<close>. The printed summary is left out.
\<close>

definition TRANSPORT_HEADERS :: "string list" where
  "TRANSPORT_HEADERS = [''host'', ''content-length'', ''accept-encoding'', ''connection'', ''keep-alive'',
     ''transfer-encoding'', ''upgrade'', ''proxy-authenticate'', ''proxy-authorization'', ''te'', ''trailers'']"

definition DYNAMIC_HEADERS :: "string list" where
  "DYNAMIC_HEADERS = [''x-api-key'', ''authorization'', ''x-claude-code-session-id'']"

definition MIN_PACING_SAMPLES :: nat where "MIN_PACING_SAMPLES = 20"

definition loadCaptures :: "(string \<Rightarrow> json option) \<Rightarrow> (string \<times> string) list option \<Rightarrow> json list result" where
  "loadCaptures parse dir =
     (case dir of
        None \<Rightarrow> Inl (Other ''capture dir not found'')
      | Some entries \<Rightarrow> Inr
          (concat (map (\<lambda>f. case parse (snd f) of
              Some dump \<Rightarrow> if jprop (Some dump) ''wireOrderAvailable'' = Some (JBool True) then [dump] else []
            | None \<Rightarrow> []) (sort_key fst (filter (\<lambda>f. ends_with (fst f) ''.json'') entries)))))"

subsection \<open>Counting\<close>

type_synonym counter = "(string \<times> nat) list"

definition bump :: "string \<Rightarrow> counter \<Rightarrow> counter" where
  "bump k c = AList.update k (Suc (case map_of c k of Some n \<Rightarrow> n | None \<Rightarrow> 0)) c"

text \<open>The best entry so far and its count, \<open>null\<close> and \<open>-1\<close> at first.\<close>

definition better :: "string \<times> nat \<Rightarrow> string option \<times> int \<Rightarrow> string option \<times> int" where
  "better kn best = (if int (snd kn) > snd best then (Some (fst kn), int (snd kn)) else best)"

definition mostFrequent :: "counter \<Rightarrow> string option \<times> int" where
  "mostFrequent c = fold better c (None, -1)"

definition by_count :: "counter \<Rightarrow> counter" where
  "by_count c = sort_key (\<lambda>e. - int (snd e)) c"

definition dominant :: "counter \<Rightarrow> string list" where
  "dominant c = (case by_count c of [] \<Rightarrow> [] | e # _ \<Rightarrow> split_str ''|'' (fst e))"

subsection \<open>Headers\<close>

definition header_pair :: "json \<Rightarrow> (string \<times> string) option" where
  "header_pair p =
     (case p of
        JArr (k # v # _) \<Rightarrow> (case (as_str (Some k), as_str (Some v)) of (Some n, Some t) \<Rightarrow> Some (n, t) | _ \<Rightarrow> None)
      | _ \<Rightarrow> None)"

definition dump_headers :: "json \<Rightarrow> (string \<times> string) list option" where
  "dump_headers d = (case jprop (Some d) ''headersInOrder'' of Some (JArr ps) \<Rightarrow> all_some (map header_pair ps) | _ \<Rightarrow> None)"

definition header_names :: "(string \<times> string) list \<Rightarrow> string list" where
  "header_names hs = map (\<lambda>kv. to_lower (fst kv)) hs"

definition sequence_key :: "string list \<Rightarrow> string" where
  "sequence_key names = join_str ''|'' names"

definition synthHeaderOrder :: "(string \<times> string) list list \<Rightarrow> string list \<times> counter" where
  "synthHeaderOrder hss =
     (let c = fold bump (map (\<lambda>hs. sequence_key (header_names hs)) hss) [] in (dominant c, take 5 (by_count c)))"

definition count_value :: "string \<times> string \<Rightarrow> (string \<times> counter) list \<Rightarrow> (string \<times> counter) list" where
  "count_value kv cs =
     (let kl = to_lower (fst kv) in
      AList.update kl (bump (snd kv) (case map_of cs kl of Some c \<Rightarrow> c | None \<Rightarrow> [])) cs)"

definition synthHeaderValues :: "(string \<times> string) list list \<Rightarrow> string list \<Rightarrow> (string \<times> string) list" where
  "synthHeaderValues hss orderedNames =
     (let counters = fold count_value (concat hss) [] in
      concat (map (\<lambda>name.
        if name \<in> set TRANSPORT_HEADERS \<or> name \<in> set DYNAMIC_HEADERS then []
        else case map_of counters name of
          None \<Rightarrow> []
        | Some c \<Rightarrow> (case fst (mostFrequent c) of Some v \<Rightarrow> [(name, v)] | None \<Rightarrow> [])) orderedNames))"

subsection \<open>Pacing\<close>

record snapshot_pacing =
  pc_samples :: nat
  pc_minMs :: rat
  pc_p50Ms :: rat
  pc_p95Ms :: rat
  pc_maxMs :: rat

definition session_of :: "(string \<times> string) list \<Rightarrow> string option" where
  "session_of hs =
     (case find (\<lambda>kv. to_lower (fst kv) = ''x-claude-code-session-id'') hs of
        Some (_, c # cs) \<Rightarrow> Some (c # cs) | _ \<Rightarrow> None)"

definition add_time ::
  "(string \<Rightarrow> rat option) \<Rightarrow> json \<times> (string \<times> string) list \<Rightarrow> (string \<times> rat list) list \<Rightarrow> (string \<times> rat list) list" where
  "add_time date d m =
     (case session_of (snd d) of
        None \<Rightarrow> m
      | Some sid \<Rightarrow>
          (case as_str (jprop (Some (fst d)) ''capturedAt'') of
             None \<Rightarrow> m
           | Some t \<Rightarrow>
               (case date t of
                  None \<Rightarrow> m
                | Some ts \<Rightarrow> AList.update sid ((case map_of m sid of Some tss \<Rightarrow> tss | None \<Rightarrow> []) @ [ts]) m)))"

definition session_gaps :: "rat list \<Rightarrow> rat list" where
  "session_gaps tss = (let s = sort tss in filter (\<lambda>g. g \<ge> 0 \<and> g < 600000) (map (\<lambda>(a, b). b - a) (zip s (tl s))))"

definition pick_gap :: "rat list \<Rightarrow> rat \<Rightarrow> rat" where
  "pick_gap gaps p = gaps ! min (length gaps - 1) (nat \<lfloor>of_nat (length gaps) * p\<rfloor>)"

definition synthPacing :: "(string \<Rightarrow> rat option) \<Rightarrow> (json \<times> (string \<times> string) list) list \<Rightarrow> snapshot_pacing option" where
  "synthPacing date ds =
     (let gaps = concat (map (\<lambda>e. session_gaps (snd e)) (fold (add_time date) ds [])); s = sort gaps in
      if length gaps = 0 then None
      else if length gaps < MIN_PACING_SAMPLES then None
      else Some \<lparr>pc_samples = length s, pc_minMs = s ! 0, pc_p50Ms = pick_gap s (1 / 2), pc_p95Ms = pick_gap s (95 / 100),
                 pc_maxMs = s ! (length s - 1)\<rparr>)"

subsection \<open>The snapshot\<close>

text \<open>The key sequence of a body that parses to an object; other bodies are skipped.\<close>

definition body_keys :: "(string \<Rightarrow> json option) \<Rightarrow> json \<Rightarrow> string list option" where
  "body_keys parse d =
     (case as_str (jprop (Some d) ''body'') of
        None \<Rightarrow> None
      | Some b \<Rightarrow> (case parse b of Some (JObj kvs) \<Rightarrow> Some (obj_keys kvs) | _ \<Rightarrow> None))"

definition synthBodyKeyOrder :: "(string \<Rightarrow> json option) \<Rightarrow> json list \<Rightarrow> string list \<times> counter" where
  "synthBodyKeyOrder parse dumps =
     (let c = fold bump (concat (map (\<lambda>d. case body_keys parse d of Some ks \<Rightarrow> [sequence_key ks] | None \<Rightarrow> []) dumps)) []
      in (dominant c, take 5 (by_count c)))"

record synth_snapshot =
  sy_extractedAt :: string
  sy_capturedCount :: nat
  sy_capturedFrom :: "json option"
  sy_capturedTo :: "json option"
  sy_headerOrder :: "string list"
  sy_headerDistribution :: counter
  sy_headerValues :: "(string \<times> string) list"
  sy_bodyKeyOrder :: "string list"
  sy_bodyDistribution :: counter
  sy_pacing :: "snapshot_pacing option"

definition buildSnapshot ::
  "(string \<Rightarrow> json option) \<Rightarrow> (string \<Rightarrow> rat option) \<Rightarrow> string \<Rightarrow> json list \<Rightarrow> synth_snapshot result" where
  "buildSnapshot parse date now dumps =
     (if length dumps = 0 then Inl (Other ''no captures found'')
      else case all_some (map dump_headers dumps) of
        None \<Rightarrow> Inl (Other ''headersInOrder is not iterable'')
      | Some hss \<Rightarrow>
          let (order, dist) = synthHeaderOrder hss; (keys, kdist) = synthBodyKeyOrder parse dumps in
          Inr \<lparr>sy_extractedAt = now, sy_capturedCount = length dumps,
            sy_capturedFrom = jprop (Some (hd dumps)) ''capturedAt'', sy_capturedTo = jprop (Some (last dumps)) ''capturedAt'',
            sy_headerOrder = order, sy_headerDistribution = dist, sy_headerValues = synthHeaderValues hss order,
            sy_bodyKeyOrder = keys, sy_bodyDistribution = kdist, sy_pacing = synthPacing date (zip dumps hss)\<rparr>)"

definition pacing_json :: "snapshot_pacing \<Rightarrow> json" where
  "pacing_json p =
     JObj [(''samples'', JNum (of_nat (pc_samples p))), (''minMs'', JNum (pc_minMs p)), (''p50Ms'', JNum (pc_p50Ms p)),
           (''p95Ms'', JNum (pc_p95Ms p)), (''maxMs'', JNum (pc_maxMs p))]"

definition texts_json :: "string list \<Rightarrow> json" where "texts_json xs = JArr (map JStr xs)"

definition distribution_json :: "string \<Rightarrow> counter \<Rightarrow> json" where
  "distribution_json field c =
     JArr (map (\<lambda>e. JObj [(''count'', JNum (of_nat (snd e))), (field, texts_json (split_str ''|'' (fst e)))]) c)"

text \<open>A property that is \<open>undefined\<close> is not written.\<close>

definition optional_field :: "string \<Rightarrow> json option \<Rightarrow> obj" where
  "optional_field k v = (case v of Some j \<Rightarrow> [(k, j)] | None \<Rightarrow> [])"

definition snapshot_json :: "synth_snapshot \<Rightarrow> json" where
  "snapshot_json s =
     JObj ([(''schemaVersion'', JNum 2), (''extractedAt'', JStr (sy_extractedAt s)),
            (''capturedCount'', JNum (of_nat (sy_capturedCount s)))] @
           optional_field ''capturedFrom'' (sy_capturedFrom s) @ optional_field ''capturedTo'' (sy_capturedTo s) @
           [(''headerOrder'', texts_json (sy_headerOrder s)),
            (''headerOrderDistribution'', distribution_json ''names'' (sy_headerDistribution s)),
            (''headerValues'', JArr (map (\<lambda>nv. JObj [(''name'', JStr (fst nv)), (''value'', JStr (snd nv))]) (sy_headerValues s))),
            (''bodyKeyOrder'', texts_json (sy_bodyKeyOrder s)),
            (''bodyKeyOrderDistribution'', distribution_json ''keys'' (sy_bodyDistribution s)),
            (''pacing'', (case sy_pacing s of Some p \<Rightarrow> pacing_json p | None \<Rightarrow> JNull))])"

text \<open>The command: its exit code and what it writes to the snapshot file.\<close>

definition synthesize ::
  "(string \<Rightarrow> json option) \<Rightarrow> (string \<Rightarrow> rat option) \<Rightarrow> string \<Rightarrow> bool \<Rightarrow> (string \<times> string) list option \<Rightarrow> nat \<times> json option" where
  "synthesize parse date now checkMode dir =
     (case loadCaptures parse dir of
        Inl e \<Rightarrow> (1, None)
      | Inr dumps \<Rightarrow>
          if length dumps = 0 then (1, None)
          else (case buildSnapshot parse date now dumps of
             Inl e \<Rightarrow> (1, None)
           | Inr snap \<Rightarrow> (0, if checkMode then None else Some (snapshot_json snap))))"

subsection \<open>Reading it back\<close>

text \<open>What \<open>template/extracted.ts\<close> takes from the file. Elements of another type are kept there too, but no
  command writes them.\<close>

definition texts_of :: "json option \<Rightarrow> string list option" where
  "texts_of v = (case v of Some (JArr xs) \<Rightarrow> all_some (map (\<lambda>x. as_str (Some x)) xs) | _ \<Rightarrow> None)"

definition value_pair :: "json \<Rightarrow> (string \<times> string) option" where
  "value_pair v =
     (case (as_str (jprop (Some v) ''name''), as_str (jprop (Some v) ''value'')) of (Some n, Some t) \<Rightarrow> Some (n, t) | _ \<Rightarrow> None)"

definition snapshot_read_of :: "json option \<Rightarrow> snapshot_read" where
  "snapshot_read_of v =
     (case v of
        None \<Rightarrow> SnapMalformed ''not JSON''
      | Some JNull \<Rightarrow> SnapNull
      | Some j \<Rightarrow> SnapFile
          \<lparr>sf_schemaVersion = jprop (Some j) ''schemaVersion'', sf_headerOrder = texts_of (jprop (Some j) ''headerOrder''),
           sf_headerValues = (case jprop (Some j) ''headerValues'' of Some (JArr vs) \<Rightarrow> all_some (map value_pair vs) | _ \<Rightarrow> None),
           sf_bodyKeyOrder = texts_of (jprop (Some j) ''bodyKeyOrder''),
           sf_p50Ms = as_num (jprop (jprop (Some j) ''pacing'') ''p50Ms'')\<rparr>)"

lemma all_some_map: "all_some (map (\<lambda>x. Some (f x)) xs) = Some (map f xs)"
  by (induction xs) simp_all

lemma snapshot_loads:
  "loadSnapshot (snapshot_read_of (Some (snapshot_json s))) =
     Inr \<lparr>sp_headerOrder = sy_headerOrder s, sp_headerValues = sy_headerValues s, sp_bodyKeyOrder = Some (sy_bodyKeyOrder s),
          sp_p50Ms = map_option pc_p50Ms (sy_pacing s)\<rparr>"
proof -
  define o1 where "o1 = optional_field ''capturedFrom'' (sy_capturedFrom s) @ optional_field ''capturedTo'' (sy_capturedTo s)"
  have skip: "get (o1 @ r) k = get r k" if "k \<notin> {''capturedFrom'', ''capturedTo''}" for k r
    using that by (auto simp: o1_def optional_field_def get_def split: option.splits)
  have texts: "texts_of (Some (texts_json xs)) = Some xs" for xs
    using all_some_map [of "\<lambda>x. x" xs] by (simp add: texts_of_def texts_json_def comp_def as_str_def)
  have vals: "all_some (map value_pair (map (\<lambda>nv. JObj [(''name'', JStr (fst nv)), (''value'', JStr (snd nv))]) vs)) = Some vs" for vs
    using all_some_map [of "\<lambda>x. x" vs] by (simp add: comp_def value_pair_def jprop_def as_str_def)
  have pace: "as_num (jprop (Some (case sy_pacing s of Some p \<Rightarrow> pacing_json p | None \<Rightarrow> JNull)) ''p50Ms'') = map_option pc_p50Ms (sy_pacing s)"
    by (cases "sy_pacing s") (simp_all add: pacing_json_def jprop_def as_num_def)
  have field: "jprop (Some (JObj kvs)) k = get kvs k" for kvs k by (simp add: jprop_def)
  show ?thesis
    unfolding snapshot_json_def snapshot_read_of_def append_assoc [symmetric] o1_def [symmetric]
    by (simp add: field skip texts vals [unfolded map_map] pace loadSnapshot_def SUPPORTED_SCHEMA_VERSION_def)
qed

subsection \<open>What is counted\<close>

lemma map_of_bump: "map_of (bump k c) k' = (if k' = k then Some (Suc (case map_of c k of Some n \<Rightarrow> n | None \<Rightarrow> 0)) else map_of c k')"
  by (simp add: bump_def update_conv')

lemma map_of_tally:
  "map_of (fold bump ks c) k =
     (if k \<in> set ks then Some (count_list ks k + (case map_of c k of Some n \<Rightarrow> n | None \<Rightarrow> 0)) else map_of c k)"
  by (induction ks arbitrary: c) (auto simp: map_of_bump count_list_0_iff)

lemma distinct_tally: "distinct (map fst c) \<Longrightarrow> distinct (map fst (fold bump ks c))"
  by (induction ks arbitrary: c) (auto simp: bump_def distinct_update)

lemma in_tally: "(k, n) \<in> set (fold bump ks []) \<longleftrightarrow> k \<in> set ks \<and> n = count_list ks k"
proof -
  have "(k, n) \<in> set (fold bump ks []) \<longleftrightarrow> map_of (fold bump ks []) k = Some n"
    using distinct_tally [of "[]" ks] by (simp add: map_of_eq_Some_iff)
  then show ?thesis by (auto simp: map_of_tally)
qed

lemma tally_Nil [simp]: "fold bump ks [] = [] \<longleftrightarrow> ks = []"
proof -
  have "k \<in> fst ` set (fold bump ks []) \<longleftrightarrow> k \<in> set ks" for k
    by (simp add: image_iff Bex_def split_paired_Ex in_tally)
  then have "fst ` set (fold bump ks []) = set ks" by (rule set_eqI)
  then show ?thesis by (metis empty_set image_empty image_is_empty set_empty)
qed

lemma mostFrequent_best:
  "c \<noteq> [] \<Longrightarrow> \<exists>k n. mostFrequent c = (Some k, int n) \<and> (k, n) \<in> set c \<and> (\<forall>e \<in> set c. snd e \<le> n)"
proof (induction c rule: rev_induct)
  case (snoc e c)
  show ?case
  proof (cases "c = []")
    case True
    then show ?thesis by (cases e) (simp add: mostFrequent_def better_def)
  next
    case False
    then obtain k n where kn: "mostFrequent c = (Some k, int n)" "(k, n) \<in> set c" "\<forall>e \<in> set c. snd e \<le> n"
      using snoc.IH by blast
    have "mostFrequent (c @ [e]) = better e (mostFrequent c)" by (simp add: mostFrequent_def)
    then have m: "mostFrequent (c @ [e]) = (if snd e > n then (Some (fst e), int (snd e)) else (Some k, int n))"
      by (simp add: kn(1) better_def)
    show ?thesis
    proof (cases "snd e > n")
      case True
      with m kn(3) show ?thesis by (intro exI [of _ "fst e"] exI [of _ "snd e"]) (auto simp: less_imp_le intro: order.trans)
    next
      case False
      with m kn show ?thesis by (intro exI [of _ k] exI [of _ n]) auto
    qed
  qed
qed simp

lemma dominant_best:
  assumes "c \<noteq> []"
  shows "\<exists>e \<in> set c. dominant c = split_str ''|'' (fst e) \<and> (\<forall>e' \<in> set c. snd e' \<le> snd e)"
proof -
  have set: "set (by_count c) = set c" and "sorted (map (\<lambda>e. - int (snd e)) (by_count c))"
    by (simp_all add: by_count_def)
  moreover obtain e es where e: "by_count c = e # es" using assms set by (cases "by_count c") auto
  ultimately have "\<forall>e' \<in> set c. snd e' \<le> snd e" by auto
  then show ?thesis using e set by (intro bexI [of _ e]) (auto simp: dominant_def)
qed

lemma map_of_count_value:
  "map_of (fold count_value kvs cs) n =
     (let vs = map snd (filter (\<lambda>kv. to_lower (fst kv) = n) kvs) in
      if vs = [] then map_of cs n else Some (fold bump vs (case map_of cs n of Some c \<Rightarrow> c | None \<Rightarrow> [])))"
  by (induction kvs arbitrary: cs) (auto simp: count_value_def Let_def update_conv')

text \<open>The values captured for a header, over all dumps.\<close>

definition values_of :: "(string \<times> string) list list \<Rightarrow> string \<Rightarrow> string list" where
  "values_of hss n = map snd (filter (\<lambda>kv. to_lower (fst kv) = n) (concat hss))"

lemma counters_of:
  "map_of (fold count_value (concat hss) []) n = (if values_of hss n = [] then None else Some (fold bump (values_of hss n) []))"
  by (simp add: map_of_count_value values_of_def Let_def)

lemma header_value:
  "(n, v) \<in> set (synthHeaderValues hss names) \<longleftrightarrow>
     n \<in> set names \<and> n \<notin> set TRANSPORT_HEADERS \<and> n \<notin> set DYNAMIC_HEADERS \<and> values_of hss n \<noteq> [] \<and>
     fst (mostFrequent (fold bump (values_of hss n) [])) = Some v"
proof -
  define g where "g = (\<lambda>m. if m \<in> set TRANSPORT_HEADERS \<or> m \<in> set DYNAMIC_HEADERS then []
    else case map_of (fold count_value (concat hss) []) m of
        None \<Rightarrow> []
      | Some c \<Rightarrow> (case fst (mostFrequent c) of Some v \<Rightarrow> [(m, v)] | None \<Rightarrow> []))"
  have g: "(n, v) \<in> set (g m) \<longleftrightarrow> n = m \<and> m \<notin> set TRANSPORT_HEADERS \<and> m \<notin> set DYNAMIC_HEADERS \<and> values_of hss m \<noteq> [] \<and>
      fst (mostFrequent (fold bump (values_of hss m) [])) = Some v" for m
    unfolding g_def counters_of by (cases "fst (mostFrequent (fold bump (values_of hss m) []))") auto
  have "synthHeaderValues hss names = concat (map g names)" by (simp only: synthHeaderValues_def Let_def g_def)
  then show ?thesis using g by auto
qed

lemma joined_names: "\<forall>n \<in> set ns. CHR ''|'' \<notin> set n \<Longrightarrow> ns \<noteq> [] \<Longrightarrow> split_str ''|'' (sequence_key ns) = ns"
  by (simp add: sequence_key_def split_join)

lemma dominant_sequence:
  assumes "nss \<noteq> []" and "\<forall>ns \<in> set nss. ns \<noteq> [] \<and> (\<forall>n \<in> set ns. CHR ''|'' \<notin> set n)"
  shows "dominant (fold bump (map sequence_key nss) []) \<in> set nss" (is "?d \<in> _")
    and "count_list nss ns \<le> count_list nss (dominant (fold bump (map sequence_key nss) []))"
proof -
  have inj: "inj_on sequence_key (set nss)"
    using joined_names assms(2) by (metis inj_onI)
  have count: "count_list (map sequence_key nss) (sequence_key ns) = count_list nss ns" if "ns \<in> set nss" for ns
    using that count_list_inj_map [OF inj] by blast
  obtain e where e: "e \<in> set (fold bump (map sequence_key nss) [])" "?d = split_str ''|'' (fst e)"
      "\<forall>e' \<in> set (fold bump (map sequence_key nss) []). snd e' \<le> snd e"
    using dominant_best [of "fold bump (map sequence_key nss) []"] assms(1) by auto
  obtain ms where ms: "ms \<in> set nss" "fst e = sequence_key ms" "snd e = count_list nss ms"
    using in_tally [of "fst e" "snd e" "map sequence_key nss"] e(1) count that by auto
  then have d: "?d = ms" using e(2) joined_names assms(2) by auto
  then show "?d \<in> set nss" using ms(1) by simp
  show "count_list nss ns \<le> count_list nss ?d"
  proof (cases "ns \<in> set nss")
    case True
    then have "(sequence_key ns, count_list nss ns) \<in> set (fold bump (map sequence_key nss) [])"
      by (simp add: in_tally count)
    with e(3) ms(3) d show ?thesis by auto
  qed (simp add: count_list_0_iff)
qed

subsection \<open>The majority\<close>

lemma lower_bar: "CHR ''|'' \<in> set (to_lower s) \<longleftrightarrow> CHR ''|'' \<in> set s"
proof -
  have P: "lower_char c = CHR ''|'' \<longleftrightarrow> c = CHR ''|''" for c
  proof -
    have bar: "(of_char (CHR ''|'') :: nat) = 124" by simp
    have up: "(of_char (char_of (k + 32) :: char) :: nat) \<noteq> 124" if "65 \<le> k \<and> k \<le> 90 \<or> 192 \<le> k \<and> k \<le> 222" for k :: nat
      using that by auto
    show ?thesis
    proof (cases "lower_char c = c")
      case False
      then have r: "65 \<le> (of_char c :: nat) \<and> (of_char c :: nat) \<le> 90 \<or> 192 \<le> (of_char c :: nat) \<and> (of_char c :: nat) \<le> 222"
        and l: "lower_char c = char_of ((of_char c :: nat) + 32)"
        by (auto simp: lower_char_def Let_def split: if_splits)
      have "lower_char c \<noteq> CHR ''|''"
      proof
        assume "lower_char c = CHR ''|''"
        then have "(of_char (char_of ((of_char c :: nat) + 32) :: char) :: nat) = 124" unfolding l [symmetric] by (simp only: bar)
        with up [OF r] show False by contradiction
      qed
      moreover have "c \<noteq> CHR ''|''"
      proof
        assume "c = CHR ''|''"
        then have "(of_char c :: nat) = 124" by (simp only: bar)
        with r show False by simp
      qed
      ultimately show ?thesis by simp
    qed simp
  qed
  show ?thesis unfolding to_lower_def set_map image_iff eq_commute [of "CHR ''|''"] P by blast
qed

lemma built:
  assumes "buildSnapshot parse date now dumps = Inr sy" and "all_some (map dump_headers dumps) = Some hss"
  shows "sy_headerOrder sy = dominant (fold bump (map sequence_key (map header_names hss)) [])"
    and "sy_headerValues sy = synthHeaderValues hss (sy_headerOrder sy)" and "dumps \<noteq> []"
  using assms by (auto simp: buildSnapshot_def synthHeaderOrder_def Let_def comp_def split: prod.splits if_splits)

lemma all_some_length: "all_some xs = Some ys \<Longrightarrow> length ys = length xs"
  by (induction xs arbitrary: ys rule: all_some.induct) auto

text \<open>The snapshot is the majority of the captures. Its header order is the order of a dump, and no other
  order occurs in more dumps; each of its header values was captured for this header, and none was
  captured more often; it holds no transport header, credential or session. (No header name may hold
  the bar that joins the names of an order.)\<close>

theorem snapshot_follows_the_majority:
  assumes "buildSnapshot parse date now dumps = Inr sy" and "all_some (map dump_headers dumps) = Some hss"
    and "\<forall>hs \<in> set hss. hs \<noteq> [] \<and> (\<forall>kv \<in> set hs. CHR ''|'' \<notin> set (fst kv))"
  shows "sy_headerOrder sy \<in> set (map header_names hss) \<and>
    (\<forall>ns. count_list (map header_names hss) ns \<le> count_list (map header_names hss) (sy_headerOrder sy)) \<and>
    (\<forall>n v. (n, v) \<in> set (sy_headerValues sy) \<longrightarrow>
       n \<in> set (sy_headerOrder sy) \<and> n \<notin> set TRANSPORT_HEADERS \<and> n \<notin> set DYNAMIC_HEADERS \<and>
       v \<in> set (values_of hss n) \<and> (\<forall>w. count_list (values_of hss n) w \<le> count_list (values_of hss n) v))"
proof (intro conjI allI impI)
  note b = built [OF assms(1,2)]
  have ne: "map header_names hss \<noteq> []" using b(3) all_some_length [OF assms(2)] by auto
  have plain: "\<forall>ns \<in> set (map header_names hss). ns \<noteq> [] \<and> (\<forall>n \<in> set ns. CHR ''|'' \<notin> set n)"
    using assms(3) by (auto simp: header_names_def lower_bar)
  show "sy_headerOrder sy \<in> set (map header_names hss)"
    unfolding b(1) by (rule dominant_sequence(1) [OF ne plain])
  show "count_list (map header_names hss) ns \<le> count_list (map header_names hss) (sy_headerOrder sy)" for ns
    unfolding b(1) by (rule dominant_sequence(2) [OF ne plain])
  fix n v
  assume "(n, v) \<in> set (sy_headerValues sy)"
  then have h: "n \<in> set (sy_headerOrder sy)" "n \<notin> set TRANSPORT_HEADERS" "n \<notin> set DYNAMIC_HEADERS" "values_of hss n \<noteq> []"
      "fst (mostFrequent (fold bump (values_of hss n) [])) = Some v"
    unfolding b(2) header_value by blast+
  then show "n \<in> set (sy_headerOrder sy)" "n \<notin> set TRANSPORT_HEADERS" "n \<notin> set DYNAMIC_HEADERS" by simp_all
  obtain k where k: "(v, k) \<in> set (fold bump (values_of hss n) [])" "\<forall>e \<in> set (fold bump (values_of hss n) []). snd e \<le> k"
    using mostFrequent_best [of "fold bump (values_of hss n) []"] h(4,5) by auto
  then show "v \<in> set (values_of hss n)" by (simp add: in_tally)
  show "count_list (values_of hss n) w \<le> count_list (values_of hss n) v" for w
  proof (cases "w \<in> set (values_of hss n)")
    case True
    then have "(w, count_list (values_of hss n) w) \<in> set (fold bump (values_of hss n) [])" by (simp add: in_tally)
    from bspec [OF k(2) this] k(1) show ?thesis by (simp add: in_tally)
  qed (simp add: count_list_0_iff)
qed

subsection \<open>Nothing secret\<close>

text \<open>A dump without the values of the credentials and the transport headers.\<close>

definition without_secrets :: "(string \<times> string) list \<Rightarrow> (string \<times> string) list" where
  "without_secrets hs =
     map (\<lambda>kv. if to_lower (fst kv) \<in> set (''x-api-key'' # ''authorization'' # TRANSPORT_HEADERS) then (fst kv, []) else kv) hs"

definition same_public :: "(string \<Rightarrow> json option) \<Rightarrow> json \<Rightarrow> json \<Rightarrow> bool" where
  "same_public parse d d' =
     (map_option without_secrets (dump_headers d) = map_option without_secrets (dump_headers d') \<and>
      jprop (Some d) ''capturedAt'' = jprop (Some d') ''capturedAt'' \<and> body_keys parse d = body_keys parse d')"

lemma without_fst: "map fst (without_secrets hs) = map fst hs"
  by (simp add: without_secrets_def)

lemma session_public: "session_of (without_secrets hs) = session_of hs"
proof (induction hs)
  case (Cons kv hs)
  have "''x-claude-code-session-id'' \<notin> set (''x-api-key'' # ''authorization'' # TRANSPORT_HEADERS)"
    by (simp add: TRANSPORT_HEADERS_def)
  with Cons show ?case by (cases kv) (auto simp: session_of_def without_secrets_def)
qed (simp add: session_of_def without_secrets_def)

lemma values_public:
  assumes "n \<notin> set TRANSPORT_HEADERS" and "n \<notin> set DYNAMIC_HEADERS"
  shows "values_of (map without_secrets hss) n = values_of hss n"
proof -
  have "n \<notin> set (''x-api-key'' # ''authorization'' # TRANSPORT_HEADERS)"
    using assms by (simp add: DYNAMIC_HEADERS_def)
  then have "map snd (filter (\<lambda>kv. to_lower (fst kv) = n) (without_secrets hs)) = map snd (filter (\<lambda>kv. to_lower (fst kv) = n) hs)" for hs
    unfolding without_secrets_def by (induction hs) auto
  then show ?thesis unfolding values_of_def by (induction hss) simp_all
qed

lemma values_only:
  assumes "\<And>n. n \<notin> set TRANSPORT_HEADERS \<Longrightarrow> n \<notin> set DYNAMIC_HEADERS \<Longrightarrow> values_of hss n = values_of hss' n"
  shows "synthHeaderValues hss names = synthHeaderValues hss' names"
  unfolding synthHeaderValues_def Let_def
proof (rule arg_cong [where f = concat], rule map_cong [OF refl])
  fix n
  show "(if n \<in> set TRANSPORT_HEADERS \<or> n \<in> set DYNAMIC_HEADERS then []
      else case map_of (fold count_value (concat hss) []) n of None \<Rightarrow> [] | Some c \<Rightarrow> (case fst (mostFrequent c) of Some v \<Rightarrow> [(n, v)] | None \<Rightarrow> [])) =
    (if n \<in> set TRANSPORT_HEADERS \<or> n \<in> set DYNAMIC_HEADERS then []
      else case map_of (fold count_value (concat hss') []) n of None \<Rightarrow> [] | Some c \<Rightarrow> (case fst (mostFrequent c) of Some v \<Rightarrow> [(n, v)] | None \<Rightarrow> []))"
    using assms [of n] by (simp add: counters_of)
qed

lemma times_public:
  "list_all2 (\<lambda>d d'. session_of (snd d) = session_of (snd d') \<and> jprop (Some (fst d)) ''capturedAt'' = jprop (Some (fst d')) ''capturedAt'') ds ds' \<Longrightarrow>
     fold (add_time date) ds m = fold (add_time date) ds' m"
proof (induction arbitrary: m rule: list_all2_induct)
  case (Cons d ds d' ds')
  then have e: "session_of (snd d) = session_of (snd d')"
    "jprop (Some (fst d)) ''capturedAt'' = jprop (Some (fst d')) ''capturedAt''" by blast+
  have "add_time date d = add_time date d'" unfolding add_time_def e by (rule refl)
  with Cons show ?case by simp
qed simp

lemma headers_public:
  assumes "list_all2 (same_public parse) dumps dumps'"
  shows "map_option (map without_secrets) (all_some (map dump_headers dumps)) =
    map_option (map without_secrets) (all_some (map dump_headers dumps'))"
  using assms
proof (induction rule: list_all2_induct)
  case (Cons d ds d' ds')
  then show ?case
    by (cases "dump_headers d"; cases "dump_headers d'"; cases "all_some (map dump_headers ds)"; cases "all_some (map dump_headers ds')")
       (simp_all add: same_public_def)
qed simp

lemma same_lists:
  assumes "list_all2 (same_public parse) dumps dumps'"
  shows "map (body_keys parse) dumps = map (body_keys parse) dumps'"
    "map (\<lambda>d. jprop (Some d) ''capturedAt'') dumps = map (\<lambda>d. jprop (Some d) ''capturedAt'') dumps'"
  using assms by (induction rule: list_all2_induct) (simp_all add: same_public_def)

lemma body_order_public:
  assumes "map (body_keys parse) dumps = map (body_keys parse) dumps'"
  shows "synthBodyKeyOrder parse dumps = synthBodyKeyOrder parse dumps'"
proof -
  have "synthBodyKeyOrder parse ds = (let c = fold bump (concat (map (\<lambda>o'. case o' of Some ks \<Rightarrow> [sequence_key ks] | None \<Rightarrow> [])
      (map (body_keys parse) ds))) [] in (dominant c, take 5 (by_count c)))" for ds
    by (simp add: synthBodyKeyOrder_def comp_def)
  then show ?thesis by (simp only: assms)
qed

lemma names_public: "without_secrets hs = without_secrets hs' \<Longrightarrow> header_names hs = header_names hs'"
proof -
  assume "without_secrets hs = without_secrets hs'"
  then have "map fst hs = map fst hs'" using without_fst by metis
  from arg_cong [OF this, of "map to_lower"] show ?thesis by (simp add: header_names_def comp_def)
qed

lemma sessions_public:
  assumes "map without_secrets hss = map without_secrets hss'"
  shows "map header_names hss = map header_names hss'" "map session_of hss = map session_of hss'"
proof -
  have "list_all2 (\<lambda>hs hs'. without_secrets hs = without_secrets hs') hss hss'"
    using assms by (simp add: list_eq_iff_nth_eq list_all2_conv_all_nth)
  then show "map header_names hss = map header_names hss'" "map session_of hss = map session_of hss'"
  proof (induction rule: list_all2_induct)
    case (Cons h hs h' hs')
    note n = names_public [OF Cons(1)]
    case 1
    show ?case using n Cons by simp
    case 2
    have "session_of h = session_of h'" using session_public [of h] session_public [of h'] Cons(1) by simp
    then show ?case using Cons by simp
  qed simp_all
qed

lemma pacing_public:
  assumes at: "map (\<lambda>d. jprop (Some d) ''capturedAt'') dumps = map (\<lambda>d. jprop (Some d) ''capturedAt'') dumps'"
    and sess: "map session_of hss = map session_of hss'"
    and l: "length hss = length dumps" "length hss' = length dumps'"
  shows "synthPacing date (zip dumps hss) = synthPacing date (zip dumps' hss')"
proof -
  have len: "length dumps = length dumps'" using at by (rule map_eq_imp_length_eq)
  have "list_all2 (\<lambda>d d'. session_of (snd d) = session_of (snd d') \<and>
      jprop (Some (fst d)) ''capturedAt'' = jprop (Some (fst d')) ''capturedAt'') (zip dumps hss) (zip dumps' hss')"
  proof (rule list_all2_all_nthI)
    fix i assume i: "i < length (zip dumps hss)"
    have "map session_of hss ! i = map session_of hss' ! i"
      "map (\<lambda>d. jprop (Some d) ''capturedAt'') dumps ! i = map (\<lambda>d. jprop (Some d) ''capturedAt'') dumps' ! i"
      unfolding sess at by (rule refl)+
    then show "session_of (snd (zip dumps hss ! i)) = session_of (snd (zip dumps' hss' ! i)) \<and>
        jprop (Some (fst (zip dumps hss ! i))) ''capturedAt'' = jprop (Some (fst (zip dumps' hss' ! i))) ''capturedAt''"
      using i l len by (simp add: nth_map)
  qed (use l len in simp)
  from times_public [OF this] show ?thesis by (simp add: synthPacing_def)
qed

lemma ends_public:
  assumes at: "map f dumps = map f dumps'" and ne: "dumps \<noteq> []"
  shows "f (hd dumps) = f (hd dumps')" "f (last dumps) = f (last dumps')"
proof -
  have ne': "dumps' \<noteq> []" using at ne by auto
  show "f (hd dumps) = f (hd dumps')"
    using hd_map [OF ne, of f] hd_map [OF ne', of f] unfolding at by (rule trans [OF sym])
  show "f (last dumps) = f (last dumps')"
    using last_map [OF ne, of f] last_map [OF ne', of f] unfolding at by (rule trans [OF sym])
qed

text \<open>C34: no credential and no prompt reaches the snapshot. Dumps that differ in the values of their
  credentials and transport headers and in their bodies' contents, but not in the order of the bodies'
  keys, give the same snapshot.\<close>

theorem snapshot_hides_secrets:
  assumes "list_all2 (same_public parse) dumps dumps'"
  shows "buildSnapshot parse date now dumps = buildSnapshot parse date now dumps'"
proof -
  have len: "length dumps = length dumps'" using assms by (rule list_all2_lengthD)
  note lists = same_lists [OF assms]
  show ?thesis
  proof (cases "all_some (map dump_headers dumps)")
    case None
    then have "all_some (map dump_headers dumps') = None" using headers_public [OF assms] by simp
    with None len show ?thesis by (simp add: buildSnapshot_def)
  next
    case (Some hss)
    then obtain hss' where hss': "all_some (map dump_headers dumps') = Some hss'" "map without_secrets hss = map without_secrets hss'"
      using headers_public [OF assms] by (cases "all_some (map dump_headers dumps')") simp_all
    note names = sessions_public [OF hss'(2)]
    have vals: "synthHeaderValues hss ns = synthHeaderValues hss' ns" for ns
      by (rule values_only) (metis values_public hss'(2))
    have order: "synthHeaderOrder hss = synthHeaderOrder hss'"
      unfolding synthHeaderOrder_def using names(1) by (metis (no_types, lifting) map_map comp_def map_eq_conv)
    have "length hss = length dumps" "length hss' = length dumps'"
      using all_some_length [OF Some] all_some_length [OF hss'(1)] by simp_all
    note pace = pacing_public [OF lists(2) names(2) this]
    show ?thesis
    proof (cases "dumps = []")
      case False
      show ?thesis
        unfolding buildSnapshot_def len Some hss'(1) option.case body_order_public [OF lists(1)] order vals pace
          ends_public [OF lists(2) False] by (rule refl)
    qed (use len in \<open>simp add: buildSnapshot_def\<close>)
  qed
qed

subsection \<open>Replaying a capture\<close>

definition out_name :: "string \<Rightarrow> string" where
  "out_name n = (if n = ''x-api-key'' then ''authorization'' else n)"

text \<open>What a request forwarded under a snapshot of one client's captures carries for a captured header.\<close>

definition replayed :: "string \<Rightarrow> string \<Rightarrow> headers option \<Rightarrow> string \<Rightarrow> string \<Rightarrow> string" where
  "replayed token uuid ch n v =
     (if n = ''x-api-key'' \<or> n = ''authorization'' then bearer token
      else if n = ''x-claude-code-session-id'' then session_value ch uuid
      else if n = ''anthropic-beta'' then mergeAnthropicBeta v ch
      else if n = ''user-agent'' then resolveUserAgent v ch
      else v)"

definition replayed_header :: "string \<Rightarrow> string \<Rightarrow> headers option \<Rightarrow> string \<times> string \<Rightarrow> (string \<times> string) list" where
  "replayed_header token uuid ch kv =
     (let n = to_lower (fst kv) in
      if n \<in> set TRANSPORT_HEADERS then [] else [(out_name n, replayed token uuid ch n (snd kv))])"

definition carries :: "(string \<times> string) list \<Rightarrow> string \<times> string \<Rightarrow> bool" where
  "carries vals kv =
     (let n = to_lower (fst kv) in
      (n \<in> set TRANSPORT_HEADERS \<longrightarrow> map_of vals n = None) \<and>
      (n \<notin> set TRANSPORT_HEADERS \<and> n \<notin> set DYNAMIC_HEADERS \<longrightarrow> map_of vals n = Some (snd kv)))"

lemma transport_included: "n \<in> set TRANSPORT \<Longrightarrow> n \<in> set TRANSPORT_HEADERS"
  by (auto simp: TRANSPORT_def TRANSPORT_HEADERS_def)

lemma special_not_transport:
  "''x-api-key'' \<notin> set TRANSPORT_HEADERS" "''x-api-key'' \<notin> set TRANSPORT"
  "''authorization'' \<notin> set TRANSPORT_HEADERS" "''authorization'' \<notin> set TRANSPORT"
  "''x-claude-code-session-id'' \<notin> set TRANSPORT_HEADERS" "''x-claude-code-session-id'' \<notin> set TRANSPORT"
  "''anthropic-beta'' \<notin> set TRANSPORT_HEADERS" "''anthropic-beta'' \<notin> set TRANSPORT"
  "''user-agent'' \<notin> set TRANSPORT_HEADERS" "''user-agent'' \<notin> set TRANSPORT"
  by (simp_all add: TRANSPORT_HEADERS_def TRANSPORT_def)

lemma five_cases: "(a \<Longrightarrow> P) \<Longrightarrow> (b \<Longrightarrow> P) \<Longrightarrow> (c \<Longrightarrow> P) \<Longrightarrow> (d \<Longrightarrow> P) \<Longrightarrow> (\<not> a \<and> \<not> b \<and> \<not> c \<and> \<not> d \<Longrightarrow> P) \<Longrightarrow> P"
  by blast

lemma header_step_replays:
  assumes "carries vals kv" and n: "n = to_lower (fst kv)" and fresh: "out_name n \<notin> fst ` set (hs_out s)"
    and auth: "hs_authFilled s \<longrightarrow> ''authorization'' \<in> fst ` set (hs_out s)"
    and ua: "n = ''user-agent'' \<longrightarrow> resolveUserAgent (snd kv) ch \<noteq> []"
  shows "header_step vals token uuid ch n s =
    \<lparr>hs_out = hs_out s @ replayed_header token uuid ch kv,
     hs_authFilled = (hs_authFilled s \<or> n = ''x-api-key'' \<or> n = ''authorization''),
     hs_uaSeen = (hs_uaSeen s \<or> n = ''user-agent'')\<rparr>"
proof -
  have set: "set_header (out_name n) v s = s\<lparr>hs_out := hs_out s @ [(out_name n, v)]\<rparr>" for v
    by (simp add: set_header_def update_new [OF fresh])
  consider (auth) "n = ''x-api-key'' \<or> n = ''authorization''" | (session) "n = ''x-claude-code-session-id''"
    | (beta) "n = ''anthropic-beta''" | (agent) "n = ''user-agent''"
    | (plain) "\<not> (n = ''x-api-key'' \<or> n = ''authorization'') \<and> n \<noteq> ''x-claude-code-session-id'' \<and> n \<noteq> ''anthropic-beta'' \<and> n \<noteq> ''user-agent''"
    by (rule five_cases [OF that])
  then show ?thesis
  proof cases
    case auth
    then have o': "out_name n = ''authorization''" by (auto simp: out_name_def)
    have t: "n \<notin> set TRANSPORT_HEADERS" "n \<notin> set TRANSPORT" using auth special_not_transport by metis+
    have "\<not> hs_authFilled s" using fresh assms(4) o' by auto
    then show ?thesis
      using auth t o' set [unfolded o'] by (auto simp: header_step_def replayed_header_def replayed_def n [symmetric])
  next
    case session
    have t: "n \<notin> set TRANSPORT_HEADERS" "n \<notin> set TRANSPORT" unfolding session by (rule special_not_transport)+
    have o': "out_name n = n" using session by (simp add: out_name_def)
    show ?thesis using session t o' set [unfolded o'] by (simp add: header_step_def replayed_header_def replayed_def n [symmetric])
  next
    case beta
    have t: "n \<notin> set TRANSPORT_HEADERS" "n \<notin> set TRANSPORT" unfolding beta by (rule special_not_transport)+
    have o': "out_name n = n" using beta by (simp add: out_name_def)
    have "value_of vals n = snd kv" using assms(1) t beta by (simp add: carries_def n [symmetric] value_of_def DYNAMIC_HEADERS_def)
    then show ?thesis using beta t o' set [unfolded o'] by (simp add: header_step_def replayed_header_def replayed_def n [symmetric])
  next
    case agent
    have t: "n \<notin> set TRANSPORT_HEADERS" "n \<notin> set TRANSPORT" unfolding agent by (rule special_not_transport)+
    have o': "out_name n = n" using agent by (simp add: out_name_def)
    have v: "value_of vals n = snd kv" using assms(1) t agent by (simp add: carries_def n [symmetric] value_of_def DYNAMIC_HEADERS_def)
    have "set_header n w (s\<lparr>hs_uaSeen := True\<rparr>) = s\<lparr>hs_out := hs_out s @ [(n, w)], hs_uaSeen := True\<rparr>" for w
      using fresh o' by (simp add: set_header_def update_new)
    then show ?thesis using agent t o' v ua by (simp add: header_step_def replayed_header_def replayed_def n [symmetric])
  next
    case plain
    then have o': "out_name n = n" by (simp add: out_name_def)
    have d: "n \<notin> set DYNAMIC_HEADERS" using plain by (simp add: DYNAMIC_HEADERS_def)
    show ?thesis
    proof (cases "n \<in> set TRANSPORT_HEADERS")
      case True
      then have "map_of vals n = None" using assms(1) by (simp add: carries_def n [symmetric])
      with True plain show ?thesis by (simp add: header_step_def replayed_header_def n [symmetric])
    next
      case False
      then have "map_of vals n = Some (snd kv)" "n \<notin> set TRANSPORT"
        using assms(1) d transport_included by (auto simp: carries_def n [symmetric])
      with False plain o' set [unfolded o'] show ?thesis
        by (simp add: header_step_def replayed_header_def replayed_def n [symmetric])
    qed
  qed
qed

lemma replayed_names: "fst ` set (replayed_header token uuid ch kv) \<subseteq> {out_name (to_lower (fst kv))}"
  by (simp add: replayed_header_def Let_def)

lemma replayed_auth:
  assumes "to_lower (fst kv) = ''x-api-key'' \<or> to_lower (fst kv) = ''authorization''"
  shows "''authorization'' \<in> fst ` set (replayed_header token uuid ch kv)"
proof -
  have "to_lower (fst kv) \<notin> set TRANSPORT_HEADERS" using assms special_not_transport by metis
  moreover have "out_name (to_lower (fst kv)) = ''authorization''" using assms by (auto simp: out_name_def)
  ultimately show ?thesis by (simp add: replayed_header_def)
qed

lemma fold_replays:
  assumes "\<forall>kv \<in> set hs. carries vals kv" and "distinct (map out_name (header_names hs))"
    and "\<forall>n \<in> set (header_names hs). out_name n \<notin> fst ` set (hs_out s)"
    and "hs_authFilled s \<longrightarrow> ''authorization'' \<in> fst ` set (hs_out s)"
    and "\<forall>kv \<in> set hs. to_lower (fst kv) = ''user-agent'' \<longrightarrow> resolveUserAgent (snd kv) ch \<noteq> []"
  shows "fold (header_step vals token uuid ch) (header_names hs) s =
    \<lparr>hs_out = hs_out s @ concat (map (replayed_header token uuid ch) hs),
     hs_authFilled = (hs_authFilled s \<or> (\<exists>n \<in> set (header_names hs). n = ''x-api-key'' \<or> n = ''authorization'')),
     hs_uaSeen = (hs_uaSeen s \<or> ''user-agent'' \<in> set (header_names hs))\<rparr>"
  using assms
proof (induction hs arbitrary: s)
  case Nil
  then show ?case by (simp add: header_names_def)
next
  case (Cons kv hs)
  let ?n = "to_lower (fst kv)"
  let ?s = "\<lparr>hs_out = hs_out s @ replayed_header token uuid ch kv,
     hs_authFilled = (hs_authFilled s \<or> ?n = ''x-api-key'' \<or> ?n = ''authorization''),
     hs_uaSeen = (hs_uaSeen s \<or> ?n = ''user-agent'')\<rparr>"
  have c: "carries vals kv" "\<forall>kv \<in> set hs. carries vals kv" using Cons.prems(1) by simp_all
  have nm: "header_names (kv # hs) = ?n # header_names hs" by (simp add: header_names_def)
  have dis: "out_name ?n \<notin> out_name ` set (header_names hs)" "distinct (map out_name (header_names hs))"
    using Cons.prems(2) unfolding nm by simp_all
  have fresh: "out_name ?n \<notin> fst ` set (hs_out s)" "\<forall>n \<in> set (header_names hs). out_name n \<notin> fst ` set (hs_out s)"
    using Cons.prems(3) unfolding nm by simp_all
  have ua: "(?n = ''user-agent'' \<longrightarrow> resolveUserAgent (snd kv) ch \<noteq> []) \<and>
    (\<forall>kv \<in> set hs. to_lower (fst kv) = ''user-agent'' \<longrightarrow> resolveUserAgent (snd kv) ch \<noteq> [])"
    using Cons.prems(5) by (simp only: list.set ball_simps)
  have step: "header_step vals token uuid ch ?n s = ?s"
    by (rule header_step_replays [OF c(1) refl fresh(1) Cons.prems(4) conjunct1 [OF ua]])
  have fresh': "\<forall>n \<in> set (header_names hs). out_name n \<notin> fst ` set (hs_out ?s)"
  proof
    fix n assume n: "n \<in> set (header_names hs)"
    with dis(1) have "out_name n \<noteq> out_name ?n" by (metis imageI)
    then have "out_name n \<notin> fst ` set (replayed_header token uuid ch kv)" using replayed_names [of token uuid ch kv] by blast
    with bspec [OF fresh(2) n] show "out_name n \<notin> fst ` set (hs_out ?s)" by (simp only: header_state.simps set_append image_Un Un_iff simp_thms)
  qed
  have auth': "hs_authFilled ?s \<longrightarrow> ''authorization'' \<in> fst ` set (hs_out ?s)"
    using Cons.prems(4) replayed_auth [of kv token uuid ch] by (simp only: header_state.simps set_append image_Un Un_iff) metis
  show ?case
    unfolding nm fold_simps step Cons.IH [OF c(2) dis(2) fresh' auth' conjunct2 [OF ua]]
    by (simp only: header_state.simps list.map concat.simps append_assoc list.set bex_simps simp_thms insert_iff disj_assoc eq_commute [of "''user-agent''"])
qed

lemma resolved_agent: "v \<noteq> [] \<Longrightarrow> resolveUserAgent v ch \<noteq> []"
  by (auto simp: resolveUserAgent_def Let_def split: option.splits)

lemma value_map_unique:
  assumes "\<And>w. (n, w) \<in> set es \<longleftrightarrow> w = v"
  shows "map_of (value_map es) n = Some v"
proof -
  have "map_of (value_map es) n = map_of (rev es) n" for es
    by (induction es rule: rev_induct) (auto simp: value_map_def update_conv' map_add_def split: option.splits)
  moreover have "map_of (rev es) n = Some w" if "(n, v) \<in> set es" "map_of (rev es) n = Some w \<or> True" "w = v" for w
    using assms that by (metis map_of_SomeD not_None_eq set_rev weak_map_of_SomeI)
  ultimately show ?thesis using assms by auto
qed

lemma value_map_none: "n \<notin> fst ` set es \<Longrightarrow> map_of (value_map es) n = None"
  by (induction es rule: rev_induct) (auto simp: value_map_def update_conv')

lemma same_headers:
  "\<forall>d \<in> set dumps. dump_headers d = Some hs \<Longrightarrow> dumps \<noteq> [] \<Longrightarrow> \<exists>hss. all_some (map dump_headers dumps) = Some hss \<and> set hss = {hs}"
proof (induction dumps)
  case (Cons d ds)
  then show ?case by (cases "ds = []") auto
qed simp

lemma snapshot_exists:
  "dumps \<noteq> [] \<Longrightarrow> all_some (map dump_headers dumps) = Some hss \<Longrightarrow> \<exists>sy. buildSnapshot parse date now dumps = Inr sy"
  by (cases "synthHeaderOrder hss"; cases "synthBodyKeyOrder parse dumps") (simp add: buildSnapshot_def)

lemma built_nonempty: "buildSnapshot parse date now dumps = Inr sy \<Longrightarrow> dumps \<noteq> []"
  by (auto simp: buildSnapshot_def)

lemma one_order:
  assumes "set hss = {hs}" and "\<forall>kv \<in> set hs. CHR ''|'' \<notin> set (fst kv)" and "hs \<noteq> []"
  shows "dominant (fold bump (map sequence_key (map header_names hss)) []) = header_names hs"
proof -
  have "map header_names hss \<noteq> []" using assms(1) by (cases hss) simp_all
  moreover have "\<forall>ns \<in> set (map header_names hss). ns \<noteq> [] \<and> (\<forall>n \<in> set ns. CHR ''|'' \<notin> set n)"
    unfolding set_map assms(1) header_names_def using assms(2,3) by (simp add: lower_bar)
  ultimately have "dominant (fold bump (map sequence_key (map header_names hss)) []) \<in> set (map header_names hss)"
    by (rule dominant_sequence(1))
  then show ?thesis using assms(1) by simp
qed

lemma captured_value:
  assumes "set hss = {hs}" and "distinct (map out_name (header_names hs))" and "kv \<in> set hs"
  shows "carries (value_map (synthHeaderValues hss (header_names hs))) kv"
proof -
  let ?n = "to_lower (fst kv)"
  have "distinct (header_names hs)" using assms(2) by (simp add: distinct_map)
  then have one: "snd kv' = snd kv" if "kv' \<in> set hs" "to_lower (fst kv') = ?n" for kv'
  proof -
    have "inj_on (\<lambda>kv. to_lower (fst kv)) (set hs)"
      using \<open>distinct (header_names hs)\<close> by (simp add: header_names_def distinct_map)
    from inj_onD [OF this that(2) that(1) assms(3)] show ?thesis by simp
  qed
  have image: "set (values_of hss ?n) = snd ` {kv' \<in> set hs. to_lower (fst kv') = ?n}"
    unfolding values_of_def set_map set_filter set_concat assms(1) by simp
  have vals: "set (values_of hss ?n) = {snd kv}"
    unfolding image
  proof (rule set_eqI, rule iffI)
    fix x assume "x \<in> snd ` {kv' \<in> set hs. to_lower (fst kv') = ?n}"
    then obtain kv' where k: "kv' \<in> set hs" "to_lower (fst kv') = ?n" "x = snd kv'" by (elim imageE CollectE conjE)
    from one [OF k(1,2)] k(3) show "x \<in> {snd kv}" by simp
  next
    fix x assume "x \<in> {snd kv}"
    then have "x = snd kv" by simp
    then show "x \<in> snd ` {kv' \<in> set hs. to_lower (fst kv') = ?n}" using assms(3) by (intro image_eqI [of _ _ kv]) simp_all
  qed
  have some: "values_of hss ?n \<noteq> []"
  proof
    assume "values_of hss ?n = []"
    with vals show False unfolding list.set by (simp only: list.set insert_not_empty [symmetric] simp_thms)
  qed
  have best: "fst (mostFrequent (fold bump (values_of hss ?n) [])) = Some (snd kv)"
  proof -
    obtain k m where km: "mostFrequent (fold bump (values_of hss ?n) []) = (Some k, int m)" "(k, m) \<in> set (fold bump (values_of hss ?n) [])"
      using mostFrequent_best [of "fold bump (values_of hss ?n) []"] some by auto
    then have "k \<in> set (values_of hss ?n)" by (simp add: in_tally)
    with km(1) vals show ?thesis by simp
  qed
  have n: "?n \<in> set (header_names hs)" using assms(3) by (simp add: header_names_def)
  have listed: "(?n, w) \<in> set (synthHeaderValues hss (header_names hs)) \<longleftrightarrow> w = snd kv"
    if "?n \<notin> set TRANSPORT_HEADERS" "?n \<notin> set DYNAMIC_HEADERS" for w
    unfolding header_value best using that some n by auto
  have none: "?n \<notin> fst ` set (synthHeaderValues hss (header_names hs))" if "?n \<in> set TRANSPORT_HEADERS"
    using that by (auto simp: header_value)
  show ?thesis
    unfolding carries_def Let_def using value_map_unique [OF listed] value_map_none [OF none] by blast
qed

lemma content_type_replayed:
  assumes "''content-type'' \<in> set (header_names hs)"
  shows "map_of (concat (map (replayed_header token uuid ch) hs)) ''content-type'' \<noteq> None"
proof -
  obtain kv where kv: "kv \<in> set hs" "to_lower (fst kv) = ''content-type''" using assms by (auto simp: header_names_def)
  have "replayed_header token uuid ch kv = [(''content-type'', replayed token uuid ch ''content-type'' (snd kv))]"
    by (simp add: replayed_header_def kv(2) out_name_def TRANSPORT_HEADERS_def Let_def)
  with kv(1) have "''content-type'' \<in> fst ` set (concat (map (replayed_header token uuid ch) hs))" by force
  then show ?thesis by (simp add: map_of_eq_None_iff)
qed

lemma replay_of_captures:
  assumes "buildSnapshot parse date now dumps = Inr sy" and "\<forall>d \<in> set dumps. dump_headers d = Some hs"
    and "distinct (map out_name (header_names hs))" and "\<forall>kv \<in> set hs. CHR ''|'' \<notin> set (fst kv)"
    and "\<exists>n \<in> set (header_names hs). n = ''x-api-key'' \<or> n = ''authorization''"
    and "{''content-type'', ''user-agent''} \<subseteq> set (header_names hs)"
    and "\<forall>kv \<in> set hs. to_lower (fst kv) = ''user-agent'' \<longrightarrow> snd kv \<noteq> []"
  shows "\<exists>sp. loadSnapshot (snapshot_read_of (Some (snapshot_json sy))) = Inr sp \<and>
    (\<forall>token uuid ch. buildHeaders sp token uuid ch = concat (map (replayed_header token uuid ch) hs))"
proof (intro exI conjI allI)
  show "loadSnapshot (snapshot_read_of (Some (snapshot_json sy))) =
     Inr \<lparr>sp_headerOrder = sy_headerOrder sy, sp_headerValues = sy_headerValues sy, sp_bodyKeyOrder = Some (sy_bodyKeyOrder sy),
          sp_p50Ms = map_option pc_p50Ms (sy_pacing sy)\<rparr>" (is "_ = Inr ?sp")
    by (rule snapshot_loads)
  fix token uuid ch
  obtain hss where hss: "all_some (map dump_headers dumps) = Some hss" "set hss = {hs}"
    using same_headers [OF assms(2)] built_nonempty [OF assms(1)] by blast
  note b = built [OF assms(1) hss(1)]
  have ne: "hs \<noteq> []" using assms(6) by (auto simp: header_names_def)
  have order: "sy_headerOrder sy = header_names hs" using one_order [OF hss(2) assms(4)] ne unfolding b(1) by blast
  have vals: "\<forall>kv \<in> set hs. carries (value_map (sy_headerValues sy)) kv"
    unfolding b(2) order by (intro ballI captured_value [OF hss(2) assms(3)])
  have "fold (header_step (value_map (sy_headerValues sy)) token uuid ch) (header_names hs)
      \<lparr>hs_out = [], hs_authFilled = False, hs_uaSeen = False\<rparr> =
    \<lparr>hs_out = concat (map (replayed_header token uuid ch) hs), hs_authFilled = True, hs_uaSeen = True\<rparr>"
    using fold_replays [OF vals assms(3), of "\<lparr>hs_out = [], hs_authFilled = False, hs_uaSeen = False\<rparr>" ch token uuid]
      assms(5,6,7) resolved_agent by simp
  moreover have "map_of (concat (map (replayed_header token uuid ch) hs)) ''content-type'' \<noteq> None"
    by (rule content_type_replayed) (use assms(6) in simp)
  ultimately show "buildHeaders ?sp token uuid ch = concat (map (replayed_header token uuid ch) hs)"
    by (simp add: buildHeaders_def order header_finish_def)
qed

subsection \<open>From the captured requests to the forwarded ones\<close>

lemma dump_headers_capture: "dump_headers (capture_dump now q body) = Some (headersInOrder q)"
proof -
  have "all_some (map header_pair (map (\<lambda>nv. JArr [JStr (fst nv), JStr (snd nv)]) hs)) = Some hs" for hs
    using all_some_map [of "\<lambda>x. x" hs] by (simp add: comp_def header_pair_def as_str_def)
  then show ?thesis by (simp add: dump_headers_def capture_dump_def jprop_def del: map_map)
qed

lemma dump_file_json: "ends_with (dump_file now n uuid) ''.json''"
  unfolding dump_file_def ends_with_def append_assoc [symmetric] by (rule suffixI [OF refl])

definition wire_dump :: "json \<Rightarrow> bool" where
  "wire_dump d = (jprop (Some d) ''wireOrderAvailable'' = Some (JBool True))"

definition read_dump :: "(string \<Rightarrow> json option) \<Rightarrow> string \<times> string \<Rightarrow> json list" where
  "read_dump parse f = (case parse (snd f) of Some dump \<Rightarrow> if wire_dump dump then [dump] else [] | None \<Rightarrow> [])"

lemma loaded_mset:
  assumes "list_all (\<lambda>f. ends_with (fst f) ''.json'') fs"
  shows "\<exists>dumps. loadCaptures parse (Some fs) = Inr dumps \<and> mset dumps = mset (concat (map (read_dump parse) fs))"
proof -
  have flt: "filter (\<lambda>f. ends_with (fst f) ''.json'') fs = fs" using assms by (simp add: filter_id_conv list_all_iff)
  have "mset (concat (map (read_dump parse) xs)) = (\<Sum>x\<in>#mset xs. mset (read_dump parse x))" for xs
    by (induction xs) simp_all
  then have "mset (concat (map (read_dump parse) (sort_key fst fs))) = mset (concat (map (read_dump parse) fs))" by simp
  moreover have "loadCaptures parse (Some fs) = Inr (concat (map (read_dump parse) (sort_key fst fs)))"
    unfolding loadCaptures_def option.case flt read_dump_def [abs_def] wire_dump_def by (rule refl)
  ultimately show ?thesis by blast
qed

lemma captures_read_back:
  assumes "\<forall>w \<in> set (arrived cfg 0 evs). parse (stringify (snd (snd w))) = Some (snd (snd w))"
    and "\<forall>n part. io n = Truncated part \<longrightarrow> parse part = None"
    and "\<forall>ev \<in> set evs. \<forall>now uuid q. ev = Arrives now uuid q \<longrightarrow> CHR ''_'' \<notin> set now"
    and "ct_queue (capture_run cfg stringify io evs capture_init) = []"
  shows "\<exists>dumps. loadCaptures parse (Some (ct_files (capture_run cfg stringify io evs capture_init))) = Inr dumps \<and>
    mset dumps = mset (map (\<lambda>w. snd (snd w)) (filter (\<lambda>w. io (fst w) = Written \<and> wire_dump (snd (snd w))) (arrived cfg 0 evs)))"
proof -
  note files = files_after_run [OF assms(3,4)]
  have named: "ends_with (fst f) ''.json''" if "f \<in> set (concat (map (stored_text stringify io) (arrived cfg 0 evs)))" for f
  proof -
    have "fst f \<in> set (file_names (arrived cfg 0 evs))" using stored_names that by blast
    then obtain w where w: "w \<in> set (arrived cfg 0 evs)" "fst f = fst (snd w)" by (auto simp: file_names_def)
    from arrived_files [OF assms(3) w(1)] obtain t u where "fst (snd w) = dump_file t (fst w) u" by (elim exE conjE)
    then show ?thesis unfolding w(2) by (simp only: dump_file_json)
  qed
  have one: "concat (map (read_dump parse) (stored_text stringify io w)) =
      (if io (fst w) = Written \<and> wire_dump (snd (snd w)) then [snd (snd w)] else [])" if "w \<in> set (arrived cfg 0 evs)" for w
    using bspec [OF assms(1) that] assms(2)
    by (cases w) (auto simp: stored_text_def read_dump_def split: write_outcome.splits)
  have "concat (map (read_dump parse) (concat (map (stored_text stringify io) ws))) =
      map (\<lambda>w. snd (snd w)) (filter (\<lambda>w. io (fst w) = Written \<and> wire_dump (snd (snd w))) ws)"
    if "set ws \<subseteq> set (arrived cfg 0 evs)" for ws
    using that by (induction ws) (simp_all add: one)
  from this [OF subset_refl] loaded_mset [of "ct_files (capture_run cfg stringify io evs capture_init)" parse] named
  show ?thesis unfolding files by (simp add: list_all_iff)
qed

lemma arrived_dump:
  assumes "\<forall>ev \<in> set evs. \<forall>now uuid q. ev = Arrives now uuid q \<longrightarrow> cq_rawHeaders q = Some raw" and "raw \<noteq> []"
  shows "w \<in> set (arrived cfg n evs) \<Longrightarrow> dump_headers (snd (snd w)) = Some (pair_headers raw) \<and> wire_dump (snd (snd w))"
  using assms
proof (induction cfg n evs rule: arrived.induct)
  case (3 cfg n now uuid q evs)
  then have q: "cq_rawHeaders q = Some raw" by simp
  have d: "dump_headers (capture_dump now q body) = Some (pair_headers raw) \<and> wire_dump (capture_dump now q body)" for body
    using q 3(5) unfolding dump_headers_capture by (cases raw) (simp_all add: headersInOrder_def wire_dump_def capture_dump_def jprop_def wireOrderAvailable_def)
  show ?case
  proof (cases "w = (Suc n, dump_file now (Suc n) uuid, capture_dump now q (projr (cq_text q)))")
    case True
    then show ?thesis using d by simp
  next
    case False
    with 3 show ?thesis by (auto split: if_splits)
  qed
qed simp_all

text \<open>C33: the proxy replays what it captured. Under every order of arrivals and writes, with writes that fail
  or are cut short, if the captured requests are one client's, with the same header list (no name twice,
  one credential header, a content type, a user agent) and one dump was written, the snapshot command
  succeeds, the program loads what it wrote, and every request forwarded under it carries exactly the
  captured headers in the captured order: without the transport headers, with the account's token in the
  place of the credential, the request's own session id, its beta flags added and its user agent if newer.\<close>

theorem captured_fingerprint_is_replayed:
  assumes "\<forall>w \<in> set (arrived cfg 0 evs). parse (stringify (snd (snd w))) = Some (snd (snd w))"
    and "\<forall>n part. io n = Truncated part \<longrightarrow> parse part = None"
    and "\<forall>ev \<in> set evs. \<forall>now uuid q. ev = Arrives now uuid q \<longrightarrow> CHR ''_'' \<notin> set now"
    and "ct_queue (capture_run cfg stringify io evs capture_init) = []"
    and "\<exists>w \<in> set (arrived cfg 0 evs). io (fst w) = Written"
    and client: "\<forall>ev \<in> set evs. \<forall>now uuid q. ev = Arrives now uuid q \<longrightarrow> cq_rawHeaders q = Some raw" "pair_headers raw = hs"
    and names: "distinct (map out_name (header_names hs))" "\<forall>kv \<in> set hs. CHR ''|'' \<notin> set (fst kv)"
      "\<exists>n \<in> set (header_names hs). n = ''x-api-key'' \<or> n = ''authorization''"
      "{''content-type'', ''user-agent''} \<subseteq> set (header_names hs)"
      "\<forall>kv \<in> set hs. to_lower (fst kv) = ''user-agent'' \<longrightarrow> snd kv \<noteq> []"
  shows "\<exists>j sp. synthesize parse date now False (Some (ct_files (capture_run cfg stringify io evs capture_init))) = (0, Some j) \<and>
    loadSnapshot (snapshot_read_of (Some j)) = Inr sp \<and>
    (\<forall>token uuid ch. buildHeaders sp token uuid ch = concat (map (replayed_header token uuid ch) hs))"
proof -
  have raw: "raw \<noteq> []" using client(2) names(4) by (auto simp: header_names_def)
  obtain dumps where d: "loadCaptures parse (Some (ct_files (capture_run cfg stringify io evs capture_init))) = Inr dumps"
      "mset dumps = mset (map (\<lambda>w. snd (snd w)) (filter (\<lambda>w. io (fst w) = Written \<and> wire_dump (snd (snd w))) (arrived cfg 0 evs)))"
    using captures_read_back [OF assms(1-4)] by blast
  have set: "set dumps = (\<lambda>w. snd (snd w)) ` {w \<in> set (arrived cfg 0 evs). io (fst w) = Written \<and> wire_dump (snd (snd w))}"
    using mset_eq_setD [OF d(2)] by simp
  have hs: "\<forall>d \<in> set dumps. dump_headers d = Some hs"
    unfolding set using arrived_dump [OF client(1) raw] client(2) by auto
  have ne: "dumps \<noteq> []" using assms(5) arrived_dump [OF client(1) raw] set by fastforce
  obtain hss where "all_some (map dump_headers dumps) = Some hss" using same_headers [OF hs ne] by blast
  from snapshot_exists [OF ne this] obtain sy where sy: "buildSnapshot parse date now dumps = Inr sy" by blast
  have "synthesize parse date now False (Some (ct_files (capture_run cfg stringify io evs capture_init))) = (0, Some (snapshot_json sy))"
    unfolding synthesize_def d(1) sum.case using ne sy by simp
  then show ?thesis using replay_of_captures [OF sy hs names] by blast
qed

subsection \<open>An example\<close>

definition demo_raw :: "string \<Rightarrow> string list" where
  "demo_raw key = [''Host'', ''proxy'', ''X-Api-Key'', key, ''User-Agent'', ''claude-cli/2.1.0'', ''Content-Type'', ''application/json'']"

definition demo_request :: "string \<Rightarrow> capture_request" where
  "demo_request key = \<lparr>cq_method = ''POST'', cq_path = ''/v1/messages'', cq_rawHeaders = Some (demo_raw key), cq_headers = [], cq_text = Inr []\<rparr>"

definition demo_dump :: "string \<Rightarrow> json" where "demo_dump key = capture_dump ''now'' (demo_request key) []"

lemma demo_headers:
  "dump_headers (demo_dump key) = Some [(''Host'', ''proxy''), (''X-Api-Key'', key), (''User-Agent'', ''claude-cli/2.1.0''), (''Content-Type'', ''application/json'')]"
  by (simp add: demo_dump_def dump_headers_capture headersInOrder_def demo_request_def demo_raw_def)

lemma demo_lower:
  "to_lower ''Host'' = ''host''" "to_lower ''X-Api-Key'' = ''x-api-key''" "to_lower ''User-Agent'' = ''user-agent''"
  "to_lower ''Content-Type'' = ''content-type''"
  by code_simp+

lemma demo_names:
  "header_names [(''Host'', ''proxy''), (''X-Api-Key'', key), (''User-Agent'', ''claude-cli/2.1.0''), (''Content-Type'', ''application/json'')] =
     [''host'', ''x-api-key'', ''user-agent'', ''content-type'']"
  by (simp add: header_names_def demo_lower)

theorem snapshot_follows_the_majority_witness:
  "\<exists>sy. buildSnapshot (\<lambda>_. None) (\<lambda>_. None) ''now'' [demo_dump ''a'', demo_dump ''b''] = Inr sy \<and>
     sy_headerOrder sy = [''host'', ''x-api-key'', ''user-agent'', ''content-type'']"
proof -
  let ?ds = "[demo_dump ''a'', demo_dump ''b'']"
  let ?hs = "\<lambda>k. [(''Host'', ''proxy''), (''X-Api-Key'', k), (''User-Agent'', ''claude-cli/2.1.0''), (''Content-Type'', ''application/json'')]"
  have h: "all_some (map dump_headers ?ds) = Some [?hs ''a'', ?hs ''b'']" by (simp add: demo_headers)
  have "?ds \<noteq> []" by simp
  from snapshot_exists [OF this h] obtain sy where sy: "buildSnapshot (\<lambda>_. None) (\<lambda>_. None) ''now'' ?ds = Inr sy" by blast
  have "sy_headerOrder sy \<in> set (map header_names [?hs ''a'', ?hs ''b''])"
    by (rule snapshot_follows_the_majority [OF sy h, THEN conjunct1]) simp
  then have "sy_headerOrder sy = [''host'', ''x-api-key'', ''user-agent'', ''content-type'']"
    unfolding list.map demo_names by simp
  with sy show ?thesis by blast
qed

theorem snapshot_hides_secrets_witness:
  "buildSnapshot (\<lambda>_. None) (\<lambda>_. None) ''now'' [demo_dump ''a''] = buildSnapshot (\<lambda>_. None) (\<lambda>_. None) ''now'' [demo_dump ''b'']"
proof (rule snapshot_hides_secrets)
  have "map_option without_secrets (dump_headers (demo_dump ''a'')) = map_option without_secrets (dump_headers (demo_dump ''b''))"
    unfolding demo_headers by (simp add: without_secrets_def demo_lower)
  moreover have "jprop (Some (demo_dump ''a'')) ''capturedAt'' = jprop (Some (demo_dump ''b'')) ''capturedAt''"
    "body_keys (\<lambda>_. None) (demo_dump ''a'') = body_keys (\<lambda>_. None) (demo_dump ''b'')"
    by (simp_all add: demo_dump_def capture_dump_def jprop_def body_keys_def as_str_def)
  ultimately show "list_all2 (same_public (\<lambda>_. None)) [demo_dump ''a''] [demo_dump ''b'']" by (simp add: same_public_def)
qed

theorem captured_fingerprint_is_replayed_witness:
  "\<exists>j sp. synthesize (\<lambda>_. Some (capture_dump ''t'' (demo_request ''k'') [])) (\<lambda>_. None) ''now'' False
       (Some (ct_files (capture_run \<lparr>cc_enabled = True, cc_dir = ''d''\<rparr> (\<lambda>_. ''x'') (\<lambda>_. Written)
          [Arrives ''t'' ''u'' (demo_request ''k''), Settles] capture_init))) = (0, Some j) \<and>
     loadSnapshot (snapshot_read_of (Some j)) = Inr sp \<and>
     map fst (buildHeaders sp ''token'' ''uuid'' None) = [''authorization'', ''user-agent'', ''content-type'']"
proof -
  let ?cfg = "\<lparr>cc_enabled = True, cc_dir = ''d''\<rparr>" and ?evs = "[Arrives ''t'' ''u'' (demo_request ''k''), Settles]"
  let ?hs = "[(''Host'', ''proxy''), (''X-Api-Key'', ''k''), (''User-Agent'', ''claude-cli/2.1.0''), (''Content-Type'', ''application/json'')]"
  have path: "starts_with (cq_path (demo_request ''k'')) ''/v1/messages''" "cq_text (demo_request ''k'') = Inr []"
    by (simp_all add: demo_request_def)
  have arr: "arrived ?cfg 0 ?evs = [(1, dump_file ''t'' 1 ''u'', capture_dump ''t'' (demo_request ''k'') [])]"
    using path by simp
  have settled: "ct_queue (capture_run ?cfg (\<lambda>_. ''x'') (\<lambda>_. Written) ?evs capture_init) = []"
    using path by (simp add: capture_run_def capture_step_def capture_mw_def write_settles_def capture_init_def)
  have raw: "pair_headers (demo_raw ''k'') = ?hs" by (simp add: demo_raw_def)
  have "\<exists>j sp. synthesize (\<lambda>_. Some (capture_dump ''t'' (demo_request ''k'') [])) (\<lambda>_. None) ''now'' False
       (Some (ct_files (capture_run ?cfg (\<lambda>_. ''x'') (\<lambda>_. Written) ?evs capture_init))) = (0, Some j) \<and>
     loadSnapshot (snapshot_read_of (Some j)) = Inr sp \<and>
     (\<forall>token uuid ch. buildHeaders sp token uuid ch = concat (map (replayed_header token uuid ch) ?hs))"
  proof (rule captured_fingerprint_is_replayed [OF _ _ _ settled _ _ raw])
    show "distinct (map out_name (header_names ?hs))" "\<exists>n \<in> set (header_names ?hs). n = ''x-api-key'' \<or> n = ''authorization''"
      "{''content-type'', ''user-agent''} \<subseteq> set (header_names ?hs)"
      unfolding demo_names by (simp_all add: out_name_def)
    show "\<forall>ev \<in> set ?evs. \<forall>now uuid q. ev = Arrives now uuid q \<longrightarrow> cq_rawHeaders q = Some (demo_raw ''k'')"
      by (simp add: demo_request_def)
  qed (simp_all add: arr path)
  then obtain j sp where j: "synthesize (\<lambda>_. Some (capture_dump ''t'' (demo_request ''k'') [])) (\<lambda>_. None) ''now'' False
       (Some (ct_files (capture_run ?cfg (\<lambda>_. ''x'') (\<lambda>_. Written) ?evs capture_init))) = (0, Some j)"
      "loadSnapshot (snapshot_read_of (Some j)) = Inr sp"
      "\<forall>token uuid ch. buildHeaders sp token uuid ch = concat (map (replayed_header token uuid ch) ?hs)" by (elim exE conjE)
  have "map fst (concat (map (replayed_header ''token'' ''uuid'' None) ?hs)) = [''authorization'', ''user-agent'', ''content-type'']"
    by (simp add: replayed_header_def Let_def demo_lower TRANSPORT_HEADERS_def out_name_def)
  with j show ?thesis by (intro exI [of _ j] exI [of _ sp]) simp
qed

end
