(* ===== verification/Extract.thy ===== *)
theory Extract
  imports Synthesis
begin

text \<open>
  \<open>scripts/extract-cc-template.mjs\<close>: the older way to a snapshot, from the strings of the client's binary.
  The binary is a list of bytes; which file it is, its size and its SHA-256 are arguments, as are the
  platform and the architecture. \<open>show\<close> is what a template literal makes of a value, \<open>None\<close> of
  \<open>undefined\<close>. The printed report is left out.
\<close>

subsection \<open>Strings of a binary\<close>

definition MIN_STRING_LEN :: nat where "MIN_STRING_LEN = 4"
definition MAX_STRING_LEN :: nat where "MAX_STRING_LEN = 32 * 1024"

definition printable :: "char \<Rightarrow> bool" where
  "printable b = (let n = (of_char b :: nat) in 32 \<le> n \<and> n \<le> 126 \<or> n = 9)"

definition extract_step :: "string \<Rightarrow> nat \<times> char \<Rightarrow> nat option \<times> string list \<Rightarrow> nat option \<times> string list" where
  "extract_step buf ib st =
     (case (ib, st) of ((i, b), (start, out)) \<Rightarrow>
       if printable b then (if start = None then Some i else start, out)
       else case start of
         None \<Rightarrow> (None, out)
       | Some s \<Rightarrow>
           let len = i - s in
           (None, if MIN_STRING_LEN \<le> len \<and> len \<le> MAX_STRING_LEN then out @ [take len (drop s buf)] else out))"

definition extractStrings :: "string \<Rightarrow> string list" where
  "extractStrings buf =
     (case fold (extract_step buf) (zip [0..<length buf] buf) (None, []) of
        (Some s, out) \<Rightarrow> if length buf - s \<ge> MIN_STRING_LEN then out @ [drop s buf] else out
      | (None, out) \<Rightarrow> out)"

subsection \<open>What is looked for\<close>

definition lower_letter :: "char \<Rightarrow> bool" where
  "lower_letter c = (let n = (of_char c :: nat) in 97 \<le> n \<and> n \<le> 122)"

definition beta_word :: "string \<Rightarrow> bool" where
  "beta_word w = (w \<noteq> [] \<and> lower_letter (hd w) \<and> list_all (\<lambda>c. lower_letter c \<or> is_digit c) w)"

definition digits_of :: "nat \<Rightarrow> string \<Rightarrow> bool" where
  "digits_of n s = (length s = n \<and> list_all is_digit s)"

definition beta_date :: "string list \<Rightarrow> bool" where
  "beta_date ps =
     (case ps of
        [d] \<Rightarrow> digits_of 8 d
      | [y, m, d] \<Rightarrow> digits_of 4 y \<and> digits_of 2 m \<and> digits_of 2 d
      | _ \<Rightarrow> False)"

text \<open>\<open>/^(?:[a-z][a-z0-9]*-){1,6}(?:\d{4}-\d{2}-\d{2}|\d{8})$/\<close>, cut at its hyphens.\<close>

definition BETA_RE :: "string \<Rightarrow> bool" where
  "BETA_RE s =
     (let ps = split_str ''-'' s in
      list_ex (\<lambda>k. k \<le> length ps \<and> list_all beta_word (take k ps) \<and> beta_date (drop k ps)) [1..<7])"

definition extractBetaFlags :: "string list \<Rightarrow> string list" where
  "extractBetaFlags strings = sort (js_set (filter (\<lambda>s. length s \<le> 60 \<and> BETA_RE s) strings))"

definition X_STAINLESS_NAME :: "string \<Rightarrow> bool" where
  "X_STAINLESS_NAME s =
     (starts_with s ''x-stainless-'' \<and>
      (let r = drop 12 s in r \<noteq> [] \<and> lower_letter (hd r) \<and> list_all (\<lambda>c. lower_letter c \<or> is_digit c \<or> c = CHR ''-'') r))"

definition extractStainlessHeaderNames :: "string list \<Rightarrow> string list" where
  "extractStainlessHeaderNames strings = sort (js_set (filter (\<lambda>s. length s \<le> 60 \<and> X_STAINLESS_NAME s) strings))"

record cc_meta =
  cm_packageUrl :: string
  cm_version :: string
  cm_buildTime :: string
  cm_gitSha :: string

text \<open>\<open>META_RE\<close> from one position on: literals, and between them what a class of characters takes.\<close>

definition after_lit :: "string \<Rightarrow> string \<Rightarrow> string option" where
  "after_lit p s = (if starts_with s p then Some (drop (length p) s) else None)"

definition unquoted :: "char \<Rightarrow> bool" where "unquoted c = (c \<noteq> CHR 0x22)"

definition version_text :: "string \<Rightarrow> bool" where
  "version_text v = (let ps = split_str ''.'' v in length ps = 3 \<and> list_all (\<lambda>p. p \<noteq> [] \<and> list_all is_digit p) ps)"

definition hex_text :: "string \<Rightarrow> bool" where
  "hex_text s = (s \<noteq> [] \<and> list_all (\<lambda>c. is_digit c \<or> c \<in> set ''abcdef'') s)"

definition quote :: string where "quote = [CHR 0x22]"

definition meta_at :: "string \<Rightarrow> cc_meta option" where
  "meta_at s0 =
     Option.bind (after_lit (''{ISSUES_EXPLAINER:'' @ quote) s0) (\<lambda>s1.
     Option.bind (after_lit (quote @ '',PACKAGE_URL:'' @ quote @ ''@anthropic-ai/claude-code'' @ quote @ '',README_URL:'' @ quote)
                    (dropWhile unquoted s1)) (\<lambda>s2.
     Option.bind (after_lit (quote @ '',VERSION:'' @ quote) (dropWhile unquoted s2)) (\<lambda>s3.
     let version = takeWhile unquoted s3 in
     Option.bind (after_lit (quote @ '',FEEDBACK_CHANNEL:'' @ quote) (dropWhile unquoted s3)) (\<lambda>s4.
     Option.bind (after_lit (quote @ '',BUILD_TIME:'' @ quote) (dropWhile unquoted s4)) (\<lambda>s5.
     let buildTime = takeWhile unquoted s5 in
     Option.bind (after_lit (quote @ '',GIT_SHA:'' @ quote) (dropWhile unquoted s5)) (\<lambda>s6.
     let gitSha = takeWhile unquoted s6 in
     Option.bind (after_lit (quote @ ''}'') (dropWhile unquoted s6)) (\<lambda>_.
     if version_text version \<and> buildTime \<noteq> [] \<and> hex_text gitSha
     then Some \<lparr>cm_packageUrl = ''@anthropic-ai/claude-code'', cm_version = version, cm_buildTime = buildTime, cm_gitSha = gitSha\<rparr>
     else None)))))))"

fun meta_in :: "string \<Rightarrow> cc_meta option" where
  "meta_in [] = None"
| "meta_in (c # cs) = (case meta_at (c # cs) of Some m \<Rightarrow> Some m | None \<Rightarrow> meta_in cs)"

fun extractCcMeta :: "string list \<Rightarrow> cc_meta option" where
  "extractCcMeta [] = None"
| "extractCcMeta (s # ss) = (case meta_in s of Some m \<Rightarrow> Some m | None \<Rightarrow> extractCcMeta ss)"

definition synthUserAgent :: "cc_meta option \<Rightarrow> string" where
  "synthUserAgent meta =
     (case meta of Some m \<Rightarrow> (if cm_version m \<noteq> [] then ''claude-cli/'' @ cm_version m else ''claude-cli/unknown'')
      | None \<Rightarrow> ''claude-cli/unknown'')"

definition stainlessValueDefaults :: "string \<Rightarrow> string \<Rightarrow> (string \<times> string) list" where
  "stainlessValueDefaults platform arch =
     [(''x-stainless-lang'', ''js''),
      (''x-stainless-os'', if platform = ''darwin'' then ''MacOS'' else if platform = ''linux'' then ''Linux'' else ''Windows''),
      (''x-stainless-arch'', if arch = ''arm64'' then ''arm64'' else if arch = ''x64'' then ''x64'' else arch),
      (''x-stainless-runtime'', ''bun''), (''x-stainless-runtime-version'', ''unknown''),
      (''x-stainless-package-version'', ''unknown''), (''x-stainless-retry-count'', ''0''),
      (''x-stainless-timeout'', ''600''), (''x-stainless-helper-method'', []), (''x-stainless-poll-helper'', []),
      (''x-stainless-custom-poll-interval'', []), (''x-stainless-read-timeout'', [])]"

definition buildStainlessHeaders :: "string \<Rightarrow> string \<Rightarrow> string list \<Rightarrow> (string \<times> string) list" where
  "buildStainlessHeaders platform arch names =
     map (\<lambda>n. (n, case map_of (stainlessValueDefaults platform arch) n of Some v \<Rightarrow> v | None \<Rightarrow> [])) names"

subsection \<open>The command\<close>

record extract_io =
  xi_path :: string
  xi_bytes :: string
  xi_sha256 :: string
  xi_platform :: string
  xi_arch :: string
  xi_now :: string

definition extracted_headers :: "extract_io \<Rightarrow> (string \<times> string) list" where
  "extracted_headers x =
     (let strings = extractStrings (xi_bytes x) in
      fold (\<lambda>(n, v) m. AList.update n v m)
        (buildStainlessHeaders (xi_platform x) (xi_arch x) (extractStainlessHeaderNames strings))
        [(''anthropic-version'', ''2023-06-01''), (''anthropic-beta'', join_str '','' (extractBetaFlags strings)),
         (''user-agent'', synthUserAgent (extractCcMeta strings)), (''x-app'', ''cli''), (''accept'', ''application/json'')])"

definition nullable :: "string option \<Rightarrow> json" where
  "nullable v = (case v of Some s \<Rightarrow> JStr s | None \<Rightarrow> JNull)"

definition extracted_snapshot :: "extract_io \<Rightarrow> obj" where
  "extracted_snapshot x =
     (let meta = extractCcMeta (extractStrings (xi_bytes x)) in
      [(''schemaVersion'', JNum 1), (''extractedAt'', JStr (xi_now x)), (''ccBinaryPath'', JStr (xi_path x)),
       (''ccBinarySize'', JNum (of_nat (length (xi_bytes x)))), (''ccBinarySha256'', JStr (xi_sha256 x)),
       (''ccVersion'', JStr (case meta of Some m \<Rightarrow> cm_version m | None \<Rightarrow> ''unknown'')),
       (''ccBuildTime'', nullable (map_option cm_buildTime meta)), (''ccGitSha'', nullable (map_option cm_gitSha meta)),
       (''headers'', JObj (map (\<lambda>nv. (fst nv, JStr (snd nv))) (extracted_headers x))),
       (''systemPrompt'', JNull), (''tools'', JNull)])"

text \<open>\<open>splitFlags\<close> throws for a value that is neither text nor nullish.\<close>

definition splitFlags :: "json option \<Rightarrow> string list result" where
  "splitFlags v =
     (if nullish v then Inr []
      else case v of Some (JStr s) \<Rightarrow> Inr (js_set (flag_list s)) | _ \<Rightarrow> Inl (Other ''split is not a function''))"

definition sha_excerpt :: "(json option \<Rightarrow> string) \<Rightarrow> json option \<Rightarrow> string result" where
  "sha_excerpt show v =
     (case v of
        Some (JStr s) \<Rightarrow> Inr (take 12 s)
      | Some (JArr xs) \<Rightarrow> Inr (show (Some (JArr (take 12 xs))))
      | _ \<Rightarrow> Inl (Other ''slice is not a function''))"

definition change_line :: "bool \<Rightarrow> string \<Rightarrow> string list" where
  "change_line b line = (if b then [line] else [])"

definition arrow :: string where "arrow = '' -> ''"

definition diffSnapshots :: "(json option \<Rightarrow> string) \<Rightarrow> json option \<Rightarrow> obj \<Rightarrow> string list result" where
  "diffSnapshots show oldSnap newSnap =
     (if \<not> truthy oldSnap then Inr [''(no existing snapshot - first extraction)'']
      else
        let old = (\<lambda>k. jprop oldSnap k); new = get newSnap; oldH = jprop (old ''headers''); newH = jprop (new ''headers'');
            time = (\<lambda>v. if nullish v then ''?'' else show v);
            version = change_line (old ''ccVersion'' \<noteq> new ''ccVersion'') (''ccVersion : '' @ show (old ''ccVersion'') @ arrow @ show (new ''ccVersion''));
            build = change_line (old ''ccBuildTime'' \<noteq> new ''ccBuildTime'') (''buildTime : '' @ time (old ''ccBuildTime'') @ arrow @ time (new ''ccBuildTime''));
            agent = change_line (oldH ''user-agent'' \<noteq> newH ''user-agent'') (''user-agent: '' @ show (oldH ''user-agent'') @ arrow @ show (newH ''user-agent''))
        in
        case (if old ''ccBinarySha256'' \<noteq> new ''ccBinarySha256''
              then (case sha_excerpt show (old ''ccBinarySha256'') of
                  Inl e \<Rightarrow> Inl e
                | Inr a \<Rightarrow> (case sha_excerpt show (new ''ccBinarySha256'') of Inl e \<Rightarrow> Inl e
                    | Inr b \<Rightarrow> Inr [''sha256    : '' @ a @ ellipsis @ arrow @ b @ ellipsis]))
              else Inr []) of
          Inl e \<Rightarrow> Inl e
        | Inr sha \<Rightarrow>
            (case (splitFlags (oldH ''anthropic-beta''), splitFlags (newH ''anthropic-beta'')) of
               (Inr oldBeta, Inr newBeta) \<Rightarrow>
                 let added = filter (\<lambda>f. f \<notin> set oldBeta) newBeta; removed = filter (\<lambda>f. f \<notin> set newBeta) oldBeta;
                     lines = version @ sha @ build @
                       change_line (length added > 0) (''anthropic-beta + ('' @ nat_str (length added) @ ''): '' @ join_str '', '' added) @
                       change_line (length removed > 0) (''anthropic-beta - ('' @ nat_str (length removed) @ ''): '' @ join_str '', '' removed) @ agent
                 in Inr (if length lines = 0 then [''(no changes)''] else lines)
             | (Inl e, _) \<Rightarrow> Inl e
             | (_, Inl e) \<Rightarrow> Inl e))"

text \<open>The exit code and the file written, once a binary is found and read; \<open>existing\<close> is the snapshot file's value if it is there and parses.\<close>

definition extract_main :: "(json option \<Rightarrow> string) \<Rightarrow> extract_io \<Rightarrow> bool \<Rightarrow> json option \<Rightarrow> nat \<times> json option" where
  "extract_main show x checkMode existing =
     (let snapshot = extracted_snapshot x in
      case diffSnapshots show existing snapshot of
        Inl e \<Rightarrow> (1, None)
      | Inr diffLines \<Rightarrow>
          let hasDrift = (length diffLines > 0 \<and> hd diffLines \<noteq> ''(no changes)'') in
          if checkMode then (if hasDrift then 1 else 0, None) else (0, Some (JObj snapshot)))"

text \<open>The search for the binary: which paths exist, what a path links to (\<open>None\<close> for no link, or one that cannot
  be read), how a file begins, the listed versions of the cask, what the package manager prints, and how paths
  are joined and resolved.\<close>

record file_system =
  fs_exists :: "string \<Rightarrow> bool"
  fs_link :: "string \<Rightarrow> string option"
  fs_text :: "string \<Rightarrow> string option"
  fs_listing :: "string \<Rightarrow> string list option"
  fs_npm_root :: "string option"
  fs_join :: "string list \<Rightarrow> string"
  fs_resolve :: "string list \<Rightarrow> string"
  fs_dirname :: "string \<Rightarrow> string"

definition resolveSymlink :: "file_system \<Rightarrow> string \<Rightarrow> string" where
  "resolveSymlink fs p =
     (case fs_link fs p of None \<Rightarrow> p | Some target \<Rightarrow> fs_resolve fs [fs_dirname fs p, target])"

definition isShellScript :: "file_system \<Rightarrow> string \<Rightarrow> bool" where
  "isShellScript fs path = (case fs_text fs path of None \<Rightarrow> False | Some t \<Rightarrow> starts_with (take 64 t) ''#!'')"

definition npmGlobalRoot :: "file_system \<Rightarrow> string option" where
  "npmGlobalRoot fs = map_option trim (fs_npm_root fs)"

definition caskRoot :: string where "caskRoot = ''/opt/homebrew/Caskroom/claude-code''"

definition binary_candidates :: "file_system \<Rightarrow> string option \<Rightarrow> string list" where
  "binary_candidates fs path =
     filter (fs_exists fs) (map (\<lambda>dir. fs_join fs [dir, ''claude'']) (split_str '':'' (case path of Some p \<Rightarrow> p | None \<Rightarrow> []))) @
     (if fs_exists fs caskRoot
      then (case fs_listing fs caskRoot of None \<Rightarrow> []
        | Some versions \<Rightarrow> filter (fs_exists fs) (map (\<lambda>v. fs_join fs [caskRoot, v, ''claude'']) versions))
      else []) @
     (case npmGlobalRoot fs of None \<Rightarrow> []
      | Some npmRoot \<Rightarrow> if npmRoot = [] then []
          else filter (fs_exists fs) [fs_join fs [npmRoot, ''@anthropic-ai'', ''claude-code'', ''cli.js'']])"

fun first_binary :: "file_system \<Rightarrow> string list \<Rightarrow> string result" where
  "first_binary fs [] = Inl (Other ''Claude Code binary not found. Set CC_BINARY_PATH=/path/to/claude and retry.'')"
| "first_binary fs (c # cs) =
     (let resolved = resolveSymlink fs c in if isShellScript fs resolved then first_binary fs cs else Inr resolved)"

definition detectBinary :: "file_system \<Rightarrow> string option \<Rightarrow> string option \<Rightarrow> string result" where
  "detectBinary fs envPath path =
     (case envPath of
        Some p \<Rightarrow> if p \<noteq> [] then
            (if fs_exists fs p then Inr (fs_resolve fs [p])
             else Inl (Other (''CC_BINARY_PATH does not exist: '' @ p)))
          else first_binary fs (binary_candidates fs path)
      | None \<Rightarrow> first_binary fs (binary_candidates fs path))"

definition extract_command ::
  "(json option \<Rightarrow> string) \<Rightarrow> file_system \<Rightarrow> (string \<Rightarrow> (string \<times> string) option) \<Rightarrow> (string \<Rightarrow> string option) \<Rightarrow>
     string \<times> string \<Rightarrow> string \<Rightarrow> bool \<Rightarrow> json option \<Rightarrow> nat \<times> json option" where
  "extract_command show fs read env platform_arch now checkMode existing =
     (case detectBinary fs (env ''CC_BINARY_PATH'') (env ''PATH'') of
        Inl e \<Rightarrow> (1, None)
      | Inr p \<Rightarrow> (case read p of
          None \<Rightarrow> (1, None)
        | Some (bytes, sha256) \<Rightarrow>
            extract_main show \<lparr>xi_path = p, xi_bytes = bytes, xi_sha256 = sha256, xi_platform = fst platform_arch,
              xi_arch = snd platform_arch, xi_now = now\<rparr> checkMode existing))"

subsection \<open>The strings are the runs\<close>

text \<open>A maximal run of printable bytes: \<open>r\<close> between \<open>a\<close> and \<open>s\<close>.\<close>

definition ends_run :: "string \<Rightarrow> bool" where
  "ends_run a = (a = [] \<or> \<not> printable (List.last a))"

definition starts_run :: "string \<Rightarrow> bool" where
  "starts_run s = (s = [] \<or> \<not> printable (hd s))"

definition maximal_run :: "string \<Rightarrow> string \<Rightarrow> string \<Rightarrow> bool" where
  "maximal_run a r s = (ends_run a \<and> list_all printable r \<and> starts_run s)"

definition open_run :: "string \<Rightarrow> string" where
  "open_run p = rev (takeWhile printable (rev p))"

definition closed_in :: "string \<Rightarrow> string \<Rightarrow> bool" where
  "closed_in p r = (\<exists>a s. p = a @ r @ s \<and> s \<noteq> [] \<and> maximal_run a r s \<and> MIN_STRING_LEN \<le> length r \<and> length r \<le> MAX_STRING_LEN)"

lemma open_run_snoc: "open_run (p @ [b]) = (if printable b then open_run p @ [b] else [])"
  by (simp add: open_run_def)

lemma open_run_is_maximal: "\<exists>a. p = a @ open_run p \<and> maximal_run a (open_run p) []"
proof -
  define a where "a = rev (dropWhile printable (rev p))"
  have "rev p = takeWhile printable (rev p) @ dropWhile printable (rev p)" by simp
  then have "p = a @ open_run p" unfolding a_def open_run_def by (metis rev_append rev_rev_ident)
  moreover have "list_all printable (open_run p)"
    by (auto simp: open_run_def list_all_iff dest: set_takeWhileD)
  moreover have "ends_run a"
  proof (cases "dropWhile printable (rev p)")
    case (Cons c cs)
    then have "\<not> printable c" using dropWhile_eq_Cons_conv [of printable "rev p" c cs] by blast
    then show ?thesis by (simp add: ends_run_def a_def Cons)
  qed (simp add: ends_run_def a_def)
  ultimately show ?thesis by (auto simp: maximal_run_def starts_run_def)
qed

lemma run_at_the_end:
  assumes "maximal_run a r s"
  shows "open_run (a @ r) = r"
proof -
  have "list_all printable (rev r)" using assms by (simp add: maximal_run_def)
  moreover have "takeWhile printable (rev a) = []"
    using assms by (cases a rule: rev_cases) (auto simp: maximal_run_def ends_run_def)
  ultimately show ?thesis
    by (simp add: open_run_def takeWhile_append list_all_iff)
qed

lemma closed_in_snoc:
  "closed_in (p @ [b]) r \<longleftrightarrow>
     closed_in p r \<or> (\<not> printable b \<and> r = open_run p \<and> MIN_STRING_LEN \<le> length r \<and> length r \<le> MAX_STRING_LEN)"
  (is "?L \<longleftrightarrow> ?R")
proof
  assume ?L
  then obtain a s where as: "p @ [b] = a @ r @ s" "s \<noteq> []" "maximal_run a r s"
    "MIN_STRING_LEN \<le> length r" "length r \<le> MAX_STRING_LEN"
    unfolding closed_in_def by (elim exE conjE) (rule that)
  obtain s' where s: "s = s' @ [b]" using as(1,2) by (cases s rule: rev_cases) auto
  show ?R
  proof (cases s')
    case Nil
    then show ?thesis using as s run_at_the_end [OF as(3)] by (auto simp: maximal_run_def starts_run_def)
  next
    case (Cons c cs)
    then have "p = a @ r @ s' \<and> s' \<noteq> [] \<and> maximal_run a r s'"
      using as s by (auto simp: maximal_run_def starts_run_def)
    then show ?thesis using as(4,5) unfolding closed_in_def by blast
  qed
next
  assume ?R
  then show ?L
  proof (elim disjE conjE)
    assume "closed_in p r"
    then obtain a s where "p = a @ r @ s" "s \<noteq> []" "maximal_run a r s"
      "MIN_STRING_LEN \<le> length r" "length r \<le> MAX_STRING_LEN"
      unfolding closed_in_def by (elim exE conjE) (rule that)
    then show ?L unfolding closed_in_def
      by (intro exI [of _ a] exI [of _ "s @ [b]"]) (simp add: maximal_run_def starts_run_def)
  next
    assume b: "\<not> printable b" and r: "r = open_run p" "MIN_STRING_LEN \<le> length r" "length r \<le> MAX_STRING_LEN"
    obtain a where "p = a @ open_run p" "maximal_run a (open_run p) []" using open_run_is_maximal by blast
    then show ?L unfolding closed_in_def using b r
      by (intro exI [of _ a] exI [of _ "[b]"]) (simp add: maximal_run_def starts_run_def)
  qed
qed

definition run_start :: "string \<Rightarrow> nat option" where
  "run_start p = (if open_run p = [] then None else Some (length p - length (open_run p)))"

lemma open_run_short: "length (open_run p) \<le> length p"
  using length_takeWhile_le [of printable "rev p"] by (simp add: open_run_def)

lemma open_run_drop: "drop (length p - length (open_run p)) p = open_run p"
proof -
  obtain a where "p = a @ open_run p" using open_run_is_maximal by blast
  then show ?thesis by (metis append_eq_conv_conj length_append diff_add_inverse2)
qed

lemma extract_step_state:
  assumes "buf = p @ b # rest" "st = run_start p"
  shows "fst (extract_step buf (length p, b) (st, out)) = run_start (p @ [b])"
    and "set (snd (extract_step buf (length p, b) (st, out))) =
      set out \<union> {r. \<not> printable b \<and> r = open_run p \<and> MIN_STRING_LEN \<le> length r \<and> length r \<le> MAX_STRING_LEN}"
proof -
  have len: "length p - (length p - length (open_run p)) = length (open_run p)" using open_run_short [of p] by simp
  have cut: "take (length (open_run p)) (drop (length p - length (open_run p)) buf) = open_run p"
    using open_run_drop [of p] open_run_short [of p] by (simp add: assms(1))
  show "fst (extract_step buf (length p, b) (st, out)) = run_start (p @ [b])"
    using open_run_short [of p] by (auto simp: extract_step_def assms(2) run_start_def open_run_snoc Let_def)
  show "set (snd (extract_step buf (length p, b) (st, out))) =
      set out \<union> {r. \<not> printable b \<and> r = open_run p \<and> MIN_STRING_LEN \<le> length r \<and> length r \<le> MAX_STRING_LEN}"
    by (auto simp: extract_step_def assms(2) run_start_def Let_def len cut MIN_STRING_LEN_def)
qed

lemma extract_fold_state:
  assumes "buf = p @ rest"
  shows "fst (fold (extract_step buf) (zip [0..<length p] p) (None, [])) = run_start p \<and>
    set (snd (fold (extract_step buf) (zip [0..<length p] p) (None, []))) = {r. closed_in p r}"
  using assms
proof (induction p arbitrary: rest rule: rev_induct)
  case Nil
  then show ?case by (simp add: run_start_def open_run_def closed_in_def)
next
  case (snoc b p)
  let ?f = "\<lambda>q. fold (extract_step buf) (zip [0..<length q] q) (None, [])"
  have buf: "buf = p @ b # rest" using snoc.prems by simp
  have ih: "fst (?f p) = run_start p" "set (snd (?f p)) = {r. closed_in p r}" using snoc.IH [OF buf] by simp_all
  have "?f (p @ [b]) = extract_step buf (length p, b) (fst (?f p), snd (?f p))" by simp
  then show ?case
    using extract_step_state [OF buf ih(1), of "snd (?f p)"] ih(2) by (auto simp: closed_in_snoc)
qed

lemma extracted_by_state:
  "set (extractStrings buf) =
     {r. closed_in buf r} \<union> (if MIN_STRING_LEN \<le> length (open_run buf) then {open_run buf} else {})"
proof -
  let ?st = "fold (extract_step buf) (zip [0..<length buf] buf) (None, [])"
  have st: "fst ?st = run_start buf" "set (snd ?st) = {r. closed_in buf r}"
    using extract_fold_state [of buf buf "[]"] by simp_all
  have len: "length buf - (length buf - length (open_run buf)) = length (open_run buf)"
    using open_run_short [of buf] by simp
  obtain a out where ao: "?st = (a, out)" by (cases ?st)
  show ?thesis
    using st unfolding extractStrings_def ao
    by (auto simp: run_start_def len open_run_drop MIN_STRING_LEN_def split: if_splits)
qed

text \<open>The strings read from the binary are exactly the maximal runs of printable bytes of at least four
  bytes; a run of more than 32 KiB is skipped, unless it ends the file.\<close>

theorem extracted_strings_are_the_runs:
  "r \<in> set (extractStrings buf) \<longleftrightarrow>
     (\<exists>a s. buf = a @ r @ s \<and> maximal_run a r s \<and> MIN_STRING_LEN \<le> length r \<and> (length r \<le> MAX_STRING_LEN \<or> s = []))"
  (is "?L \<longleftrightarrow> ?R")
proof
  assume ?L
  then consider "closed_in buf r" | "r = open_run buf" "MIN_STRING_LEN \<le> length r"
    by (auto simp: extracted_by_state split: if_splits)
  then show ?R
  proof cases
    case 1
    then show ?thesis unfolding closed_in_def by blast
  next
    case 2
    obtain a where "buf = a @ open_run buf" "maximal_run a (open_run buf) []" using open_run_is_maximal by blast
    then show ?thesis using 2 by (intro exI [of _ a] exI [of _ "[]"]) simp
  qed
next
  assume ?R
  then obtain a s where as: "buf = a @ r @ s" "maximal_run a r s" "MIN_STRING_LEN \<le> length r"
    "length r \<le> MAX_STRING_LEN \<or> s = []" by (elim exE conjE) (rule that)
  show ?L
  proof (cases "s = []")
    case True
    then show ?thesis using as run_at_the_end [OF as(2)] by (simp add: extracted_by_state)
  next
    case False
    then have "closed_in buf r" using as unfolding closed_in_def by blast
    then show ?thesis by (simp add: extracted_by_state)
  qed
qed

subsection \<open>What becomes of the extracted snapshot\<close>

lemma synthesized_has_no_sha:
  "truthy (Some (snapshot_json sy))" "jprop (Some (snapshot_json sy)) ''ccBinarySha256'' = None"
proof -
  define o1 where "o1 = optional_field ''capturedFrom'' (sy_capturedFrom sy) @ optional_field ''capturedTo'' (sy_capturedTo sy)"
  have skip: "map_of o1 ''ccBinarySha256'' = None"
    by (simp add: o1_def optional_field_def split: option.splits)
  show "truthy (Some (snapshot_json sy))" by (simp add: snapshot_json_def truthy_def)
  show "jprop (Some (snapshot_json sy)) ''ccBinarySha256'' = None"
    unfolding snapshot_json_def append_assoc [symmetric] o1_def [symmetric]
    unfolding append_assoc append_Cons append_Nil
    by (simp add: jprop_def get_def skip)
qed

lemma extracted_sha: "get (extracted_snapshot x) ''ccBinarySha256'' = Some (JStr (xi_sha256 x))"
  by (simp add: extracted_snapshot_def Let_def get_def)

lemma diff_against_nothing: "diffSnapshots show None new = Inr [''(no existing snapshot - first extraction)'']"
  unfolding diffSnapshots_def by (simp only: truthy_def option.case not_False_eq_True if_True)

lemma diff_against_synthesized:
  "diffSnapshots show (Some (snapshot_json sy)) (extracted_snapshot x) = Inl (Other ''slice is not a function'')"
  by (simp add: diffSnapshots_def synthesized_has_no_sha extracted_sha sha_excerpt_def Let_def)

text \<open>The template extracted from the client's binary never reaches the proxy. Over a snapshot that the
  synthesis has written, the command fails before it writes (that snapshot has no checksum to abbreviate), in
  check mode and out of it; without one it writes a snapshot of the older schema, which the program refuses
  to load.\<close>

theorem extracted_snapshot_is_never_used:
  "extract_main show x checkMode (Some (snapshot_json sy)) = (1, None) \<and>
   extract_main show x True None = (1, None) \<and>
   (\<exists>j. extract_main show x False None = (0, Some j) \<and>
      loadSnapshot (snapshot_read_of (Some j)) = Inl (ConfigError ''snapshot schemaVersion not supported''))"
proof (intro conjI)
  show "extract_main show x checkMode (Some (snapshot_json sy)) = (1, None)"
    by (simp add: extract_main_def diff_against_synthesized)
  show "extract_main show x True None = (1, None)"
    by (simp add: extract_main_def diff_against_nothing Let_def)
  have "jprop (Some (JObj (extracted_snapshot x))) ''schemaVersion'' = Some (JNum 1)"
    by (simp add: jprop_def extracted_snapshot_def Let_def get_def)
  then have "loadSnapshot (snapshot_read_of (Some (JObj (extracted_snapshot x)))) =
      Inl (ConfigError ''snapshot schemaVersion not supported'')"
    by (simp add: snapshot_read_of_def loadSnapshot_def SUPPORTED_SCHEMA_VERSION_def)
  then show "\<exists>j. extract_main show x False None = (0, Some j) \<and>
      loadSnapshot (snapshot_read_of (Some j)) = Inl (ConfigError ''snapshot schemaVersion not supported'')"
    by (simp add: extract_main_def diff_against_nothing Let_def)
qed

end
