(* ===== verification/ResponseTap.thy ===== *)
theory ResponseTap
  imports Prelude "HOL-Library.Word"
begin

text \<open>
  \<open>src/src/proxy/response-tap.ts\<close>: the response body is teed into the branch the client reads and the
  branch that is decoded for the log. A chunk is a list of bytes. A branch queues the chunks its reader has not
  taken; an error of the source empties both queues, a cancelled branch takes no more, and the log
  branch is never cancelled. \<open>TextDecoder\<close> is the streaming UTF-8 decoder of the Encoding
  standard: it writes U+FFFD for what is not UTF-8, drops a leading byte order mark, and yields the
  UTF-16 code units of a JavaScript string.
\<close>

type_synonym byte = "8 word"

subsection \<open>TextDecoder\<close>

record decoder =
  dc_point :: nat
  dc_needed :: nat
  dc_lower :: nat
  dc_upper :: nat
  dc_bom_seen :: bool

definition new_decoder :: decoder where
  "new_decoder = \<lparr>dc_point = 0, dc_needed = 0, dc_lower = 0x80, dc_upper = 0xBF, dc_bom_seen = False\<rparr>"

definition between_points :: "decoder \<Rightarrow> decoder" where
  "between_points d = d\<lparr>dc_point := 0, dc_needed := 0, dc_lower := 0x80, dc_upper := 0xBF\<rparr>"

definition utf16 :: "nat \<Rightarrow> nat list" where
  "utf16 p = (if p < 0x10000 then [p]
     else [0xD800 + (p - 0x10000) div 0x400, 0xDC00 + (p - 0x10000) mod 0x400])"

definition put_point :: "nat \<Rightarrow> decoder \<Rightarrow> nat list \<times> decoder" where
  "put_point p d =
     (if \<not> dc_bom_seen d \<and> p = 0xFEFF then [] else utf16 p, d\<lparr>dc_bom_seen := True\<rparr>)"

definition lead_byte :: "nat \<Rightarrow> decoder \<Rightarrow> nat list \<times> decoder" where
  "lead_byte b d =
     (if b \<le> 0x7F then put_point b d
      else if 0xC2 \<le> b \<and> b \<le> 0xDF then ([], d\<lparr>dc_needed := 1, dc_point := b mod 32\<rparr>)
      else if 0xE0 \<le> b \<and> b \<le> 0xEF
      then ([], d\<lparr>dc_needed := 2, dc_point := b mod 16,
                  dc_lower := (if b = 0xE0 then 0xA0 else dc_lower d),
                  dc_upper := (if b = 0xED then 0x9F else dc_upper d)\<rparr>)
      else if 0xF0 \<le> b \<and> b \<le> 0xF4
      then ([], d\<lparr>dc_needed := 3, dc_point := b mod 8,
                  dc_lower := (if b = 0xF0 then 0x90 else dc_lower d),
                  dc_upper := (if b = 0xF4 then 0x8F else dc_upper d)\<rparr>)
      else put_point 0xFFFD d)"

definition decode_byte :: "byte \<Rightarrow> decoder \<Rightarrow> nat list \<times> decoder" where
  "decode_byte w d =
     (let b = unat w in
      if dc_needed d = 0 then lead_byte b d
      else if b < dc_lower d \<or> dc_upper d < b
      then (let (bad, d1) = put_point 0xFFFD (between_points d); (out, d2) = lead_byte b d1
            in (bad @ out, d2))
      else
        let p = dc_point d * 64 + b mod 64 in
        if dc_needed d = 1 then put_point p (between_points d)
        else ([], d\<lparr>dc_point := p, dc_needed := dc_needed d - 1, dc_lower := 0x80, dc_upper := 0xBF\<rparr>))"

text \<open>\<open>decode(value, \{stream: true\})\<close>, and \<open>decode()\<close> at the end.\<close>

fun decode_chunk :: "byte list \<Rightarrow> decoder \<Rightarrow> nat list \<times> decoder" where
  "decode_chunk [] d = ([], d)"
| "decode_chunk (w # ws) d =
     (let (out, d1) = decode_byte w d; (rest, d2) = decode_chunk ws d1 in (out @ rest, d2))"

definition decode_end :: "decoder \<Rightarrow> nat list" where
  "decode_end d = (if dc_needed d = 0 then [] else fst (put_point 0xFFFD d))"

subsection \<open>The tap\<close>

datatype source_state = Flowing | Closed | Errored

record tap =
  tp_source :: source_state
  tp_forClient :: "byte list list"
  tp_forwarded :: "byte list"
  tp_cancelled :: bool
  tp_forLog :: "byte list list"
  tp_decoder :: decoder
  tp_raw :: "nat list"
  tp_done :: bool

definition tapResponseBody :: tap where
  "tapResponseBody = \<lparr>tp_source = Flowing, tp_forClient = [], tp_forwarded = [], tp_cancelled = False,
     tp_forLog = [], tp_decoder = new_decoder, tp_raw = [], tp_done = False\<rparr>"

text \<open>What can happen: the source delivers a chunk, ends or fails; the client reads or disconnects; the reader
  of the log branch takes its next turn.\<close>

datatype tap_event = Arrives "byte list" | Ends | Fails | ClientReads | ClientCancels | LogReads

fun tap_step :: "tap_event \<Rightarrow> tap \<Rightarrow> tap" where
  "tap_step (Arrives c) t =
     (if tp_source t \<noteq> Flowing then t
      else t\<lparr>tp_forClient := (if tp_cancelled t then [] else tp_forClient t @ [c]),
             tp_forLog := tp_forLog t @ [c]\<rparr>)"
| "tap_step Ends t = (if tp_source t \<noteq> Flowing then t else t\<lparr>tp_source := Closed\<rparr>)"
| "tap_step Fails t =
     (if tp_source t \<noteq> Flowing then t else t\<lparr>tp_source := Errored, tp_forClient := [], tp_forLog := []\<rparr>)"
| "tap_step ClientReads t =
     (case tp_forClient t of [] \<Rightarrow> t
      | c # cs \<Rightarrow> t\<lparr>tp_forwarded := tp_forwarded t @ c, tp_forClient := cs\<rparr>)"
| "tap_step ClientCancels t = t\<lparr>tp_cancelled := True, tp_forClient := []\<rparr>"
| "tap_step LogReads t =
     (if tp_done t then t
      else case tp_forLog t of
        c # cs \<Rightarrow>
          (let (out, d) = decode_chunk c (tp_decoder t)
           in t\<lparr>tp_raw := tp_raw t @ out, tp_decoder := d, tp_forLog := cs\<rparr>)
      | [] \<Rightarrow>
          (case tp_source t of
             Flowing \<Rightarrow> t
           | Closed \<Rightarrow> t\<lparr>tp_raw := tp_raw t @ decode_end (tp_decoder t), tp_done := True\<rparr>
           | Errored \<Rightarrow> t\<lparr>tp_done := True\<rparr>))"

definition tap_run :: "tap_event list \<Rightarrow> tap" where
  "tap_run es = fold tap_step es tapResponseBody"

text \<open>The bytes the source delivered before it ended or failed.\<close>

definition flows :: "tap_event list \<Rightarrow> bool" where
  "flows es \<longleftrightarrow> list_all (\<lambda>e. e \<noteq> Ends \<and> e \<noteq> Fails) es"

fun delivered :: "tap_event list \<Rightarrow> byte list" where
  "delivered [] = []"
| "delivered (Arrives c # es) = c @ delivered es"
| "delivered (Ends # es) = []"
| "delivered (Fails # es) = []"
| "delivered (e # es) = delivered es"

definition decoded :: "byte list \<Rightarrow> nat list" where
  "decoded bs = (let (out, d) = decode_chunk bs new_decoder in out @ decode_end d)"

subsection \<open>Decoding in pieces\<close>

lemma decode_append:
  "decode_chunk (a @ b) d =
     (let (out, d1) = decode_chunk a d; (rest, d2) = decode_chunk b d1 in (out @ rest, d2))"
  by (induction a arbitrary: d) (simp_all add: Let_def split: prod.splits)

subsection \<open>Decoding what was encoded\<close>

definition scalar :: "nat \<Rightarrow> bool" where
  "scalar p \<longleftrightarrow> p < 0xD800 \<or> (0xE000 \<le> p \<and> p < 0x110000)"

definition utf8 :: "nat \<Rightarrow> byte list" where
  "utf8 p = map of_nat
     (if p < 0x80 then [p]
      else if p < 0x800 then [0xC0 + p div 64, 0x80 + p mod 64]
      else if p < 0x10000 then [0xE0 + p div 4096, 0x80 + p div 64 mod 64, 0x80 + p mod 64]
      else [0xF0 + p div 262144, 0x80 + p div 4096 mod 64, 0x80 + p div 64 mod 64, 0x80 + p mod 64])"

definition between :: "decoder \<Rightarrow> bool" where
  "between d \<longleftrightarrow> dc_needed d = 0 \<and> dc_point d = 0 \<and> dc_lower d = 0x80 \<and> dc_upper d = 0xBF"

lemma unat_byte: "n < 256 \<Longrightarrow> unat (of_nat n :: byte) = n"
  by (simp add: unat_of_nat take_bit_eq_mod)

lemma decode_nat:
  assumes "n < 256"
  shows "decode_byte (of_nat n) d =
    (if dc_needed d = 0 then lead_byte n d
     else if n < dc_lower d \<or> dc_upper d < n
     then (let (bad, d1) = put_point 0xFFFD (between_points d); (out, d2) = lead_byte n d1
           in (bad @ out, d2))
     else if dc_needed d = 1 then put_point (dc_point d * 64 + n mod 64) (between_points d)
     else ([], d\<lparr>dc_point := dc_point d * 64 + n mod 64, dc_needed := dc_needed d - 1, dc_lower := 0x80,
                 dc_upper := 0xBF\<rparr>))"
  unfolding decode_byte_def unat_byte [OF assms] Let_def by (rule refl)

lemma mod_shift: "k mod m = 0 \<Longrightarrow> x < m \<Longrightarrow> (k + x) mod m = (x :: nat)"
  by (metis add_0 mod_add_left_eq mod_less)

text \<open>A leading byte and a continuation byte with payload \<open>q\<close>.\<close>

lemma lead_two:
  assumes "dc_needed d = 0" "2 \<le> q" "q < 32"
  shows "decode_byte (of_nat (0xC0 + q)) d = ([], d\<lparr>dc_needed := 1, dc_point := q\<rparr>)"
  using assms mod_shift [of "0xC0" 32 q] by (subst decode_nat) (simp_all add: lead_byte_def)

lemma lead_three:
  assumes "dc_needed d = 0" "q < 16"
  shows "decode_byte (of_nat (0xE0 + q)) d =
    ([], d\<lparr>dc_needed := 2, dc_point := q, dc_lower := (if q = 0 then 0xA0 else dc_lower d),
            dc_upper := (if q = 13 then 0x9F else dc_upper d)\<rparr>)"
  using assms mod_shift [of "0xE0" 16 q] by (subst decode_nat) (simp_all add: lead_byte_def)

lemma lead_four:
  assumes "dc_needed d = 0" "q < 5"
  shows "decode_byte (of_nat (0xF0 + q)) d =
    ([], d\<lparr>dc_needed := 3, dc_point := q, dc_lower := (if q = 0 then 0x90 else dc_lower d),
            dc_upper := (if q = 4 then 0x8F else dc_upper d)\<rparr>)"
  using assms mod_shift [of "0xF0" 8 q] by (subst decode_nat) (simp_all add: lead_byte_def)

lemma continuation:
  assumes "0 < dc_needed d" "q < 64" "dc_lower d \<le> 0x80 + q" "0x80 + q \<le> dc_upper d"
  shows "decode_byte (of_nat (0x80 + q)) d =
    (if dc_needed d = 1 then put_point (dc_point d * 64 + q) (between_points d)
     else ([], d\<lparr>dc_point := dc_point d * 64 + q, dc_needed := dc_needed d - 1, dc_lower := 0x80, dc_upper := 0xBF\<rparr>))"
  using assms mod_shift [of "0x80" 64 q] by (subst decode_nat) (simp_all)

lemma by_six:
  "p div 4096 * 64 + p div 64 mod 64 = (p div 64 :: nat)" "p div 262144 * 64 + p div 4096 mod 64 = (p div 4096 :: nat)"
  using div_mult2_eq [of p 64 64] div_mult2_eq [of p 4096 64] by simp_all

lemma between_same: "between d \<Longrightarrow>
    d\<lparr>dc_point := 0, dc_needed := 0, dc_lower := 0x80, dc_upper := 0xBF\<rparr> = d"
  by (cases d) (simp add: between_def)

lemma two_bytes:
  assumes d: "between d" and p: "0x80 \<le> p" "p < 0x800"
  shows "decode_chunk (map of_nat [0xC0 + p div 64, 0x80 + p mod 64]) d = put_point p d"
proof -
  have q: "2 \<le> p div 64" "p div 64 < 32" using p by auto
  have "decode_byte (of_nat (0xC0 + p div 64)) d = ([], d\<lparr>dc_needed := 1, dc_point := p div 64\<rparr>)" (is "_ = (_, ?d)")
    using d q by (intro lead_two) (simp_all add: between_def)
  moreover have "decode_byte (of_nat (0x80 + p mod 64)) ?d = put_point p d"
    using d by (subst continuation) (simp_all add: between_def between_points_def between_same)
  ultimately show ?thesis by (simp del: of_nat_add split: prod.splits)
qed

lemma three_bytes:
  assumes d: "between d" and p: "0x800 \<le> p" "p < 0x10000" "scalar p"
  shows "decode_chunk (map of_nat [0xE0 + p div 4096, 0x80 + p div 64 mod 64, 0x80 + p mod 64]) d = put_point p d"
proof -
  let ?d = "d\<lparr>dc_needed := 2, dc_point := p div 4096, dc_lower := (if p div 4096 = 0 then 0xA0 else dc_lower d),
              dc_upper := (if p div 4096 = 13 then 0x9F else dc_upper d)\<rparr>"
  let ?e = "d\<lparr>dc_needed := 1, dc_point := p div 64\<rparr>"
  have m: "p div 4096 * 64 + p div 64 mod 64 = p div 64" by (rule by_six)
  have lo: "p div 4096 = 0 \<Longrightarrow> 0x20 \<le> p div 64 mod 64" using p(1) m by linarith
  have "p div 64 < 0x360 \<or> 0x380 \<le> p div 64" using p(3) unfolding scalar_def by linarith
  then have hi: "p div 4096 = 13 \<Longrightarrow> p div 64 mod 64 < 0x20" using m mod_less_divisor [of 64 "p div 64"] by linarith
  have "decode_byte (of_nat (0xE0 + p div 4096)) d = ([], ?d)"
    using d p by (intro lead_three) (auto simp: between_def)
  moreover have "decode_byte (of_nat (0x80 + p div 64 mod 64)) ?d = ([], ?e)"
    using d lo hi m by (subst continuation) (auto simp: between_def)
  moreover have "decode_byte (of_nat (0x80 + p mod 64)) ?e = put_point p d"
    using d by (subst continuation) (simp_all add: between_def between_points_def between_same)
  ultimately show ?thesis by (simp del: of_nat_add split: prod.splits)
qed

lemma four_bytes:
  assumes d: "between d" and p: "0x10000 \<le> p" "p < 0x110000"
  shows "decode_chunk (map of_nat [0xF0 + p div 262144, 0x80 + p div 4096 mod 64, 0x80 + p div 64 mod 64,
           0x80 + p mod 64]) d = put_point p d"
proof -
  let ?d = "d\<lparr>dc_needed := 3, dc_point := p div 262144, dc_lower := (if p div 262144 = 0 then 0x90 else dc_lower d),
              dc_upper := (if p div 262144 = 4 then 0x8F else dc_upper d)\<rparr>"
  let ?e = "d\<lparr>dc_needed := 2, dc_point := p div 4096\<rparr>"
  let ?f = "d\<lparr>dc_needed := 1, dc_point := p div 64\<rparr>"
  have m: "p div 262144 * 64 + p div 4096 mod 64 = p div 4096" "p div 4096 * 64 + p div 64 mod 64 = p div 64"
    by (rule by_six)+
  have lo: "p div 262144 = 0 \<Longrightarrow> 0x10 \<le> p div 4096 mod 64" using p(1) m(1) by linarith
  have hi: "p div 262144 = 4 \<Longrightarrow> p div 4096 mod 64 < 0x10" using p(2) m(1) by linarith
  have le: "q mod 64 \<le> 63" for q :: nat using mod_less_divisor [of 64 q] by linarith
  have "decode_byte (of_nat (0xF0 + p div 262144)) d = ([], ?d)"
    using d p by (intro lead_four) (auto simp: between_def)
  moreover have "decode_byte (of_nat (0x80 + p div 4096 mod 64)) ?d = ([], ?e)"
    using d lo hi m le by (subst continuation) (auto simp: between_def)
  moreover have "decode_byte (of_nat (0x80 + p div 64 mod 64)) ?e = ([], ?f)"
    using d m le by (subst continuation) (auto simp: between_def)
  moreover have "decode_byte (of_nat (0x80 + p mod 64)) ?f = put_point p d"
    using d by (subst continuation) (simp_all add: between_def between_points_def between_same)
  ultimately show ?thesis by (simp del: of_nat_add split: prod.splits)
qed

lemma one_point:
  assumes "between d" "scalar p"
  shows "decode_chunk (utf8 p) d = put_point p d"
proof -
  consider "p < 0x80" | "0x80 \<le> p" "p < 0x800" | "0x800 \<le> p" "p < 0x10000" | "0x10000 \<le> p" "p < 0x110000"
    using assms(2) unfolding scalar_def by linarith
  then show ?thesis
  proof cases
    case 1
    then show ?thesis using assms(1)
      by (simp add: utf8_def decode_nat lead_byte_def between_def split: prod.splits)
  next
    case 2
    then show ?thesis using two_bytes [OF assms(1) 2] by (simp add: utf8_def)
  next
    case 3
    then show ?thesis using three_bytes [OF assms(1) 3 assms(2)] by (simp add: utf8_def)
  next
    case 4
    then show ?thesis using four_bytes [OF assms(1) 4] by (simp add: utf8_def)
  qed
qed


lemma put_between: "between d \<Longrightarrow> between (snd (put_point p d)) \<and> dc_bom_seen (snd (put_point p d))"
  by (simp add: put_point_def between_def)

lemma seen_points:
  "between d \<Longrightarrow> dc_bom_seen d \<Longrightarrow> \<forall>p \<in> set ps. scalar p
   \<Longrightarrow> decode_chunk (concat (map utf8 ps)) d = (concat (map utf16 ps), d)"
proof (induction ps)
  case (Cons p ps)
  then have "decode_chunk (utf8 p) d = (utf16 p, d)"
    using one_point [of d p] by (simp add: put_point_def)
  with Cons show ?case by (simp add: decode_append)
qed simp

lemma decoded_text:
  assumes "\<forall>p \<in> set ps. scalar p" "take 1 ps \<noteq> [0xFEFF]"
  shows "decoded (concat (map utf8 ps)) = concat (map utf16 ps)"
proof (cases ps)
  case Nil
  then show ?thesis by (simp add: decoded_def decode_end_def new_decoder_def)
next
  case (Cons p qs)
  have new: "between new_decoder" by (simp add: between_def new_decoder_def)
  let ?d = "new_decoder\<lparr>dc_bom_seen := True\<rparr>"
  have "decode_chunk (utf8 p) new_decoder = (utf16 p, ?d)"
    using one_point [OF new] assms Cons by (simp add: put_point_def)
  moreover have "decode_chunk (concat (map utf8 qs)) ?d = (concat (map utf16 qs), ?d)"
    using assms(1) Cons by (intro seen_points) (simp_all add: between_def new_decoder_def)
  ultimately show ?thesis
    using Cons by (simp add: decoded_def decode_append decode_end_def new_decoder_def)
qed

subsection \<open>Every interleaving\<close>

lemma flows_snoc: "flows (es @ [e]) \<longleftrightarrow> flows es \<and> e \<noteq> Ends \<and> e \<noteq> Fails"
  by (simp add: flows_def)

lemma delivered_snoc:
  "delivered (es @ [e]) = delivered es @ (case e of Arrives c \<Rightarrow> if flows es then c else [] | _ \<Rightarrow> [])"
  by (induction es rule: delivered.induct) (simp_all add: flows_def split: tap_event.splits)

text \<open>What the client has read and what the log has decoded, against what was delivered.\<close>

definition client_inv :: "byte list \<Rightarrow> byte list \<Rightarrow> tap \<Rightarrow> bool" where
  "client_inv bs rest t \<longleftrightarrow> bs = tp_forwarded t @ concat (tp_forClient t) @ rest \<and>
     (\<not> tp_cancelled t \<longrightarrow> tp_source t \<noteq> Errored \<longrightarrow> rest = []) \<and> (tp_cancelled t \<longrightarrow> tp_forClient t = [])"

definition log_inv :: "byte list \<Rightarrow> byte list \<Rightarrow> byte list \<Rightarrow> tap \<Rightarrow> bool" where
  "log_inv bs taken rest t \<longleftrightarrow> bs = taken @ concat (tp_forLog t) @ rest \<and> (tp_source t \<noteq> Errored \<longrightarrow> rest = []) \<and>
     (tp_done t \<longrightarrow> tp_source t \<noteq> Flowing \<and> tp_forLog t = []) \<and>
     tp_raw t = fst (decode_chunk taken new_decoder) @
       (if tp_done t \<and> tp_source t = Closed then decode_end (tp_decoder t) else []) \<and>
     tp_decoder t = snd (decode_chunk taken new_decoder)"

lemma source_step [simp]:
  "tp_source (tap_step e t) =
     (if tp_source t \<noteq> Flowing then tp_source t
      else case e of Ends \<Rightarrow> Closed | Fails \<Rightarrow> Errored | _ \<Rightarrow> Flowing)"
  by (cases e) (auto simp: Let_def split: list.splits source_state.splits prod.splits)

lemma tap_run_snoc: "tap_run (es @ [e]) = tap_step e (tap_run es)"
  by (simp add: tap_run_def)

lemma source_flows: "tp_source (tap_run es) = Flowing \<longleftrightarrow> flows es"
proof (induction es rule: rev_induct)
  case (snoc e es)
  then show ?case by (auto simp: tap_run_snoc flows_snoc split: tap_event.splits)
qed (simp add: tap_run_def tapResponseBody_def flows_def)

definition newly :: "tap_event \<Rightarrow> tap \<Rightarrow> byte list" where
  "newly e t = (case e of Arrives c \<Rightarrow> if tp_source t = Flowing then c else [] | _ \<Rightarrow> [])"

lemma client_step: "client_inv bs rest t \<Longrightarrow> \<exists>rest'. client_inv (bs @ newly e t) rest' (tap_step e t)"
proof (cases e)
  case (Arrives c)
  then show "client_inv bs rest t \<Longrightarrow> ?thesis"
    by (intro exI [of _ "if tp_cancelled t \<or> tp_source t \<noteq> Flowing then rest @ newly e t else []"])
       (auto simp: client_inv_def newly_def)
next
  case Ends
  then show "client_inv bs rest t \<Longrightarrow> ?thesis"
    by (intro exI [of _ rest]) (auto simp: client_inv_def newly_def)
next
  case Fails
  then show "client_inv bs rest t \<Longrightarrow> ?thesis"
    by (intro exI [of _ "if tp_source t = Flowing then concat (tp_forClient t) @ rest else rest"])
       (auto simp: client_inv_def newly_def)
next
  case ClientReads
  then show "client_inv bs rest t \<Longrightarrow> ?thesis"
    by (intro exI [of _ rest]) (auto simp: client_inv_def newly_def split: list.splits)
next
  case ClientCancels
  then show "client_inv bs rest t \<Longrightarrow> ?thesis"
    by (intro exI [of _ "concat (tp_forClient t) @ rest"]) (auto simp: client_inv_def newly_def)
next
  case LogReads
  then show "client_inv bs rest t \<Longrightarrow> ?thesis"
    by (intro exI [of _ rest]) (auto simp: client_inv_def newly_def Let_def split: list.splits source_state.splits prod.splits)
qed

lemma log_reads:
  assumes "log_inv bs taken rest t" "\<not> tp_done t"
  shows "log_inv bs (taken @ (case tp_forLog t of [] \<Rightarrow> [] | c # _ \<Rightarrow> c)) rest (tap_step LogReads t)"
proof (cases "tp_forLog t")
  case Nil
  then show ?thesis using assms by (cases "tp_source t") (auto simp: log_inv_def)
next
  case (Cons c cs)
  obtain out d where o: "decode_chunk c (tp_decoder t) = (out, d)" by fastforce
  obtain out' where "decode_chunk taken new_decoder = (out', tp_decoder t)"
    using assms(1) by (cases "decode_chunk taken new_decoder") (simp add: log_inv_def)
  then show ?thesis using assms Cons o by (simp add: log_inv_def decode_append)
qed

lemma log_step: "log_inv bs taken rest t \<Longrightarrow> \<exists>taken' rest'. log_inv (bs @ newly e t) taken' rest' (tap_step e t)"
proof (cases e)
  case (Arrives c)
  then show "log_inv bs taken rest t \<Longrightarrow> ?thesis"
    by (intro exI [of _ taken] exI [of _ rest]) (auto simp: log_inv_def newly_def)
next
  case Ends
  then show "log_inv bs taken rest t \<Longrightarrow> ?thesis"
    by (intro exI [of _ taken] exI [of _ rest]) (auto simp: log_inv_def newly_def)
next
  case Fails
  then show "log_inv bs taken rest t \<Longrightarrow> ?thesis"
    by (intro exI [of _ taken] exI [of _ "if tp_source t = Flowing then concat (tp_forLog t) @ rest else rest"])
       (auto simp: log_inv_def newly_def)
next
  case LogReads
  then show "log_inv bs taken rest t \<Longrightarrow> ?thesis"
    using log_reads [of bs taken rest t] by (cases "tp_done t") (auto simp: newly_def simp del: tap_step.simps(6) intro!: exI, simp add: )
qed (auto simp: log_inv_def newly_def split: list.splits)

lemma tap_invariants:
  "\<exists>rest. client_inv (delivered es) rest (tap_run es)" "\<exists>taken rest. log_inv (delivered es) taken rest (tap_run es)"
proof (induction es rule: rev_induct)
  case Nil
  have "client_inv [] [] tapResponseBody" "log_inv [] [] [] tapResponseBody"
    by (simp_all add: client_inv_def log_inv_def tapResponseBody_def)
  then show "\<exists>rest. client_inv (delivered []) rest (tap_run [])"
    "\<exists>taken rest. log_inv (delivered []) taken rest (tap_run [])"
    by (auto simp: tap_run_def)
next
  case (snoc e es)
  have d: "delivered (es @ [e]) = delivered es @ newly e (tap_run es)"
    using source_flows [of es] by (auto simp: delivered_snoc newly_def split: tap_event.splits)
  from snoc.IH(1) show "\<exists>rest. client_inv (delivered (es @ [e])) rest (tap_run (es @ [e]))"
    unfolding d tap_run_snoc using client_step by blast
  from snoc.IH(2) show "\<exists>taken rest. log_inv (delivered (es @ [e])) taken rest (tap_run (es @ [e]))"
    unfolding d tap_run_snoc using log_step by blast
qed

lemma forwarded_prefix: "prefix (tp_forwarded (tap_run es)) (delivered es)"
  using tap_invariants(1) [of es] by (auto simp: client_inv_def)

lemma logged:
  "tp_done (tap_run es) \<Longrightarrow> tp_source (tap_run es) = Closed \<Longrightarrow> tp_raw (tap_run es) = decoded (delivered es)"
  using tap_invariants(2) [of es] by (auto simp: log_inv_def decoded_def split: prod.splits)

subsection \<open>Settling\<close>

lemma settles:
  "tp_source t \<noteq> Flowing \<Longrightarrow> tp_done t \<or> length (tp_forLog t) < count_list es LogReads
   \<Longrightarrow> tp_done (fold tap_step es t)"
proof (induction es arbitrary: t)
  case (Cons e es)
  have "tp_done (tap_step e t) \<or> length (tp_forLog (tap_step e t)) < count_list es LogReads"
    using Cons.prems by (cases e) (auto simp: Let_def split: list.splits source_state.splits prod.splits)
  then show ?case using Cons.IH [of "tap_step e t"] Cons.prems(1) by simp
qed simp

lemma queue_bound: "length (tp_forLog (tap_run es)) \<le> length (filter (\<lambda>e. \<exists>c. e = Arrives c) es)"
proof (induction es rule: rev_induct)
  case (snoc e es)
  then show ?case
    by (cases e) (auto simp: tap_run_snoc Let_def split: list.splits source_state.splits prod.splits)
qed (simp add: tap_run_def tapResponseBody_def)

lemma reads_settle:
  assumes "\<not> flows es" "length (filter (\<lambda>e. \<exists>c. e = Arrives c) es) < count_list later LogReads"
  shows "tp_done (tap_run (es @ later))"
  using settles [of "tap_run es" later] source_flows [of es] queue_bound [of es] assms by (simp add: tap_run_def)

lemma nothing_after_the_end:
  assumes "\<not> flows es"
  shows "delivered (es @ later) = delivered es" "tp_source (tap_run (es @ later)) = tp_source (tap_run es)"
proof (induction later rule: rev_induct)
  case (snoc e later)
  have "\<not> flows (es @ later)" using assms by (auto simp: flows_def)
  then show "delivered (es @ later @ [e]) = delivered es" "tp_source (tap_run (es @ later @ [e])) = tp_source (tap_run es)"
    using snoc delivered_snoc [of "es @ later" e] tap_run_snoc [of "es @ later" e] source_flows [of "es @ later"]
    by (auto split: tap_event.splits)
qed simp_all

text \<open>C38: a text sent in UTF-8 reaches the log whole, as the UTF-16 of JavaScript strings, however the bytes were
  cut into chunks, whatever the client read and whenever it disconnected: once the source has ended, as many
  turns of the reader as there were chunks and one more are enough. The client was given a beginning of
  the same bytes.\<close>

theorem tap_logs_the_whole_text:
  assumes "\<forall>p \<in> set text. scalar p" "take 1 text \<noteq> [0xFEFF]"
    and "delivered es = concat (map utf8 text)" "tp_source (tap_run es) = Closed"
    and "length (filter (\<lambda>e. \<exists>c. e = Arrives c) es) < count_list later LogReads"
  shows "tp_done (tap_run (es @ later)) \<and> tp_raw (tap_run (es @ later)) = concat (map utf16 text) \<and>
    prefix (tp_forwarded (tap_run (es @ later))) (concat (map utf8 text))"
proof -
  have over: "\<not> flows es" using source_flows [of es] assms(4) by simp
  note after = nothing_after_the_end [OF over, of later]
  have over': "tp_done (tap_run (es @ later))" by (rule reads_settle [OF over assms(5)])
  then show ?thesis
    using logged [OF over'] decoded_text [OF assms(1,2)] forwarded_prefix [of "es @ later"] assms(3,4) after by simp
qed

text \<open>The Euro sign and an emoji, cut inside both, with a client that leaves after the first chunk.\<close>

definition demo_text :: "nat list" where
  "demo_text = [0x41, 0x20AC, 0x1F600]"

definition demo_events :: "tap_event list" where
  "demo_events = [Arrives [0x41, 0xE2, 0x82], ClientReads, LogReads, ClientCancels, Arrives [0xAC, 0xF0],
     Arrives [0x9F, 0x98, 0x80], Ends]"

definition demo_later :: "tap_event list" where
  "demo_later = [LogReads, ClientReads, LogReads, LogReads, LogReads]"

lemma demo_events_run:
  "delivered demo_events = concat (map utf8 demo_text)" "tp_source (tap_run demo_events) = Closed"
  "tp_forwarded (tap_run (demo_events @ demo_later)) = [0x41, 0xE2, 0x82]"
  by (simp_all add: demo_events_def demo_later_def demo_text_def tap_run_def tapResponseBody_def utf8_def new_decoder_def
        decode_byte_def lead_byte_def put_point_def between_points_def utf16_def Let_def decode_end_def)

lemma tap_logs_the_whole_text_witness:
  "tp_raw (tap_run (demo_events @ demo_later)) = [0x41, 0x20AC, 0xD83D, 0xDE00] \<and>
   tp_forwarded (tap_run (demo_events @ demo_later)) = [0x41, 0xE2, 0x82]"
proof -
  have "length (filter (\<lambda>e. \<exists>c. e = Arrives c) demo_events) < count_list demo_later LogReads"
    by (simp add: demo_events_def demo_later_def)
  from tap_logs_the_whole_text [OF _ _ demo_events_run(1,2) this]
  have "tp_raw (tap_run (demo_events @ demo_later)) = concat (map utf16 demo_text)"
    by (simp add: demo_text_def scalar_def)
  moreover have "concat (map utf16 demo_text) = [0x41, 0x20AC, 0xD83D, 0xDE00]"
    by (simp add: demo_text_def utf16_def)
  ultimately show ?thesis by (simp add: demo_events_run(3))
qed

end
