(* ===== verification/Schema.thy ===== *)
theory Schema
  imports Errors
begin

text \<open>
  \<open>src/src/usage/messages-log-postgres.ts\<close> and \<open>src/src/usage/per-user-postgres.ts\<close>: the statements a
  boot runs against the database before the stores are used, and the columns the stores' own
  statements name. The database is its tables, its indexes and its extensions; a statement is modelled by what
  Postgres does with it: \<open>IF NOT EXISTS\<close> makes it a no-op when the name is taken, and a table or a
  column that does not exist is an error. Whether the role may create an extension is an argument.
\<close>

record column =
  cl_name :: string
  cl_type :: string
  cl_notNull :: bool
  cl_default :: "string option"

record pg_table =
  pt_columns :: "column list"
  pt_key :: "string list"

record database =
  db_tables :: "(string \<times> pg_table) list"
  db_indexes :: "(string \<times> string) list"
  db_extensions :: "string list"

datatype statement =
    CreateTable string "column list" "string list"
  | AddColumn string column
  | DropNotNull string string
  | CreateIndex string string "string list"
  | CreateExtension string

definition column_names :: "column list \<Rightarrow> string list" where
  "column_names cs = map cl_name cs"

definition pg_error :: "string \<Rightarrow> string \<Rightarrow> 'a result" where
  "pg_error kind name = Inl (Other (kind @ '' '' @ name @ '' does not exist''))"

definition without_not_null :: "column \<Rightarrow> column" where
  "without_not_null c = c\<lparr>cl_notNull := False\<rparr>"

definition set_columns :: "string \<Rightarrow> pg_table \<Rightarrow> column list \<Rightarrow> database \<Rightarrow> database" where
  "set_columns t tb cs db = db\<lparr>db_tables := AList.update t (tb\<lparr>pt_columns := cs\<rparr>) (db_tables db)\<rparr>"

fun pg_exec :: "(string \<Rightarrow> bool) \<Rightarrow> statement \<Rightarrow> database \<Rightarrow> database result" where
  "pg_exec may (CreateTable t cs key) db =
     Inr (if map_of (db_tables db) t \<noteq> None then db
          else db\<lparr>db_tables := db_tables db @ [(t, \<lparr>pt_columns = cs, pt_key = key\<rparr>)]\<rparr>)"
| "pg_exec may (AddColumn t c) db =
     (case map_of (db_tables db) t of
        None \<Rightarrow> pg_error ''relation'' t
      | Some tb \<Rightarrow> Inr (if cl_name c \<in> set (column_names (pt_columns tb)) then db
                       else set_columns t tb (pt_columns tb @ [c]) db))"
| "pg_exec may (DropNotNull t n) db =
     (case map_of (db_tables db) t of
        None \<Rightarrow> pg_error ''relation'' t
      | Some tb \<Rightarrow>
          if n \<notin> set (column_names (pt_columns tb)) then pg_error ''column'' n
          else if n \<in> set (pt_key tb) then Inl (Other (''column '' @ n @ '' is in a primary key''))
          else Inr (set_columns t tb (map (\<lambda>c. if cl_name c = n then without_not_null c else c) (pt_columns tb)) db))"
| "pg_exec may (CreateIndex i t ns) db =
     (case map_of (db_tables db) t of
        None \<Rightarrow> pg_error ''relation'' t
      | Some tb \<Rightarrow>
          if map_of (db_indexes db) i \<noteq> None then Inr db
          else case find (\<lambda>n. n \<notin> set (column_names (pt_columns tb))) ns of
                 Some n \<Rightarrow> pg_error ''column'' n
               | None \<Rightarrow> Inr (db\<lparr>db_indexes := db_indexes db @ [(i, t)]\<rparr>))"
| "pg_exec may (CreateExtension e) db =
     (if e \<in> set (db_extensions db) then Inr db
      else if may e then Inr (db\<lparr>db_extensions := db_extensions db @ [e]\<rparr>)
      else Inl (Other (''permission denied to create extension '' @ e)))"

text \<open>The statements in order: the first failure ends them and leaves what came before in place.\<close>

fun pg_script :: "(string \<Rightarrow> bool) \<Rightarrow> statement list \<Rightarrow> database \<Rightarrow> exn option \<times> database" where
  "pg_script may [] db = (None, db)"
| "pg_script may (s # ss) db =
     (case pg_exec may s db of Inl e \<Rightarrow> (Some e, db) | Inr db' \<Rightarrow> pg_script may ss db')"

subsection \<open>The messages log\<close>

definition required :: "string \<Rightarrow> string \<Rightarrow> column" where
  "required n ty = \<lparr>cl_name = n, cl_type = ty, cl_notNull = True, cl_default = None\<rparr>"

definition defaulted :: "string \<Rightarrow> string \<Rightarrow> string \<Rightarrow> column" where
  "defaulted n ty d = \<lparr>cl_name = n, cl_type = ty, cl_notNull = True, cl_default = Some d\<rparr>"

definition optional :: "string \<Rightarrow> string \<Rightarrow> column" where
  "optional n ty = \<lparr>cl_name = n, cl_type = ty, cl_notNull = False, cl_default = None\<rparr>"

definition messages_log :: string where "messages_log = ''messages_log''"

definition created_columns :: "column list" where
  "created_columns =
     [required ''id'' ''UUID'', required ''ts'' ''TIMESTAMPTZ'', required ''user_name'' ''TEXT'',
      optional ''model'' ''TEXT'', required ''status'' ''SMALLINT'', required ''streaming'' ''BOOLEAN'',
      required ''duration_ms'' ''INTEGER'', defaulted ''input_tokens'' ''INTEGER'' ''0'',
      defaulted ''output_tokens'' ''INTEGER'' ''0'', defaulted ''cache_read_tokens'' ''INTEGER'' ''0'',
      defaulted ''cache_creation_tokens'' ''INTEGER'' ''0'', optional ''service_tier'' ''TEXT'',
      optional ''stop_reason'' ''TEXT'', optional ''client_ip'' ''TEXT'', optional ''user_agent'' ''TEXT'',
      optional ''request_body'' ''JSONB'', optional ''response_body'' ''JSONB'',
      defaulted ''preview'' ''TEXT'' '''', optional ''error_message'' ''TEXT'',
      optional ''served_by'' ''TEXT'', optional ''bypass_metadata'' ''JSONB'']"

definition added_columns :: "column list" where
  "added_columns =
     [optional ''served_by'' ''TEXT'', optional ''bypass_metadata'' ''JSONB'', optional ''source'' ''TEXT'',
      optional ''archived_at'' ''TIMESTAMPTZ'', optional ''archive_key'' ''TEXT'']"

definition log_indexes :: "statement list" where
  "log_indexes =
     [CreateIndex ''idx_messages_log_ts'' messages_log [''ts''],
      CreateIndex ''idx_messages_log_user_ts'' messages_log [''user_name'', ''ts''],
      CreateIndex ''idx_messages_log_status_ts'' messages_log [''status'', ''ts''],
      CreateIndex ''idx_messages_log_source_ts'' messages_log [''source'', ''ts''],
      CreateIndex ''idx_messages_log_unarchived_ts'' messages_log [''ts'', ''archived_at'']]"

definition log_schema :: "statement list" where
  "log_schema = CreateTable messages_log created_columns [''id''] # map (AddColumn messages_log) added_columns @
     DropNotNull messages_log ''request_body'' # log_indexes"

text \<open>The search index is optional: its failure is caught.\<close>

definition search_index :: "statement list" where
  "search_index = [CreateExtension ''pg_trgm'', CreateIndex ''idx_messages_log_preview_trgm'' messages_log [''preview'']]"

definition createPostgresMessageLogStore :: "(string \<Rightarrow> bool) \<Rightarrow> database \<Rightarrow> exn option \<times> database" where
  "createPostgresMessageLogStore may db =
     (case pg_script may log_schema db of
        (Some e, db') \<Rightarrow> (Some e, db')
      | (None, db') \<Rightarrow> (None, snd (pg_script may search_index db')))"

text \<open>What the store's statements name: the insert, the two selects and the archiver's update.\<close>

definition insert_columns :: "string list" where
  "insert_columns =
     [''id'', ''ts'', ''user_name'', ''model'', ''status'', ''streaming'', ''duration_ms'',
      ''input_tokens'', ''output_tokens'', ''cache_read_tokens'', ''cache_creation_tokens'',
      ''service_tier'', ''stop_reason'', ''client_ip'', ''user_agent'',
      ''request_body'', ''response_body'', ''preview'', ''error_message'',
      ''served_by'', ''bypass_metadata'', ''source'']"

definition summary_columns :: "string list" where
  "summary_columns =
     [''id'', ''ts'', ''user_name'', ''model'', ''status'', ''streaming'', ''duration_ms'',
      ''input_tokens'', ''output_tokens'', ''service_tier'', ''preview'', ''source'']"

definition detail_columns :: "string list" where
  "detail_columns =
     [''id'', ''ts'', ''user_name'', ''model'', ''status'', ''streaming'', ''duration_ms'',
      ''input_tokens'', ''output_tokens'', ''cache_read_tokens'', ''cache_creation_tokens'',
      ''service_tier'', ''stop_reason'', ''client_ip'', ''user_agent'',
      ''request_body'', ''response_body'', ''error_message'',
      ''served_by'', ''bypass_metadata'', ''source'', ''archived_at'', ''archive_key'']"

definition emptied_columns :: "string list" where
  "emptied_columns = [''request_body'', ''response_body'']"

definition stamped_columns :: "string list" where
  "stamped_columns = [''archived_at'', ''archive_key'']"

text \<open>The parameters of the insert that may be \<open>null\<close>.\<close>

definition insert_nulls :: "string list" where
  "insert_nulls =
     [''model'', ''service_tier'', ''stop_reason'', ''client_ip'', ''user_agent'', ''response_body'',
      ''error_message'', ''served_by'', ''bypass_metadata'', ''source'']"

subsection \<open>The daily usage\<close>

definition usage_per_user :: string where "usage_per_user = ''usage_per_user''"

definition usage_columns :: "column list" where
  "usage_columns = [required ''user_name'' ''TEXT'', required ''day'' ''DATE'', defaulted ''tokens'' ''BIGINT'' ''0'']"

definition usage_schema :: "statement list" where
  "usage_schema = [CreateTable usage_per_user usage_columns [''user_name'', ''day'']]"

subsection \<open>What a table accepts\<close>

text \<open>A statement that writes the columns \<open>ns\<close>, of which \<open>nulls\<close> may be null, as an insert or as an update.\<close>

definition takes_update :: "column list \<Rightarrow> string list \<Rightarrow> string list \<Rightarrow> bool" where
  "takes_update cs ns nulls \<longleftrightarrow> set ns \<subseteq> set (column_names cs) \<and>
     list_all (\<lambda>c. cl_notNull c \<longrightarrow> cl_name c \<notin> set nulls) cs"

definition takes_insert :: "column list \<Rightarrow> string list \<Rightarrow> string list \<Rightarrow> bool" where
  "takes_insert cs ns nulls \<longleftrightarrow> takes_update cs ns nulls \<and>
     list_all (\<lambda>c. cl_notNull c \<longrightarrow> cl_name c \<in> set ns \<or> cl_default c \<noteq> None) cs"

subsection \<open>Convergence\<close>

text \<open>The columns of the current schema, those of them every release had, and the body column as older
  releases created it.\<close>

definition current_columns :: "column list" where
  "current_columns = created_columns @ drop 2 added_columns"

definition first_columns :: "string list" where
  "first_columns = column_names (butlast (butlast created_columns))"

definition old_body :: column where
  "old_body = required ''request_body'' ''JSONB''"

text \<open>A table some release left: columns of the schema, in any order, with at least the first ones.\<close>

definition released :: "pg_table \<Rightarrow> bool" where
  "released tb \<longleftrightarrow> set (pt_columns tb) \<subseteq> insert old_body (set current_columns) \<and>
     distinct (column_names (pt_columns tb)) \<and> set first_columns \<subseteq> set (column_names (pt_columns tb)) \<and>
     pt_key tb = [''id'']"

definition deployed :: "database \<Rightarrow> bool" where
  "deployed db \<longleftrightarrow> (case map_of (db_tables db) messages_log of None \<Rightarrow> True | Some tb \<Rightarrow> released tb)"

lemma column_names_simps [simp]:
  "column_names [] = []" "column_names (c # cs) = cl_name c # column_names cs"
  by (simp_all add: column_names_def)

lemma script_append:
  "pg_script may (a @ b) db = (case pg_script may a db of (Some e, d) \<Rightarrow> (Some e, d) | (None, d) \<Rightarrow> pg_script may b d)"
  by (induction a arbitrary: db) (auto split: sum.splits)

lemma update_same: "map_of al k = Some v \<Longrightarrow> AList.update k v al = al"
  by (induction al) auto

lemma set_columns_same: "map_of (db_tables db) t = Some tb \<Longrightarrow> set_columns t tb (pt_columns tb) db = db"
  by (simp add: set_columns_def update_same)

lemma set_columns_twice: "set_columns t tb cs' (set_columns t tb' cs db) = set_columns t tb cs' db"
  by (simp add: set_columns_def)

lemma set_columns_lookup [simp]:
  "map_of (db_tables (set_columns t tb cs db)) t = Some (tb\<lparr>pt_columns := cs\<rparr>)"
  by (simp add: set_columns_def update_conv')

text \<open>The columns after the column statements, as a function of the columns before.\<close>

definition add_column :: "column \<Rightarrow> column list \<Rightarrow> column list" where
  "add_column c cs = (if cl_name c \<in> set (column_names cs) then cs else cs @ [c])"

definition drop_not_null :: "string \<Rightarrow> column list \<Rightarrow> column list" where
  "drop_not_null n cs = map (\<lambda>c. if cl_name c = n then without_not_null c else c) cs"

definition migrated :: "column list \<Rightarrow> column list" where
  "migrated cs = drop_not_null ''request_body'' (fold add_column added_columns cs)"

lemma script_adds:
  "map_of (db_tables db) t = Some tb
   \<Longrightarrow> pg_script may (map (AddColumn t) cs @ ss) db =
       pg_script may ss (set_columns t tb (fold add_column cs (pt_columns tb)) db)"
proof (induction cs arbitrary: db tb)
  case Nil
  then show ?case by (simp add: set_columns_same)
next
  case (Cons c cs)
  show ?case
  proof (cases "cl_name c \<in> set (column_names (pt_columns tb))")
    case True
    then show ?thesis using Cons by (simp add: add_column_def)
  next
    case False
    have "pg_script may (map (AddColumn t) (c # cs) @ ss) db =
          pg_script may (map (AddColumn t) cs @ ss) (set_columns t tb (pt_columns tb @ [c]) db)"
      using False Cons.prems by simp
    then show ?thesis
      using Cons.IH [OF set_columns_lookup, of tb "pt_columns tb @ [c]" db] False
      by (simp add: add_column_def set_columns_twice set_columns_def)
  qed
qed

lemma names_add: "column_names (add_column c cs) = column_names cs @ (if cl_name c \<in> set (column_names cs) then [] else [cl_name c])"
  by (simp add: add_column_def column_names_def)

lemma names_drop [simp]: "column_names (drop_not_null n cs) = column_names cs"
  by (induction cs) (simp_all add: drop_not_null_def column_names_def without_not_null_def)

lemma adds_names:
  "prefix (column_names cs) (column_names (fold add_column as cs)) \<and>
   set (column_names (fold add_column as cs)) = set (column_names cs) \<union> set (column_names as) \<and>
   (distinct (column_names cs) \<longrightarrow> distinct (column_names (fold add_column as cs)))"
proof (induction as arbitrary: cs)
  case (Cons a as)
  have p: "prefix (column_names cs) (column_names (add_column a cs))" by (simp add: names_add)
  show ?case using Cons.IH [of "add_column a cs"] p prefix_order.trans [OF p]
    by (auto simp: names_add)
qed simp

lemma adds_columns: "set (fold add_column as cs) \<subseteq> set cs \<union> set as"
proof (induction as arbitrary: cs)
  case (Cons a as)
  have "set (add_column a cs) \<subseteq> set cs \<union> {a}" by (auto simp: add_column_def)
  with Cons.IH [of "add_column a cs"] show ?case by auto
qed simp

text \<open>A released table becomes the current one; the current one stays.\<close>

lemma current_names: "distinct (column_names current_columns)"
  "set first_columns \<union> set (column_names added_columns) = set (column_names current_columns)"
  "set added_columns \<subseteq> set current_columns" "cl_name old_body \<in> set (column_names current_columns)"
  "without_not_null old_body \<in> set current_columns"
  by (code_simp, code_simp, code_simp, code_simp, code_simp)

lemma body_nullable: "list_all (\<lambda>c. cl_name c = ''request_body'' \<longrightarrow> \<not> cl_notNull c) current_columns"
  by code_simp

lemma same_name: "distinct (column_names cs) \<Longrightarrow> c \<in> set cs \<Longrightarrow> d \<in> set cs \<Longrightarrow> cl_name c = cl_name d \<Longrightarrow> c = d"
  unfolding column_names_def distinct_map inj_on_def by blast

lemma without_same: "\<not> cl_notNull c \<Longrightarrow> without_not_null c = c"
  by (simp add: without_not_null_def)

lemma migrated_released:
  assumes "released tb"
  shows "set (migrated (pt_columns tb)) = set current_columns" "distinct (column_names (migrated (pt_columns tb)))"
    "prefix (column_names (pt_columns tb)) (column_names (migrated (pt_columns tb)))"
proof -
  let ?cs = "fold add_column added_columns (pt_columns tb)"
  note r = assms [unfolded released_def]
  show d: "distinct (column_names (migrated (pt_columns tb)))"
    and "prefix (column_names (pt_columns tb)) (column_names (migrated (pt_columns tb)))"
    using adds_names [of "pt_columns tb" added_columns] r by (simp_all add: migrated_def)
  have sub: "set ?cs \<subseteq> insert old_body (set current_columns)"
    using adds_columns [of added_columns "pt_columns tb"] r current_names(3) by blast
  have here: "(if cl_name c = ''request_body'' then without_not_null c else c) \<in> set current_columns" if "c \<in> set ?cs" for c
  proof (cases "c = old_body")
    case True
    then show ?thesis using current_names(5) by (simp add: old_body_def required_def)
  next
    case False
    then have "c \<in> set current_columns" using that sub by blast
    then show ?thesis using body_nullable by (auto simp: list_all_iff without_same)
  qed
  then have sub': "set (migrated (pt_columns tb)) \<subseteq> set current_columns"
    unfolding migrated_def drop_not_null_def set_map by (intro image_subsetI)
  have "set (column_names ?cs) \<subseteq> set (column_names current_columns)"
    using sub current_names(4) by (auto simp: column_names_def)
  then have names: "set (column_names (migrated (pt_columns tb))) = set (column_names current_columns)"
    using adds_names [of "pt_columns tb" added_columns] r current_names(2) by (auto simp: migrated_def)
  show "set (migrated (pt_columns tb)) = set current_columns"
  proof
    show "set current_columns \<subseteq> set (migrated (pt_columns tb))"
    proof
      fix c assume c: "c \<in> set current_columns"
      then have "cl_name c \<in> set (column_names (migrated (pt_columns tb)))"
        unfolding names by (simp add: column_names_def)
      then obtain c' where c': "c' \<in> set (migrated (pt_columns tb))" "cl_name c' = cl_name c"
        by (auto simp: column_names_def)
      then have "c' = c" using same_name [OF current_names(1)] c sub' by blast
      then show "c \<in> set (migrated (pt_columns tb))" using c'(1) by simp
    qed
  qed (rule sub')
qed

lemma adds_none: "set (column_names as) \<subseteq> set (column_names cs) \<Longrightarrow> fold add_column as cs = cs"
  by (induction as) (simp_all add: add_column_def)

lemma migrated_current:
  assumes "set cs = set current_columns"
  shows "migrated cs = cs"
proof -
  have "set (column_names added_columns) \<subseteq> set (column_names cs)"
    using assms current_names(2) unfolding column_names_def by auto
  then have "migrated cs = drop_not_null ''request_body'' cs" by (simp add: migrated_def adds_none)
  also have "\<dots> = cs"
    unfolding drop_not_null_def
    by (rule map_idI) (use body_nullable assms in \<open>auto simp: list_all_iff without_same\<close>)
  finally show ?thesis .
qed

subsection \<open>The indexes\<close>

definition index_on :: "string \<Rightarrow> column list \<Rightarrow> statement \<Rightarrow> bool" where
  "index_on t cs s = (case s of CreateIndex i t' ns \<Rightarrow> t' = t \<and> set ns \<subseteq> set (column_names cs) | _ \<Rightarrow> False)"

definition has_index :: "database \<Rightarrow> statement \<Rightarrow> bool" where
  "has_index db s = (case s of CreateIndex i _ _ \<Rightarrow> map_of (db_indexes db) i \<noteq> None | _ \<Rightarrow> True)"

lemma one_index:
  assumes "map_of (db_tables db) t = Some tb" "index_on t (pt_columns tb) s"
  obtains ix where "pg_exec may s db = Inr (db\<lparr>db_indexes := ix\<rparr>)" "has_index (db\<lparr>db_indexes := ix\<rparr>) s"
    "\<And>r. has_index db r \<Longrightarrow> has_index (db\<lparr>db_indexes := ix\<rparr>) r"
proof -
  from assms(2) obtain i ns where s: "s = CreateIndex i t ns" and ns: "set ns \<subseteq> set (column_names (pt_columns tb))"
    by (auto simp: index_on_def split: statement.splits)
  from ns have found: "find (\<lambda>n. n \<notin> set (column_names (pt_columns tb))) ns = None"
    by (auto simp: find_None_iff)
  show thesis
  proof (cases "map_of (db_indexes db) i")
    case None
    show thesis
      by (rule that [of "db_indexes db @ [(i, t)]"])
         (use assms(1) s found None in \<open>auto simp: has_index_def split: statement.splits\<close>)
  next
    case (Some _)
    then show thesis
      by (intro that [of "db_indexes db"]) (use assms(1) s in \<open>auto simp: has_index_def\<close>)
  qed
qed

lemma all_indexes:
  assumes "map_of (db_tables db) t = Some tb" "list_all (index_on t (pt_columns tb)) ss"
  shows "\<exists>ix. pg_script may ss db = (None, db\<lparr>db_indexes := ix\<rparr>) \<and>
    (\<forall>s \<in> set ss. has_index (db\<lparr>db_indexes := ix\<rparr>) s) \<and> (\<forall>r. has_index db r \<longrightarrow> has_index (db\<lparr>db_indexes := ix\<rparr>) r)"
  using assms
proof (induction ss arbitrary: db)
  case Nil
  show ?case by (rule exI [of _ "db_indexes db"]) simp
next
  case (Cons s ss)
  from Cons.prems obtain ix where ix: "pg_exec may s db = Inr (db\<lparr>db_indexes := ix\<rparr>)"
      "has_index (db\<lparr>db_indexes := ix\<rparr>) s" "\<And>r. has_index db r \<Longrightarrow> has_index (db\<lparr>db_indexes := ix\<rparr>) r"
    by (auto elim: one_index [of db t tb s may])
  have "map_of (db_tables (db\<lparr>db_indexes := ix\<rparr>)) t = Some tb" "list_all (index_on t (pt_columns tb)) ss"
    using Cons.prems by simp_all
  from Cons.IH [OF this] obtain ix' where
      "pg_script may ss (db\<lparr>db_indexes := ix\<rparr>) = (None, db\<lparr>db_indexes := ix'\<rparr>)"
      "\<forall>s \<in> set ss. has_index (db\<lparr>db_indexes := ix'\<rparr>) s"
      "\<forall>r. has_index (db\<lparr>db_indexes := ix\<rparr>) r \<longrightarrow> has_index (db\<lparr>db_indexes := ix'\<rparr>) r" by auto
  with ix show ?case by (intro exI [of _ ix']) auto
qed

lemma indexes_stay:
  assumes "map_of (db_tables db) t = Some tb" "list_all (index_on t (pt_columns tb)) ss" "\<forall>s \<in> set ss. has_index db s"
  shows "pg_script may ss db = (None, db)"
  using assms(2,3) assms(1)
  by (induction ss) (auto simp: index_on_def has_index_def split: statement.splits option.splits)

lemma indexed_names: "list_all (index_on messages_log current_columns) (log_indexes @ [search_index ! 1])"
  by code_simp

lemma index_on_cong: "set cs = set cs' \<Longrightarrow> index_on t cs = index_on t cs'"
  unfolding index_on_def column_names_def set_map by presburger

subsection \<open>A boot\<close>

lemma created:
  assumes "deployed db"
  obtains db1 tb where "pg_script may (CreateTable messages_log created_columns [''id''] # ss) db = pg_script may ss db1"
    "map_of (db_tables db1) messages_log = Some tb" "released tb"
    "\<And>old. map_of (db_tables db) messages_log = Some old \<Longrightarrow> db1 = db \<and> tb = old"
proof (cases "map_of (db_tables db) messages_log")
  case None
  let ?tb = "\<lparr>pt_columns = created_columns, pt_key = [''id'']\<rparr>"
  have "released ?tb" by code_simp
  then show thesis
    using None by (intro that [of "db\<lparr>db_tables := db_tables db @ [(messages_log, ?tb)]\<rparr>" ?tb])
      (simp_all add: map_add_def)
next
  case (Some tb)
  then show thesis using assms by (intro that [of db tb]) (simp_all add: deployed_def)
qed

text \<open>The mandatory statements succeed; they leave a table with the migrated columns and every index.\<close>

lemma log_script:
  assumes "deployed db"
  obtains db2 tb where "pg_script may log_schema db = (None, db2)"
    "map_of (db_tables db2) messages_log = Some (tb\<lparr>pt_columns := migrated (pt_columns tb)\<rparr>)" "released tb"
    "\<forall>s \<in> set log_indexes. has_index db2 s" "\<And>old. map_of (db_tables db) messages_log = Some old \<Longrightarrow> tb = old"
proof -
  from created [OF assms, of may "map (AddColumn messages_log) added_columns @
      DropNotNull messages_log ''request_body'' # log_indexes"]
  obtain db1 tb where 1: "pg_script may log_schema db =
        pg_script may (map (AddColumn messages_log) added_columns @ DropNotNull messages_log ''request_body'' # log_indexes) db1"
      "map_of (db_tables db1) messages_log = Some tb" "released tb"
      "\<And>old. map_of (db_tables db) messages_log = Some old \<Longrightarrow> db1 = db \<and> tb = old"
    unfolding log_schema_def by blast
  let ?cs = "fold add_column added_columns (pt_columns tb)"
  let ?db = "set_columns messages_log tb (migrated (pt_columns tb)) db1"
  have "''request_body'' \<in> set first_columns" by code_simp
  then have body: "''request_body'' \<in> set (column_names ?cs)"
    using 1(3) adds_names [of "pt_columns tb" added_columns] unfolding released_def by blast
  have key: "''request_body'' \<notin> set (pt_key tb)" using 1(3) by (simp add: released_def)
  have "pg_script may log_schema db = pg_script may log_indexes ?db"
    unfolding 1(1) script_adds [OF 1(2)]
    using body key by (simp add: migrated_def drop_not_null_def set_columns_twice set_columns_def)
  moreover have t: "map_of (db_tables ?db) messages_log = Some (tb\<lparr>pt_columns := migrated (pt_columns tb)\<rparr>)"
    by (rule set_columns_lookup)
  moreover have "list_all (index_on messages_log (migrated (pt_columns tb))) log_indexes"
    using indexed_names unfolding index_on_cong [OF migrated_released(1) [OF 1(3)]] by simp
  ultimately obtain ix where ix: "pg_script may log_schema db = (None, ?db\<lparr>db_indexes := ix\<rparr>)"
      "\<forall>s \<in> set log_indexes. has_index (?db\<lparr>db_indexes := ix\<rparr>) s"
    using all_indexes [OF t, of log_indexes may] by auto
  show thesis
    by (rule that [OF ix(1) _ 1(3) ix(2)]) (use t 1(4) in auto)
qed

text \<open>On a table that is current, with its indexes, they change nothing.\<close>

lemma log_script_again:
  assumes "map_of (db_tables db) messages_log = Some tb" "set (pt_columns tb) = set current_columns"
    "pt_key tb = [''id'']" "\<forall>s \<in> set log_indexes. has_index db s"
  shows "pg_script may log_schema db = (None, db)"
proof -
  let ?cs = "fold add_column added_columns (pt_columns tb)"
  have m: "migrated (pt_columns tb) = pt_columns tb" by (rule migrated_current [OF assms(2)])
  have "''request_body'' \<in> set (column_names current_columns)" by code_simp
  then have "''request_body'' \<in> set (column_names (migrated (pt_columns tb)))"
    using assms(2) m unfolding column_names_def by simp
  then have body: "''request_body'' \<in> set (column_names ?cs)" by (simp add: migrated_def)
  have "pg_script may log_schema db =
      pg_script may (map (AddColumn messages_log) added_columns @ DropNotNull messages_log ''request_body'' # log_indexes) db"
    using assms(1) by (simp add: log_schema_def)
  also have "\<dots> = pg_script may log_indexes (set_columns messages_log tb (migrated (pt_columns tb)) db)"
    unfolding script_adds [OF assms(1)]
    using body assms(3) by (simp add: migrated_def drop_not_null_def set_columns_twice set_columns_def)
  also have "\<dots> = pg_script may log_indexes db" unfolding m set_columns_same [OF assms(1)] by (rule refl)
  also have "\<dots> = (None, db)"
    using assms(1,4) indexed_names unfolding index_on_cong [OF assms(2), symmetric]
    by (intro indexes_stay [OF assms(1)]) simp_all
  finally show ?thesis .
qed

lemma search_script:
  assumes "map_of (db_tables db) messages_log = Some tb" "set (pt_columns tb) = set current_columns"
  obtains db3 where "snd (pg_script may search_index db) = db3" "db_tables db3 = db_tables db"
    "\<And>r. has_index db r \<Longrightarrow> has_index db3 r" "snd (pg_script may search_index db3) = db3"
proof -
  have on: "index_on messages_log (pt_columns tb) (search_index ! 1)"
    using indexed_names unfolding index_on_cong [OF assms(2)] by simp
  have two: "search_index = [CreateExtension ''pg_trgm'', search_index ! 1]" by (simp add: search_index_def)
  show thesis
  proof (cases "''pg_trgm'' \<in> set (db_extensions db) \<or> may ''pg_trgm''")
    case True
    obtain db1 where ext: "pg_exec may (CreateExtension ''pg_trgm'') db = Inr db1" "db_tables db1 = db_tables db"
        "db_indexes db1 = db_indexes db" "''pg_trgm'' \<in> set (db_extensions db1)"
      using True by (cases "''pg_trgm'' \<in> set (db_extensions db)") simp_all
    have t: "map_of (db_tables db1) messages_log = Some tb" using assms(1) ext(2) by simp
    obtain ix where ix: "pg_exec may (search_index ! 1) db1 = Inr (db1\<lparr>db_indexes := ix\<rparr>)"
        "has_index (db1\<lparr>db_indexes := ix\<rparr>) (search_index ! 1)"
        "\<And>r. has_index db1 r \<Longrightarrow> has_index (db1\<lparr>db_indexes := ix\<rparr>) r"
      using one_index [OF t on, of may] by blast
    have same: "has_index db1 r = has_index db r" for r using ext(3) by (simp add: has_index_def split: statement.splits)
    have "pg_script may [search_index ! 1] (db1\<lparr>db_indexes := ix\<rparr>) = (None, db1\<lparr>db_indexes := ix\<rparr>)"
      by (rule indexes_stay [where tb = tb and t = messages_log]) (use t on ix(2) in simp_all)
    moreover have "pg_exec may (CreateExtension ''pg_trgm'') (db1\<lparr>db_indexes := ix\<rparr>) = Inr (db1\<lparr>db_indexes := ix\<rparr>)"
      using ext(4) by simp
    ultimately have stay: "snd (pg_script may search_index (db1\<lparr>db_indexes := ix\<rparr>)) = db1\<lparr>db_indexes := ix\<rparr>"
      by (subst two, subst pg_script.simps(2)) simp
    show thesis
    proof (rule that [OF _ _ _ stay])
      show "snd (pg_script may search_index db) = db1\<lparr>db_indexes := ix\<rparr>"
        using ext(1) ix(1) by (subst two, subst pg_script.simps(2)) simp
      show "db_tables (db1\<lparr>db_indexes := ix\<rparr>) = db_tables db" using ext(2) by simp
      show "has_index (db1\<lparr>db_indexes := ix\<rparr>) r" if "has_index db r" for r
        using ix(3) [of r] that unfolding same by blast
    qed
  next
    case False
    then have "snd (pg_script may search_index db) = db" by (subst two) simp
    then show thesis by (intro that) simp_all
  qed
qed

lemma log_boot: "deployed db \<Longrightarrow> fst (createPostgresMessageLogStore may db) = None"
  by (rule log_script [of db may]) (simp_all add: createPostgresMessageLogStore_def)

text \<open>The usage table does not touch the log, and what the upsert writes it takes.\<close>

definition createPostgresUsageTracker :: "(string \<Rightarrow> bool) \<Rightarrow> database \<Rightarrow> exn option \<times> database" where
  "createPostgresUsageTracker may db = pg_script may usage_schema db"

lemma usage_boot:
  "fst (createPostgresUsageTracker may db) = None" "deployed db \<Longrightarrow> deployed (snd (createPostgresUsageTracker may db))"
proof -
  have "usage_per_user \<noteq> messages_log" by (simp add: usage_per_user_def messages_log_def)
  then show "fst (createPostgresUsageTracker may db) = None"
    "deployed db \<Longrightarrow> deployed (snd (createPostgresUsageTracker may db))"
    by (simp_all add: createPostgresUsageTracker_def usage_schema_def deployed_def map_add_def
        split: option.splits)
qed

lemma usage_takes: "takes_insert usage_columns [''user_name'', ''day'', ''tokens''] []"
  by code_simp

lemma current_takes:
  "takes_insert current_columns insert_columns insert_nulls"
  "takes_update current_columns (emptied_columns @ stamped_columns) emptied_columns"
  "set (summary_columns @ detail_columns) \<subseteq> set (column_names current_columns)"
  by (code_simp, code_simp, code_simp)

lemma takes_cong:
  assumes "set cs = set cs'"
  shows "takes_update cs = takes_update cs'" "takes_insert cs = takes_insert cs'"
  unfolding takes_insert_def takes_update_def column_names_def set_map list_all_iff assms by (rule refl)+


text \<open>A database of the first release, in which the request body could not be null.\<close>

definition first_release :: database where
  "first_release = \<lparr>db_tables = [(messages_log,
       \<lparr>pt_columns = map (\<lambda>c. if cl_name c = ''request_body'' then old_body else c) (butlast (butlast created_columns)),
        pt_key = [''id'']\<rparr>)], db_indexes = [], db_extensions = []\<rparr>"


end
