(* ===== verification/StaticTemplate.thy ===== *)
theory StaticTemplate
  imports Template Upstream
begin

text \<open>
  \<open>src/src/template/static.ts\<close>: the template that replays one capture from constants. The program builds the
  extracted one instead; this one is modelled for what its comments promise. Serialisation and the
  request's id are arguments.
\<close>

definition STATIC_MESSAGES_URL :: string where
  "STATIC_MESSAGES_URL = ''https://api.anthropic.com/v1/messages?beta=true''"

definition static_betas :: "string list" where
  "static_betas =
     [''claude-code-20250219'', ''oauth-2025-04-20'', ''interleaved-thinking-2025-05-14'',
      ''context-management-2025-06-27'', ''prompt-caching-scope-2026-01-05'', ''advisor-tool-2026-03-01'',
      ''advanced-tool-use-2025-11-20'', ''effort-2025-11-24'', ''afk-mode-2026-01-31'',
      ''extended-cache-ttl-2025-04-11'', ''cache-diagnosis-2026-04-07'']"

definition CC_HEADERS :: "(string \<times> string) list" where
  "CC_HEADERS =
     [(''accept'', ''application/json''), (''user-agent'', ''claude-cli/2.1.142 (external, sdk-cli)''),
      (''x-app'', ''cli''), (''anthropic-version'', ''2023-06-01''),
      (''anthropic-dangerous-direct-browser-access'', ''true''), (''anthropic-beta'', join_str '','' static_betas),
      (''x-stainless-arch'', ''arm64''), (''x-stainless-lang'', ''js''), (''x-stainless-os'', ''MacOS''),
      (''x-stainless-package-version'', ''0.94.0''), (''x-stainless-runtime'', ''node''),
      (''x-stainless-runtime-version'', ''v24.3.0''), (''x-stainless-retry-count'', ''0''),
      (''x-stainless-timeout'', ''600'')]"

definition static_apply :: "(json \<Rightarrow> string) \<Rightarrow> string \<Rightarrow> json \<Rightarrow> string \<Rightarrow> headers \<Rightarrow> outbound" where
  "static_apply stringify uuid clientBody accessToken clientHeaders =
     \<lparr>ob_url = STATIC_MESSAGES_URL,
      ob_headers = AList.update ''x-client-request-id'' uuid (AList.update ''content-type'' ''application/json''
        (AList.update ''authorization'' (''Bearer '' @ accessToken) CC_HEADERS)),
      ob_body = stringify clientBody\<rparr>"

text \<open>The beta flags sent are the captured ones whatever the client asked for, none of them asks for the
  long context, and each header is sent once.\<close>

lemma static_flags:
  "map_of (ob_headers (static_apply stringify uuid body token hs)) ''anthropic-beta'' = Some (join_str '','' static_betas)"
  "list_all (\<lambda>f. \<not> starts_with f ''context-1m'') (split_str '','' (join_str '','' static_betas))"
  "distinct (map fst (ob_headers (static_apply stringify uuid body token hs)))"
  by (simp add: static_apply_def CC_HEADERS_def, code_simp, simp add: static_apply_def CC_HEADERS_def)

end
