(* ===== verification/UpstreamTimers.thy ===== *)
theory UpstreamTimers
  imports Upstream
begin

text \<open>
  The two timers of \<open>src/src/proxy/upstream.ts\<close>: \<open>fetchWithTtfbGuard\<close>, which aborts a fetch whose headers do
  not come in time, and the cap on the body that follows. The network is the list of what it does, each with the
  time since the fetch; a list that stops without an end is an upstream that stays silent. A timer and an event
  of the same time are taken with the timer first. \<open>aborted\<close> is what the runtime's abort error says. The
  result is the network argument of \<open>fetchOnce\<close>.
\<close>

definition UPSTREAM_TTFB_TIMEOUT_MS :: rat where "UPSTREAM_TTFB_TIMEOUT_MS = 120 * 1000"
definition STREAMING_HARD_CAP_MS :: rat where "STREAMING_HARD_CAP_MS = 20 * 60 * 1000"

datatype net_event = Headers response | Chunk string | BodyEnds | Breaks string

type_synonym network = "(rat \<times> net_event) list"

text \<open>The response or the error, when it came, and what the network does after it.\<close>

fun fetchWithTtfbGuard :: "string \<Rightarrow> rat \<Rightarrow> network \<Rightarrow> response result \<times> rat \<times> network" where
  "fetchWithTtfbGuard aborted ttfb [] = (Inl (Other aborted), ttfb, [])"
| "fetchWithTtfbGuard aborted ttfb ((t, e) # es) =
     (if ttfb \<le> t then (Inl (Other aborted), ttfb, [])
      else case e of
        Headers r \<Rightarrow> (Inr r, t, es)
      | Breaks m \<Rightarrow> (Inl (Other m), t, [])
      | _ \<Rightarrow> fetchWithTtfbGuard aborted ttfb es)"

datatype body_end = Complete | Cut | Broken string

fun read_body :: "rat \<Rightarrow> network \<Rightarrow> string list \<times> body_end \<times> rat" where
  "read_body deadline [] = ([], Cut, deadline)"
| "read_body deadline ((t, e) # es) =
     (if deadline \<le> t then ([], Cut, deadline)
      else case e of
        Chunk c \<Rightarrow> (let (cs, how, over) = read_body deadline es in (c # cs, how, over))
      | BodyEnds \<Rightarrow> ([], Complete, t)
      | Breaks m \<Rightarrow> ([], Broken m, t)
      | Headers _ \<Rightarrow> read_body deadline es)"

text \<open>One attempt: its answer, how its body ended and when the attempt was over. A response without a body
  is over with its headers.\<close>

record upstream_attempt =
  at_answer :: "response result"
  at_bodyEnd :: "body_end option"
  at_over :: rat

definition timed_attempt :: "string \<Rightarrow> network \<Rightarrow> upstream_attempt" where
  "timed_attempt aborted es =
     (case fetchWithTtfbGuard aborted UPSTREAM_TTFB_TIMEOUT_MS es of
        (Inl e, t, _) \<Rightarrow> \<lparr>at_answer = Inl e, at_bodyEnd = None, at_over = t\<rparr>
      | (Inr r, t, after) \<Rightarrow>
          (case rp_body r of
             None \<Rightarrow> \<lparr>at_answer = Inr r, at_bodyEnd = None, at_over = t\<rparr>
           | Some _ \<Rightarrow>
               (let (cs, how, over) = read_body (t + STREAMING_HARD_CAP_MS) after
                in \<lparr>at_answer = Inr (r\<lparr>rp_body := Some cs\<rparr>), at_bodyEnd = Some how, at_over = over\<rparr>)))"

definition timed_net :: "string \<Rightarrow> (outbound \<Rightarrow> network) \<Rightarrow> outbound \<Rightarrow> response result" where
  "timed_net aborted network ob = at_answer (timed_attempt aborted (network ob))"

subsection \<open>Bounds\<close>

lemma guard_bounded: "fetchWithTtfbGuard aborted ttfb es = (r, t, after) \<Longrightarrow> t \<le> ttfb \<and> (\<forall>x. r = Inr x \<longrightarrow> t < ttfb)"
  by (induction aborted ttfb es rule: fetchWithTtfbGuard.induct) (auto split: if_splits net_event.splits)

lemma body_bounded: "snd (snd (read_body deadline es)) \<le> deadline"
  by (induction deadline es rule: read_body.induct) (auto simp: Let_def split: net_event.splits prod.splits)

lemma body_whole:
  "\<forall>x \<in> set cs. fst x < deadline \<Longrightarrow> u < deadline
   \<Longrightarrow> read_body deadline (map (map_prod id Chunk) cs @ (u, BodyEnds) # es) = (map snd cs, Complete, u)"
  by (induction cs) (auto simp: not_le)

text \<open>What the body delivers is a beginning of what the network sent.\<close>

fun sent_chunks :: "network \<Rightarrow> string list" where
  "sent_chunks [] = []"
| "sent_chunks ((t, Chunk c) # es) = c # sent_chunks es"
| "sent_chunks ((t, e) # es) = sent_chunks es"

lemma body_prefix: "prefix (fst (read_body deadline es)) (sent_chunks es)"
  by (induction deadline es rule: read_body.induct) (auto simp: Let_def split: net_event.splits prod.splits)

lemma guard_late: "\<forall>x \<in> set es. ttfb \<le> fst x \<Longrightarrow> fetchWithTtfbGuard aborted ttfb es = (Inl (Other aborted), ttfb, [])"
  by (cases es) auto

lemma caps: "0 < UPSTREAM_TTFB_TIMEOUT_MS" "0 < STREAMING_HARD_CAP_MS"
  by (simp_all add: UPSTREAM_TTFB_TIMEOUT_MS_def STREAMING_HARD_CAP_MS_def)

lemma attempt_bounded: "at_over (timed_attempt aborted es) \<le> UPSTREAM_TTFB_TIMEOUT_MS + STREAMING_HARD_CAP_MS"
proof -
  obtain r t after where f: "fetchWithTtfbGuard aborted UPSTREAM_TTFB_TIMEOUT_MS es = (r, t, after)"
    by (metis prod_cases3)
  have t: "t \<le> UPSTREAM_TTFB_TIMEOUT_MS" using guard_bounded [OF f] by blast
  have "over \<le> t + STREAMING_HARD_CAP_MS" if "read_body (t + STREAMING_HARD_CAP_MS) after = (cs, how, over)" for cs how over
    using body_bounded [of "t + STREAMING_HARD_CAP_MS" after] that by simp
  then show ?thesis using f t caps(2)
    by (fastforce simp: timed_attempt_def split: sum.splits option.splits prod.splits)
qed

text \<open>C40: whatever the upstream does, an attempt is over 22 minutes after it began; headers that do not come within
  two minutes are a 502 for the client; and an answer whose headers and body come in time is delivered
  whole, however long the body takes within its twenty minutes.\<close>

theorem upstream_attempts_are_bounded:
  shows "at_over (timed_attempt aborted es) \<le> 22 * 60 * 1000 \<and>
    ((\<forall>x \<in> set es. UPSTREAM_TTFB_TIMEOUT_MS \<le> fst x) \<longrightarrow> ap token = Inr ob \<longrightarrow> (\<forall>sid. pace sid = Inr ()) \<longrightarrow>
      (\<exists>d. fetchOnce ap pace (timed_net aborted (\<lambda>_. es)) token = (Inl (Domain d), [ob]) \<and> de_status d = 502)) \<and>
    (es = (t, Headers r) # map (map_prod id Chunk) cs @ (u, BodyEnds) # after \<longrightarrow>
      t < UPSTREAM_TTFB_TIMEOUT_MS \<longrightarrow> rp_body r \<noteq> None \<longrightarrow>
      (\<forall>x \<in> set cs. fst x < t + STREAMING_HARD_CAP_MS) \<longrightarrow> u < t + STREAMING_HARD_CAP_MS \<longrightarrow>
      timed_attempt aborted es =
        \<lparr>at_answer = Inr (r\<lparr>rp_body := Some (map snd cs)\<rparr>), at_bodyEnd = Some Complete, at_over = u\<rparr>)"
proof (intro conjI impI)
  show "at_over (timed_attempt aborted es) \<le> 22 * 60 * 1000"
    using attempt_bounded [of aborted es] by (simp add: UPSTREAM_TTFB_TIMEOUT_MS_def STREAMING_HARD_CAP_MS_def)
next
  assume "\<forall>x \<in> set es. UPSTREAM_TTFB_TIMEOUT_MS \<le> fst x" and stages: "ap token = Inr ob" "\<forall>sid. pace sid = Inr ()"
  then have "timed_net aborted (\<lambda>_. es) ob = Inl (Other aborted)"
    using guard_late [of es] by (simp add: timed_net_def timed_attempt_def)
  with stages show "\<exists>d. fetchOnce ap pace (timed_net aborted (\<lambda>_. es)) token = (Inl (Domain d), [ob]) \<and> de_status d = 502"
    by (simp add: fetchOnce_def wrapFetchOnceStage_def error_defs)
next
  assume es: "es = (t, Headers r) # map (map_prod id Chunk) cs @ (u, BodyEnds) # after"
    and t: "t < UPSTREAM_TTFB_TIMEOUT_MS" "rp_body r \<noteq> None"
    and body: "\<forall>x \<in> set cs. fst x < t + STREAMING_HARD_CAP_MS" "u < t + STREAMING_HARD_CAP_MS"
  show "timed_attempt aborted es =
      \<lparr>at_answer = Inr (r\<lparr>rp_body := Some (map snd cs)\<rparr>), at_bodyEnd = Some Complete, at_over = u\<rparr>"
    using t body_whole [OF body] unfolding es by (auto simp: timed_attempt_def not_le)
qed

lemma upstream_attempts_are_bounded_witness:
  "\<exists>d. fetchOnce (\<lambda>_. Inr \<lparr>ob_url = ''u'', ob_headers = [], ob_body = ''b''\<rparr>) (\<lambda>_. Inr ())
     (timed_net ''aborted'' (\<lambda>_. [(120000, BodyEnds)])) ''t'' =
       (Inl (Domain d), [\<lparr>ob_url = ''u'', ob_headers = [], ob_body = ''b''\<rparr>]) \<and> de_status d = 502"
  using upstream_attempts_are_bounded
    [of "''aborted''" "[(120000, BodyEnds)]" "\<lambda>_. Inr \<lparr>ob_url = ''u'', ob_headers = [], ob_body = ''b''\<rparr>" "''t''"
      "\<lparr>ob_url = ''u'', ob_headers = [], ob_body = ''b''\<rparr>" "\<lambda>_. Inr ()"]
  by (simp add: UPSTREAM_TTFB_TIMEOUT_MS_def)

end
