(* ===== verification/Watches.thy ===== *)
theory Watches
  imports HostWatch
begin

text \<open>
  The running watches of \<open>src/src/tls-expiry.ts\<close> and \<open>src/src/memory-alerts.ts\<close>: their timers, on top of the
  ticks of \<open>HostWatch\<close>, and the certificate check. The runtime's timers are the armed ones, each with a
  handle of its own and whether it repeats; the runtime may fire an armed timer at any time (when is not
  modelled), and a handle that is not armed cannot fire. A firing carries what the check or the reading
  of this tick yields.
\<close>

record timers =
  tm_armed :: "(nat \<times> bool) list"
  tm_next :: nat

definition no_timers :: timers where
  "no_timers = \<lparr>tm_armed = [], tm_next = 0\<rparr>"

definition arm :: "bool \<Rightarrow> timers \<Rightarrow> nat \<times> timers" where
  "arm repeats tm =
     (tm_next tm, tm\<lparr>tm_armed := tm_armed tm @ [(tm_next tm, repeats)], tm_next := Suc (tm_next tm)\<rparr>)"

definition clear_timer :: "nat option \<Rightarrow> timers \<Rightarrow> timers" where
  "clear_timer h tm =
     (case h of None \<Rightarrow> tm | Some i \<Rightarrow> tm\<lparr>tm_armed := filter (\<lambda>a. fst a \<noteq> i) (tm_armed tm)\<rparr>)"

definition armed_handles :: "timers \<Rightarrow> nat list" where
  "armed_handles tm = map fst (tm_armed tm)"

datatype 'e watch_event = Start | Stop | Fires nat 'e

text \<open>The readings of the firings that took place, in order.\<close>

fun readings :: "('e watch_event \<Rightarrow> 's \<Rightarrow> 's) \<Rightarrow> ('s \<Rightarrow> nat list) \<Rightarrow> 'e watch_event list \<Rightarrow> 's \<Rightarrow> 'e list" where
  "readings event armed [] s = []"
| "readings event armed (e # es) s =
     (case e of Fires h x \<Rightarrow> if h \<in> set (armed s) then [x] else [] | _ \<Rightarrow> []) @
     readings event armed es (event e s)"

definition somes :: "'o option list \<Rightarrow> 'o list" where
  "somes rs = concat (map (case_option [] (\<lambda>w. [w])) rs)"

subsection \<open>The interface\<close>

text \<open>A watch starts once, ticks while it runs and is silent once stopped.\<close>

locale watch =
  fixes event :: "'e watch_event \<Rightarrow> 's \<Rightarrow> 's"
    and armed :: "'s \<Rightarrow> nat list"
    and alerts :: "'s \<Rightarrow> 'o list"
    and core :: "'s \<Rightarrow> 'c"
    and tick :: "'e \<Rightarrow> 'c \<Rightarrow> 'o option \<times> 'c"
    and good :: "'s \<Rightarrow> bool"
  assumes keeps: "good s \<Longrightarrow> good (event e s)"
    and one_timer: "good s \<Longrightarrow> length (armed s) \<le> 1"
    and starts: "good s \<Longrightarrow> armed (event Start s) \<noteq> []"
    and started: "good s \<Longrightarrow> armed s \<noteq> [] \<Longrightarrow> event Start s = s"
    and stops: "good s \<Longrightarrow> armed (event Stop s) = []"
    and stray: "good s \<Longrightarrow> h \<notin> set (armed s) \<Longrightarrow> event (Fires h x) s = s"
    and ticks: "good s \<Longrightarrow> h \<in> set (armed s) \<Longrightarrow>
        core (event (Fires h x) s) = snd (tick x (core s)) \<and>
        alerts (event (Fires h x) s) = alerts s @ somes [fst (tick x (core s))] \<and> armed (event (Fires h x) s) \<noteq> []"
    and quiet: "core (event Start s) = core s" "alerts (event Start s) = alerts s"
        "core (event Stop s) = core s" "alerts (event Stop s) = alerts s"
begin

lemma good_run: "good s \<Longrightarrow> good (fold event es s)"
  by (induction es arbitrary: s) (auto intro: keeps)

lemma silent:
  "good s \<Longrightarrow> armed s = [] \<Longrightarrow> Start \<notin> set es \<Longrightarrow> alerts (fold event es s) = alerts s \<and> armed (fold event es s) = []"
proof (induction es arbitrary: s)
  case (Cons e es)
  have "alerts (event e s) = alerts s \<and> armed (event e s) = []"
    using Cons.prems stops quiet(4) stray by (cases e) simp_all
  with Cons.IH [OF keeps [OF Cons.prems(1)], of e] Cons.prems(3) show ?case by simp
qed simp

lemma running:
  "good s \<Longrightarrow> armed s \<noteq> [] \<Longrightarrow> Stop \<notin> set es \<Longrightarrow> length (armed (fold event es s)) = 1"
proof (induction es arbitrary: s)
  case Nil
  then show ?case using one_timer [of s] by (cases "armed s") simp_all
next
  case (Cons e es)
  have "armed (event e s) \<noteq> []"
  proof (cases e)
    case (Fires h x)
    then show ?thesis using Cons.prems stray ticks by (cases "h \<in> set (armed s)") simp_all
  qed (use Cons.prems starts in auto)
  with Cons.IH [OF keeps [OF Cons.prems(1)], of e] Cons.prems(3) show ?case by simp
qed

lemma latch_of_run:
  "good s \<Longrightarrow> core (fold event es s) = snd (latch_run tick (readings event armed es s) (core s)) \<and>
     alerts (fold event es s) = alerts s @ somes (fst (latch_run tick (readings event armed es s) (core s)))"
proof (induction es arbitrary: s)
  case Nil
  then show ?case by (simp add: somes_def)
next
  case (Cons e es)
  note IH = Cons.IH [OF keeps [OF Cons.prems], of e]
  show ?case
  proof (cases e)
    case (Fires h x)
    then show ?thesis
      using IH ticks [OF Cons.prems, of h x] stray [OF Cons.prems, of h x]
      by (cases "h \<in> set (armed s)") (simp_all add: split_beta somes_def)
  qed (use IH quiet in simp_all)
qed

end

subsection \<open>The certificate watch\<close>

text \<open>What \<open>connect\<close> comes to: a verified connection with the certificate's \<open>valid_to\<close>, a timeout, or an
  error of the socket, of the chain or of the identity check.\<close>

datatype tls_socket = Secured string | TimedOut | SocketError string

definition fetchCertNotAfter ::
  "(string \<Rightarrow> nat \<Rightarrow> string \<Rightarrow> string \<Rightarrow> tls_socket) \<Rightarrow> (string \<Rightarrow> rat option) \<Rightarrow> string \<Rightarrow> string \<Rightarrow> nat \<Rightarrow> string + rat" where
  "fetchCertNotAfter connect parse_date dialHost identity port =
     (case connect dialHost port '''' identity of
        Secured valid_to \<Rightarrow>
          (case parse_date valid_to of
             Some notAfter \<Rightarrow> Inr notAfter
           | None \<Rightarrow> Inl ''peer certificate has no parsable valid_to'')
      | TimedOut \<Rightarrow> Inl (''TLS connect to '' @ dialHost @ '':'' @ nat_str port @ '' timed out'')
      | SocketError m \<Rightarrow> Inl m)"

definition tls_check ::
  "(string \<Rightarrow> nat \<Rightarrow> string \<Rightarrow> string \<Rightarrow> tls_socket) \<Rightarrow> (string \<Rightarrow> rat option) \<Rightarrow> string \<Rightarrow> string + rat" where
  "tls_check connect parse_date host = fetchCertNotAfter connect parse_date ''caddy'' host 443"

record tls_watch =
  tw_firstTimer :: "nat option"
  tw_timer :: "nat option"
  tw_timers :: timers
  tw_state :: tls_state
  tw_alerts :: "tls_warning list"

definition createTlsExpiryWatch :: tls_watch where
  "createTlsExpiryWatch = \<lparr>tw_firstTimer = None, tw_timer = None, tw_timers = no_timers, tw_state = tls_init, tw_alerts = []\<rparr>"

definition tls_ticks :: "(string + rat) \<times> rat \<Rightarrow> tls_watch \<Rightarrow> tls_watch" where
  "tls_ticks x s =
     (let (w, st) = tls_tick x (tw_state s) in s\<lparr>tw_state := st, tw_alerts := tw_alerts s @ somes [w]\<rparr>)"

fun tls_event :: "((string + rat) \<times> rat) watch_event \<Rightarrow> tls_watch \<Rightarrow> tls_watch" where
  "tls_event Start s =
     (if tw_firstTimer s \<noteq> None \<or> tw_timer s \<noteq> None then s
      else let (h, tm) = arm False (tw_timers s) in s\<lparr>tw_firstTimer := Some h, tw_timers := tm\<rparr>)"
| "tls_event Stop s =
     s\<lparr>tw_firstTimer := None, tw_timer := None,
       tw_timers := clear_timer (tw_timer s) (clear_timer (tw_firstTimer s) (tw_timers s))\<rparr>"
| "tls_event (Fires h x) s =
     (case map_of (tm_armed (tw_timers s)) h of
        None \<Rightarrow> s
      | Some True \<Rightarrow> tls_ticks x s
      | Some False \<Rightarrow>
          (let s1 = tls_ticks x (s\<lparr>tw_timers := clear_timer (Some h) (tw_timers s), tw_firstTimer := None\<rparr>);
               (i, tm) = arm True (tw_timers s1)
           in s1\<lparr>tw_timer := Some i, tw_timers := tm\<rparr>))"

definition tls_good :: "tls_watch \<Rightarrow> bool" where
  "tls_good s \<longleftrightarrow> tm_armed (tw_timers s) =
     (case (tw_firstTimer s, tw_timer s) of
        (None, None) \<Rightarrow> [] | (Some h, _) \<Rightarrow> [(h, False)] | (None, Some i) \<Rightarrow> [(i, True)]) \<and>
     (tw_firstTimer s = None \<or> tw_timer s = None)"

lemmas tls_defs = tls_good_def tls_ticks_def arm_def clear_timer_def armed_handles_def

interpretation cw: watch tls_event "\<lambda>s. armed_handles (tw_timers s)" tw_alerts tw_state tls_tick tls_good
proof unfold_locales
  fix s :: tls_watch and e h x
  assume g: "tls_good s"
  show "tls_good (tls_event e s)"
    using g by (cases e) (auto simp: tls_defs Let_def split: option.splits bool.splits if_splits prod.splits)
  show "length (armed_handles (tw_timers s)) \<le> 1"
    using g by (auto simp: tls_defs split: option.splits)
  show "armed_handles (tw_timers (tls_event Start s)) \<noteq> []"
    using g by (auto simp: tls_defs split: option.splits)
  show "armed_handles (tw_timers s) \<noteq> [] \<Longrightarrow> tls_event Start s = s"
    using g by (auto simp: tls_defs split: option.splits)
  show "armed_handles (tw_timers (tls_event Stop s)) = []"
    using g by (auto simp: tls_defs split: option.splits)
  show "h \<notin> set (armed_handles (tw_timers s)) \<Longrightarrow> tls_event (Fires h x) s = s"
    by (simp add: armed_handles_def flip: map_of_eq_None_iff)
  show "h \<in> set (armed_handles (tw_timers s)) \<Longrightarrow>
      tw_state (tls_event (Fires h x) s) = snd (tls_tick x (tw_state s)) \<and>
      tw_alerts (tls_event (Fires h x) s) = tw_alerts s @ somes [fst (tls_tick x (tw_state s))] \<and>
      armed_handles (tw_timers (tls_event (Fires h x) s)) \<noteq> []"
    using g by (auto simp: tls_defs Let_def split: option.splits bool.splits if_splits prod.splits)
qed (auto simp: arm_def)

subsection \<open>The memory watch\<close>

record memory_watch =
  mw_timer :: "nat option"
  mw_timers :: timers
  mw_state :: pressure_state
  mw_alerts :: "memory_warning list"

definition createMemoryWatch :: memory_watch where
  "createMemoryWatch = \<lparr>mw_timer = None, mw_timers = no_timers, mw_state = INITIAL_PRESSURE_STATE, mw_alerts = []\<rparr>"

fun memory_event :: "rat \<Rightarrow> rat result watch_event \<Rightarrow> memory_watch \<Rightarrow> memory_watch" where
  "memory_event limit Start s =
     (if mw_timer s \<noteq> None then s
      else let (h, tm) = arm True (mw_timers s) in s\<lparr>mw_timer := Some h, mw_timers := tm\<rparr>)"
| "memory_event limit Stop s = s\<lparr>mw_timer := None, mw_timers := clear_timer (mw_timer s) (mw_timers s)\<rparr>"
| "memory_event limit (Fires h x) s =
     (if h \<notin> set (armed_handles (mw_timers s)) then s
      else let (w, st) = memory_tick limit x (mw_state s)
           in s\<lparr>mw_state := st, mw_alerts := mw_alerts s @ somes [w]\<rparr>)"

definition isRunning :: "memory_watch \<Rightarrow> bool" where
  "isRunning s \<longleftrightarrow> mw_timer s \<noteq> None"

definition memory_good :: "memory_watch \<Rightarrow> bool" where
  "memory_good s \<longleftrightarrow> tm_armed (mw_timers s) = (case mw_timer s of None \<Rightarrow> [] | Some h \<Rightarrow> [(h, True)])"

interpretation mt: watch "memory_event limit" "\<lambda>s. armed_handles (mw_timers s)" mw_alerts mw_state
  "memory_tick limit" memory_good
  for limit
proof unfold_locales
  fix s :: memory_watch and e h x
  assume g: "memory_good s"
  note d = memory_good_def arm_def clear_timer_def armed_handles_def
  show "memory_good (memory_event limit e s)"
    using g by (cases e) (auto simp: d split: option.splits prod.splits)
  show "length (armed_handles (mw_timers s)) \<le> 1"
    using g by (auto simp: d split: option.splits)
  show "armed_handles (mw_timers (memory_event limit Start s)) \<noteq> []"
    using g by (auto simp: d split: option.splits)
  show "armed_handles (mw_timers s) \<noteq> [] \<Longrightarrow> memory_event limit Start s = s"
    using g by (auto simp: d split: option.splits)
  show "armed_handles (mw_timers (memory_event limit Stop s)) = []"
    using g by (auto simp: d split: option.splits)
  show "h \<notin> set (armed_handles (mw_timers s)) \<Longrightarrow> memory_event limit (Fires h x) s = s" by simp
  show "h \<in> set (armed_handles (mw_timers s)) \<Longrightarrow>
      mw_state (memory_event limit (Fires h x) s) = snd (memory_tick limit x (mw_state s)) \<and>
      mw_alerts (memory_event limit (Fires h x) s) = mw_alerts s @ somes [fst (memory_tick limit x (mw_state s))] \<and>
      armed_handles (mw_timers (memory_event limit (Fires h x) s)) \<noteq> []"
    by (auto simp: armed_handles_def split: prod.splits)
qed (auto simp: arm_def)

lemma memory_running: "memory_good s \<Longrightarrow> isRunning s \<longleftrightarrow> armed_handles (mw_timers s) \<noteq> []"
  by (simp add: memory_good_def isRunning_def armed_handles_def split: option.splits)

subsection \<open>Life of a watch\<close>

lemma tls_start_good: "tls_good createTlsExpiryWatch"
  by (simp add: tls_good_def createTlsExpiryWatch_def no_timers_def)

lemma memory_start_good: "memory_good createMemoryWatch"
  by (simp add: memory_good_def createMemoryWatch_def no_timers_def)

text \<open>However the certificate watch is started, stopped and fired: it never has two timers, its alerts are
  those of its checks in order, each made once; started, it has exactly one timer until it is stopped,
  and stopped, it alerts no more until it is started.\<close>

theorem certificate_watch_runs_on_one_timer:
  assumes "s = fold tls_event es createTlsExpiryWatch" "Stop \<notin> set on" "Start \<notin> set off"
  shows "length (armed_handles (tw_timers s)) \<le> 1 \<and>
    tw_alerts s = somes (fst (latch_run tls_tick
      (readings tls_event (\<lambda>s. armed_handles (tw_timers s)) es createTlsExpiryWatch) tls_init)) \<and>
    length (armed_handles (tw_timers (fold tls_event on (tls_event Start s)))) = 1 \<and>
    tw_alerts (fold tls_event off (tls_event Stop s)) = tw_alerts s"
proof (intro conjI)
  have g: "tls_good s" unfolding assms(1) by (rule cw.good_run [OF tls_start_good])
  show "length (armed_handles (tw_timers s)) \<le> 1" by (rule cw.one_timer [OF g])
  show "tw_alerts s = somes (fst (latch_run tls_tick
      (readings tls_event (\<lambda>s. armed_handles (tw_timers s)) es createTlsExpiryWatch) tls_init))"
    using cw.latch_of_run [OF tls_start_good, of es] by (simp add: assms(1) createTlsExpiryWatch_def)
  show "length (armed_handles (tw_timers (fold tls_event on (tls_event Start s)))) = 1"
    by (rule cw.running [OF cw.keeps [OF g] cw.starts [OF g] assms(2)])
  show "tw_alerts (fold tls_event off (tls_event Stop s)) = tw_alerts s"
    using cw.silent [OF cw.keeps [OF g] cw.stops [OF g] assms(3)] cw.quiet(4) [of s] by simp
qed

lemma memory_watch_runs_on_one_timer:
  assumes "s = fold (memory_event limit) es createMemoryWatch" "Stop \<notin> set on" "Start \<notin> set off"
  shows "length (armed_handles (mw_timers s)) \<le> 1 \<and>
    isRunning (fold (memory_event limit) on (memory_event limit Start s)) \<and>
    mw_alerts (fold (memory_event limit) off (memory_event limit Stop s)) = mw_alerts s"
proof -
  have g: "memory_good s" unfolding assms(1) by (rule mt.good_run [OF memory_start_good])
  show ?thesis
  proof (intro conjI)
    show "length (armed_handles (mw_timers s)) \<le> 1" by (rule mt.one_timer [OF g])
    have "length (armed_handles (mw_timers (fold (memory_event limit) on (memory_event limit Start s)))) = 1"
      by (rule mt.running [OF mt.keeps [OF g] mt.starts [OF g] assms(2)])
    then show "isRunning (fold (memory_event limit) on (memory_event limit Start s))"
      by (subst memory_running [OF mt.good_run [OF mt.keeps [OF g]]]) auto
    show "mw_alerts (fold (memory_event limit) off (memory_event limit Stop s)) = mw_alerts s"
      using mt.silent [OF mt.keeps [OF g] mt.stops [OF g] assms(3)] mt.quiet(4) [where s = s] by metis
  qed
qed

text \<open>Two starts, the first check, a second one, a stop; the handle of the interval fires no more.\<close>

definition demo_life :: "((string + rat) \<times> rat) watch_event list" where
  "demo_life = [Start, Start, Fires 0 (Inr 3600000, 0), Fires 1 (Inr 3600000, 1)]"

definition demo_after :: "((string + rat) \<times> rat) watch_event list" where
  "demo_after = [Fires 1 (Inl ''down'', 3), Fires 1 (Inl ''down'', 4)]"

lemma demo_life_alerts: "tw_alerts (fold tls_event demo_life createTlsExpiryWatch) = [Expires 1 3600000]"
  by (simp add: demo_life_def createTlsExpiryWatch_def no_timers_def arm_def clear_timer_def tls_ticks_def tls_tick_def
      tls_init_def somes_def WARN_BEFORE_MS_def HOUR_MS_def)

lemma certificate_watch_runs_on_one_timer_witness:
  "tw_alerts (fold tls_event demo_after (tls_event Stop (fold tls_event demo_life createTlsExpiryWatch))) =
     [Expires 1 3600000]"
proof -
  have "Start \<notin> set demo_after" by (simp add: demo_after_def)
  with certificate_watch_runs_on_one_timer [OF refl, of "[]" demo_after demo_life] show ?thesis
    by (simp only: demo_life_alerts empty_iff list.set not_False_eq_True simp_thms)
qed

end
