(* ===== verification/Wiring.thy ===== *)
theory Wiring
  imports Boot AdminViews Capture Schema
begin

text \<open>
  What \<open>composeApp\<close> of \<open>src/src/app.ts\<close> chooses by configuration and environment around the request path:
  which usage tracker and which message log, with the statements each runs against the database before
  it is used, whether archived messages can be read, and the banner. A client of S3 is its bucket and its
  region. How a number is printed is an argument; the arrow and the signs of the banner's lines are ASCII.
\<close>

subsection \<open>The stores\<close>

datatype usage_store = InMemory jsnum | InPostgres string jsnum

datatype log_store = NullLog | PostgresLog string

definition nonempty_text :: "string option \<Rightarrow> bool" where
  "nonempty_text s = (case s of None \<Rightarrow> False | Some t \<Rightarrow> t \<noteq> [])"

definition buildTracker :: "settings \<Rightarrow> usage_store" where
  "buildTracker c =
     (if nonempty_text (se_databaseUrl c) then InPostgres (the (se_databaseUrl c)) (se_dailyTokenLimitPerKey c)
      else InMemory (se_dailyTokenLimitPerKey c))"

definition buildMessageLogStore :: "settings \<Rightarrow> log_store" where
  "buildMessageLogStore c =
     (if \<not> se_messagesLogEnabled c \<or> \<not> nonempty_text (se_databaseUrl c) then NullLog
      else PostgresLog (the (se_databaseUrl c)))"

text \<open>The database through the boot: the tracker's statements, then the log's; what fails fails the boot.\<close>

definition boot_database :: "(string \<Rightarrow> bool) \<Rightarrow> settings \<Rightarrow> database \<Rightarrow> exn option \<times> database" where
  "boot_database may c db =
     (case (case buildTracker c of InMemory _ \<Rightarrow> (None, db) | InPostgres _ _ \<Rightarrow> createPostgresUsageTracker may db) of
        (Some e, db1) \<Rightarrow> (Some e, db1)
      | (None, db1) \<Rightarrow>
          (case buildMessageLogStore c of NullLog \<Rightarrow> (None, db1) | PostgresLog _ \<Rightarrow> createPostgresMessageLogStore may db1))"

lemma databases_do_not_fail_the_boot: "deployed db \<Longrightarrow> fst (boot_database may c db) = None"
  using usage_boot [where may = may and db = db] log_boot [where may = may]
  by (auto simp: boot_database_def split: usage_store.splits log_store.splits prod.splits option.splits)

subsection \<open>Archived messages\<close>

text \<open>\<open>a ?? b\<close> of two variables: the second only where the first is not set, not where it is empty.\<close>

definition env_or :: "environment \<Rightarrow> string \<Rightarrow> string \<Rightarrow> string option" where
  "env_or env a b = (case env a of Some v \<Rightarrow> Some v | None \<Rightarrow> env b)"

definition hasCredentials :: "environment \<Rightarrow> bool" where
  "hasCredentials env \<longleftrightarrow>
     nonempty_text (env_or env ''S3_ACCESS_KEY_ID'' ''AWS_ACCESS_KEY_ID'') \<and>
     nonempty_text (env_or env ''S3_SECRET_ACCESS_KEY'' ''AWS_SECRET_ACCESS_KEY'')"

record s3_reader =
  s3_bucket :: string
  s3_region :: string

definition buildArchiveReader :: "environment \<Rightarrow> settings \<Rightarrow> s3_reader option" where
  "buildArchiveReader env c =
     (if \<not> nonempty_text (se_messagesLogArchiveBucket c) then None
      else if \<not> hasCredentials env then None
      else Some \<lparr>s3_bucket = the (se_messagesLogArchiveBucket c), s3_region = se_messagesLogArchiveRegion c\<rparr>)"

text \<open>The two admin endpoints as they are wired: \<open>fetch\<close> is the object store.\<close>

definition wired_detail ::
  "environment \<Rightarrow> settings \<Rightarrow> (string \<Rightarrow> log_row option result) \<Rightarrow> string \<Rightarrow> detail_page admin_page" where
  "wired_detail env c store i = message_detail store (buildArchiveReader env c \<noteq> None) i"

definition wired_archived ::
  "environment \<Rightarrow> settings \<Rightarrow> (s3_reader \<Rightarrow> string \<Rightarrow> string result) \<Rightarrow> (string \<Rightarrow> json option) \<Rightarrow> (string \<Rightarrow> string)
     \<Rightarrow> (string \<Rightarrow> log_row option result) \<Rightarrow> string \<Rightarrow> detail_page admin_page" where
  "wired_archived env c fetch parse gunzip store i =
     archived_message parse gunzip (map_option fetch (buildArchiveReader env c)) store i"

text \<open>The detail page says that the archive can be read exactly when the link behind it is not refused as not configured.\<close>

lemma archive_link_is_honoured:
  assumes "wired_detail env c store i = Page (DetailPage record readable)"
  shows "readable \<longleftrightarrow> (\<forall>m. wired_archived env c fetch parse gunzip store i \<noteq> PlainText 501 m)"
proof -
  have d: "i \<noteq> []" "UUID_RE i" "attempt (store i) = Ok (Some record)" "readable = (buildArchiveReader env c \<noteq> None)"
    using assms by (auto simp: wired_detail_def message_detail_def split: if_splits degradable.splits option.splits)
  show ?thesis
    by (cases "buildArchiveReader env c")
       (auto simp: d wired_archived_def archived_message_def split: option.splits list.splits degradable.splits)
qed

text \<open>Each half of the credentials falls back on its own, so a pair of two halves of different identities
  counts as credentials, and an empty \<open>S3_\<close> variable hides the \<open>AWS_\<close> one.\<close>

lemma mixed_credentials_count:
  "env ''S3_ACCESS_KEY_ID'' = Some (a # as) \<Longrightarrow> env ''S3_SECRET_ACCESS_KEY'' = None \<Longrightarrow>
   env ''AWS_SECRET_ACCESS_KEY'' = Some (s # ss) \<Longrightarrow> hasCredentials env"
  by (simp add: hasCredentials_def env_or_def nonempty_text_def)

lemma empty_variable_hides_the_fallback:
  "env ''S3_ACCESS_KEY_ID'' = Some [] \<Longrightarrow> buildArchiveReader env c = None"
  by (simp add: buildArchiveReader_def hasCredentials_def env_or_def nonempty_text_def)

subsection \<open>The banner\<close>

record banner_env =
  bn_host :: string
  bn_port :: jsnum
  bn_version :: string
  bn_adapter :: string
  bn_show :: "jsnum \<Rightarrow> string"

definition or_label :: "(jsnum \<Rightarrow> string) \<Rightarrow> string \<Rightarrow> jsnum \<Rightarrow> string" where
  "or_label show_num label n = (if n = Num 0 \<or> n = NaN then label else show_num n)"

definition pacing_source :: "settings \<Rightarrow> boot_io \<Rightarrow> string" where
  "pacing_source c bo =
     (if js_gt (se_pacingMinGapMs c) (Num 0) then ''env''
      else if recommendedMinGapMs (bo_snapshot bo) \<noteq> None then ''snapshot.p50'' else ''disabled'')"

definition banner_lines ::
  "banner_env \<Rightarrow> settings \<Rightarrow> boot_io \<Rightarrow> rat \<Rightarrow> string \<Rightarrow> string option \<Rightarrow> canary \<Rightarrow> oauth pool \<Rightarrow> capture_config \<Rightarrow> string list" where
  "banner_lines bn c bo gap template candidate ca P cap =
     [''[claude-for-you] listening on http://'' @ bn_host bn @ '':'' @ bn_show bn (bn_port bn),
      ''[claude-for-you] runtime: bun '' @ bn_version bn @ '' ('' @ bn_adapter bn @ '')'',
      ''[claude-for-you] authorized keys: '' @ join_str '', '' (map ek_name (se_apiKeys c)),
      ''[claude-for-you] template: '' @ template,
      ''[claude-for-you] account pool: '' @ join_str '', '' (map pm_name (pl_members P)),
      ''[claude-for-you] pacing: '' @
        (if gap > 0 then bn_show bn (Num gap) @ ''ms ('' @ pacing_source c bo @ '')'' else ''disabled'') @
        ''; account_uuid override: '' @ (if nonempty_text (se_accountUuidOverride c) then ''set'' else ''learn-from-headers''),
      ''[claude-for-you] daily limit/key: '' @ or_label (bn_show bn) ''unlimited'' (se_dailyTokenLimitPerKey c) @
        ''; subscription threshold: '' @ or_label (bn_show bn) ''disabled'' (se_globalSubscriptionThresholdTokens c)] @
     (if canary_active ca
      then [''[claude-for-you] canary: '' @ bn_show bn (Num (canary_percent ca)) @ ''% -> '' @ or_default ''?'' candidate]
      else if candidate \<noteq> None then [''[claude-for-you] canary candidate present but inactive (CANARY_PERCENT=0)'']
      else []) @
     (if cc_enabled cap then [''[claude-for-you] CAPTURE_MODE ON - dumping to '' @ cc_dir cap] else [])"

text \<open>No key, token, webhook or database password is in the banner: it is the same for two configurations that
  name the same keys and agree on what it prints, over pools with the same member names.\<close>

definition banner_facts :: "settings \<Rightarrow> string list \<times> jsnum \<times> bool \<times> jsnum \<times> jsnum" where
  "banner_facts c = (map ek_name (se_apiKeys c), se_pacingMinGapMs c, nonempty_text (se_accountUuidOverride c),
     se_dailyTokenLimitPerKey c, se_globalSubscriptionThresholdTokens c)"

lemma banner_by_facts:
  assumes "banner_facts c = banner_facts c'" "map pm_name (pl_members P) = map pm_name (pl_members P')"
  shows "banner_lines bn c bo gap template candidate ca P cap = banner_lines bn c' bo gap template candidate ca P' cap"
proof -
  have "pacing_source c bo = pacing_source c' bo" using assms(1) by (simp add: banner_facts_def pacing_source_def)
  then show ?thesis using assms by (simp add: banner_lines_def banner_facts_def)
qed

end
